(* ===== verification/Prelude.thy ===== *)
theory Prelude
  imports Main
begin

text \<open>
  What every component of the development shares: tables of rows as the SQLite store
  keeps them, the rollback of a database transaction, the stable sort of a JavaScript array
  with a comparison function, and the two interface locales (a keyed table, a transition
  system with an invariant) that the components interpret.
\<close>

named_theorems guards \<open>characteristic equations of the guards and validators\<close>
named_theorems frames \<open>what an operation leaves unchanged\<close>

section \<open>Tables\<close>

text \<open>
  A table is the list of its rows in insertion order.  A \<open>SELECT \<dots> LIMIT 1\<close> on a condition is
  \<open>row_where\<close>, an \<open>UPDATE\<close> is \<open>update_where\<close>, an \<open>INSERT\<close> is \<open>insert_row\<close>, which fails when the
  primary key is taken, and \<open>changes\<close> counts the rows an \<open>UPDATE\<close> touches.
\<close>

definition row_where :: "('r \<Rightarrow> bool) \<Rightarrow> 'r list \<Rightarrow> 'r option" where
  "row_where p rows = List.find p rows"

definition update_where :: "('r \<Rightarrow> bool) \<Rightarrow> ('r \<Rightarrow> 'r) \<Rightarrow> 'r list \<Rightarrow> 'r list" where
  "update_where p f rows = map (\<lambda>r. if p r then f r else r) rows"

definition changes :: "('r \<Rightarrow> bool) \<Rightarrow> 'r list \<Rightarrow> nat" where
  "changes p rows = length (filter p rows)"

definition insert_row :: "('r \<Rightarrow> 'k) \<Rightarrow> 'e \<Rightarrow> 'r \<Rightarrow> 'r list \<Rightarrow> 'e + 'r list" where
  "insert_row key taken r rows =
     (if key r \<in> set (map key rows) then Inl taken else Inr (rows @ [r]))"

lemma row_where_SomeD: "row_where p rows = Some r \<Longrightarrow> r \<in> set rows \<and> p r"
  by (auto simp: row_where_def find_Some_iff)

lemma row_where_None [simp]: "row_where p rows = None \<longleftrightarrow> (\<forall>r\<in>set rows. \<not> p r)"
  by (auto simp: row_where_def find_None_iff)

lemma row_where_None' [simp]: "None = row_where p rows \<longleftrightarrow> (\<forall>r\<in>set rows. \<not> p r)"
  by (metis row_where_None)

lemma row_where_Nil [simp]: "row_where p [] = None"
  by simp

lemma row_where_Cons [simp]:
  "row_where p (r # rows) = (if p r then Some r else row_where p rows)"
  by (simp add: row_where_def)

lemma row_where_append:
  "row_where p (xs @ ys) = (case row_where p xs of None \<Rightarrow> row_where p ys | Some r \<Rightarrow> Some r)"
  by (induction xs) auto

lemma row_where_skip: "\<forall>r\<in>set xs. \<not> p r \<Longrightarrow> row_where p (xs @ ys) = row_where p ys"
  by (induction xs) auto

lemma row_where_snoc: "\<not> p r \<Longrightarrow> row_where p (xs @ [r]) = row_where p xs"
  by (induction xs) auto

lemma row_where_exists: "r \<in> set rows \<Longrightarrow> p r \<Longrightarrow> \<exists>r'. row_where p rows = Some r'"
  by (induction rows) auto

lemma row_where_cong:
  "(\<And>r. r \<in> set rows \<Longrightarrow> p r = q r) \<Longrightarrow> row_where p rows = row_where q rows"
  by (induction rows) auto

lemma update_where_Nil [simp]: "update_where p f [] = []"
  by (simp add: update_where_def)

lemma update_where_Cons [simp]:
  "update_where p f (r # rows) = (if p r then f r else r) # update_where p f rows"
  by (simp add: update_where_def)

lemma set_update_where:
  "set (update_where p f rows) = (\<lambda>r. if p r then f r else r) ` set rows"
  by (simp add: update_where_def)

lemma in_update_where:
  "r \<in> set rows \<Longrightarrow> (if p r then f r else r) \<in> set (update_where p f rows)"
  by (auto simp: set_update_where)

lemma length_update_where [simp]: "length (update_where p f rows) = length rows"
  by (simp add: update_where_def)

lemma map_update_where:
  "(\<And>r. r \<in> set rows \<Longrightarrow> p r \<Longrightarrow> key (f r) = key r) \<Longrightarrow>
   map key (update_where p f rows) = map key rows"
  by (auto simp: update_where_def)

lemma update_where_idle: "(\<And>r. r \<in> set rows \<Longrightarrow> \<not> p r) \<Longrightarrow> update_where p f rows = rows"
  by (auto simp: update_where_def intro: map_idI)

lemma row_where_update_same:
  "(\<And>r. p (f r) = p r) \<Longrightarrow> row_where p (update_where p f rows) = map_option f (row_where p rows)"
  by (induction rows) auto

lemma row_where_update_other:
  "(\<And>r. r \<in> set rows \<Longrightarrow> p r \<Longrightarrow> q (f r) = q r) \<Longrightarrow> (\<And>r. r \<in> set rows \<Longrightarrow> p r \<Longrightarrow> \<not> q r) \<Longrightarrow>
   row_where q (update_where p f rows) = row_where q rows"
  by (induction rows) auto

lemma row_where_update_key:
  "(\<And>x. key x = c \<Longrightarrow> key (f x) = c) \<Longrightarrow>
   row_where (\<lambda>x. key x = k) (update_where (\<lambda>x. key x = c) f rows) =
     (if k = c then map_option f (row_where (\<lambda>x. key x = k) rows) else row_where (\<lambda>x. key x = k) rows)"
  by (induction rows) auto

lemma row_where_filter:
  "(\<And>r. p r \<Longrightarrow> q r) \<Longrightarrow> row_where p (filter q rows) = row_where p rows"
  by (induction rows) auto

lemma insert_row_Inr:
  "insert_row key taken r rows = Inr rows' \<longleftrightarrow> key r \<notin> set (map key rows) \<and> rows' = rows @ [r]"
  by (auto simp: insert_row_def)

lemma insert_row_Inl:
  "insert_row key taken r rows = Inl e \<longleftrightarrow> key r \<in> set (map key rows) \<and> e = taken"
  by (auto simp: insert_row_def)

lemma insert_row_fresh [simp]:
  "key r \<notin> key ` set rows \<Longrightarrow> insert_row key taken r rows = Inr (rows @ [r])"
  by (simp add: insert_row_def)

text \<open>\<open>xs.map(f)\<close> where \<open>f\<close> can throw: the first failure ends the walk.\<close>

fun map_results :: "('a \<Rightarrow> 'e + 'b) \<Rightarrow> 'a list \<Rightarrow> 'e + 'b list" where
  "map_results f [] = Inr []"
| "map_results f (x # xs) =
     (case f x of Inl e \<Rightarrow> Inl e
      | Inr y \<Rightarrow> (case map_results f xs of Inl e \<Rightarrow> Inl e | Inr ys \<Rightarrow> Inr (y # ys)))"

lemma map_results_cong [fundef_cong]:
  "xs = ys \<Longrightarrow> (\<And>x. x \<in> set ys \<Longrightarrow> f x = g x) \<Longrightarrow> map_results f xs = map_results g ys"
proof (induction ys arbitrary: xs)
  case (Cons y ys)
  then have "map_results f ys = map_results g ys" by simp
  with Cons.prems show ?case by (simp split: sum.splits)
qed simp

lemma map_results_Inr: "map_results f xs = Inr ys \<longleftrightarrow> list_all2 (\<lambda>x y. f x = Inr y) xs ys"
proof (induction xs arbitrary: ys)
  case (Cons x xs)
  then show ?case by (cases "map_results f xs") (auto simp: list_all2_Cons1 split: sum.splits)
qed auto

lemma map_results_total: "(\<And>x. x \<in> set xs \<Longrightarrow> f x = Inr (g x)) \<Longrightarrow> map_results f xs = Inr (map g xs)"
  by (induction xs) simp_all

lemma distinct_key_unique:
  "distinct (map key rows) \<Longrightarrow> r \<in> set rows \<Longrightarrow> r' \<in> set rows \<Longrightarrow> key r = key r' \<Longrightarrow> r = r'"
  by (auto simp: distinct_map inj_on_def)

lemma row_where_key:
  "distinct (map key rows) \<Longrightarrow> r \<in> set rows \<Longrightarrow> row_where (\<lambda>x. key x = key r) rows = Some r"
  by (induction rows) (auto simp: image_iff)

section \<open>Transactions\<close>

text \<open>
  \<open>db.transaction(fn)()\<close> runs the statements of \<open>fn\<close> on the database and commits; when one
  throws, the database is what it was before and the exception goes on.
\<close>

definition transaction :: "('s \<Rightarrow> 'e + 's) \<Rightarrow> 's \<Rightarrow> ('e + unit) \<times> 's" where
  "transaction body db = (case body db of Inl e \<Rightarrow> (Inl e, db) | Inr db' \<Rightarrow> (Inr (), db'))"

lemma transaction_rollback: "transaction body db = (Inl e, db') \<Longrightarrow> db' = db"
  by (auto simp: transaction_def split: sum.splits)

lemma transaction_commit: "transaction body db = (Inr u, db') \<longleftrightarrow> body db = Inr db'"
  by (auto simp: transaction_def split: sum.splits)

lemma transaction_abort: "transaction body db = (Inl e, db') \<longleftrightarrow> body db = Inl e \<and> db' = db"
  by (auto simp: transaction_def split: sum.splits)

lemmas transaction_simps = transaction_commit transaction_abort

text \<open>
  The next statement of a method: it runs when the one before did not throw, on the database
  that one left.
\<close>

definition and_then :: "('e + 'a) \<times> 's \<Rightarrow> ('a \<Rightarrow> 's \<Rightarrow> ('e + 'b) \<times> 's) \<Rightarrow> ('e + 'b) \<times> 's" where
  "and_then r k = (case r of (Inl e, db) \<Rightarrow> (Inl e, db) | (Inr x, db) \<Rightarrow> k x db)"

lemma and_then_simps [simp]:
  "and_then (Inl e, db) k = (Inl e, db)" "and_then (Inr x, db) k = k x db"
  by (simp_all add: and_then_def)

lemma and_then_Inr:
  "and_then r k = (Inr y, db'') \<longleftrightarrow> (\<exists>x db'. r = (Inr x, db') \<and> k x db' = (Inr y, db''))"
  by (auto simp: and_then_def split: prod.splits sum.splits)

lemma and_then_Inl:
  "and_then r k = (Inl e, db'') \<longleftrightarrow>
     r = (Inl e, db'') \<or> (\<exists>x db'. r = (Inr x, db') \<and> k x db' = (Inl e, db''))"
  by (auto simp: and_then_def split: prod.splits sum.splits)

text \<open>
  What a caller of an operation relies on when it fails: an operation is \<open>atomic_on\<close> a database
  when an error leaves that database as it was.
\<close>

definition atomic_on :: "('e + 'a) \<times> 's \<Rightarrow> 's \<Rightarrow> bool" where
  "atomic_on result db \<longleftrightarrow> (case result of (Inl e, db') \<Rightarrow> db' = db | (Inr x, db') \<Rightarrow> True)"

text \<open>
  \<open>INSERT \<dots> ON CONFLICT DO UPDATE\<close>: the row is added, or the one with its key is changed.  A
  transaction whose body returns a value keeps the database of an error.
\<close>

definition upsert_row :: "('r \<Rightarrow> 'k) \<Rightarrow> 'r \<Rightarrow> ('r \<Rightarrow> 'r) \<Rightarrow> 'r list \<Rightarrow> 'r list" where
  "upsert_row key r f rows =
     (if key r \<in> set (map key rows) then update_where (\<lambda>x. key x = key r) f rows else rows @ [r])"

definition in_transaction :: "('s \<Rightarrow> ('e + 'a) \<times> 's) \<Rightarrow> 's \<Rightarrow> ('e + 'a) \<times> 's" where
  "in_transaction body db = (case body db of (Inl e, db') \<Rightarrow> (Inl e, db) | (Inr x, db') \<Rightarrow> (Inr x, db'))"

lemma in_transaction_Inl: "in_transaction body db = (Inl e, db') \<longleftrightarrow> (\<exists>d. body db = (Inl e, d)) \<and> db' = db"
  by (auto simp: in_transaction_def split: prod.splits sum.splits)

lemma in_transaction_Inr [simp]: "in_transaction body db = (Inr x, db') \<longleftrightarrow> body db = (Inr x, db')"
  by (auto simp: in_transaction_def split: prod.splits sum.splits)

lemma upsert_row_keys:
  assumes "\<And>x. key x = key r \<Longrightarrow> key (f x) = key r"
  shows "map key (upsert_row key r f rows) = (if key r \<in> set (map key rows) then map key rows else map key rows @ [key r])"
  using assms map_update_where [of rows "\<lambda>x. key x = key r" key f] by (simp add: upsert_row_def)

lemma distinct_upsert_row:
  "(\<And>x. key x = key r \<Longrightarrow> key (f x) = key r) \<Longrightarrow> distinct (map key rows) \<Longrightarrow>
   distinct (map key (upsert_row key r f rows))"
  by (simp add: upsert_row_keys)

lemma in_upsert_row:
  assumes "x \<in> set (upsert_row key r f rows)"
  shows "x \<in> set rows \<and> key x \<noteq> key r \<or> x = r \<or> (\<exists>y \<in> set rows. key y = key r \<and> x = f y)"
proof (cases "key r \<in> set (map key rows)")
  case True
  with assms obtain y where "y \<in> set rows" "x = (if key y = key r then f y else y)"
    by (auto simp: upsert_row_def set_update_where)
  then show ?thesis by (cases "key y = key r") auto
next
  case False
  then have "\<And>y. y \<in> set rows \<Longrightarrow> key y \<noteq> key r" by (metis image_eqI list.set_map)
  with assms False show ?thesis by (auto simp: upsert_row_def)
qed

lemma filter_update_idle:
  "(\<And>x. p x \<Longrightarrow> \<not> P x \<and> \<not> P (f x)) \<Longrightarrow> filter P (update_where p f rows) = filter P rows"
  by (induction rows) auto

lemma filter_upsert_row:
  "\<not> P r \<Longrightarrow> (\<And>x. key x = key r \<Longrightarrow> \<not> P x \<and> \<not> P (f x)) \<Longrightarrow> filter P (upsert_row key r f rows) = filter P rows"
  using filter_update_idle [of "\<lambda>x. key x = key r" P f rows] by (simp add: upsert_row_def)

section \<open>Sorting with a comparison function\<close>

text \<open>
  \<open>Array.prototype.sort\<close> with a comparison function: a stable sort, here by insertion.  For a
  comparison that is consistent on the elements every stable sort gives the same array.
\<close>

fun insert_by :: "('a \<Rightarrow> 'a \<Rightarrow> int) \<Rightarrow> 'a \<Rightarrow> 'a list \<Rightarrow> 'a list" where
  "insert_by cmp x [] = [x]"
| "insert_by cmp x (y # ys) = (if cmp x y \<le> 0 then x # y # ys else y # insert_by cmp x ys)"

fun sort_by :: "('a \<Rightarrow> 'a \<Rightarrow> int) \<Rightarrow> 'a list \<Rightarrow> 'a list" where
  "sort_by cmp [] = []"
| "sort_by cmp (x # xs) = insert_by cmp x (sort_by cmp xs)"

lemma set_insert_by [simp]: "set (insert_by cmp x xs) = insert x (set xs)"
  by (induction xs) auto

lemma set_sort_by [simp]: "set (sort_by cmp xs) = set xs"
  by (induction xs) auto

lemma length_insert_by [simp]: "length (insert_by cmp x xs) = Suc (length xs)"
  by (induction xs) auto

lemma length_sort_by [simp]: "length (sort_by cmp xs) = length xs"
  by (induction xs) auto

lemma distinct_insert_by: "distinct (insert_by cmp x xs) \<longleftrightarrow> x \<notin> set xs \<and> distinct xs"
  by (induction xs) auto

lemma distinct_sort_by [simp]: "distinct (sort_by cmp xs) = distinct xs"
  by (induction xs) (auto simp: distinct_insert_by)

lemma map_insert_by:
  "map f (insert_by (\<lambda>x y. cmp (f x) (f y)) x xs) = insert_by cmp (f x) (map f xs)"
  by (induction xs) auto

lemma map_sort_by: "map f (sort_by (\<lambda>x y. cmp (f x) (f y)) xs) = sort_by cmp (map f xs)"
  by (induction xs) (auto simp: map_insert_by)

lemma sort_by_Nil [simp]: "sort_by cmp xs = [] \<longleftrightarrow> xs = []"
  by (metis length_0_conv length_sort_by)

section \<open>Interfaces\<close>

text \<open>
  A table with a primary key: \<open>lookup\<close> is the prepared statement that reads one row, \<open>rows\<close> the
  table inside the database.  Its laws give the clients of the table what they need to know of
  a row they read.
\<close>

locale keyed_table =
  fixes lookup :: "'k \<Rightarrow> 'db \<Rightarrow> 'r option"
    and rows :: "'db \<Rightarrow> 'r list"
    and key :: "'r \<Rightarrow> 'k"
  assumes lookup_first: "lookup k db = row_where (\<lambda>r. key r = k) (rows db)"
begin

lemma lookup_Some: "lookup k db = Some r \<Longrightarrow> r \<in> set (rows db) \<and> key r = k"
  using row_where_SomeD by (fastforce simp: lookup_first)

lemma lookup_None: "lookup k db = None \<longleftrightarrow> k \<notin> key ` set (rows db)"
  by (auto simp: lookup_first)

lemma lookup_row:
  "distinct (map key (rows db)) \<Longrightarrow> r \<in> set (rows db) \<Longrightarrow> lookup (key r) db = Some r"
  by (simp add: lookup_first row_where_key)

lemma lookup_iff:
  "distinct (map key (rows db)) \<Longrightarrow> lookup k db = Some r \<longleftrightarrow> r \<in> set (rows db) \<and> key r = k"
  using lookup_Some lookup_row by fastforce

lemma lookup_insert:
  "rows db' = rows db @ [r] \<Longrightarrow> key r \<notin> key ` set (rows db) \<Longrightarrow>
   lookup k db' = (if k = key r then Some r else lookup k db)"
proof -
  assume db': "rows db' = rows db @ [r]" and fresh: "key r \<notin> key ` set (rows db)"
  from fresh have "\<forall>x\<in>set (rows db). key x \<noteq> key r" by (metis imageI)
  then show ?thesis
    by (cases "k = key r") (simp_all add: lookup_first db' row_where_skip row_where_snoc)
qed

lemma lookup_update:
  assumes "rows db' = update_where (\<lambda>r. key r = k0) f (rows db)"
    and "\<And>r. key (f r) = key r"
  shows "lookup k db' = (if k = k0 then map_option f (lookup k db) else lookup k db)"
  using assms
  by (auto simp: lookup_first row_where_update_same intro!: row_where_update_other)

lemma lookup_same: "rows db' = rows db \<Longrightarrow> lookup k db' = lookup k db"
  by (simp add: lookup_first)

lemma lookup_upsert:
  assumes "rows db' = upsert_row key r f (rows db)" and "\<And>x. key x = key r \<Longrightarrow> key (f x) = key r"
  shows "lookup k db' =
    (if k = key r then Some (case lookup k db of None \<Rightarrow> r | Some x \<Rightarrow> f x) else lookup k db)"
proof (cases "key r \<in> set (map key (rows db))")
  case True
  then obtain x where x: "lookup (key r) db = Some x" using lookup_None [of "key r" db] by fastforce
  have "lookup k db' = (if k = key r then map_option f (lookup k db) else lookup k db)"
    unfolding lookup_first assms(1) upsert_row_def using True by (simp add: row_where_update_key assms(2))
  then show ?thesis using x by simp
next
  case False
  then have "lookup k db' = (if k = key r then Some r else lookup k db)"
    using assms(1) lookup_insert [of db' db r k] by (simp add: upsert_row_def)
  moreover have "lookup (key r) db = None" using False by (simp add: lookup_None)
  ultimately show ?thesis by simp
qed

lemma lookup_delete:
  "rows db' = filter (\<lambda>r. key r \<noteq> k0) (rows db) \<Longrightarrow> lookup k db' = (if k = k0 then None else lookup k db)"
  by (cases "k = k0") (auto simp: lookup_first intro!: row_where_filter)

end

text \<open>
  A transition system with an invariant that every step keeps: the invariant holds in every
  state reachable from one where it holds.
\<close>

locale invariant_system =
  fixes step :: "'s \<Rightarrow> 's \<Rightarrow> bool"
    and inv :: "'s \<Rightarrow> bool"
  assumes step_inv: "inv s \<Longrightarrow> step s t \<Longrightarrow> inv t"
begin

lemma reachable_inv: "step\<^sup>*\<^sup>* s t \<Longrightarrow> inv s \<Longrightarrow> inv t"
  by (induction rule: rtranclp_induct) (auto intro: step_inv)

end

text \<open>
  A fact that holds of a state once and for all: every step of the system keeps it as long as
  the invariant holds.
\<close>

locale stable_fact = invariant_system +
  fixes fact :: "'s \<Rightarrow> bool"
  assumes step_fact: "inv s \<Longrightarrow> fact s \<Longrightarrow> step s t \<Longrightarrow> fact t"
begin

lemma reachable_fact: "step\<^sup>*\<^sup>* s t \<Longrightarrow> inv s \<Longrightarrow> fact s \<Longrightarrow> fact t"
proof (induction rule: rtranclp_induct)
  case base
  then show ?case by simp
next
  case (step t u)
  then show ?case by (meson reachable_inv step_fact)
qed

end

end
