(* ===== verification/JsText.thy ===== *)
theory JsText
  imports Prelude "HOL-Library.Char_ord" "HOL-Library.List_Lexorder" "HOL-Library.Sublist"
begin

text \<open>
  The part of the JavaScript language and standard library that the modelled code uses:
  values, \<open>String(v)\<close>, \<open>Number(v)\<close>, \<open>trim\<close>, \<open>toLowerCase\<close>, \<open>slice\<close>, property access,
  \<open>JSON.stringify\<close>, and the character classes of the regular expressions that several
  modules repeat.

  A string is a list of characters with codes 0 to 255, the Latin-1 part of JavaScript's code
  units; its length, order and case mapping are JavaScript's on that range (a code unit above
  255 has no counterpart here).  A number is an integer; a numeric value that is not an integer
  (NaN, an infinity, a fraction) shows up only as the \<open>None\<close> of \<open>js_number\<close>.
\<close>

section \<open>Characters and strings\<close>

abbreviation code :: "char \<Rightarrow> nat" where "code c \<equiv> of_char c"

definition is_digit :: "char \<Rightarrow> bool" where
  "is_digit c \<longleftrightarrow> 48 \<le> code c \<and> code c \<le> 57"

definition is_lower :: "char \<Rightarrow> bool" where
  "is_lower c \<longleftrightarrow> 97 \<le> code c \<and> code c \<le> 122"

definition is_upper :: "char \<Rightarrow> bool" where
  "is_upper c \<longleftrightarrow> 65 \<le> code c \<and> code c \<le> 90"

definition is_alnum :: "char \<Rightarrow> bool" where
  "is_alnum c \<longleftrightarrow> is_digit c \<or> is_lower c \<or> is_upper c"

definition is_space :: "char \<Rightarrow> bool" where
  "is_space c \<longleftrightarrow> code c \<in> {9, 10, 11, 12, 13, 32, 160}"

definition lower_char :: "char \<Rightarrow> char" where
  "lower_char c =
     (if is_upper c \<or> 192 \<le> code c \<and> code c \<le> 222 \<and> code c \<noteq> 215
      then char_of (code c + 32) else c)"

definition lower :: "string \<Rightarrow> string" where
  "lower s = map lower_char s"

definition trim :: "string \<Rightarrow> string" where
  "trim s = rev (dropWhile is_space (rev (dropWhile is_space s)))"

definition slice_to :: "nat \<Rightarrow> string \<Rightarrow> string" where
  "slice_to n s = take n s"

fun contains_text :: "string \<Rightarrow> string \<Rightarrow> bool" where
  "contains_text pat [] = (pat = [])"
| "contains_text pat (c # cs) = (prefix pat (c # cs) \<or> contains_text pat cs)"

fun join :: "string \<Rightarrow> string list \<Rightarrow> string" where
  "join sep [] = []"
| "join sep [s] = s"
| "join sep (s # ss) = s @ sep @ join sep ss"

fun split_on :: "char \<Rightarrow> string \<Rightarrow> string list" where
  "split_on d [] = [[]]"
| "split_on d (c # cs) =
     (if c = d then [] # split_on d cs
      else case split_on d cs of [] \<Rightarrow> [[c]] | p # ps \<Rightarrow> (c # p) # ps)"

fun nat_text :: "nat \<Rightarrow> string" where
  "nat_text n = (if n < 10 then [char_of (48 + n)] else nat_text (n div 10) @ [char_of (48 + n mod 10)])"

declare nat_text.simps [simp del]

definition int_text :: "int \<Rightarrow> string" where
  "int_text i = (if i < 0 then CHR ''-'' # nat_text (nat (- i)) else nat_text (nat i))"

lemma length_lower [simp]: "length (lower s) = length s"
  by (simp add: lower_def)

lemma lower_Nil [simp]: "lower s = [] \<longleftrightarrow> s = []"
  by (simp add: lower_def)

lemma length_slice_to [simp]: "length (slice_to n s) \<le> n"
  by (simp add: slice_to_def)

lemma code_lt [simp]: "code c < 256"
  using of_char_mod_256 [of c] by (metis mod_less_divisor zero_less_numeral)

lemma code_inj: "code c = code d \<Longrightarrow> c = d"
  by (metis char_of_char)

lemma code_lower_char:
  "code (lower_char c) =
     (if is_upper c \<or> 192 \<le> code c \<and> code c \<le> 222 \<and> code c \<noteq> 215 then code c + 32 else code c)"
  by (auto simp: lower_char_def is_upper_def of_char_of)

lemma lower_char_idem [simp]: "lower_char (lower_char c) = lower_char c"
  by (rule code_inj) (auto simp: code_lower_char is_upper_def)

lemma lower_idem [simp]: "lower (lower s) = lower s"
  by (simp add: lower_def)

lemma is_space_lower_char [simp]: "is_space (lower_char c) = is_space c"
  by (auto simp: is_space_def code_lower_char is_upper_def)

lemma dropWhile_lower: "dropWhile is_space (lower s) = lower (dropWhile is_space s)"
  by (induction s) (auto simp: lower_def)

lemma rev_lower: "rev (lower s) = lower (rev s)"
  by (simp add: lower_def rev_map)

lemma trim_lower: "trim (lower s) = lower (trim s)"
  by (simp add: trim_def dropWhile_lower rev_lower)

lemma trim_no_space:
  assumes "s \<noteq> [] \<Longrightarrow> \<not> is_space (hd s) \<and> \<not> is_space (last s)"
  shows "trim s = s"
proof (cases s)
  case Nil
  then show ?thesis by (simp add: trim_def)
next
  case (Cons c cs)
  then have "s \<noteq> []" by simp
  from assms [OF this] this have "\<not> is_space (hd s)" and l: "\<not> is_space (hd (rev s))"
    by (auto simp: hd_rev)
  then have "\<not> is_space c" by (simp add: Cons)
  then have "dropWhile is_space s = s" by (simp add: Cons)
  moreover from l Cons have "dropWhile is_space (rev s) = rev s"
    by (cases "rev s") auto
  ultimately show ?thesis by (simp add: trim_def)
qed

lemma hd_dropWhile_space: "dropWhile is_space s \<noteq> [] \<Longrightarrow> \<not> is_space (hd (dropWhile is_space s))"
  by (rule hd_dropWhile)

lemma trim_ends: "trim s \<noteq> [] \<Longrightarrow> \<not> is_space (hd (trim s)) \<and> \<not> is_space (last (trim s))"
proof
  let ?a = "dropWhile is_space s"
  let ?b = "dropWhile is_space (rev ?a)"
  assume ne: "trim s \<noteq> []"
  then have b: "?b \<noteq> []" by (simp add: trim_def)
  then have a: "?a \<noteq> []" by (cases "?a = []") simp_all
  show "\<not> is_space (last (trim s))"
    using hd_dropWhile_space [OF b] b by (simp add: trim_def last_rev)
  have "suffix ?b (rev ?a)" by (rule suffix_dropWhile)
  then have "prefix (trim s) ?a" by (simp add: trim_def suffix_to_prefix)
  with ne have "hd (trim s) = hd ?a" by (auto simp: prefix_def)
  then show "\<not> is_space (hd (trim s))" using hd_dropWhile_space [OF a] by simp
qed

lemma trim_idem [simp]: "trim (trim s) = trim s"
  by (rule trim_no_space) (rule trim_ends)

lemma length_trim: "length (trim s) \<le> length s"
  by (metis length_dropWhile_le length_rev order_trans trim_def)

lemma set_trim: "set (trim s) \<subseteq> set s"
  by (auto simp: trim_def dest!: set_dropWhileD)

lemma nat_text_nonempty [simp]: "nat_text n \<noteq> []"
  by (subst nat_text.simps) auto

section \<open>Values\<close>

datatype js =
    JUndef
  | JNull
  | JBool bool
  | JNum int
  | JStr string
  | JArr "js list"
  | JObj "(string \<times> js) list"

text \<open>\<open>v ?? d\<close>, \<open>Boolean(v)\<close>, \<open>v?.k\<close> and \<open>v && typeof v === 'object'\<close>.\<close>

definition or_else :: "js \<Rightarrow> js \<Rightarrow> js" where
  "or_else v d = (case v of JUndef \<Rightarrow> d | JNull \<Rightarrow> d | _ \<Rightarrow> v)"

fun truthy :: "js \<Rightarrow> bool" where
  "truthy JUndef = False"
| "truthy JNull = False"
| "truthy (JBool b) = b"
| "truthy (JNum n) = (n \<noteq> 0)"
| "truthy (JStr s) = (s \<noteq> [])"
| "truthy (JArr xs) = True"
| "truthy (JObj kvs) = True"

fun js_get :: "js \<Rightarrow> string \<Rightarrow> js" where
  "js_get (JObj kvs) k = (case map_of kvs k of None \<Rightarrow> JUndef | Some v \<Rightarrow> v)"
| "js_get _ k = JUndef"

fun is_object :: "js \<Rightarrow> bool" where
  "is_object (JArr xs) = True"
| "is_object (JObj kvs) = True"
| "is_object _ = False"

fun is_array :: "js \<Rightarrow> bool" where
  "is_array (JArr xs) = True"
| "is_array _ = False"

text \<open>\<open>Array.isArray(v) ? v : []\<close> and the own enumerable properties of a value, as a spread
  \<open>{...v}\<close> copies them.\<close>

fun elements :: "js \<Rightarrow> js list" where
  "elements (JArr xs) = xs"
| "elements _ = []"

fun own_properties :: "js \<Rightarrow> (string \<times> js) list" where
  "own_properties (JObj kvs) = kvs"
| "own_properties (JArr xs) = zip (map nat_text [0..<length xs]) xs"
| "own_properties (JStr s) = zip (map nat_text [0..<length s]) (map (\<lambda>c. JStr [c]) s)"
| "own_properties _ = []"

fun js_text :: "js \<Rightarrow> string" where
  "js_text JUndef = ''undefined''"
| "js_text JNull = ''null''"
| "js_text (JBool b) = (if b then ''true'' else ''false'')"
| "js_text (JNum n) = int_text n"
| "js_text (JStr s) = s"
| "js_text (JArr xs) =
     join '','' (map (\<lambda>x. if x = JUndef \<or> x = JNull then [] else js_text x) xs)"
| "js_text (JObj kvs) = ''[object Object]''"

text \<open>\<open>String(v ?? '')\<close>, the reading of almost every argument, and its trimmed forms.\<close>

definition text_of :: "js \<Rightarrow> string" where
  "text_of v = js_text (or_else v (JStr []))"

definition trimmed :: "js \<Rightarrow> string" where
  "trimmed v = trim (text_of v)"

definition trimmed_lower :: "js \<Rightarrow> string" where
  "trimmed_lower v = lower (trimmed v)"

lemma text_of_simps [simp]:
  "text_of JUndef = []" "text_of JNull = []" "text_of (JStr s) = s" "text_of (JNum n) = int_text n"
  by (simp_all add: text_of_def or_else_def)

lemma or_else_simps [simp]:
  "or_else JUndef d = d" "or_else JNull d = d" "or_else (JStr s) d = JStr s"
  "or_else (JNum n) d = JNum n" "or_else (JBool b) d = JBool b"
  "or_else (JArr xs) d = JArr xs" "or_else (JObj kvs) d = JObj kvs"
  by (simp_all add: or_else_def)

lemma trimmed_JStr: "trimmed (JStr s) = trim s"
  by (simp add: trimmed_def)

lemma trimmed_trimmed [simp]: "trimmed (JStr (trimmed v)) = trimmed v"
  by (simp add: trimmed_def)

lemma trimmed_lower_idem [simp]: "trimmed_lower (JStr (trimmed_lower v)) = trimmed_lower v"
  by (simp add: trimmed_lower_def trimmed_def trim_lower)

section \<open>Numbers\<close>

definition safe_integer :: "int \<Rightarrow> bool" where
  "safe_integer n \<longleftrightarrow> - 9007199254740991 \<le> n \<and> n \<le> 9007199254740991"

definition digit_value :: "char \<Rightarrow> int" where
  "digit_value c =
     (if is_digit c then int (code c) - 48
      else if is_lower c then int (code c) - 87 else int (code c) - 55)"

definition digits_value :: "int \<Rightarrow> string \<Rightarrow> int" where
  "digits_value base ds = foldl (\<lambda>v d. base * v + digit_value d) 0 ds"

definition based_literal :: "int \<Rightarrow> string \<Rightarrow> int option" where
  "based_literal base ds =
     (if ds \<noteq> [] \<and> list_all (\<lambda>c. is_alnum c \<and> digit_value c < base) ds
      then Some (digits_value base ds) else None)"

definition signed_digits :: "string \<Rightarrow> int option" where
  "signed_digits s =
     (case s of [] \<Rightarrow> None
      | c # cs \<Rightarrow> (if c = CHR ''-'' then map_option uminus (based_literal 10 cs)
                  else if c = CHR ''+'' then based_literal 10 cs else based_literal 10 s))"

definition scaled :: "int \<Rightarrow> int \<Rightarrow> int option" where
  "scaled m e =
     (if 0 \<le> e then Some (m * 10 ^ nat e)
      else if m mod (10 ^ nat (- e)) = 0 then Some (m div (10 ^ nat (- e))) else None)"

text \<open>An unsigned decimal literal as a pair of a mantissa and a power of ten, the integer it is, and
  the largest integer below it.\<close>

definition decimal_parts :: "string \<Rightarrow> (int \<times> int) option" where
  "decimal_parts s =
     (let whole = takeWhile is_digit s; r1 = dropWhile is_digit s;
          frac = (case r1 of [] \<Rightarrow> [] | c # cs \<Rightarrow> if c = CHR ''.'' then takeWhile is_digit cs else []);
          r2 = (case r1 of [] \<Rightarrow> [] | c # cs \<Rightarrow> if c = CHR ''.'' then dropWhile is_digit cs else r1);
          m = digits_value 10 (whole @ frac)
      in if whole @ frac = [] then None
         else case r2 of [] \<Rightarrow> Some (m, - int (length frac))
           | c # cs \<Rightarrow>
               (if c = CHR ''e'' \<or> c = CHR ''E''
                then (case signed_digits cs of None \<Rightarrow> None | Some x \<Rightarrow> Some (m, x - int (length frac)))
                else None))"

definition decimal_literal :: "string \<Rightarrow> int option" where
  "decimal_literal s = (case decimal_parts s of None \<Rightarrow> None | Some (m, e) \<Rightarrow> scaled m e)"

definition scaled_floor :: "int \<Rightarrow> int \<Rightarrow> int" where
  "scaled_floor m e = (if 0 \<le> e then m * 10 ^ nat e else m div (10 ^ nat (- e)))"

definition numeric_literal :: "string \<Rightarrow> int option" where
  "numeric_literal s =
     (case s of [] \<Rightarrow> Some 0
      | c # cs \<Rightarrow>
          (if c = CHR ''-'' then map_option uminus (decimal_literal cs)
           else if c = CHR ''+'' then decimal_literal cs
           else if prefix ''0x'' s \<or> prefix ''0X'' s then based_literal 16 (drop 2 s)
           else if prefix ''0o'' s \<or> prefix ''0O'' s then based_literal 8 (drop 2 s)
           else if prefix ''0b'' s \<or> prefix ''0B'' s then based_literal 2 (drop 2 s)
           else decimal_literal s))"

text \<open>\<open>Number(v)\<close>: the integer it is, \<open>None\<close> where it is NaN, an infinity or a fraction.\<close>

fun js_number :: "js \<Rightarrow> int option" where
  "js_number JUndef = None"
| "js_number JNull = Some 0"
| "js_number (JBool b) = Some (if b then 1 else 0)"
| "js_number (JNum n) = Some n"
| "js_number (JStr s) = numeric_literal (trim s)"
| "js_number (JArr xs) = numeric_literal (trim (js_text (JArr xs)))"
| "js_number (JObj kvs) = None"

text \<open>\<open>Math.floor(Number(v))\<close> of a finite number, fractions included.\<close>

definition floor_literal :: "string \<Rightarrow> int option" where
  "floor_literal s =
     (case numeric_literal s of Some n \<Rightarrow> Some n
      | None \<Rightarrow>
         (case s of [] \<Rightarrow> None
          | c # cs \<Rightarrow>
              map_option (\<lambda>(m, e). scaled_floor (if c = CHR ''-'' then - m else m) e)
                (decimal_parts (if c = CHR ''-'' \<or> c = CHR ''+'' then cs else s))))"

definition js_floor :: "js \<Rightarrow> int option" where
  "js_floor v = (case v of JStr s \<Rightarrow> floor_literal (trim s) | JArr xs \<Rightarrow> floor_literal (trim (js_text v))
     | _ \<Rightarrow> js_number v)"

section \<open>JSON text\<close>

definition hex_digit :: "nat \<Rightarrow> char" where
  "hex_digit n = (if n < 10 then char_of (48 + n) else char_of (87 + n))"

definition escape_char :: "char \<Rightarrow> string" where
  "escape_char c =
     (if code c = 34 \<or> code c = 92 then [char_of (92::nat), c]
      else if code c = 8 then [char_of (92::nat), CHR ''b'']
      else if code c = 9 then [char_of (92::nat), CHR ''t'']
      else if code c = 10 then [char_of (92::nat), CHR ''n'']
      else if code c = 12 then [char_of (92::nat), CHR ''f'']
      else if code c = 13 then [char_of (92::nat), CHR ''r'']
      else if code c < 32
      then [char_of (92::nat)] @ ''u00'' @ [hex_digit (code c div 16), hex_digit (code c mod 16)]
      else [c])"

definition quoted :: "string \<Rightarrow> string" where
  "quoted s = [char_of (34::nat)] @ concat (map escape_char s) @ [char_of (34::nat)]"

fun stringify :: "js \<Rightarrow> string" where
  "stringify JUndef = ''null''"
| "stringify JNull = ''null''"
| "stringify (JBool b) = (if b then ''true'' else ''false'')"
| "stringify (JNum n) = int_text n"
| "stringify (JStr s) = quoted s"
| "stringify (JArr xs) = ''['' @ join '','' (map stringify xs) @ '']''"
| "stringify (JObj kvs) =
     ''{'' @ join '','' (map (\<lambda>(k, v). quoted k @ '':'' @ stringify v)
                          (filter (\<lambda>kv. snd kv \<noteq> JUndef) kvs)) @ ''}''"

section \<open>Patterns shared by the stores\<close>

text \<open>\<open>/^[a-z0-9][a-z0-9._-]{0,127}$/\<close>\<close>

definition component_char :: "char \<Rightarrow> bool" where
  "component_char c \<longleftrightarrow> is_lower c \<or> is_digit c \<or> c \<in> set ''._-''"

definition safe_component :: "string \<Rightarrow> bool" where
  "safe_component s \<longleftrightarrow>
     s \<noteq> [] \<and> length s \<le> 128 \<and> (is_lower (hd s) \<or> is_digit (hd s)) \<and> list_all component_char (tl s)"

text \<open>\<open>/^[0-9]+\.[0-9]+\.[0-9]+(?:[-+][0-9A-Za-z.-]+)?$/\<close>: the digits before each dot and after
  the second one, then nothing or a tail of a sign and at least one character.\<close>

definition digits_dot :: "string \<Rightarrow> (string \<times> string) option" where
  "digits_dot s =
     (case dropWhile is_digit s of [] \<Rightarrow> None
      | c # rest \<Rightarrow> if takeWhile is_digit s \<noteq> [] \<and> c = CHR ''.'' then Some (takeWhile is_digit s, rest) else None)"

definition version_char :: "char \<Rightarrow> bool" where
  "version_char c \<longleftrightarrow> is_alnum c \<or> c \<in> set ''.-''"

definition version_tail :: "string \<Rightarrow> bool" where
  "version_tail s \<longleftrightarrow>
     (case s of [] \<Rightarrow> True
      | c # cs \<Rightarrow> c \<in> set ''-+'' \<and> cs \<noteq> [] \<and> list_all version_char cs)"

definition semantic_version :: "string \<Rightarrow> bool" where
  "semantic_version s =
     (case digits_dot s of None \<Rightarrow> False
      | Some (major, s1) \<Rightarrow>
          (case digits_dot s1 of None \<Rightarrow> False
           | Some (minor, s2) \<Rightarrow> takeWhile is_digit s2 \<noteq> [] \<and> version_tail (dropWhile is_digit s2)))"

text \<open>\<open>/^[0-9a-f]{64}$/\<close>\<close>

definition hex64 :: "string \<Rightarrow> bool" where
  "hex64 s \<longleftrightarrow> length s = 64 \<and> list_all (\<lambda>c. is_digit c \<or> 97 \<le> code c \<and> code c \<le> 102) s"

text \<open>\<open>/(token|secret|password|api[-_]?key|credential|authorization)/i\<close>\<close>

definition secret_field :: "string \<Rightarrow> bool" where
  "secret_field k \<longleftrightarrow>
     list_ex (\<lambda>w. contains_text w (lower k))
       [''token'', ''secret'', ''password'', ''apikey'', ''api-key'', ''api_key'', ''credential'', ''authorization'']"

text \<open>The walk that looks for a secret-looking field name at every depth of a value.\<close>

fun has_secret_field :: "js \<Rightarrow> bool" where
  "has_secret_field (JArr xs) = list_ex has_secret_field xs"
| "has_secret_field (JObj kvs) = list_ex (\<lambda>(k, v). secret_field k \<or> has_secret_field v) kvs"
| "has_secret_field _ = False"

lemma safe_component_chars:
  assumes "safe_component s"
  shows "\<forall>c\<in>set s. component_char c"
  using assms by (cases s) (auto simp: safe_component_def component_char_def list_all_iff)

lemma component_not_space: "component_char c \<Longrightarrow> \<not> is_space c"
  by (auto simp: component_char_def is_space_def is_lower_def is_digit_def)

lemma component_lower: "component_char c \<Longrightarrow> lower_char c = c"
  by (auto simp: component_char_def lower_char_def is_upper_def is_lower_def is_digit_def)

lemma chars_lower: "\<forall>c\<in>set s. component_char c \<Longrightarrow> lower s = s"
  by (simp add: lower_def component_lower map_idI)

lemma chars_trim: "\<forall>c\<in>set s. \<not> is_space c \<Longrightarrow> trim s = s"
  by (rule trim_no_space) simp

lemma component_trimmed_lower: "safe_component s \<Longrightarrow> trimmed_lower (JStr s) = s"
  using safe_component_chars component_not_space
  by (simp add: trimmed_lower_def trimmed_def chars_trim chars_lower)

lemma safe_component_nonempty: "safe_component s \<Longrightarrow> s \<noteq> []"
  by (simp add: safe_component_def)

end
