(* ===== verification/JsonText.thy ===== *)
theory JsonText
  imports JsText
begin

text \<open>
  \<open>JSON.parse\<close>, the inverse of the \<open>stringify\<close> of JsText, and the \<open>json\<close> and \<open>parseJson\<close>
  helpers with which the stores write and read their JSON columns.  The parser is recursive
  descent over the characters; its fuel is twice the length of the text plus one, which
  \<open>parse_value_fuel\<close> shows to be enough.  It reads the texts whose numbers are integers and
  whose escapes stay in the character range of JsText; for any other text it fails.

  The main result is the round trip: parsing what \<open>stringify\<close> wrote always succeeds and gives
  \<open>read_back v\<close>; for a value whose objects list their properties in JavaScript's order (\<open>js_ok\<close>)
  that is the value itself, less the members that are \<open>undefined\<close> (\<open>json_value\<close>).
\<close>

section \<open>Property order\<close>

text \<open>An array index as a property name, and what an assignment \<open>o[k] = v\<close> does to the list of own
  properties: an existing name keeps its place, an index goes among the indices, in ascending
  order before every other name, and any other name goes to the end.\<close>

definition index_key :: "string \<Rightarrow> bool" where
  "index_key k \<longleftrightarrow> k \<noteq> [] \<and> list_all is_digit k \<and> (hd k \<noteq> CHR ''0'' \<or> length k = 1) \<and>
     digits_value 10 k < 4294967295"

definition key_before :: "string \<Rightarrow> string \<Rightarrow> bool" where
  "key_before a b \<longleftrightarrow> (if index_key b then index_key a \<and> digits_value 10 a < digits_value 10 b else True)"

definition put_property :: "string \<Rightarrow> js \<Rightarrow> (string \<times> js) list \<Rightarrow> (string \<times> js) list" where
  "put_property k v kvs =
     (if k \<in> set (map fst kvs) then map (\<lambda>(k', w). (k', if k' = k then v else w)) kvs
      else takeWhile (\<lambda>p. key_before (fst p) k) kvs @ [(k, v)] @ dropWhile (\<lambda>p. key_before (fst p) k) kvs)"

definition own_order :: "(string \<times> js) list \<Rightarrow> bool" where
  "own_order kvs \<longleftrightarrow> distinct (map fst kvs) \<and> sorted_wrt (\<lambda>p q. key_before (fst p) (fst q)) kvs"

fun js_ok :: "js \<Rightarrow> bool" where
  "js_ok (JArr xs) = list_all js_ok xs"
| "js_ok (JObj kvs) = (own_order kvs \<and> list_all (\<lambda>kv. js_ok (snd kv)) kvs)"
| "js_ok _ = True"

text \<open>What is left of a value in its JSON text: \<open>undefined\<close> members of an object are dropped, an
  \<open>undefined\<close> element of an array becomes \<open>null\<close>.\<close>

fun json_value :: "js \<Rightarrow> js" where
  "json_value JUndef = JNull"
| "json_value (JArr xs) = JArr (map json_value xs)"
| "json_value (JObj kvs) = JObj (map (\<lambda>(k, v). (k, json_value v)) (filter (\<lambda>kv. snd kv \<noteq> JUndef) kvs))"
| "json_value v = v"

section \<open>Lexical elements\<close>

definition json_space :: "char \<Rightarrow> bool" where
  "json_space c \<longleftrightarrow> code c \<in> {9, 10, 13, 32}"

abbreviation skip :: "string \<Rightarrow> string" where
  "skip s \<equiv> dropWhile json_space s"

definition hex_value :: "char \<Rightarrow> nat option" where
  "hex_value c =
     (if is_digit c then Some (code c - 48)
      else if 97 \<le> code c \<and> code c \<le> 102 then Some (code c - 87)
      else if 65 \<le> code c \<and> code c \<le> 70 then Some (code c - 55) else None)"

definition unescaped :: "char \<Rightarrow> char option" where
  "unescaped c =
     (if code c \<in> {34, 47, 92} then Some c
      else if c = CHR ''b'' then Some (char_of (8::nat))
      else if c = CHR ''t'' then Some (char_of (9::nat))
      else if c = CHR ''n'' then Some (char_of (10::nat))
      else if c = CHR ''f'' then Some (char_of (12::nat))
      else if c = CHR ''r'' then Some (char_of (13::nat)) else None)"

definition unicode_escape :: "char \<Rightarrow> char \<Rightarrow> char \<Rightarrow> char \<Rightarrow> char option" where
  "unicode_escape a b c d =
     (case (hex_value a, hex_value b, hex_value c, hex_value d) of
        (Some 0, Some 0, Some x, Some y) \<Rightarrow> Some (char_of (16 * x + y))
      | _ \<Rightarrow> None)"

text \<open>The escape after a backslash and the text behind it; then the characters of a string up to its
  closing quote, and what follows the quote.\<close>

definition escape_at :: "string \<Rightarrow> (char \<times> string) option" where
  "escape_at s =
     (case s of [] \<Rightarrow> None
      | e # rest \<Rightarrow>
          (if e = CHR ''u''
           then (case rest of a # b # x # y # r \<Rightarrow> map_option (\<lambda>u. (u, r)) (unicode_escape a b x y)
                 | _ \<Rightarrow> None)
           else map_option (\<lambda>u. (u, rest)) (unescaped e)))"

lemma escape_at_length [termination_simp]: "escape_at s = Some (u, r) \<Longrightarrow> length r < length s"
  by (auto simp: escape_at_def split: list.splits if_splits)

lemma escape_at_step [termination_simp]: "Some (u, r) = escape_at s \<Longrightarrow> length r < Suc (length s)"
  using escape_at_length [of s u r] by simp

fun string_body :: "string \<Rightarrow> (string \<times> string) option" where
  "string_body [] = None"
| "string_body (c # cs) =
     (if code c = 34 then Some ([], cs)
      else if code c = 92
      then (case escape_at cs of None \<Rightarrow> None
            | Some (u, rest) \<Rightarrow> map_option (map_prod ((#) u) id) (string_body rest))
      else if code c < 32 then None
      else map_option (map_prod ((#) c) id) (string_body cs))"

declare string_body.simps(2) [simp del]

text \<open>\<open>-?(0|[1-9][0-9]*)(\.[0-9]+)?([eE][-+]?[0-9]+)?\<close>, read as the integer it stands for.\<close>

definition whole_digits :: "string \<Rightarrow> (string \<times> string) option" where
  "whole_digits s =
     (case s of [] \<Rightarrow> None
      | c # cs \<Rightarrow>
          (if c = CHR ''0'' then Some ([c], cs)
           else if is_digit c then Some (takeWhile is_digit s, dropWhile is_digit s) else None))"

definition fraction_digits :: "string \<Rightarrow> (string \<times> string) option" where
  "fraction_digits s =
     (case s of [] \<Rightarrow> Some ([], [])
      | c # cs \<Rightarrow>
          (if c = CHR ''.''
           then (if takeWhile is_digit cs = [] then None else Some (takeWhile is_digit cs, dropWhile is_digit cs))
           else Some ([], s)))"

definition exponent :: "string \<Rightarrow> (int \<times> string) option" where
  "exponent s =
     (case s of [] \<Rightarrow> Some (0, [])
      | c # cs \<Rightarrow>
          (if c = CHR ''e'' \<or> c = CHR ''E''
           then (let ds = (case cs of [] \<Rightarrow> [] | d # r \<Rightarrow> if d = CHR ''-'' \<or> d = CHR ''+'' then r else cs);
                     sign = (case cs of [] \<Rightarrow> 1 | d # _ \<Rightarrow> if d = CHR ''-'' then -1 else 1)
                 in if takeWhile is_digit ds = [] then None
                    else Some (sign * digits_value 10 (takeWhile is_digit ds), dropWhile is_digit ds))
           else Some (0, s)))"

definition unsigned_number :: "string \<Rightarrow> (int \<times> string) option" where
  "unsigned_number s =
     (case whole_digits s of None \<Rightarrow> None
      | Some (whole, r1) \<Rightarrow>
     (case fraction_digits r1 of None \<Rightarrow> None
      | Some (frac, r2) \<Rightarrow>
     (case exponent r2 of None \<Rightarrow> None
      | Some (e, r3) \<Rightarrow>
          map_option (\<lambda>n. (n, r3)) (scaled (digits_value 10 (whole @ frac)) (e - int (length frac))))))"

definition parse_number :: "string \<Rightarrow> (js \<times> string) option" where
  "parse_number s =
     (case s of [] \<Rightarrow> None
      | c # cs \<Rightarrow>
          (if c = CHR ''-'' then map_option (map_prod (\<lambda>n. JNum (- n)) id) (unsigned_number cs)
           else map_option (map_prod JNum id) (unsigned_number s)))"

definition parse_word :: "string \<Rightarrow> js \<Rightarrow> string \<Rightarrow> (js \<times> string) option" where
  "parse_word w v s = (if prefix w s then Some (v, drop (length w) s) else None)"

section \<open>Values\<close>

text \<open>A value, the rest of an array after its opening bracket or a comma, and the rest of an object
  likewise; each returns what it read and the text after it.\<close>

fun parse_value :: "nat \<Rightarrow> string \<Rightarrow> (js \<times> string) option"
and parse_elements :: "nat \<Rightarrow> js list \<Rightarrow> string \<Rightarrow> (js \<times> string) option"
and parse_members :: "nat \<Rightarrow> (string \<times> js) list \<Rightarrow> string \<Rightarrow> (js \<times> string) option" where
  "parse_value 0 s = None"
| "parse_value (Suc n) s =
     (case skip s of [] \<Rightarrow> None
      | c # cs \<Rightarrow>
          (if c = CHR ''{''
           then (case skip cs of [] \<Rightarrow> None
                 | d # r \<Rightarrow> if d = CHR ''}'' then Some (JObj [], r) else parse_members n [] cs)
           else if c = CHR ''[''
           then (case skip cs of [] \<Rightarrow> None
                 | d # r \<Rightarrow> if d = CHR '']'' then Some (JArr [], r) else parse_elements n [] cs)
           else if code c = 34 then map_option (map_prod JStr id) (string_body cs)
           else if c = CHR ''t'' then parse_word ''true'' (JBool True) (c # cs)
           else if c = CHR ''f'' then parse_word ''false'' (JBool False) (c # cs)
           else if c = CHR ''n'' then parse_word ''null'' JNull (c # cs)
           else parse_number (c # cs)))"
| "parse_elements 0 xs s = None"
| "parse_elements (Suc n) xs s =
     (case parse_value n s of None \<Rightarrow> None
      | Some (v, r) \<Rightarrow>
          (case skip r of [] \<Rightarrow> None
           | c # cs \<Rightarrow>
               (if c = CHR '']'' then Some (JArr (xs @ [v]), cs)
                else if c = CHR '','' then parse_elements n (xs @ [v]) cs else None)))"
| "parse_members 0 kvs s = None"
| "parse_members (Suc n) kvs s =
     (case skip s of [] \<Rightarrow> None
      | q # s1 \<Rightarrow> if code q \<noteq> 34 then None else
     (case string_body s1 of None \<Rightarrow> None
      | Some (k, r1) \<Rightarrow>
     (case skip r1 of [] \<Rightarrow> None
      | c # s2 \<Rightarrow> if c \<noteq> CHR '':'' then None else
     (case parse_value n s2 of None \<Rightarrow> None
      | Some (v, r2) \<Rightarrow>
     (case skip r2 of [] \<Rightarrow> None
      | d # s3 \<Rightarrow>
          (if d = CHR ''}'' then Some (JObj (put_property k v kvs), s3)
           else if d = CHR '','' then parse_members n (put_property k v kvs) s3 else None))))))"

definition json_parse :: "string \<Rightarrow> js option" where
  "json_parse s =
     (case parse_value (2 * length s + 1) s of
        Some (v, r) \<Rightarrow> if skip r = [] then Some v else None
      | None \<Rightarrow> None)"

text \<open>The helpers \<open>json\<close> and \<open>parseJson\<close> of the stores.\<close>

definition json_text :: "js \<Rightarrow> string" where
  "json_text v = stringify (or_else v JNull)"

definition parseJson :: "js \<Rightarrow> js \<Rightarrow> js" where
  "parseJson v fallback = (case json_parse (text_of v) of None \<Rightarrow> fallback | Some x \<Rightarrow> x)"

section \<open>What is read is shorter\<close>

lemma skip_length: "skip s = c # cs \<Longrightarrow> length cs < length s"
  by (metis length_Cons length_dropWhile_le less_eq_Suc_le)

lemma string_body_length: "string_body s = Some (t, r) \<Longrightarrow> length r < length s"
proof (induction s arbitrary: t rule: string_body.induct)
  case (2 c cs)
  show ?case
  proof (cases "code c = 92")
    case True
    with 2(3) obtain u rest t' where e: "escape_at cs = Some (u, rest)" and r: "string_body rest = Some (t', r)"
      by (auto simp: string_body.simps split: option.splits)
    have "length r < length rest" by (rule 2(1) [OF _ True e refl r]) (simp add: True)
    with escape_at_length [OF e] show ?thesis by simp
  next
    case False
    then show ?thesis using 2 by (fastforce simp: string_body.simps split: if_splits)
  qed
qed simp

lemma digits_length: "length (dropWhile is_digit s) \<le> length s"
  by (rule length_dropWhile_le)

lemma whole_length: "whole_digits s = Some (w, r) \<Longrightarrow> length r < length s"
  using digits_length [of "tl s"] by (auto simp: whole_digits_def split: list.splits if_splits)

lemma fraction_length: "fraction_digits s = Some (w, r) \<Longrightarrow> length r \<le> length s"
  using digits_length [of "tl s"] by (auto simp: fraction_digits_def split: list.splits if_splits)

lemma exponent_length: "exponent s = Some (w, r) \<Longrightarrow> length r \<le> length s"
  using digits_length [of "tl s"] digits_length [of "tl (tl s)"]
  by (auto simp: exponent_def Let_def split: list.splits if_splits)

lemma number_length: "unsigned_number s = Some (n, r) \<Longrightarrow> length r < length s"
  by (auto simp: unsigned_number_def split: option.splits
      dest!: whole_length fraction_length exponent_length)

lemma parse_number_length: "parse_number s = Some (n, r) \<Longrightarrow> length r < length s"
  by (auto simp: parse_number_def split: list.splits if_splits dest!: number_length)

lemma parse_word_length: "parse_word w x s = Some (v, r) \<Longrightarrow> w \<noteq> [] \<Longrightarrow> length r < length s"
  by (auto simp: parse_word_def prefix_def split: if_splits)

section \<open>The fuel is enough\<close>

lemma parse_shrinks_step:
  fixes n :: nat
  assumes v: "\<And>s v r. parse_value n s = Some (v, r) \<Longrightarrow> length r < length s"
    and e: "\<And>xs s v r. parse_elements n xs s = Some (v, r) \<Longrightarrow> length r < length s"
    and m: "\<And>kvs s v r. parse_members n kvs s = Some (v, r) \<Longrightarrow> length r < length s"
  shows "parse_value (Suc n) s = Some (x, r) \<Longrightarrow> length r < length s"
    and "parse_elements (Suc n) xs s = Some (x, r) \<Longrightarrow> length r < length s"
    and "parse_members (Suc n) kvs s = Some (x, r) \<Longrightarrow> length r < length s"
proof -
  assume a: "parse_value (Suc n) s = Some (x, r)"
  obtain c cs where s: "skip s = c # cs" using a by (cases "skip s") auto
  have "length r < length (c # cs)"
    using a s
    by (auto simp del: dropWhile_eq_Nil_conv split: if_splits list.splits
        dest!: skip_length string_body_length parse_word_length parse_number_length e m)
  moreover have "length (c # cs) \<le> length s" using skip_length [OF s] by simp
  ultimately show "length r < length s" by simp
next
  assume "parse_elements (Suc n) xs s = Some (x, r)"
  then show "length r < length s"
    by (auto simp del: dropWhile_eq_Nil_conv split: if_splits list.splits option.splits
        dest!: skip_length v e)
next
  assume a: "parse_members (Suc n) kvs s = Some (x, r)"
  then obtain q s1 k r1 c s2 y r2 d s3 where "skip s = q # s1" "string_body s1 = Some (k, r1)"
    "skip r1 = c # s2" "parse_value n s2 = Some (y, r2)" "skip r2 = d # s3"
    "r = s3 \<or> parse_members n (put_property k y kvs) s3 = Some (x, r)"
    by (auto simp del: dropWhile_eq_Nil_conv split: if_splits list.splits option.splits)
  then show "length r < length s" by (auto dest!: skip_length string_body_length v m)
qed

lemma parse_shrinks:
  "parse_value n s = Some (v, r) \<Longrightarrow> length r < length s"
  "parse_elements n xs s = Some (v, r) \<Longrightarrow> length r < length s"
  "parse_members n kvs s = Some (v, r) \<Longrightarrow> length r < length s"
proof (induction n arbitrary: s xs kvs v r)
  case (Suc n)
  case 1
  then show ?case using Suc parse_shrinks_step(1) by blast
next
  case (Suc n)
  case 2
  then show ?case using Suc parse_shrinks_step(2) by blast
next
  case (Suc n)
  case 3
  then show ?case using Suc parse_shrinks_step(3) by blast
qed simp_all

lemma more_fuel_step:
  fixes n :: nat
  assumes v: "\<And>s. 2 * length s < n \<Longrightarrow> parse_value (Suc n) s = parse_value n s"
    and e: "\<And>xs s. 2 * length s + 1 < n \<Longrightarrow> parse_elements (Suc n) xs s = parse_elements n xs s"
    and m: "\<And>kvs s. 2 * length s + 1 < n \<Longrightarrow> parse_members (Suc n) kvs s = parse_members n kvs s"
  shows "2 * length s < Suc n \<Longrightarrow> parse_value (Suc (Suc n)) s = parse_value (Suc n) s"
    and "2 * length s + 1 < Suc n \<Longrightarrow> parse_elements (Suc (Suc n)) xs s = parse_elements (Suc n) xs s"
    and "2 * length s + 1 < Suc n \<Longrightarrow> parse_members (Suc (Suc n)) kvs s = parse_members (Suc n) kvs s"
proof -
  assume len: "2 * length s < Suc n"
  show "parse_value (Suc (Suc n)) s = parse_value (Suc n) s"
  proof (cases "skip s")
    case Nil
    show ?thesis unfolding parse_value.simps(2) Nil by (simp only: list.case)
  next
    case (Cons c cs)
    then have short: "2 * length cs + 1 < n" using skip_length [OF Cons] len by simp
    show ?thesis unfolding parse_value.simps(2) Cons by (simp only: list.case e [OF short] m [OF short])
  qed
next
  assume len: "2 * length s + 1 < Suc n"
  then have eq: "parse_value (Suc n) s = parse_value n s" by (intro v) simp
  have rest: "parse_elements (Suc n) ys cs = parse_elements n ys cs"
    if "parse_value n s = Some (y, r)" "skip r = c # cs" for y r c cs ys
    by (rule e) (use len parse_shrinks(1) [OF that(1)] skip_length [OF that(2)] in simp)
  show "parse_elements (Suc (Suc n)) xs s = parse_elements (Suc n) xs s"
    unfolding parse_elements.simps(2) [of n xs s] parse_elements.simps(2) [of "Suc n" xs s] eq
    by (auto simp del: dropWhile_eq_Nil_conv parse_elements.simps simp: rest split: option.splits list.splits)
next
  assume len: "2 * length s + 1 < Suc n"
  show "parse_members (Suc (Suc n)) kvs s = parse_members (Suc n) kvs s"
  proof (cases "\<exists>q s1 k r1 c s2. skip s = q # s1 \<and> string_body s1 = Some (k, r1) \<and> skip r1 = c # s2")
    case True
    then obtain q s1 k r1 c s2 where s: "skip s = q # s1" "string_body s1 = Some (k, r1)" "skip r1 = c # s2"
      by blast
    have short: "length s2 < length s"
      using skip_length [OF s(1)] string_body_length [OF s(2)] skip_length [OF s(3)] by simp
    then have eq: "parse_value (Suc n) s2 = parse_value n s2" using len by (intro v) simp
    have rest: "parse_members (Suc n) ps cs = parse_members n ps cs"
      if "parse_value n s2 = Some (y, r)" "skip r = d # cs" for y r d cs ps
      by (rule m) (use len short parse_shrinks(1) [OF that(1)] skip_length [OF that(2)] in simp)
    have unfold: "parse_members (Suc m) kvs s =
        (if code q \<noteq> 34 then None else if c \<noteq> CHR '':'' then None else
         (case parse_value m s2 of None \<Rightarrow> None
          | Some (v, r2) \<Rightarrow>
         (case skip r2 of [] \<Rightarrow> None
          | d # s3 \<Rightarrow>
              (if d = CHR ''}'' then Some (JObj (put_property k v kvs), s3)
               else if d = CHR '','' then parse_members m (put_property k v kvs) s3 else None))))" for m
      unfolding parse_members.simps(2) s list.case option.case prod.case ..
    show ?thesis
    proof (cases "parse_value n s2")
      case None
      show ?thesis unfolding unfold eq None by (simp only: option.case)
    next
      case (Some p)
      obtain y r where p: "parse_value n s2 = Some (y, r)" using Some by (cases p) simp
      show ?thesis
      proof (cases "skip r")
        case Nil
        show ?thesis unfolding unfold eq p option.case prod.case Nil list.case ..
      next
        case (Cons d cs)
        show ?thesis unfolding unfold eq p option.case prod.case Cons list.case rest [OF p Cons] ..
      qed
    qed
  next
    case False
    have none: "parse_members (Suc m) kvs s = None" for m
    proof (cases "skip s")
      case Nil
      show ?thesis unfolding parse_members.simps(2) [of m kvs s] Nil list.case ..
    next
      case (Cons q s1)
      show ?thesis
      proof (cases "string_body s1")
        case None
        show ?thesis unfolding parse_members.simps(2) [of m kvs s] Cons None list.case option.case by simp
      next
        case (Some p)
        obtain k r1 where p: "string_body s1 = Some (k, r1)" using Some by (cases p) simp
        with False Cons have "skip r1 = []" by (cases "skip r1") blast+
        then show ?thesis
          unfolding parse_members.simps(2) [of m kvs s] Cons p list.case option.case prod.case
          by (simp del: dropWhile_eq_Nil_conv)
      qed
    qed
    show ?thesis unfolding none ..
  qed
qed

lemma more_fuel:
  "2 * length s < n \<Longrightarrow> parse_value (Suc n) s = parse_value n s"
  "2 * length s + 1 < n \<Longrightarrow> parse_elements (Suc n) xs s = parse_elements n xs s"
  "2 * length s + 1 < n \<Longrightarrow> parse_members (Suc n) kvs s = parse_members n kvs s"
proof (induction n arbitrary: s xs kvs)
  case (Suc n)
  case 1
  then show ?case using Suc more_fuel_step(1) by blast
next
  case (Suc n)
  case 2
  then show ?case using Suc more_fuel_step(2) by blast
next
  case (Suc n)
  case 3
  then show ?case using Suc more_fuel_step(3) by blast
qed simp_all

lemma parse_value_fuel:
  assumes "2 * length s < n"
  shows "parse_value n s = parse_value (2 * length s + 1) s"
proof -
  have "parse_value (2 * length s + 1 + k) s = parse_value (2 * length s + 1) s" for k
    by (induction k) (simp_all add: more_fuel del: parse_value.simps)
  from this [of "n - (2 * length s + 1)"] assms show ?thesis by simp
qed
section \<open>Round trip\<close>

lemma hex_value_digit: "n < 16 \<Longrightarrow> hex_value (hex_digit n) = Some n"
  by (auto simp: hex_value_def hex_digit_def is_digit_def of_char_of)

lemma unicode_escape_code: "code c < 32 \<Longrightarrow>
    unicode_escape CHR ''0'' CHR ''0'' (hex_digit (code c div 16)) (hex_digit (code c mod 16)) = Some c"
  by (simp add: unicode_escape_def hex_value_digit) (simp add: hex_value_def is_digit_def)

lemma string_body_escape:
  "string_body (escape_char c @ t) = map_option (map_prod ((#) c) id) (string_body t)"
proof -
  have self: "char_of n = c" if "code c = n" for n using that by (metis char_of_char)
  show ?thesis
    using unicode_escape_code [of c]
    by (auto simp: escape_char_def string_body.simps escape_at_def unescaped_def of_char_of self
        split: option.splits intro: code_inj)
qed

lemma string_body_escapes: "string_body (concat (map escape_char s) @ CHR 0x22 # r) = Some (s, r)"
  by (induction s) (simp_all add: string_body_escape string_body.simps)

lemma string_body_quoted: "quoted s @ r = CHR 0x22 # concat (map escape_char s) @ CHR 0x22 # r"
proof -
  have "char_of (34 :: nat) = CHR 0x22" by code_simp
  then show ?thesis by (simp add: quoted_def)
qed

lemma is_digit_char: "(n :: nat) < 10 \<Longrightarrow> is_digit (char_of (48 + n))"
  by (simp add: is_digit_def of_char_of)

lemma nat_text_digits: "list_all is_digit (nat_text n)"
proof (induction n rule: less_induct)
  case (less n)
  then show ?case by (subst nat_text.simps) (auto simp: is_digit_char)
qed

lemma digits_value_snoc: "digits_value b (ds @ [d]) = b * digits_value b ds + digit_value d"
  by (simp add: digits_value_def)

lemma digits_value_nat_text: "digits_value 10 (nat_text n) = int n"
proof (induction n rule: less_induct)
  case (less n)
  have "10 * int (n div 10) + int (n mod 10) = int n" by presburger
  with less show ?case
    by (subst nat_text.simps)
      (auto simp: digits_value_snoc digit_value_def is_digit_def of_char_of digits_value_def [of _ "[_]"])
qed

lemma nat_text_zero: "hd (nat_text n) = CHR ''0'' \<Longrightarrow> n = 0"
proof (induction n rule: less_induct)
  case (less n)
  show ?case
  proof (cases "n < 10")
    case True
    then have "char_of (48 + n) = CHR ''0''" using less.prems by (subst (asm) nat_text.simps) simp
    then have "code (char_of (48 + n)) = 48" by simp
    with True show ?thesis by (simp add: of_char_of)
  next
    case False
    then have "hd (nat_text (n div 10)) = CHR ''0''" using less.prems by (subst (asm) nat_text.simps) simp
    with less.IH [of "n div 10"] False show ?thesis by simp
  qed
qed

definition ends :: "string \<Rightarrow> bool" where
  "ends r \<longleftrightarrow> r = [] \<or> hd r \<in> set '',]}''"

lemma takeWhile_digits: "list_all is_digit ds \<Longrightarrow> r = [] \<or> \<not> is_digit (hd r) \<Longrightarrow>
    takeWhile is_digit (ds @ r) = ds \<and> dropWhile is_digit (ds @ r) = r"
  by (induction ds) (auto simp: dropWhile_eq_self_iff takeWhile_eq_Nil_iff)

lemma ends_char: "ends r \<Longrightarrow> r \<noteq> [] \<Longrightarrow> \<not> is_digit (hd r) \<and> hd r \<notin> set ''.eE''"
  by (auto simp: ends_def is_digit_def)

lemma whole_digits_nat_text:
  assumes "ends r"
  shows "whole_digits (nat_text n @ r) = Some (nat_text n, r)"
proof -
  obtain c cs where n: "nat_text n = c # cs" by (cases "nat_text n") simp_all
  show ?thesis
  proof (cases "c = CHR ''0''")
    case True
    then have "n = 0" using nat_text_zero [of n] n by simp
    then have "cs = []" using n by (simp add: nat_text.simps)
    then show ?thesis by (simp add: whole_digits_def n True)
  next
    case False
    have "list_all is_digit (c # cs)" using nat_text_digits [of n] n by simp
    then show ?thesis using takeWhile_digits [of "c # cs" r] ends_char [OF assms] False
      by (auto simp: whole_digits_def n)
  qed
qed

lemma unsigned_number_nat_text: "ends r \<Longrightarrow> unsigned_number (nat_text n @ r) = Some (int n, r)"
  using ends_char [of r] whole_digits_nat_text [of r n]
  by (cases r) (auto simp: unsigned_number_def fraction_digits_def exponent_def
      digits_value_nat_text scaled_def)

lemma parse_number_int_text:
  assumes "ends r"
  shows "parse_number (int_text i @ r) = Some (JNum i, r)"
proof (cases "i < 0")
  case True
  then show ?thesis by (simp add: parse_number_def int_text_def unsigned_number_nat_text [OF assms])
next
  case False
  obtain c cs where n: "nat_text (nat i) = c # cs" by (cases "nat_text (nat i)") simp_all
  have "is_digit c" using nat_text_digits [of "nat i"] n by simp
  then have "c \<noteq> CHR ''-''" by (auto simp: is_digit_def)
  with False n show ?thesis
    using unsigned_number_nat_text [OF assms, of "nat i"] by (simp add: parse_number_def int_text_def)
qed

lemma own_order_snoc:
  assumes "own_order (acc @ (k, v) # rest)" and "map fst acc' = map fst acc"
  shows "put_property k x acc' = acc' @ [(k, x)]"
proof -
  have k: "k \<notin> set (map fst acc')" using assms by (simp add: own_order_def)
  have "\<forall>a \<in> set (map fst acc). key_before a k" using assms(1)
    by (auto simp: own_order_def sorted_wrt_append)
  then have all: "\<forall>p \<in> set acc'. key_before (fst p) k" using assms(2)
    by (metis image_eqI list.set_map)
  then have "takeWhile (\<lambda>p. key_before (fst p) k) acc' = acc'" by (rule takeWhile_eq_all_conv [THEN iffD2])
  moreover from all have "dropWhile (\<lambda>p. key_before (fst p) k) acc' = []" by simp
  ultimately show ?thesis using k by (simp add: put_property_def)
qed

lemma own_order_filter: "own_order kvs \<Longrightarrow> own_order (filter P kvs)"
  by (simp add: own_order_def sorted_wrt_filter distinct_map_filter)

text \<open>Reading \<open>t\<close> gives \<open>v\<close> and leaves \<open>r\<close>, with all fuel from some amount on.\<close>

definition reads :: "(nat \<Rightarrow> string \<Rightarrow> (js \<times> string) option) \<Rightarrow> string \<Rightarrow> js \<Rightarrow> string \<Rightarrow> bool" where
  "reads p t v r \<longleftrightarrow> (\<exists>N. \<forall>n\<ge>N. p n t = Some (v, r))"

lemma readsI: "(\<And>n. N \<le> n \<Longrightarrow> p (Suc n) t = Some (v, r)) \<Longrightarrow> reads p t v r"
  unfolding reads_def by (metis Suc_le_D Suc_le_mono)

lemma reads_step:
  assumes "reads p t v r" and "\<And>n. p n t = Some (v, r) \<Longrightarrow> q (Suc n) t' = Some (v', r')"
  shows "reads q t' v' r'"
  using assms readsI [of _ q] unfolding reads_def by metis

lemma reads_step2:
  assumes "reads p t v r" and "reads p' u w s"
    and "\<And>n. p n t = Some (v, r) \<Longrightarrow> p' n u = Some (w, s) \<Longrightarrow> q (Suc n) t' = Some (v', r')"
  shows "reads q t' v' r'"
proof -
  obtain N M where "\<forall>n\<ge>N. p n t = Some (v, r)" "\<forall>n\<ge>M. p' n u = Some (w, s)"
    using assms(1,2) unfolding reads_def by blast
  then show ?thesis by (intro readsI [of "max N M"] assms(3)) auto
qed

lemma not_space_skip: "\<not> json_space c \<Longrightarrow> skip (c # cs) = c # cs"
  by simp

lemma punct_not_space:
  "\<not> json_space CHR ''{''" "\<not> json_space CHR ''}''" "\<not> json_space CHR ''[''" "\<not> json_space CHR '']''"
  "\<not> json_space CHR '',''" "\<not> json_space CHR '':''" "\<not> json_space CHR 0x22" "\<not> json_space CHR ''t''"
  "\<not> json_space CHR ''f''" "\<not> json_space CHR ''n''" "\<not> json_space CHR ''-''"
  by (simp_all add: json_space_def)

lemma digit_not_space: "is_digit c \<Longrightarrow> \<not> json_space c"
  by (auto simp: json_space_def is_digit_def)

text \<open>The first character of a printed value.\<close>

definition starts :: "char \<Rightarrow> bool" where
  "starts c \<longleftrightarrow> \<not> json_space c \<and> c \<noteq> CHR '']'' \<and> c \<noteq> CHR ''}''"

lemma int_text_starts: "\<exists>c cs. int_text i = c # cs \<and> (is_digit c \<or> c = CHR ''-'')"
  using nat_text_digits [of "nat i"] by (cases "nat_text (nat i)") (auto simp: int_text_def)

lemma stringify_starts: "\<exists>c cs. stringify v = c # cs \<and> starts c"
proof (cases v)
  case (JNum i)
  then show ?thesis using int_text_starts [of i]
    by (auto simp: starts_def punct_not_space digit_not_space) (auto simp: is_digit_def)
next
  case (JStr s)
  then show ?thesis using string_body_quoted [of s "[]"] by (simp add: starts_def punct_not_space)
qed (auto simp: starts_def punct_not_space)

lemma reads_word:
  assumes "s = w @ r" and "w = c # cs" and "c \<in> {CHR ''t'', CHR ''f'', CHR ''n''}"
    and "parse_word (if c = CHR ''t'' then ''true'' else if c = CHR ''f'' then ''false'' else ''null'')
           (if c = CHR ''t'' then JBool True else if c = CHR ''f'' then JBool False else JNull) s = Some (v, r)"
  shows "reads parse_value s v r"
  using assms by (intro readsI [of 0]) (auto simp: punct_not_space)

lemma reads_number:
  assumes "ends r"
  shows "reads parse_value (int_text i @ r) (JNum i) r"
proof -
  obtain c cs where c: "int_text i = c # cs" "is_digit c \<or> c = CHR ''-''" using int_text_starts by blast
  then have "\<not> json_space c" using digit_not_space punct_not_space by blast
  moreover have "parse_number (c # cs @ r) = Some (JNum i, r)"
    using parse_number_int_text [OF assms, of i] c(1) by simp
  moreover have "c \<notin> {CHR ''{'', CHR ''['', CHR ''t'', CHR ''f'', CHR ''n''}" "code c \<noteq> 34"
    using c(2) by (auto simp: is_digit_def)
  ultimately show ?thesis using c(1) by (intro readsI [of 0]) simp
qed

lemma reads_string: "reads parse_value (quoted s @ r) (JStr s) r"
  unfolding string_body_quoted by (intro readsI [of 0]) (simp add: punct_not_space string_body_escapes)

text \<open>The value that reading the text of \<open>v\<close> gives: the members are assigned one after the other, so a
  repeated name keeps its first place and its last value, and the array indices come first.\<close>

definition assigned :: "(string \<times> js) list \<Rightarrow> (string \<times> js) list" where
  "assigned kvs = foldl (\<lambda>acc kv. put_property (fst kv) (snd kv) acc) [] kvs"

fun read_back :: "js \<Rightarrow> js" where
  "read_back JUndef = JNull"
| "read_back (JArr xs) = JArr (map read_back xs)"
| "read_back (JObj kvs) = JObj (assigned (map (\<lambda>(k, v). (k, read_back v)) (filter (\<lambda>kv. snd kv \<noteq> JUndef) kvs)))"
| "read_back v = v"

lemma assigned_Nil [simp]: "assigned [] = []"
  by (simp add: assigned_def)

lemma assigned_snoc: "assigned (kvs @ [(k, v)]) = put_property k v (assigned kvs)"
  by (simp add: assigned_def)

lemma own_order_append: "own_order (kvs @ kvs') \<Longrightarrow> own_order kvs"
  by (auto simp: own_order_def sorted_wrt_append)

lemma assigned_own_order: "own_order kvs \<Longrightarrow> assigned kvs = kvs"
proof (induction kvs rule: rev_induct)
  case (snoc p kvs)
  obtain k v where p: "p = (k, v)" by (cases p)
  have "assigned kvs = kvs" using snoc own_order_append by blast
  then show ?case using own_order_snoc [of kvs k v "[]" kvs] snoc.prems by (simp add: p assigned_snoc)
qed simp

lemma own_order_map: "own_order kvs \<Longrightarrow> own_order (map (\<lambda>(k, v). (k, f v)) kvs)"
  by (simp add: own_order_def sorted_wrt_map case_prod_unfold comp_def)

lemma read_back_ok: "js_ok v \<Longrightarrow> read_back v = json_value v"
proof (induction v)
  case (JObj kvs)
  let ?kvs = "filter (\<lambda>kv. snd kv \<noteq> JUndef) kvs"
  have eq: "map (\<lambda>(k, v). (k, read_back v)) ?kvs = map (\<lambda>(k, v). (k, json_value v)) ?kvs"
    using JObj by (auto simp: list_all_iff)
  have "own_order (map (\<lambda>(k, v). (k, json_value v)) ?kvs)"
    using JObj.prems own_order_filter own_order_map by simp
  then show ?case unfolding read_back.simps json_value.simps eq by (simp add: assigned_own_order)
qed (auto simp: list_all_iff)

lemma reads_elements:
  assumes "xs \<noteq> []"
    and "\<And>x r. x \<in> set xs \<Longrightarrow> ends r \<Longrightarrow> reads parse_value (stringify x @ r) (read_back x) r"
  shows "reads (\<lambda>n. parse_elements n acc) (join '','' (map stringify xs) @ '']'' @ r)
    (JArr (acc @ map read_back xs)) r"
  using assms
proof (induction xs arbitrary: acc)
  case (Cons x xs)
  show ?case
  proof (cases "xs = []")
    case True
    have "reads parse_value (stringify x @ '']'' @ r) (read_back x) ('']'' @ r)"
      by (rule Cons.prems(2)) (simp_all add: ends_def)
    then show ?thesis by (rule reads_step) (simp add: True punct_not_space)
  next
    case False
    let ?t = "join '','' (map stringify xs) @ '']'' @ r"
    have x: "reads parse_value (stringify x @ '','' @ ?t) (read_back x) ('','' @ ?t)"
      by (rule Cons.prems(2)) (simp_all add: ends_def)
    have rest: "reads (\<lambda>n. parse_elements n (acc @ [read_back x])) ?t
        (JArr ((acc @ [read_back x]) @ map read_back xs)) r"
      by (rule Cons.IH [OF False]) (rule Cons.prems(2), auto)
    show ?thesis
      by (rule reads_step2 [OF x rest]) (use False in \<open>auto simp: punct_not_space neq_Nil_conv\<close>)
  qed
qed simp

definition member_text :: "string \<times> js \<Rightarrow> string" where
  "member_text kv = quoted (fst kv) @ '':'' @ stringify (snd kv)"

lemma reads_members:
  assumes "kvs \<noteq> []"
    and "\<And>k x r. (k, x) \<in> set kvs \<Longrightarrow> ends r \<Longrightarrow> reads parse_value (stringify x @ r) (read_back x) r"
  shows "reads (\<lambda>n. parse_members n (assigned read)) (join '','' (map member_text kvs) @ ''}'' @ r)
    (JObj (assigned (read @ map (\<lambda>(k, v). (k, read_back v)) kvs))) r"
  using assms
proof (induction kvs arbitrary: read)
  case (Cons p kvs)
  obtain k x where p: "p = (k, x)" by (cases p)
  have put: "put_property k (read_back x) (assigned read) = assigned (read @ [(k, read_back x)])"
    by (simp add: assigned_snoc)
  have key: "string_body (concat (map escape_char k) @ CHR 0x22 # '':'' @ t) = Some (k, '':'' @ t)" for t
    by (rule string_body_escapes)
  show ?case
  proof (cases "kvs = []")
    case True
    have "reads parse_value (stringify x @ ''}'' @ r) (read_back x) (''}'' @ r)"
      by (rule Cons.prems(2) [of k]) (simp_all add: ends_def p)
    then show ?thesis
      by (rule reads_step) (simp add: True p member_text_def string_body_quoted punct_not_space string_body_escapes put)
  next
    case False
    let ?t = "join '','' (map member_text kvs) @ ''}'' @ r"
    have x: "reads parse_value (stringify x @ '','' @ ?t) (read_back x) ('','' @ ?t)"
      by (rule Cons.prems(2) [of k]) (simp_all add: ends_def p)
    have rest: "reads (\<lambda>n. parse_members n (assigned (read @ [(k, read_back x)]))) ?t
        (JObj (assigned ((read @ [(k, read_back x)]) @ map (\<lambda>(k, v). (k, read_back v)) kvs))) r"
      by (rule Cons.IH [OF False]) (use Cons.prems p in auto)
    have eq: "join '','' (map member_text (p # kvs)) @ ''}'' @ r =
        CHR 0x22 # concat (map escape_char k) @ CHR 0x22 # '':'' @ stringify x @ '','' @ ?t"
      using False by (auto simp: p member_text_def string_body_quoted neq_Nil_conv)
    show ?thesis unfolding eq
      by (rule reads_step2 [OF x rest]) (simp add: p punct_not_space string_body_escapes put)
  qed
qed simp

lemma bracket_reads:
  assumes "reads (\<lambda>n. parse_elements n []) t v r" and "t = c # cs" and "starts c"
  shows "reads parse_value (CHR ''['' # t) v r"
  by (rule reads_step [OF assms(1)]) (use assms(2,3) in \<open>simp add: punct_not_space starts_def\<close>)

lemma brace_reads:
  assumes "reads (\<lambda>n. parse_members n []) t v r" and "t = CHR 0x22 # cs"
  shows "reads parse_value (CHR ''{'' # t) v r"
  by (rule reads_step [OF assms(1)]) (use assms(2) in \<open>simp add: punct_not_space\<close>)

lemma join_Cons: "\<exists>s. join sep (x # xs) = x @ s"
  by (cases xs) auto

lemma reads_stringify:
  "ends r \<Longrightarrow> reads parse_value (stringify v @ r) (read_back v) r"
proof (induction v arbitrary: r)
  case JUndef
  show ?case by (rule reads_word [of _ "''null''" r "CHR ''n''" "''ull''"]) (simp_all add: parse_word_def)
next
  case JNull
  show ?case by (rule reads_word [of _ "''null''" r "CHR ''n''" "''ull''"]) (simp_all add: parse_word_def)
next
  case (JBool b)
  show ?case by (cases b; rule reads_word [of _ "if b then ''true'' else ''false''" r
        "if b then CHR ''t'' else CHR ''f''" "if b then ''rue'' else ''alse''"]) (simp_all add: parse_word_def)
next
  case (JNum i)
  then show ?case using reads_number by simp
next
  case (JStr s)
  show ?case using reads_string by simp
next
  case (JArr xs)
  show ?case
  proof (cases xs)
    case Nil
    then show ?thesis by (intro readsI [of 0]) (simp add: punct_not_space)
  next
    case (Cons x ys)
    have "reads (\<lambda>n. parse_elements n []) (join '','' (map stringify xs) @ '']'' @ r)
        (JArr ([] @ map read_back xs)) r"
      by (rule reads_elements) (use JArr Cons in \<open>auto simp: list_all_iff\<close>)
    moreover obtain c cs where "stringify x = c # cs" "starts c" using stringify_starts by blast
    moreover obtain s where "join '','' (map stringify xs) = stringify x @ s"
      using join_Cons Cons by (metis list.simps(9))
    ultimately have "reads parse_value (CHR ''['' # join '','' (map stringify xs) @ '']'' @ r)
        (JArr ([] @ map read_back xs)) r"
      by (intro bracket_reads) auto
    then show ?thesis by simp
  qed
next
  case (JObj kvs)
  let ?kvs = "filter (\<lambda>kv. snd kv \<noteq> JUndef) kvs"
  have eq: "stringify (JObj kvs) @ r = CHR ''{'' # join '','' (map member_text ?kvs) @ ''}'' @ r"
    by (simp add: member_text_def [abs_def] case_prod_unfold)
  show ?case
  proof (cases ?kvs)
    case Nil
    then show ?thesis unfolding eq by (intro readsI [of 0]) (simp add: punct_not_space)
  next
    case (Cons p ps)
    have "reads (\<lambda>n. parse_members n (assigned [])) (join '','' (map member_text ?kvs) @ ''}'' @ r)
        (JObj (assigned ([] @ map (\<lambda>(k, v). (k, read_back v)) ?kvs))) r"
    proof (rule reads_members)
      show "reads parse_value (stringify x @ q) (read_back x) q" if "(k, x) \<in> set ?kvs" "ends q" for k x q
        by (rule JObj.IH [of "(k, x)"]) (use that in auto)
    qed (use Cons in simp)
    then have members: "reads (\<lambda>n. parse_members n []) (join '','' (map member_text ?kvs) @ ''}'' @ r)
        (JObj (assigned (map (\<lambda>(k, v). (k, read_back v)) ?kvs))) r" by simp
    obtain s where "join '','' (map member_text ?kvs) = member_text p @ s"
      using join_Cons Cons by (metis list.simps(9))
    then have "\<exists>cs. join '','' (map member_text ?kvs) @ ''}'' @ r = CHR 0x22 # cs"
      by (simp add: member_text_def string_body_quoted)
    then show ?thesis unfolding eq using brace_reads [OF members] by fastforce
  qed
qed

lemma json_parse_read_back: "json_parse (stringify v) = Some (read_back v)"
proof -
  have "reads parse_value (stringify v @ []) (read_back v) []"
    by (rule reads_stringify) (simp add: ends_def)
  then obtain N where N: "\<forall>n\<ge>N. parse_value n (stringify v) = Some (read_back v, [])"
    unfolding reads_def by auto
  have "parse_value (max N (2 * length (stringify v) + 1)) (stringify v) = Some (read_back v, [])"
    using N by simp
  then have "parse_value (2 * length (stringify v) + 1) (stringify v) = Some (read_back v, [])"
    using parse_value_fuel [of "stringify v" "max N (2 * length (stringify v) + 1)"] by simp
  then show ?thesis unfolding json_parse_def by simp
qed

lemma json_parse_stringify: "js_ok v \<Longrightarrow> json_parse (stringify v) = Some (json_value v)"
  by (simp add: json_parse_read_back read_back_ok)

lemma json_parse_json_text: "js_ok v \<Longrightarrow> json_parse (json_text v) = Some (json_value (or_else v JNull))"
  by (cases v) (simp_all add: json_text_def json_parse_stringify del: stringify.simps)

section \<open>Copies\<close>

text \<open>\<open>JSON.parse(JSON.stringify(v))\<close> makes a copy that has no undefined member and lists its properties
  in JavaScript's order, so a copy of the copy is the copy itself.\<close>

lemma digits_value_pos:
  assumes "list_all is_digit s" and "s \<noteq> []" and "hd s \<noteq> CHR ''0''"
  shows "0 < digits_value 10 s"
  using assms
proof (induction s rule: rev_induct)
  case (snoc d ds)
  have d: "0 \<le> digit_value d" using snoc.prems(1) by (simp add: digit_value_def is_digit_def)
  show ?case
  proof (cases "ds = []")
    case True
    have "code d \<noteq> 48" using snoc.prems(3) True code_inj [of d "CHR ''0''"] by auto
    then show ?thesis using True snoc.prems(1) by (simp add: digits_value_def digit_value_def is_digit_def)
  next
    case False
    then show ?thesis using snoc d by (simp add: digits_value_snoc)
  qed
qed simp

lemma nat_text_digits_value:
  assumes "list_all is_digit s" and "s \<noteq> []" and "hd s \<noteq> CHR ''0'' \<or> length s = 1"
  shows "nat_text (nat (digits_value 10 s)) = s"
  using assms
proof (induction s rule: rev_induct)
  case (snoc d ds)
  have d: "48 \<le> code d" "code d \<le> 57" "digit_value d = int (code d) - 48"
    using snoc.prems(1) by (auto simp: digit_value_def is_digit_def)
  have "48 + nat (digit_value d) = code d" using d by simp
  then have ch: "char_of (48 + nat (digit_value d)) = d" by (simp only: char_of_char)
  show ?case
  proof (cases "ds = []")
    case True
    then show ?thesis using d ch by (subst nat_text.simps) (simp add: digits_value_def)
  next
    case False
    then have pos: "0 < digits_value 10 ds" and h: "hd ds \<noteq> CHR ''0''"
      using snoc.prems by (auto intro!: digits_value_pos)
    have IH: "nat_text (nat (digits_value 10 ds)) = ds" using snoc.IH snoc.prems(1) False h by simp
    let ?n = "nat (digits_value 10 (ds @ [d]))"
    have n: "?n = 10 * nat (digits_value 10 ds) + nat (digit_value d)"
      using pos d by (simp add: digits_value_snoc nat_add_distrib nat_mult_distrib)
    have "nat (digit_value d) < 10" using d by simp
    then have "?n div 10 = nat (digits_value 10 ds)" "?n mod 10 = nat (digit_value d)" "\<not> ?n < 10"
      using n pos by simp_all
    then show ?thesis using IH ch by (subst nat_text.simps) simp
  qed
qed simp

lemma index_key_inj: "index_key a \<Longrightarrow> index_key b \<Longrightarrow> digits_value 10 a = digits_value 10 b \<Longrightarrow> a = b"
  unfolding index_key_def by (metis nat_text_digits_value)

lemma key_before_total: "a \<noteq> b \<Longrightarrow> key_before a b \<or> key_before b a"
  using index_key_inj [of a b] linorder_less_linear [of "digits_value 10 a" "digits_value 10 b"]
  by (auto simp: key_before_def)

lemma key_before_trans: "key_before a b \<Longrightarrow> key_before b c \<Longrightarrow> key_before a c"
  by (auto simp: key_before_def split: if_splits)

lemma own_order_put:
  assumes "own_order kvs"
  shows "own_order (put_property k v kvs)"
proof (cases "k \<in> set (map fst kvs)")
  case True
  have "map fst (map (\<lambda>(k', w). (k', if k' = k then v else w)) kvs) = map fst kvs" by auto
  moreover have "sorted_wrt (\<lambda>p q. key_before (fst p) (fst q)) xs \<longleftrightarrow> sorted_wrt key_before (map fst xs)"
    for xs :: "(string \<times> js) list" by (simp add: sorted_wrt_map)
  ultimately show ?thesis using assms True unfolding own_order_def put_property_def by (simp only: if_True)
next
  case False
  let ?P = "\<lambda>p :: string \<times> js. key_before (fst p) k"
  let ?a = "takeWhile ?P kvs" and ?b = "dropWhile ?P kvs"
  have kvs: "kvs = ?a @ ?b" by simp
  have srt: "sorted_wrt (\<lambda>p q. key_before (fst p) (fst q)) (?a @ ?b)" and dst: "distinct (map fst (?a @ ?b))"
    using assms by (simp_all add: own_order_def)
  have after: "key_before k (fst q)" if "q \<in> set ?b" for q
  proof (cases ?b)
    case Nil
    then show ?thesis using that unfolding Nil by simp
  next
    case (Cons x xs)
    have x: "\<not> key_before (fst x) k" using hd_dropWhile [of ?P kvs] Cons by simp
    moreover have "fst x \<noteq> k" using False Cons kvs by (metis image_eqI in_set_conv_decomp list.set_map)
    ultimately have "key_before k (fst x)" using key_before_total by blast
    moreover have "q = x \<or> key_before (fst x) (fst q)" using srt that Cons by (auto simp: sorted_wrt_append)
    ultimately show ?thesis using key_before_trans by blast
  qed
  have "\<forall>p \<in> set ?a. key_before (fst p) k" by (meson set_takeWhileD)
  then have "sorted_wrt (\<lambda>p q. key_before (fst p) (fst q)) (?a @ [(k, v)] @ ?b)"
    using srt [unfolded sorted_wrt_append] after unfolding sorted_wrt_append by auto
  moreover have "distinct (map fst ?a @ k # map fst ?b)"
  proof -
    have "k \<notin> set (map fst ?a @ map fst ?b)" using False by (metis kvs map_append)
    then show ?thesis using dst [unfolded map_append distinct_append] by auto
  qed
  ultimately show ?thesis using False by (simp add: own_order_def put_property_def)
qed

lemma own_order_assigned: "own_order (assigned kvs)"
proof (induction kvs rule: rev_induct)
  case (snoc p kvs)
  then show ?case by (cases p) (simp add: assigned_snoc own_order_put)
qed (simp add: own_order_def)

lemma put_property_values: "set (map snd (put_property k v kvs)) \<subseteq> insert v (set (map snd kvs))"
  by (auto simp: put_property_def dest: set_takeWhileD set_dropWhileD split: if_splits)

lemma assigned_values: "set (map snd (assigned kvs)) \<subseteq> set (map snd kvs)"
proof (induction kvs rule: rev_induct)
  case (snoc p kvs)
  obtain k v where "p = (k, v)" by (cases p)
  with snoc show ?case using put_property_values [of k v "assigned kvs"]
    by (simp add: assigned_snoc del: set_map) blast
qed simp

lemma read_back_copy: "js_ok (read_back v) \<and> json_value (read_back v) = read_back v \<and> read_back v \<noteq> JUndef"
proof (induction v)
  case (JArr xs)
  then show ?case by (auto simp: list_all_iff)
next
  case (JObj kvs)
  let ?r = "map (\<lambda>(k, v). (k, read_back v)) (filter (\<lambda>kv. snd kv \<noteq> JUndef) kvs)"
  have ok: "js_ok (snd q) \<and> json_value (snd q) = snd q \<and> snd q \<noteq> JUndef" if q: "q \<in> set (assigned ?r)" for q
  proof -
    have "snd q \<in> snd ` set ?r" using assigned_values [of ?r] q by fastforce
    then obtain p where p: "p \<in> set kvs" "snd q = read_back (snd p)" by auto
    have "snd p \<in> Basic_BNFs.snds p" by (cases p) simp
    then show ?thesis unfolding p(2) by (rule JObj [OF p(1)])
  qed
  have f: "filter (\<lambda>kv. snd kv \<noteq> JUndef) (assigned ?r) = assigned ?r"
    unfolding filter_id_conv using ok by blast
  have m: "map (\<lambda>(k, w). (k, json_value w)) (assigned ?r) = assigned ?r"
  proof (rule map_idI)
    fix q assume "q \<in> set (assigned ?r)"
    then have "json_value (snd q) = snd q" using ok by blast
    then show "(case q of (k, w) \<Rightarrow> (k, json_value w)) = q" by (simp add: case_prod_unfold)
  qed
  have "\<forall>q \<in> set (assigned ?r). js_ok (snd q)" using ok by blast
  then have "js_ok (JObj (assigned ?r))" using own_order_assigned by (simp add: list_all_iff)
  moreover have "json_value (JObj (assigned ?r)) = JObj (assigned ?r)" unfolding json_value.simps f m ..
  ultimately show ?case unfolding read_back.simps by blast
qed simp_all

lemma read_back_idem [simp]: "read_back (read_back v) = read_back v"
  using read_back_copy [of v] read_back_ok [of "read_back v"] by simp

end
