(* ===== verification/SyncText.thy ===== *)
theory SyncText
  imports JsonText
begin

text \<open>
  The arguments of the account synchronisation store (account\_sync\_store.js): identifiers, paths
  and cursors, and the three profiles it normalises before it writes them.  Records hold what the
  normalisers return; an optional member is an \<open>option\<close> and missing from the JSON when \<open>None\<close>.
\<close>

datatype sync_error =
    ACCOUNT_ID_REQUIRED | MINI_APP_ID_INVALID | AGENT_ID_INVALID | AGENT_PATH_INVALID
  | BOT_ID_INVALID | BOT_ID_REQUIRED | AGENT_OBJECT_TOO_LARGE | AGENT_OBJECT_LIMIT
  | CONFLICT_COPY_MISMATCH | CLOUD_KEY_INVALID | CLOUD_VALUE_TOO_LARGE | CLOUD_KEY_LIMIT
  | EVENT_FIELDS_REQUIRED | STACK_EXHAUSTED

section \<open>Identifiers and paths\<close>

definition positiveLimit :: "js \<Rightarrow> nat" where
  "positiveLimit v = (case js_floor v of None \<Rightarrow> 200 | Some n \<Rightarrow> nat (max 1 (min 1000 n)))"

definition normalizeAccountId :: "js \<Rightarrow> sync_error + string" where
  "normalizeAccountId v = (if trimmed v = [] then Inl ACCOUNT_ID_REQUIRED else Inr (trimmed v))"

definition mini_app_pattern :: "string \<Rightarrow> bool" where
  "mini_app_pattern s \<longleftrightarrow>
     2 \<le> length s \<and> length s \<le> 64 \<and> (is_lower (hd s) \<or> is_digit (hd s)) \<and>
     list_all (\<lambda>c. is_lower c \<or> is_digit c \<or> c = CHR ''-'') (tl s)"

definition normalizeMiniAppId :: "js \<Rightarrow> sync_error + string" where
  "normalizeMiniAppId v =
     (let i = trimmed_lower v in if \<not> mini_app_pattern i then Inl MINI_APP_ID_INVALID else Inr i)"

definition agent_id_pattern :: "string \<Rightarrow> bool" where
  "agent_id_pattern s \<longleftrightarrow>
     s \<noteq> [] \<and> length s \<le> 160 \<and> is_alnum (hd s) \<and> list_all (\<lambda>c. is_alnum c \<or> c \<in> set ''._:-'') (tl s)"

definition normalizeAgentId :: "js \<Rightarrow> sync_error + string" where
  "normalizeAgentId v =
     (let i = trimmed v in if \<not> agent_id_pattern i then Inl AGENT_ID_INVALID else Inr i)"

definition forward_slashes :: "string \<Rightarrow> string" where
  "forward_slashes s = map (\<lambda>c. if code c = 92 then CHR ''/'' else c) s"

definition drive_prefix :: "string \<Rightarrow> bool" where
  "drive_prefix s \<longleftrightarrow>
     (case s of a # b # c # _ \<Rightarrow> (is_lower a \<or> is_upper a) \<and> b = CHR '':'' \<and> c = CHR ''/'' | _ \<Rightarrow> False)"

definition path_segments :: "string \<Rightarrow> string list" where
  "path_segments s = filter (\<lambda>seg. seg \<noteq> [] \<and> seg \<noteq> ''.'') (split_on (CHR ''/'') s)"

definition normalizeAgentPath :: "js \<Rightarrow> sync_error + string" where
  "normalizeAgentPath v =
     (let t = trim (forward_slashes (text_of v))
      in if t = [] \<or> hd t = CHR ''/'' \<or> drive_prefix t \<or> list_ex (\<lambda>c. code c = 0) t
         then Inl AGENT_PATH_INVALID
         else let segments = path_segments t
              in if segments = [] \<or> list_ex (\<lambda>seg. seg = ''..'' \<or> 255 < length seg) segments
                 then Inl AGENT_PATH_INVALID
                 else Inr (join ''/'' segments))"

definition cloud_key_pattern :: "string \<Rightarrow> bool" where
  "cloud_key_pattern s \<longleftrightarrow>
     s \<noteq> [] \<and> length s \<le> 128 \<and> list_all (\<lambda>c. is_alnum c \<or> c = CHR ''_'' \<or> c = CHR ''-'') s"

text \<open>\<open>Buffer.byteLength(s, 'utf8')\<close> in the character range of JsText.\<close>

definition utf8_length :: "string \<Rightarrow> nat" where
  "utf8_length s = sum_list (map (\<lambda>c. if code c < 128 then 1 else 2) s)"

section \<open>Cursors\<close>

datatype cursor = No_Cursor | Bad_Cursor | At nat

definition encodeCursor :: "nat \<Rightarrow> string" where
  "encodeCursor n = ''as1:'' @ nat_text n"

definition decodeCursor :: "js \<Rightarrow> cursor" where
  "decodeCursor v =
     (if v = JUndef \<or> v = JNull \<or> v = JStr [] then No_Cursor
      else let t = trim (js_text v); ds = drop 4 t
           in if prefix ''as1:'' t \<and> ds \<noteq> [] \<and> list_all is_digit ds
              then (if safe_integer (digits_value 10 ds) then At (nat (digits_value 10 ds)) else Bad_Cursor)
              else Bad_Cursor)"

section \<open>Profiles\<close>

definition object_or_empty :: "js \<Rightarrow> js" where
  "object_or_empty v = (if is_object v then v else JObj [])"

definition field :: "nat \<Rightarrow> js \<Rightarrow> string" where
  "field n v = slice_to n (trimmed v)"

definition non_empty :: "string \<Rightarrow> string option" where
  "non_empty s = (if s = [] then None else Some s)"

definition opt_text :: "string option \<Rightarrow> js" where
  "opt_text x = (case x of None \<Rightarrow> JUndef | Some s \<Rightarrow> JStr s)"

record subagent_info =
  si_parent_agent_id :: string
  si_root_parent_agent_id :: string
  si_tool_call_id :: string
  si_type_name :: string

record agent_metadata =
  md_agent_id :: string
  md_latest_root_blob_id :: string
  md_name :: string
  md_mode :: string
  md_is_run_everything :: bool
  md_created_at :: int
  md_last_used_model :: "string option"
  md_last_debug_server_port :: "int option"
  md_current_plan_uri :: "string option"
  md_subagent_info :: "subagent_info option"
  md_approval_mode :: "string option"
  md_blob_encryption_key_id :: "string option"

definition metadata_modes :: "string list" where
  "metadata_modes = [''default'', ''plan'', ''debug'', ''search'']"

definition approval_modes :: "string list" where
  "approval_modes = [''allowlist'', ''unrestricted'', ''auto-review'']"

definition subagent_of :: "js \<Rightarrow> subagent_info option" where
  "subagent_of v =
     (if is_object v
      then Some \<lparr>si_parent_agent_id = field 160 (js_get v ''parentAgentId''),
                 si_root_parent_agent_id = field 160 (js_get v ''rootParentAgentId''),
                 si_tool_call_id = field 240 (js_get v ''toolCallId''),
                 si_type_name = field 160 (js_get v ''typeName'')\<rparr>
      else None)"

definition agent_name :: "js \<Rightarrow> string" where
  "agent_name v =
     (let n = field 160 (or_else v (JStr ''New Agent'')) in if n = [] then ''New Agent'' else n)"

text \<open>\<open>date\<close> is the value of \<open>Date.now()\<close>.\<close>

definition normalizeAgentMetadata :: "int \<Rightarrow> js \<Rightarrow> js \<Rightarrow> sync_error + agent_metadata" where
  "normalizeAgentMetadata date v agentIdInput =
     (let source = object_or_empty v; get = js_get source; mode = text_of (get ''mode'');
          approval = text_of (get ''approvalMode'')
      in case normalizeAgentId (or_else (get ''agentId'') agentIdInput) of Inl e \<Rightarrow> Inl e
         | Inr agentId \<Rightarrow> Inr
            \<lparr>md_agent_id = agentId,
             md_latest_root_blob_id = field 128 (get ''latestRootBlobId''),
             md_name = agent_name (get ''name''),
             md_mode = (if mode \<in> set metadata_modes then mode else ''default''),
             md_is_run_everything = (get ''isRunEverything'' = JBool True),
             md_created_at = (case js_number (get ''createdAt'') of None \<Rightarrow> date | Some n \<Rightarrow> n),
             md_last_used_model = non_empty (field 160 (get ''lastUsedModel'')),
             md_last_debug_server_port =
               (case js_number (get ''lastDebugServerPort'') of
                  Some n \<Rightarrow> if 0 < n then Some n else None | None \<Rightarrow> None),
             md_current_plan_uri = non_empty (field 1000 (get ''currentPlanUri'')),
             md_subagent_info = subagent_of (get ''subagentInfo''),
             md_approval_mode = (if approval \<in> set approval_modes then Some approval else None),
             md_blob_encryption_key_id = non_empty (field 160 (get ''blobEncryptionKeyId''))\<rparr>)"

definition subagent_json :: "subagent_info option \<Rightarrow> js" where
  "subagent_json x =
     (case x of None \<Rightarrow> JUndef
      | Some s \<Rightarrow> JObj
         [(''parentAgentId'', JStr (si_parent_agent_id s)),
          (''rootParentAgentId'', JStr (si_root_parent_agent_id s)),
          (''toolCallId'', JStr (si_tool_call_id s)), (''typeName'', JStr (si_type_name s))])"

definition metadata_json :: "agent_metadata \<Rightarrow> js" where
  "metadata_json m = JObj
     [(''agentId'', JStr (md_agent_id m)), (''latestRootBlobId'', JStr (md_latest_root_blob_id m)),
      (''name'', JStr (md_name m)), (''mode'', JStr (md_mode m)),
      (''isRunEverything'', JBool (md_is_run_everything m)), (''createdAt'', JNum (md_created_at m)),
      (''lastUsedModel'', opt_text (md_last_used_model m)),
      (''lastDebugServerPort'', case md_last_debug_server_port m of None \<Rightarrow> JUndef | Some n \<Rightarrow> JNum n),
      (''currentPlanUri'', opt_text (md_current_plan_uri m)),
      (''subagentInfo'', subagent_json (md_subagent_info m)),
      (''approvalMode'', opt_text (md_approval_mode m)),
      (''blobEncryptionKeyId'', opt_text (md_blob_encryption_key_id m))]"

record agent_profile =
  ag_agent_id :: string
  ag_name :: string
  ag_description :: string
  ag_title :: string
  ag_avatar_shape :: string
  ag_avatar_color :: string

definition normalizeAgentProfile :: "js \<Rightarrow> js \<Rightarrow> sync_error + agent_profile" where
  "normalizeAgentProfile v agentIdInput =
     (let get = js_get (object_or_empty v)
      in case normalizeAgentId (or_else (get ''agentId'') agentIdInput) of Inl e \<Rightarrow> Inl e
         | Inr agentId \<Rightarrow> Inr
            \<lparr>ag_agent_id = agentId, ag_name = agent_name (get ''name''),
             ag_description = field 4000 (get ''description''), ag_title = field 240 (get ''title''),
             ag_avatar_shape = field 80 (get ''avatarShape''),
             ag_avatar_color = field 80 (get ''avatarColor'')\<rparr>)"

definition profile_json :: "agent_profile \<Rightarrow> js" where
  "profile_json p = JObj
     [(''agentId'', JStr (ag_agent_id p)), (''name'', JStr (ag_name p)),
      (''description'', JStr (ag_description p)), (''title'', JStr (ag_title p)),
      (''avatarShape'', JStr (ag_avatar_shape p)), (''avatarColor'', JStr (ag_avatar_color p))]"

record bot_profile =
  bt_id :: string
  bt_agent_id :: string
  bt_username :: string
  bt_display_name :: string
  bt_description :: string
  bt_title :: string
  bt_hidden :: bool
  bt_avatar :: "string option"
  bt_avatar_shape :: "string option"
  bt_avatar_color :: "string option"
  bt_notifications_enabled :: bool
  bt_notify_on_updates :: bool
  bt_unread :: bool
  bt_conversation_id :: string
  bt_managed_by :: string
  bt_main_app :: bool
  bt_natural_language :: bool
  bt_menu_button :: "js option"

definition normalizeBotProfile :: "js \<Rightarrow> js \<Rightarrow> sync_error + bot_profile" where
  "normalizeBotProfile v fallbackId =
     (let get = js_get (object_or_empty v);
          i = trimmed_lower (or_else (get ''id'') fallbackId)
      in if i = [] \<or> 160 < length i then Inl BOT_ID_INVALID
         else case normalizeAgentId (or_else (get ''agentId'') (JStr i)) of Inl e \<Rightarrow> Inl e
         | Inr agentId \<Rightarrow> Inr
            \<lparr>bt_id = i, bt_agent_id = agentId,
             bt_username = field 80 (get ''username''),
             bt_display_name = field 160 (or_else (get ''displayName'') (or_else (get ''name'') (JStr i))),
             bt_description = field 4000 (get ''description''),
             bt_title = field 240 (get ''title''),
             bt_hidden = (get ''hidden'' = JBool True),
             bt_avatar = (case get ''avatar'' of JStr s \<Rightarrow> Some (slice_to 8388608 s) | _ \<Rightarrow> None),
             bt_avatar_shape = non_empty (field 80 (get ''avatarShape'')),
             bt_avatar_color = non_empty (field 80 (get ''avatarColor'')),
             bt_notifications_enabled = (get ''notificationsEnabled'' \<noteq> JBool False),
             bt_notify_on_updates = (get ''notifyOnUpdates'' \<noteq> JBool False),
             bt_unread = (get ''unread'' = JBool True),
             bt_conversation_id = field 240 (get ''conversationId''),
             bt_managed_by = field 120 (get ''managedBy''),
             bt_main_app = (get ''mainApp'' \<noteq> JBool False),
             bt_natural_language = (get ''naturalLanguage'' \<noteq> JBool False),
             bt_menu_button = (if is_object (get ''menuButton'') then Some (get ''menuButton'') else None)\<rparr>)"

definition bot_json :: "bot_profile \<Rightarrow> js" where
  "bot_json b = JObj
     [(''id'', JStr (bt_id b)), (''agentId'', JStr (bt_agent_id b)), (''username'', JStr (bt_username b)),
      (''displayName'', JStr (bt_display_name b)), (''description'', JStr (bt_description b)),
      (''title'', JStr (bt_title b)), (''hidden'', JBool (bt_hidden b)), (''avatar'', opt_text (bt_avatar b)),
      (''avatarShape'', opt_text (bt_avatar_shape b)), (''avatarColor'', opt_text (bt_avatar_color b)),
      (''notificationsEnabled'', JBool (bt_notifications_enabled b)),
      (''notifyOnUpdates'', JBool (bt_notify_on_updates b)), (''unread'', JBool (bt_unread b)),
      (''conversationId'', JStr (bt_conversation_id b)), (''managedBy'', JStr (bt_managed_by b)),
      (''mainApp'', JBool (bt_main_app b)), (''naturalLanguage'', JBool (bt_natural_language b)),
      (''menuButton'', case bt_menu_button b of None \<Rightarrow> JUndef | Some m \<Rightarrow> m)]"

end
