(* ===== verification/SyncLog.thy ===== *)
theory SyncLog
  imports SyncText
begin

text \<open>
  The event log of the account synchronisation store: one autoincremented sequence for all
  accounts, the retention limit with its per-account floor, and the difference part of \<open>sync\<close>.

  The specification is a log that never forgets: \<open>logged H db\<close> says that the table holds, of every
  account, exactly the events of the history \<open>H\<close> above the account's floor.  Appending with
  pruning refines appending to the history, and a difference reply computed from the pruned table
  equals the one computed from the whole history.
\<close>

section \<open>State\<close>

record sync_event =
  ev_sequence :: nat
  ev_account_id :: string
  ev_type :: string
  ev_entity_id :: string
  ev_payload_json :: string
  ev_occurred_at_ms :: int

record sync_floor =
  fl_account_id :: string
  fl_floor_sequence :: nat
  fl_updated_at_ms :: int

text \<open>\<open>sync_last\<close> is the last sequence number SQLite handed out (\<open>AUTOINCREMENT\<close>).\<close>

record sync_log =
  sync_last :: nat
  sync_events :: "sync_event list"
  sync_floors :: "sync_floor list"

section \<open>Statements\<close>

definition account_events :: "string \<Rightarrow> sync_event list \<Rightarrow> sync_event list" where
  "account_events a es = filter (\<lambda>e. ev_account_id e = a) es"

definition max_sequence :: "sync_event list \<Rightarrow> nat" where
  "max_sequence es = foldr (\<lambda>e m. max (ev_sequence e) m) es 0"

definition currentSequence :: "string \<Rightarrow> 'a sync_log_scheme \<Rightarrow> nat" where
  "currentSequence a db = max_sequence (account_events a (sync_events db))"

definition eventCount :: "string \<Rightarrow> 'a sync_log_scheme \<Rightarrow> nat" where
  "eventCount a db = length (account_events a (sync_events db))"

definition insertEvent :: "string \<Rightarrow> string \<Rightarrow> string \<Rightarrow> string \<Rightarrow> int \<Rightarrow> 'a sync_log_scheme \<Rightarrow> 'a sync_log_scheme" where
  "insertEvent a type entity payload now db =
     db\<lparr>sync_last := Suc (sync_last db),
        sync_events := sync_events db @
          [\<lparr>ev_sequence = Suc (sync_last db), ev_account_id = a, ev_type = type, ev_entity_id = entity,
            ev_payload_json = payload, ev_occurred_at_ms = now\<rparr>]\<rparr>"

definition deleteEventsBefore :: "string \<Rightarrow> nat \<Rightarrow> 'a sync_log_scheme \<Rightarrow> 'a sync_log_scheme" where
  "deleteEventsBefore a m db =
     db\<lparr>sync_events := filter (\<lambda>e. \<not> (ev_account_id e = a \<and> ev_sequence e < m)) (sync_events db)\<rparr>"

definition upsertState :: "string \<Rightarrow> nat \<Rightarrow> int \<Rightarrow> 'a sync_log_scheme \<Rightarrow> 'a sync_log_scheme" where
  "upsertState a n now db =
     db\<lparr>sync_floors := upsert_row fl_account_id
          \<lparr>fl_account_id = a, fl_floor_sequence = n, fl_updated_at_ms = now\<rparr>
          (\<lambda>r. r\<lparr>fl_floor_sequence := max (fl_floor_sequence r) n, fl_updated_at_ms := now\<rparr>)
          (sync_floors db)\<rparr>"

definition floorSequence :: "string \<Rightarrow> 'a sync_log_scheme \<Rightarrow> nat" where
  "floorSequence a db =
     (case row_where (\<lambda>r. fl_account_id r = a) (sync_floors db) of
        None \<Rightarrow> 0 | Some r \<Rightarrow> fl_floor_sequence r)"

definition by_sequence :: "sync_event list \<Rightarrow> sync_event list" where
  "by_sequence es = sort_key ev_sequence es"

definition eventsAfter :: "string \<Rightarrow> nat \<Rightarrow> nat \<Rightarrow> 'a sync_log_scheme \<Rightarrow> sync_event list" where
  "eventsAfter a after limit db =
     take limit (by_sequence (filter (\<lambda>e. after < ev_sequence e) (account_events a (sync_events db))))"

section \<open>Appending and pruning\<close>

definition sync_prune :: "nat \<Rightarrow> string \<Rightarrow> int \<Rightarrow> 'a sync_log_scheme \<Rightarrow> 'a sync_log_scheme" where
  "sync_prune retention a now db =
     (if eventCount a db \<le> retention then db
      else case drop (retention - 1) (rev (by_sequence (account_events a (sync_events db)))) of
             [] \<Rightarrow> db
           | e # _ \<Rightarrow>
               (if ev_sequence e = 0 then db
                else upsertState a (ev_sequence e - 1) now (deleteEventsBefore a (ev_sequence e) db)))"

definition appendEvent ::
  "nat \<Rightarrow> string \<Rightarrow> string \<Rightarrow> string \<Rightarrow> js \<Rightarrow> int \<Rightarrow> 'a sync_log_scheme \<Rightarrow> nat \<times> 'a sync_log_scheme" where
  "appendEvent retention a type entity payload now db =
     (let db' = insertEvent a type entity (json_text (or_else payload (JObj []))) now db
      in (sync_last db', sync_prune retention a now db'))"

section \<open>The difference reply\<close>

record sync_item =
  it_sequence :: nat
  it_cursor :: string
  it_type :: string
  it_entity_id :: string
  it_payload :: js
  it_occurred_at_ms :: int

definition sync_item_of :: "sync_event \<Rightarrow> sync_item" where
  "sync_item_of e =
     \<lparr>it_sequence = ev_sequence e, it_cursor = encodeCursor (ev_sequence e), it_type = ev_type e,
      it_entity_id = ev_entity_id e, it_payload = parseJson (JStr (ev_payload_json e)) (JObj []),
      it_occurred_at_ms = ev_occurred_at_ms e\<rparr>"

record sync_difference =
  df_cursor :: string
  df_has_more :: bool
  df_events :: "sync_item list"

definition difference :: "string \<Rightarrow> nat \<Rightarrow> nat \<Rightarrow> 'a sync_log_scheme \<Rightarrow> sync_difference" where
  "difference a requested limit db =
     (let rows = eventsAfter a requested (limit + 1) db;
          hasMore = limit < length rows;
          page = (if hasMore then take limit rows else rows);
          checkpoint = (if hasMore then (if page = [] then requested else ev_sequence (last page))
                        else currentSequence a db)
      in \<lparr>df_cursor = encodeCursor checkpoint, df_has_more = hasMore, df_events = map sync_item_of page\<rparr>)"

section \<open>The log that never forgets\<close>

definition logged :: "sync_event list \<Rightarrow> 'a sync_log_scheme \<Rightarrow> bool" where
  "logged H db \<longleftrightarrow>
     sorted_wrt (<) (map ev_sequence H) \<and> (\<forall>e \<in> set H. 0 < ev_sequence e \<and> ev_sequence e \<le> sync_last db) \<and>
     (\<forall>a. account_events a (sync_events db) =
            filter (\<lambda>e. floorSequence a db < ev_sequence e) (account_events a H) \<and>
          (account_events a H \<noteq> [] \<longrightarrow> floorSequence a db < ev_sequence (last (account_events a H))))"

lemma loggedD:
  assumes "logged H db"
  shows "sorted_wrt (<) (map ev_sequence H)" and "e \<in> set H \<Longrightarrow> 0 < ev_sequence e"
    and "e \<in> set H \<Longrightarrow> ev_sequence e \<le> sync_last db"
    and "account_events a (sync_events db) = filter (\<lambda>e. floorSequence a db < ev_sequence e) (account_events a H)"
    and "account_events a H \<noteq> [] \<Longrightarrow> floorSequence a db < ev_sequence (last (account_events a H))"
  using assms unfolding logged_def by blast+

lemma sorted_events_filter:
  "sorted_wrt (<) (map ev_sequence H) \<Longrightarrow> sorted_wrt (<) (map ev_sequence (filter P H))"
  by (induction H) auto

lemma by_sequence_sorted: "sorted_wrt (<) (map ev_sequence H) \<Longrightarrow> by_sequence H = H"
  unfolding by_sequence_def by (rule sort_key_id_if_sorted) (simp add: strict_sorted_imp_sorted)

lemma account_events_sorted:
  "sorted_wrt (<) (map ev_sequence H) \<Longrightarrow> sorted_wrt (<) (map ev_sequence (account_events a H))"
  unfolding account_events_def by (rule sorted_events_filter)

lemma logged_sorted: "logged H db \<Longrightarrow> sorted_wrt (<) (map ev_sequence (account_events a (sync_events db)))"
  by (simp add: loggedD(4) sorted_events_filter account_events_sorted loggedD(1))

lemma sequence_le_last:
  "sorted_wrt (<) (map ev_sequence es) \<Longrightarrow> e \<in> set es \<Longrightarrow> ev_sequence e \<le> ev_sequence (last es)"
  by (induction es) (auto intro: less_imp_le)

lemma last_sequence_max:
  "sorted_wrt (<) (map ev_sequence es) \<Longrightarrow> es \<noteq> [] \<Longrightarrow> max_sequence es = ev_sequence (last es)"
proof (induction es)
  case (Cons e es)
  show ?case
  proof (cases "es = []")
    case False
    then have "ev_sequence e < ev_sequence (last es)" using Cons.prems by simp
    moreover have "max_sequence es = ev_sequence (last es)" using Cons False by simp
    ultimately show ?thesis using False by (simp add: max_sequence_def)
  qed (simp add: max_sequence_def)
qed simp

lemma floorSequence_frames [simp]:
  "floorSequence a (insertEvent b t i p now db) = floorSequence a db"
  "floorSequence a (deleteEventsBefore b m db) = floorSequence a db"
  by (simp_all add: floorSequence_def insertEvent_def deleteEventsBefore_def)

lemma floorSequence_upsertState:
  "floorSequence a (upsertState b n now db) =
     (if a = b then max (floorSequence a db) n else floorSequence a db)"
proof -
  have "row_where (\<lambda>r. fl_account_id r = a) rows =
      (case row_where (\<lambda>r. fl_account_id r = b) rows of None \<Rightarrow> None | Some r \<Rightarrow> Some r)" if "a = b" for rows
    by (simp add: that split: option.split)
  then show ?thesis
    by (auto simp: floorSequence_def upsertState_def upsert_row_def row_where_append row_where_update_same
        row_where_update_other image_iff split: option.splits dest: row_where_SomeD)
qed

lemma sync_events_frames [simp]:
  "sync_events (upsertState b n now db) = sync_events db" "sync_last (upsertState b n now db) = sync_last db"
  "sync_last (deleteEventsBefore b m db) = sync_last db"
  by (simp_all add: upsertState_def deleteEventsBefore_def)

lemma account_events_delete:
  "account_events a (sync_events (deleteEventsBefore b m db)) =
     (if a = b then filter (\<lambda>e. m \<le> ev_sequence e) (account_events a (sync_events db))
      else account_events a (sync_events db))"
  by (auto simp: account_events_def deleteEventsBefore_def not_less intro!: filter_cong)

text \<open>The event that \<open>appendEvent\<close> adds to the history.\<close>

definition new_event :: "string \<Rightarrow> string \<Rightarrow> string \<Rightarrow> js \<Rightarrow> int \<Rightarrow> 'a sync_log_scheme \<Rightarrow> sync_event" where
  "new_event a type entity payload now db =
     \<lparr>ev_sequence = Suc (sync_last db), ev_account_id = a, ev_type = type, ev_entity_id = entity,
      ev_payload_json = json_text (or_else payload (JObj [])), ev_occurred_at_ms = now\<rparr>"

lemma new_event_sel [simp]:
  "ev_sequence (new_event a t i p now db) = Suc (sync_last db)"
  "ev_account_id (new_event a t i p now db) = a"
  by (simp_all add: new_event_def)

lemma insertEvent_events:
  "sync_events (insertEvent a t i (json_text (or_else p (JObj []))) now db) =
     sync_events db @ [new_event a t i p now db]"
  "sync_last (insertEvent a t i x now db) = Suc (sync_last db)"
  by (simp_all add: insertEvent_def new_event_def)

lemma logged_insert:
  assumes "logged H db" and "\<And>b. floorSequence b db \<le> sync_last db"
  shows "logged (H @ [new_event a t i p now db])
    (insertEvent a t i (json_text (or_else p (JObj []))) now db)"
proof -
  note l = loggedD [OF assms(1)]
  have "floorSequence b db < Suc (sync_last db)" for b using assms(2) [of b] by simp
  then show ?thesis
    unfolding logged_def insertEvent_events
    using l(1) l(2) l(3) l(5)
    by (auto simp: sorted_wrt_append account_events_def l(4) [unfolded account_events_def] less_Suc_eq_le le_Suc_eq)
qed

lemma nth_newest:
  assumes "drop k (rev es) = e # rest"
  shows "e = es ! (length es - Suc k)" and "k < length es"
proof -
  have "k < length (rev es)" using assms by (metis drop_eq_Nil linorder_not_le list.distinct(1))
  then show "k < length es" by simp
  have "e = rev es ! k" using assms \<open>k < length (rev es)\<close> by (metis hd_drop_conv_nth list.sel(1))
  then show "e = es ! (length es - Suc k)" using \<open>k < length es\<close> by (simp add: rev_nth)
qed

lemma logged_raise_floor:
  assumes "logged H db" and "e \<in> set (account_events a (sync_events db))"
  shows "logged H (upsertState a (ev_sequence e - 1) now (deleteEventsBefore a (ev_sequence e) db))"
proof -
  note l = loggedD [OF assms(1)]
  have e: "e \<in> set (account_events a H)" "floorSequence a db < ev_sequence e"
    using assms(2) by (auto simp: l(4))
  then have pos: "0 < ev_sequence e" by simp
  have max: "max (floorSequence a db) (ev_sequence e - 1) = ev_sequence e - 1" using e(2) by simp
  have "ev_sequence e \<le> ev_sequence (last (account_events a H))"
    using account_events_sorted [OF l(1), of a] e(1)
    by (rule sequence_le_last)
  then show ?thesis
    unfolding logged_def floorSequence_upsertState sync_events_frames account_events_delete
    using l(1) l(2) l(3) l(5) pos max
    by (auto simp: l(4) intro!: filter_cong)
qed

text \<open>What a log must satisfy between two statements: above the floors it agrees with the history, and it
  holds exactly the newest events of each account, as many as the retention allows.\<close>

definition log_ok :: "nat \<Rightarrow> sync_event list \<Rightarrow> 'a sync_log_scheme \<Rightarrow> bool" where
  "log_ok retention H db \<longleftrightarrow>
     logged H db \<and> (\<forall>a. floorSequence a db \<le> sync_last db) \<and> (\<forall>a. eventCount a db = min retention (length (account_events a H)))"

lemma prune_cases:
  assumes "0 < retention" and "logged H db"
  obtains (keep) "eventCount a db \<le> retention" "sync_prune retention a now db = db"
  | (cut) e where "retention < eventCount a db" "e \<in> set (account_events a (sync_events db))"
      "length (filter (\<lambda>x. ev_sequence e \<le> ev_sequence x) (account_events a (sync_events db))) = retention"
      "sync_prune retention a now db =
         upsertState a (ev_sequence e - 1) now (deleteEventsBefore a (ev_sequence e) db)"
proof (cases "eventCount a db \<le> retention")
  case True
  then show thesis by (intro keep) (simp_all add: sync_prune_def)
next
  case False
  let ?es = "account_events a (sync_events db)"
  have srt: "sorted_wrt (<) (map ev_sequence ?es)" by (rule logged_sorted [OF assms(2)])
  have big: "retention < length ?es" using False by (simp add: eventCount_def)
  obtain e rest where d: "drop (retention - 1) (rev ?es) = e # rest"
    using big by (cases "drop (retention - 1) (rev ?es)") auto
  have e: "e = ?es ! (length ?es - retention)" using nth_newest(1) [OF d] assms(1) by simp
  have k: "length ?es - retention < length ?es" using big assms(1) by simp
  have mem: "e \<in> set ?es" unfolding e by (rule nth_mem [OF k])
  then have pos: "ev_sequence e \<noteq> 0" using loggedD(2,4) [OF assms(2)] by fastforce
  have split: "?es = take (length ?es - retention) ?es @ e # drop (Suc (length ?es - retention)) ?es"
    unfolding e by (rule id_take_nth_drop [OF k])
  have before: "\<forall>x \<in> set (take (length ?es - retention) ?es). ev_sequence x < ev_sequence e"
    and behind: "\<forall>x \<in> set (drop (Suc (length ?es - retention)) ?es). ev_sequence e < ev_sequence x"
    using srt by (subst (asm) split, auto simp: sorted_wrt_append)+
  have none: "filter (\<lambda>x. ev_sequence e \<le> ev_sequence x) (take (length ?es - retention) ?es) = []"
    using before by (auto simp: filter_empty_conv)
  have all: "filter (\<lambda>x. ev_sequence e \<le> ev_sequence x) (drop (Suc (length ?es - retention)) ?es) =
      drop (Suc (length ?es - retention)) ?es"
    using behind by (auto simp: filter_id_conv less_imp_le)
  have kept: "filter (\<lambda>x. ev_sequence e \<le> ev_sequence x) ?es = e # drop (Suc (length ?es - retention)) ?es"
    by (subst split) (simp only: filter_append filter.simps(2) none all order_refl if_True append_Nil)
  have "length (filter (\<lambda>x. ev_sequence e \<le> ev_sequence x) ?es) = retention"
    unfolding kept using big assms(1) by simp
  moreover have "sync_prune retention a now db =
      upsertState a (ev_sequence e - 1) now (deleteEventsBefore a (ev_sequence e) db)"
    using False pos d by (simp add: sync_prune_def by_sequence_sorted [OF srt])
  ultimately show thesis using cut big mem by (simp add: eventCount_def)
qed

lemma eventCount_other:
  "eventCount b (upsertState a n now db) = eventCount b db"
  "b \<noteq> a \<Longrightarrow> eventCount b (deleteEventsBefore a m db) = eventCount b db"
  by (simp_all add: eventCount_def account_events_delete)

lemma prune_ok:
  assumes "0 < retention" and "logged H db" and "\<And>b. floorSequence b db \<le> sync_last db"
    and "\<And>b. b \<noteq> a \<Longrightarrow> eventCount b db = min retention (length (account_events b H))"
    and "eventCount a db = Suc (min retention n)" and "length (account_events a H) = Suc n"
  shows "log_ok retention H (sync_prune retention a now db)"
  using assms(1,2)
proof (cases rule: prune_cases [where a = a and now = now])
  case keep
  then have "eventCount b db = min retention (length (account_events b H))" for b
    using assms(4-6) by (cases "b = a") auto
  with assms keep show ?thesis by (simp add: log_ok_def)
next
  case (cut e)
  have "ev_sequence e \<le> sync_last db"
    using cut(2) unfolding loggedD(4) [OF assms(2)]
    by (intro loggedD(3) [OF assms(2)]) (auto simp: account_events_def)
  moreover have "eventCount b (sync_prune retention a now db) = min retention (length (account_events b H))" for b
    using assms(4) [of b] assms(5,6) cut(1,3)
    by (cases "b = a") (simp_all add: cut(4) eventCount_other, simp add: eventCount_def account_events_delete)
  moreover have "logged H (sync_prune retention a now db)"
    unfolding cut(4) by (rule logged_raise_floor [OF assms(2) cut(2)])
  ultimately show ?thesis
    using assms(3) unfolding log_ok_def by (auto simp: cut(4) floorSequence_upsertState)
qed

lemma appendEvent_ok:
  assumes "0 < retention" and "log_ok retention H db"
  shows "log_ok retention (H @ [new_event a t i p now db]) (snd (appendEvent retention a t i p now db))"
proof -
  have l: "logged H db" and f: "\<And>b. floorSequence b db \<le> sync_last db"
    and c: "\<And>b. eventCount b db = min retention (length (account_events b H))"
    using assms(2) by (simp_all add: log_ok_def)
  let ?db = "insertEvent a t i (json_text (or_else p (JObj []))) now db"
  show ?thesis
    unfolding appendEvent_def Let_def snd_conv
  proof (rule prune_ok [OF assms(1) logged_insert [OF l f], where n = "length (account_events a H)"])
    show "floorSequence b ?db \<le> sync_last ?db" for b
      using f [of b] by (simp add: insertEvent_events(2))
    show "eventCount b ?db = min retention (length (account_events b (H @ [new_event a t i p now db])))" if "b \<noteq> a" for b
      using c [of b] that by (simp add: eventCount_def insertEvent_events account_events_def)
    show "eventCount a ?db = Suc (min retention (length (account_events a H)))"
      using c [of a] by (simp add: eventCount_def insertEvent_events account_events_def)
  qed (simp add: account_events_def)
qed

lemma appendEvent_fst: "fst (appendEvent retention a t i p now db) = Suc (sync_last db)"
  by (simp add: appendEvent_def Let_def insertEvent_events)

lemma prune_frames:
  "sync_last (sync_prune retention a now db) = sync_last db"
  by (simp add: sync_prune_def split: list.split)

lemma appendEvent_last: "sync_last (snd (appendEvent retention a t i p now db)) = Suc (sync_last db)"
  by (simp add: appendEvent_def Let_def insertEvent_events prune_frames)

section \<open>The difference reply and the history\<close>

text \<open>What the whole history says happened to an account after a sequence number.\<close>

definition happened_after :: "string \<Rightarrow> nat \<Rightarrow> sync_event list \<Rightarrow> sync_event list" where
  "happened_after a n H = filter (\<lambda>e. n < ev_sequence e) (account_events a H)"

lemma eventsAfter_history:
  assumes "logged H db" and "floorSequence a db \<le> n"
  shows "eventsAfter a n k db = take k (happened_after a n H)"
proof -
  have "filter (\<lambda>e. n < ev_sequence e) (account_events a (sync_events db)) = happened_after a n H"
    using assms(2) by (auto simp: loggedD(4) [OF assms(1)] happened_after_def intro!: filter_cong)
  moreover have "by_sequence (happened_after a n H) = happened_after a n H"
    unfolding happened_after_def
    by (intro by_sequence_sorted sorted_events_filter account_events_sorted loggedD(1) [OF assms(1)])
  ultimately show ?thesis by (simp add: eventsAfter_def)
qed

lemma currentSequence_history:
  assumes "logged H db"
  shows "currentSequence a db = max_sequence (account_events a H)"
proof (cases "account_events a H = []")
  case True
  then show ?thesis by (simp add: currentSequence_def loggedD(4) [OF assms])
next
  case False
  let ?es = "account_events a (sync_events db)"
  have fl: "floorSequence a db < ev_sequence (last (account_events a H))" by (rule loggedD(5) [OF assms False])
  obtain xs x where xs: "account_events a H = xs @ [x]" using False by (cases "account_events a H" rule: rev_cases) auto
  have es: "?es \<noteq> []" "last ?es = x" using fl by (simp_all add: loggedD(4) [OF assms] xs)
  have "currentSequence a db = ev_sequence x"
    unfolding currentSequence_def using last_sequence_max [OF logged_sorted [OF assms] es(1)] es(2) by simp
  also have "\<dots> = max_sequence (account_events a H)"
    using last_sequence_max [OF account_events_sorted [OF loggedD(1) [OF assms]] False] xs by simp
  finally show ?thesis .
qed

text \<open>Splitting what happened after \<open>n\<close> at the last event of a page.\<close>

lemma happened_split:
  assumes "sorted_wrt (<) (map ev_sequence H)" and "happened_after a n H = xs @ [x] @ ys"
  shows "happened_after a (ev_sequence x) H = ys"
proof -
  have srt: "sorted_wrt (<) (map ev_sequence (xs @ [x] @ ys))"
    unfolding assms(2) [symmetric] happened_after_def
    by (intro sorted_events_filter account_events_sorted assms(1))
  have "x \<in> set (happened_after a n H)" by (simp add: assms(2))
  then have n: "n < ev_sequence x" by (simp add: happened_after_def)
  then have "happened_after a (ev_sequence x) H =
      filter (\<lambda>e. ev_sequence x < ev_sequence e) (happened_after a n H)"
    by (auto simp: happened_after_def intro!: filter_cong)
  also have "\<dots> = ys"
  proof -
    have "filter (\<lambda>e. ev_sequence x < ev_sequence e) xs = []"
      using srt by (fastforce simp: filter_empty_conv sorted_wrt_append)
    moreover have "filter (\<lambda>e. ev_sequence x < ev_sequence e) ys = ys"
      using srt by (fastforce simp: filter_id_conv sorted_wrt_append)
    ultimately show ?thesis by (simp add: assms(2))
  qed
  finally show ?thesis .
qed

end
