(* ===== verification/AccountSync.thy ===== *)
theory AccountSync
  imports SyncLog
begin

text \<open>
  The account synchronisation store (account\_sync\_store.js): Mini App installs, bot memberships,
  agents with their versioned object store, and cloud storage, every change of which appends an
  event to the log.  JSON columns hold text, as in the database.  Outside the model: the SHA-256
  function and \<open>localeCompare\<close>, which are members of \<open>sync_env\<close>; buffers are lists of bytes; the
  length limit SQLite puts on a \<open>LIKE\<close> pattern.  \<open>now\<close> and \<open>date\<close> are the values of the clock an
  operation reads.
\<close>

section \<open>State\<close>

record sync_env =
  se_sha256 :: "string \<Rightarrow> string"
  se_locale_compare :: "string \<Rightarrow> string \<Rightarrow> int"
  se_retention :: nat

text \<open>\<open>Math.max(16, Number(eventRetention) || 10000)\<close>, for an option that is an integer or no number; a fraction
  or an infinite value, which JavaScript has and \<open>js_number\<close> does not read, is outside the model.\<close>

definition eventRetention :: "js \<Rightarrow> nat" where
  "eventRetention v = nat (max 16 (case js_number v of None \<Rightarrow> 10000 | Some n \<Rightarrow> if n = 0 then 10000 else n))"

record install_row =
  in_account_id :: string
  in_mini_app_id :: string
  in_version :: string
  in_bot_id :: string
  in_bot_json :: string
  in_installed_at_ms :: int
  in_updated_at_ms :: int

record membership_row =
  mb_account_id :: string
  mb_bot_id :: string
  mb_source :: string
  mb_source_id :: string
  mb_profile_json :: string
  mb_added_at_ms :: int
  mb_updated_at_ms :: int

record cloud_row =
  cl_account_id :: string
  cl_mini_app_id :: string
  cl_key :: string
  cl_value :: string
  cl_revision :: nat
  cl_updated_at_ms :: int

record agent_row =
  gr_account_id :: string
  gr_agent_id :: string
  gr_profile_json :: string
  gr_metadata_json :: string
  gr_created_at_ms :: int
  gr_updated_at_ms :: int

record blob_row =
  bl_account_id :: string
  bl_agent_id :: string
  bl_blob_id :: string
  bl_sha256 :: string
  bl_data :: string
  bl_size_bytes :: nat
  bl_created_at_ms :: int

record ref_row =
  rf_account_id :: string
  rf_agent_id :: string
  rf_rel_path :: string
  rf_blob_id :: string
  rf_etag :: string
  rf_revision :: nat
  rf_updated_at_ms :: int

record sync_db = sync_log +
  installs :: "install_row list"
  memberships :: "membership_row list"
  cloud_values :: "cloud_row list"
  agents :: "agent_row list"
  agent_blobs :: "blob_row list"
  agent_refs :: "ref_row list"

section \<open>Statements\<close>

definition install_key :: "install_row \<Rightarrow> string \<times> string" where
  "install_key r = (in_account_id r, in_mini_app_id r)"

definition membership_key :: "membership_row \<Rightarrow> string \<times> string \<times> string \<times> string" where
  "membership_key r = (mb_account_id r, mb_bot_id r, mb_source r, mb_source_id r)"

definition cloud_key :: "cloud_row \<Rightarrow> string \<times> string \<times> string" where
  "cloud_key r = (cl_account_id r, cl_mini_app_id r, cl_key r)"

definition agent_key :: "agent_row \<Rightarrow> string \<times> string" where
  "agent_key r = (gr_account_id r, gr_agent_id r)"

definition blob_key :: "blob_row \<Rightarrow> string \<times> string \<times> string" where
  "blob_key r = (bl_account_id r, bl_agent_id r, bl_blob_id r)"

definition ref_key :: "ref_row \<Rightarrow> string \<times> string \<times> string" where
  "ref_key r = (rf_account_id r, rf_agent_id r, rf_rel_path r)"

definition getMiniAppInstall :: "string \<times> string \<Rightarrow> 'a sync_db_scheme \<Rightarrow> install_row option" where
  "getMiniAppInstall k db = row_where (\<lambda>r. install_key r = k) (installs db)"

definition upsertMiniAppInstall :: "install_row \<Rightarrow> 'a sync_db_scheme \<Rightarrow> 'a sync_db_scheme" where
  "upsertMiniAppInstall r db =
     db\<lparr>installs := upsert_row install_key r
          (\<lambda>old. old\<lparr>in_version := in_version r, in_bot_id := in_bot_id r, in_bot_json := in_bot_json r,
             in_updated_at_ms := in_updated_at_ms r\<rparr>) (installs db)\<rparr>"

definition deleteMiniAppInstall :: "string \<times> string \<Rightarrow> 'a sync_db_scheme \<Rightarrow> 'a sync_db_scheme" where
  "deleteMiniAppInstall k db = db\<lparr>installs := filter (\<lambda>r. install_key r \<noteq> k) (installs db)\<rparr>"

definition getBotMembership :: "string \<times> string \<times> string \<times> string \<Rightarrow> 'a sync_db_scheme \<Rightarrow> membership_row option" where
  "getBotMembership k db = row_where (\<lambda>r. membership_key r = k) (memberships db)"

definition upsertBotMembership :: "membership_row \<Rightarrow> 'a sync_db_scheme \<Rightarrow> 'a sync_db_scheme" where
  "upsertBotMembership r db =
     db\<lparr>memberships := upsert_row membership_key r
          (\<lambda>old. old\<lparr>mb_profile_json := mb_profile_json r, mb_updated_at_ms := mb_updated_at_ms r\<rparr>)
          (memberships db)\<rparr>"

definition deleteBotMembership :: "string \<times> string \<times> string \<times> string \<Rightarrow> 'a sync_db_scheme \<Rightarrow> 'a sync_db_scheme" where
  "deleteBotMembership k db = db\<lparr>memberships := filter (\<lambda>r. membership_key r \<noteq> k) (memberships db)\<rparr>"

definition agent_get :: "string \<times> string \<Rightarrow> 'a sync_db_scheme \<Rightarrow> agent_row option" where
  "agent_get k db = row_where (\<lambda>r. agent_key r = k) (agents db)"

definition agent_upsert :: "agent_row \<Rightarrow> 'a sync_db_scheme \<Rightarrow> 'a sync_db_scheme" where
  "agent_upsert r db =
     db\<lparr>agents := upsert_row agent_key r
          (\<lambda>old. old\<lparr>gr_profile_json := gr_profile_json r, gr_metadata_json := gr_metadata_json r,
             gr_updated_at_ms := gr_updated_at_ms r\<rparr>) (agents db)\<rparr>"

definition getAgentRef :: "string \<times> string \<times> string \<Rightarrow> 'a sync_db_scheme \<Rightarrow> ref_row option" where
  "getAgentRef k db = row_where (\<lambda>r. ref_key r = k) (agent_refs db)"

definition agentRefCount :: "string \<Rightarrow> string \<Rightarrow> 'a sync_db_scheme \<Rightarrow> nat" where
  "agentRefCount a g db = changes (\<lambda>r. rf_account_id r = a \<and> rf_agent_id r = g) (agent_refs db)"

definition upsertAgentRef :: "ref_row \<Rightarrow> 'a sync_db_scheme \<Rightarrow> 'a sync_db_scheme" where
  "upsertAgentRef r db =
     db\<lparr>agent_refs := upsert_row ref_key r
          (\<lambda>old. old\<lparr>rf_blob_id := rf_blob_id r, rf_etag := rf_etag r, rf_revision := rf_revision r,
             rf_updated_at_ms := rf_updated_at_ms r\<rparr>) (agent_refs db)\<rparr>"

definition deleteAgentRef :: "string \<times> string \<times> string \<Rightarrow> 'a sync_db_scheme \<Rightarrow> 'a sync_db_scheme" where
  "deleteAgentRef k db = db\<lparr>agent_refs := filter (\<lambda>r. ref_key r \<noteq> k) (agent_refs db)\<rparr>"

definition getAgentBlob :: "string \<times> string \<times> string \<Rightarrow> 'a sync_db_scheme \<Rightarrow> blob_row option" where
  "getAgentBlob k db = row_where (\<lambda>r. blob_key r = k) (agent_blobs db)"

text \<open>\<open>INSERT OR IGNORE\<close>\<close>

definition insertAgentBlob :: "blob_row \<Rightarrow> 'a sync_db_scheme \<Rightarrow> 'a sync_db_scheme" where
  "insertAgentBlob r db =
     (if blob_key r \<in> set (map blob_key (agent_blobs db)) then db
      else db\<lparr>agent_blobs := agent_blobs db @ [r]\<rparr>)"

definition cloud_get :: "string \<times> string \<times> string \<Rightarrow> 'a sync_db_scheme \<Rightarrow> cloud_row option" where
  "cloud_get k db = row_where (\<lambda>r. cloud_key r = k) (cloud_values db)"

definition cloudCount :: "string \<Rightarrow> string \<Rightarrow> 'a sync_db_scheme \<Rightarrow> nat" where
  "cloudCount a m db = changes (\<lambda>r. cl_account_id r = a \<and> cl_mini_app_id r = m) (cloud_values db)"

definition upsertCloudValue :: "cloud_row \<Rightarrow> 'a sync_db_scheme \<Rightarrow> 'a sync_db_scheme" where
  "upsertCloudValue r db =
     db\<lparr>cloud_values := upsert_row cloud_key r
          (\<lambda>old. old\<lparr>cl_value := cl_value r, cl_revision := cl_revision r,
             cl_updated_at_ms := cl_updated_at_ms r\<rparr>) (cloud_values db)\<rparr>"

definition cloud_delete :: "string \<times> string \<times> string \<Rightarrow> 'a sync_db_scheme \<Rightarrow> 'a sync_db_scheme" where
  "cloud_delete k db = db\<lparr>cloud_values := filter (\<lambda>r. cloud_key r \<noteq> k) (cloud_values db)\<rparr>"

section \<open>Agents\<close>

record agent_view =
  av_agent_id :: string
  av_profile :: js
  av_metadata :: js
  av_created_at_ms :: int
  av_updated_at_ms :: int

definition agent_view_of :: "agent_row \<Rightarrow> agent_view" where
  "agent_view_of r =
     \<lparr>av_agent_id = gr_agent_id r, av_profile = parseJson (JStr (gr_profile_json r)) (JObj []),
      av_metadata = parseJson (JStr (gr_metadata_json r)) (JObj []),
      av_created_at_ms = gr_created_at_ms r, av_updated_at_ms = gr_updated_at_ms r\<rparr>"

text \<open>\<open>{ ...(parseJson(stored, {}) ?? {}), ...given, agentId }\<close>\<close>

definition merged :: "string option \<Rightarrow> js \<Rightarrow> string \<Rightarrow> js" where
  "merged stored given agentId =
     (let old = (case stored of None \<Rightarrow> JObj [] | Some s \<Rightarrow> or_else (parseJson (JStr s) (JObj [])) (JObj []))
      in JObj (fold (\<lambda>(k, v). put_property k v)
                (own_properties old @ own_properties given @ [(''agentId'', JStr agentId)]) []))"

record upserted_agent =
  ua_agent_id :: string
  ua_profile :: agent_profile
  ua_metadata :: agent_metadata
  ua_updated_at_ms :: int

definition upsertAgent ::
  "sync_env \<Rightarrow> int \<Rightarrow> int \<Rightarrow> js \<Rightarrow> js \<Rightarrow> js \<Rightarrow> js \<Rightarrow> 'a sync_db_scheme \<Rightarrow>
   (sync_error + upserted_agent) \<times> 'a sync_db_scheme" where
  "upsertAgent env date now accountIdInput agentIdInput profile metadata db =
     (case normalizeAccountId accountIdInput of Inl e \<Rightarrow> (Inl e, db)
      | Inr a \<Rightarrow>
     (case normalizeAgentId agentIdInput of Inl e \<Rightarrow> (Inl e, db)
      | Inr g \<Rightarrow>
     (let previous = agent_get (a, g) db in
     (case normalizeAgentProfile (merged (map_option gr_profile_json previous) profile g) (JStr g) of
        Inl e \<Rightarrow> (Inl e, db)
      | Inr p \<Rightarrow>
     (case normalizeAgentMetadata date (merged (map_option gr_metadata_json previous) metadata g) (JStr g) of
        Inl e \<Rightarrow> (Inl e, db)
      | Inr m \<Rightarrow>
     (let profileJson = json_text (profile_json p); metadataJson = json_text (metadata_json m) in
      case previous of
        Some r \<Rightarrow>
          (if gr_profile_json r = profileJson \<and> gr_metadata_json r = metadataJson
           then (Inr \<lparr>ua_agent_id = g, ua_profile = p, ua_metadata = m, ua_updated_at_ms = gr_updated_at_ms r\<rparr>, db)
           else
             (Inr \<lparr>ua_agent_id = g, ua_profile = p, ua_metadata = m, ua_updated_at_ms = now\<rparr>,
              snd (appendEvent (se_retention env) a ''agent.updated'' g
                (JObj [(''agentId'', JStr g), (''profile'', profile_json p), (''metadata'', metadata_json m)]) now
                (agent_upsert \<lparr>gr_account_id = a, gr_agent_id = g, gr_profile_json = profileJson,
                   gr_metadata_json = metadataJson, gr_created_at_ms = gr_created_at_ms r,
                   gr_updated_at_ms = now\<rparr> db))))
      | None \<Rightarrow>
          (Inr \<lparr>ua_agent_id = g, ua_profile = p, ua_metadata = m, ua_updated_at_ms = now\<rparr>,
           snd (appendEvent (se_retention env) a ''agent.created'' g
             (JObj [(''agentId'', JStr g), (''profile'', profile_json p), (''metadata'', metadata_json m)]) now
             (agent_upsert \<lparr>gr_account_id = a, gr_agent_id = g, gr_profile_json = profileJson,
                gr_metadata_json = metadataJson, gr_created_at_ms = md_created_at m,
                gr_updated_at_ms = now\<rparr> db)))))))))"

definition getAgent :: "js \<Rightarrow> js \<Rightarrow> 'a sync_db_scheme \<Rightarrow> sync_error + agent_view option" where
  "getAgent accountIdInput agentIdInput db =
     (case normalizeAccountId accountIdInput of Inl e \<Rightarrow> Inl e
      | Inr a \<Rightarrow>
     (case normalizeAgentId agentIdInput of Inl e \<Rightarrow> Inl e
      | Inr g \<Rightarrow> Inr (map_option agent_view_of (agent_get (a, g) db))))"

text \<open>\<open>ORDER BY updated_at_ms DESC, agent_id ASC\<close>\<close>

definition listAgents :: "js \<Rightarrow> 'a sync_db_scheme \<Rightarrow> sync_error + agent_view list" where
  "listAgents accountIdInput db =
     (case normalizeAccountId accountIdInput of Inl e \<Rightarrow> Inl e
      | Inr a \<Rightarrow> Inr (map agent_view_of
          (sort_key (\<lambda>r. - gr_updated_at_ms r) (sort_key gr_agent_id
            (filter (\<lambda>r. gr_account_id r = a) (agents db))))))"

section \<open>Mini Apps and bots\<close>

definition bot_agent_profile :: "bot_profile \<Rightarrow> js" where
  "bot_agent_profile b = JObj
     [(''agentId'', JStr (bt_agent_id b)), (''name'', JStr (bt_display_name b)),
      (''description'', JStr (bt_description b)), (''title'', JStr (bt_title b)),
      (''avatarShape'', opt_text (bt_avatar_shape b)), (''avatarColor'', opt_text (bt_avatar_color b))]"

definition bot_agent_metadata :: "bot_profile \<Rightarrow> js" where
  "bot_agent_metadata b = JObj [(''agentId'', JStr (bt_agent_id b)), (''name'', JStr (bt_display_name b))]"

definition append_if ::
  "bool \<Rightarrow> sync_env \<Rightarrow> string \<Rightarrow> string \<Rightarrow> string \<Rightarrow> js \<Rightarrow> int \<Rightarrow> 'a sync_db_scheme \<Rightarrow> 'a sync_db_scheme" where
  "append_if c env a type entity payload now db =
     (if c then snd (appendEvent (se_retention env) a type entity payload now db) else db)"

record install_result =
  ir_changed :: bool
  ir_mini_app_id :: string
  ir_version :: string
  ir_bot :: bot_profile

definition manifest_version :: "js \<Rightarrow> string" where
  "manifest_version manifest =
     (let v = trimmed (js_get manifest ''version'') in if v = [] then ''0'' else v)"

definition installMiniApp ::
  "sync_env \<Rightarrow> int \<Rightarrow> int \<Rightarrow> int \<Rightarrow> js \<Rightarrow> js \<Rightarrow> 'a sync_db_scheme \<Rightarrow>
   (sync_error + install_result) \<times> 'a sync_db_scheme" where
  "installMiniApp env now date now' accountIdInput manifest db =
     (case normalizeAccountId accountIdInput of Inl e \<Rightarrow> (Inl e, db)
      | Inr a \<Rightarrow>
     (case normalizeMiniAppId (js_get manifest ''id'') of Inl e \<Rightarrow> (Inl e, db)
      | Inr m \<Rightarrow>
     (let version = manifest_version manifest in
     (case normalizeBotProfile (js_get manifest ''bot'') (JStr (m @ ''-bot'')) of Inl e \<Rightarrow> (Inl e, db)
      | Inr bt \<Rightarrow>
     in_transaction (\<lambda>db.
       (let previous = getMiniAppInstall (a, m) db;
            text = json_text (bot_json bt);
            db1 = upsertMiniAppInstall
              \<lparr>in_account_id = a, in_mini_app_id = m, in_version = version, in_bot_id = bt_id bt,
               in_bot_json = text,
               in_installed_at_ms = (case previous of None \<Rightarrow> now | Some r \<Rightarrow> in_installed_at_ms r),
               in_updated_at_ms = now\<rparr> db;
            previousBot = getBotMembership (a, bt_id bt, ''miniapp'', m) db1;
            db2 = upsertBotMembership
              \<lparr>mb_account_id = a, mb_bot_id = bt_id bt, mb_source = ''miniapp'', mb_source_id = m,
               mb_profile_json = text,
               mb_added_at_ms = (case previousBot of None \<Rightarrow> now | Some r \<Rightarrow> mb_added_at_ms r),
               mb_updated_at_ms = now\<rparr> db1;
            changed = (case previous of None \<Rightarrow> True
              | Some r \<Rightarrow> in_version r \<noteq> version \<or> in_bot_id r \<noteq> bt_id bt \<or> in_bot_json r \<noteq> text);
            db3 = append_if changed env a
              (if previous = None then ''miniapp.installed'' else ''miniapp.updated'') m
              (JObj [(''miniAppId'', JStr m), (''version'', JStr version), (''bot'', bot_json bt)]) now db2;
            db4 = append_if (previousBot = None) env a ''bot.added'' (bt_id bt)
              (JObj [(''bot'', bot_json bt), (''source'', JStr ''miniapp''), (''miniAppId'', JStr m)]) now db3
        in and_then (upsertAgent env date now' (JStr a) (JStr (bt_agent_id bt))
             (bot_agent_profile bt) (bot_agent_metadata bt) db4)
           (\<lambda>_ db5. (Inr \<lparr>ir_changed = changed, ir_mini_app_id = m, ir_version = version, ir_bot = bt\<rparr>, db5)))) db))))"

text \<open>The result of a removal: the bot of the removed Mini App, or nothing when it was not installed.\<close>

definition removeMiniApp ::
  "sync_env \<Rightarrow> int \<Rightarrow> js \<Rightarrow> js \<Rightarrow> 'a sync_db_scheme \<Rightarrow>
   (sync_error + string \<times> string option) \<times> 'a sync_db_scheme" where
  "removeMiniApp env now accountIdInput miniAppIdInput db =
     (case normalizeAccountId accountIdInput of Inl e \<Rightarrow> (Inl e, db)
      | Inr a \<Rightarrow>
     (case normalizeMiniAppId miniAppIdInput of Inl e \<Rightarrow> (Inl e, db)
      | Inr m \<Rightarrow>
     (case getMiniAppInstall (a, m) db of
        None \<Rightarrow> (Inr (m, None), db)
      | Some previous \<Rightarrow>
         (let db1 = deleteMiniAppInstall (a, m) db;
              botId = in_bot_id previous;
              membership = getBotMembership (a, botId, ''miniapp'', m) db1;
              db2 = (if membership = None then db1 else deleteBotMembership (a, botId, ''miniapp'', m) db1);
              db3 = append_if True env a ''miniapp.removed'' m
                (JObj [(''miniAppId'', JStr m), (''botId'', JStr botId)]) now db2;
              db4 = append_if (membership \<noteq> None) env a ''bot.removed'' botId
                (JObj [(''botId'', JStr botId), (''source'', JStr ''miniapp''), (''miniAppId'', JStr m)]) now db3
          in (Inr (m, Some botId), db4)))))"

record install_view =
  iv_mini_app_id :: string
  iv_version :: string
  iv_bot_id :: string
  iv_installed_at_ms :: int
  iv_updated_at_ms :: int
  iv_bot :: js

definition listMiniAppInstalls :: "js \<Rightarrow> 'a sync_db_scheme \<Rightarrow> sync_error + install_view list" where
  "listMiniAppInstalls accountIdInput db =
     (case normalizeAccountId accountIdInput of Inl e \<Rightarrow> Inl e
      | Inr a \<Rightarrow> Inr (map (\<lambda>r.
          \<lparr>iv_mini_app_id = in_mini_app_id r, iv_version = in_version r, iv_bot_id = in_bot_id r,
           iv_installed_at_ms = in_installed_at_ms r, iv_updated_at_ms = in_updated_at_ms r,
           iv_bot = parseJson (JStr (in_bot_json r)) (JObj [])\<rparr>)
          (sort_key in_installed_at_ms (sort_key in_mini_app_id
            (filter (\<lambda>r. in_account_id r = a) (installs db))))))"

text \<open>\<open>{ source = 'manual', sourceId = 'manual' } = {}\<close> and the two normalised values.\<close>

definition source_of :: "js \<Rightarrow> string" where
  "source_of source =
     (let s = (if source = JUndef then JStr ''manual'' else source)
      in slice_to 40 (trim (js_text (if truthy s then s else JStr ''manual''))))"

definition source_id_of :: "js \<Rightarrow> string \<Rightarrow> string" where
  "source_id_of sourceId normalizedSource =
     (let s = (if sourceId = JUndef then JStr ''manual'' else sourceId)
      in slice_to 160 (trim (js_text (if truthy s then s else JStr normalizedSource))))"

definition addBot ::
  "sync_env \<Rightarrow> int \<Rightarrow> int \<Rightarrow> int \<Rightarrow> js \<Rightarrow> js \<Rightarrow> js \<Rightarrow> js \<Rightarrow> 'a sync_db_scheme \<Rightarrow>
   (sync_error + bot_profile \<times> string \<times> string) \<times> 'a sync_db_scheme" where
  "addBot env now date now' accountIdInput profile source sourceId db =
     (case normalizeAccountId accountIdInput of Inl e \<Rightarrow> (Inl e, db)
      | Inr a \<Rightarrow>
     (case normalizeBotProfile profile (JStr []) of Inl e \<Rightarrow> (Inl e, db)
      | Inr bt \<Rightarrow>
     (let src = source_of source; srcId = source_id_of sourceId src;
          previous = getBotMembership (a, bt_id bt, src, srcId) db;
          text = json_text (bot_json bt);
          db1 = upsertBotMembership
            \<lparr>mb_account_id = a, mb_bot_id = bt_id bt, mb_source = src, mb_source_id = srcId,
             mb_profile_json = text,
             mb_added_at_ms = (case previous of None \<Rightarrow> now | Some r \<Rightarrow> mb_added_at_ms r),
             mb_updated_at_ms = now\<rparr> db;
          db2 = append_if (case previous of None \<Rightarrow> True | Some r \<Rightarrow> mb_profile_json r \<noteq> text) env a
            (if previous = None then ''bot.added'' else ''bot.updated'') (bt_id bt)
            (JObj [(''bot'', bot_json bt), (''source'', JStr src), (''sourceId'', JStr srcId)]) now db1
      in and_then (upsertAgent env date now' (JStr a) (JStr (bt_agent_id bt))
           (bot_agent_profile bt) (bot_agent_metadata bt) db2)
         (\<lambda>_ db3. (Inr (bt, src, srcId), db3)))))"

definition removeBot ::
  "sync_env \<Rightarrow> int \<Rightarrow> js \<Rightarrow> js \<Rightarrow> js \<Rightarrow> js \<Rightarrow> 'a sync_db_scheme \<Rightarrow>
   (sync_error + bool \<times> string) \<times> 'a sync_db_scheme" where
  "removeBot env now accountIdInput botIdInput source sourceId db =
     (case normalizeAccountId accountIdInput of Inl e \<Rightarrow> (Inl e, db)
      | Inr a \<Rightarrow>
     (let botId = trimmed_lower botIdInput in
      if botId = [] then (Inl BOT_ID_REQUIRED, db)
      else
     (let src = source_of source; srcId = source_id_of sourceId src in
      case getBotMembership (a, botId, src, srcId) db of
        None \<Rightarrow> (Inr (False, botId), db)
      | Some _ \<Rightarrow>
          (Inr (True, botId),
           append_if True env a ''bot.removed'' botId
             (JObj [(''botId'', JStr botId), (''source'', JStr src), (''sourceId'', JStr srcId)]) now
             (deleteBotMembership (a, botId, src, srcId) db)))))"

record bot_source =
  bs_source :: string
  bs_source_id :: string
  bs_added_at_ms :: int

record bot_group =
  bg_bot_id :: string
  bg_bot :: js
  bg_sources :: "bot_source list"
  bg_updated_at_ms :: int

text \<open>One membership row joins the group of its bot, or opens one at the end of the map.\<close>

definition join_group :: "membership_row \<Rightarrow> bot_group \<Rightarrow> bot_group" where
  "join_group r g =
     (let profile = parseJson (JStr (mb_profile_json r)) (JObj [(''id'', JStr (mb_bot_id r))]);
          g' = g\<lparr>bg_sources := bg_sources g @
                 [\<lparr>bs_source = mb_source r, bs_source_id = mb_source_id r, bs_added_at_ms = mb_added_at_ms r\<rparr>]\<rparr>
      in if bg_updated_at_ms g \<le> mb_updated_at_ms r
         then g'\<lparr>bg_bot := profile, bg_updated_at_ms := mb_updated_at_ms r\<rparr> else g')"

definition group_membership :: "membership_row \<Rightarrow> bot_group list \<Rightarrow> bot_group list" where
  "group_membership r gs =
     (if mb_bot_id r \<in> set (map bg_bot_id gs)
      then update_where (\<lambda>g. bg_bot_id g = mb_bot_id r) (join_group r) gs
      else gs @ [join_group r
             \<lparr>bg_bot_id = mb_bot_id r,
              bg_bot = parseJson (JStr (mb_profile_json r)) (JObj [(''id'', JStr (mb_bot_id r))]),
              bg_sources = [], bg_updated_at_ms = 0\<rparr>])"

definition group_order :: "sync_env \<Rightarrow> bot_group \<Rightarrow> bot_group \<Rightarrow> int" where
  "group_order env l r =
     (let d = bg_updated_at_ms r - bg_updated_at_ms l
      in if d \<noteq> 0 then d
         else se_locale_compare env (js_text (js_get (bg_bot l) ''id'')) (js_text (js_get (bg_bot r) ''id'')))"

definition listBots :: "sync_env \<Rightarrow> js \<Rightarrow> 'a sync_db_scheme \<Rightarrow> sync_error + bot_group list" where
  "listBots env accountIdInput db =
     (case normalizeAccountId accountIdInput of Inl e \<Rightarrow> Inl e
      | Inr a \<Rightarrow> Inr (sort_by (group_order env)
          (fold group_membership
            (sort_key (\<lambda>r. - mb_updated_at_ms r) (sort_key mb_bot_id
              (filter (\<lambda>r. mb_account_id r = a) (memberships db)))) [])))"

section \<open>The tables\<close>

interpretation install_table: keyed_table getMiniAppInstall installs install_key
  by unfold_locales (simp add: getMiniAppInstall_def)

interpretation membership_table: keyed_table getBotMembership memberships membership_key
  by unfold_locales (simp add: getBotMembership_def)

interpretation agent_table: keyed_table agent_get agents agent_key
  by unfold_locales (simp add: agent_get_def)

interpretation ref_table: keyed_table getAgentRef agent_refs ref_key
  by unfold_locales (simp add: getAgentRef_def)

interpretation blob_table: keyed_table getAgentBlob agent_blobs blob_key
  by unfold_locales (simp add: getAgentBlob_def)

interpretation cloud_table: keyed_table cloud_get cloud_values cloud_key
  by unfold_locales (simp add: cloud_get_def)

end
