(* ===== verification/AgentStore.thy ===== *)
theory AgentStore
  imports AccountSync
begin

text \<open>
  The rest of the account synchronisation store: the versioned object store of an agent, with its
  optimistic concurrency control and conflict copies, Mini App cloud storage, \<open>recordEvent\<close> and
  \<open>sync\<close> itself.
\<close>

section \<open>Agent objects\<close>

record stored_object =
  so_agent_id :: string
  so_path :: string
  so_blob_id :: string
  so_sha256 :: string
  so_etag :: string
  so_revision :: nat
  so_updated_at_ms :: int
  so_size_bytes :: "nat option"

datatype put_outcome =
    Written stored_object
  | Conflict string string "string option" put_outcome

record agent_object =
  ao_stored :: stored_object
  ao_data :: string

definition agent_object_at :: "string \<times> string \<times> string \<Rightarrow> 'a sync_db_scheme \<Rightarrow> agent_object option" where
  "agent_object_at k db =
     (case getAgentRef k db of None \<Rightarrow> None
      | Some ref \<Rightarrow>
     (case getAgentBlob (rf_account_id ref, rf_agent_id ref, rf_blob_id ref) db of None \<Rightarrow> None
      | Some blob \<Rightarrow> Some
         \<lparr>ao_stored =
            \<lparr>so_agent_id = rf_agent_id ref, so_path = rf_rel_path ref, so_blob_id = bl_blob_id blob,
             so_sha256 = bl_sha256 blob, so_etag = rf_etag ref, so_revision = rf_revision ref,
             so_updated_at_ms = rf_updated_at_ms ref, so_size_bytes = Some (bl_size_bytes blob)\<rparr>,
          ao_data = bl_data blob\<rparr>))"

definition getAgentObject :: "js \<Rightarrow> js \<Rightarrow> js \<Rightarrow> 'a sync_db_scheme \<Rightarrow> sync_error + agent_object option" where
  "getAgentObject accountIdInput agentIdInput relPathInput db =
     (case normalizeAccountId accountIdInput of Inl e \<Rightarrow> Inl e
      | Inr a \<Rightarrow>
     (case normalizeAgentId agentIdInput of Inl e \<Rightarrow> Inl e
      | Inr g \<Rightarrow>
     (case normalizeAgentPath relPathInput of Inl e \<Rightarrow> Inl e
      | Inr p \<Rightarrow> Inr (agent_object_at (a, g, p) db))))"

text \<open>The write of an object that is not in conflict: blob, event, reference.\<close>

definition write_object ::
  "sync_env \<Rightarrow> int \<Rightarrow> string \<Rightarrow> string \<Rightarrow> string \<Rightarrow> string \<Rightarrow> 'a sync_db_scheme \<Rightarrow> stored_object \<times> 'a sync_db_scheme" where
  "write_object env now a g p data db =
     (let sha = se_sha256 env data;
          db1 = insertAgentBlob \<lparr>bl_account_id = a, bl_agent_id = g, bl_blob_id = sha, bl_sha256 = sha,
                  bl_data = data, bl_size_bytes = length data, bl_created_at_ms = now\<rparr> db;
          (revision, db2) = appendEvent (se_retention env) a ''agent.store.written'' (g @ '':'' @ p)
            (JObj [(''agentId'', JStr g), (''path'', JStr p), (''blobId'', JStr sha), (''sha256'', JStr sha),
                   (''sizeBytes'', JNum (int (length data)))]) now db1;
          etag = ''sha256:'' @ sha
      in (\<lparr>so_agent_id = g, so_path = p, so_blob_id = sha, so_sha256 = sha, so_etag = etag,
           so_revision = revision, so_updated_at_ms = now, so_size_bytes = None\<rparr>,
          upsertAgentRef \<lparr>rf_account_id = a, rf_agent_id = g, rf_rel_path = p, rf_blob_id = sha,
            rf_etag = etag, rf_revision = revision, rf_updated_at_ms = now\<rparr> db2))"

record put_options =
  po_base_etag :: js
  po_expect_absent :: js

definition base_etag :: "put_options \<Rightarrow> string option" where
  "base_etag opts =
     (case po_base_etag opts of JUndef \<Rightarrow> None | JNull \<Rightarrow> None | v \<Rightarrow> Some (js_text v))"

definition expect_absent :: "put_options \<Rightarrow> bool" where
  "expect_absent opts \<longleftrightarrow> po_expect_absent opts = JBool True"

definition in_conflict :: "put_options \<Rightarrow> ref_row option \<Rightarrow> bool" where
  "in_conflict opts previous \<longleftrightarrow>
     (expect_absent opts \<and> previous \<noteq> None) \<or>
     (base_etag opts \<noteq> None \<and> map_option rf_etag previous \<noteq> base_etag opts)"

definition opt_null :: "string option \<Rightarrow> js" where
  "opt_null x = (case x of None \<Rightarrow> JNull | Some s \<Rightarrow> JStr s)"

definition conflict_path :: "sync_env \<Rightarrow> put_options \<Rightarrow> ref_row option \<Rightarrow> string \<Rightarrow> string \<Rightarrow> sync_error + string" where
  "conflict_path env opts previous p data =
     normalizeAgentPath (JStr (''.conflicts/'' @
       se_sha256 env (stringify (JObj
         [(''path'', JStr p), (''baseEtag'', opt_null (base_etag opts)),
          (''expectAbsent'', JBool (expect_absent opts)),
          (''currentEtag'', opt_null (map_option rf_etag previous)),
          (''sha256'', JStr (se_sha256 env data))])) @ ''/'' @ p))"

definition max_agent_object_bytes :: int where "max_agent_object_bytes = 8388608"
definition max_agent_objects :: int where "max_agent_objects = 20000"

definition ensureAgent ::
  "sync_env \<Rightarrow> int \<Rightarrow> int \<Rightarrow> string \<Rightarrow> string \<Rightarrow> 'a sync_db_scheme \<Rightarrow> (sync_error + unit) \<times> 'a sync_db_scheme" where
  "ensureAgent env date now' a g db =
     (if agent_get (a, g) db = None
      then and_then (upsertAgent env date now' (JStr a) (JStr g) (JObj []) (JObj []) db) (\<lambda>_ db'. (Inr (), db'))
      else (Inr (), db))"

text \<open>The part of \<open>#putAgentObject\<close> behind the checks of its arguments; \<open>copy\<close> puts the conflict copy.\<close>

definition put_at ::
  "sync_env \<Rightarrow> int \<Rightarrow> string \<Rightarrow> string \<Rightarrow> string \<Rightarrow> string \<Rightarrow> put_options \<Rightarrow>
   (string \<Rightarrow> 'a sync_db_scheme \<Rightarrow> (sync_error + put_outcome) \<times> 'a sync_db_scheme) \<Rightarrow> 'a sync_db_scheme \<Rightarrow>
   (sync_error + put_outcome) \<times> 'a sync_db_scheme" where
  "put_at env now a g p data opts copy db =
     (let previous = getAgentRef (a, g, p) db in
      if previous = None \<and> max_agent_objects \<le> int (agentRefCount a g db)
      then (Inl AGENT_OBJECT_LIMIT, db)
      else if in_conflict opts previous
      then (case conflict_path env opts previous p data of Inl e \<Rightarrow> (Inl e, db)
        | Inr cp \<Rightarrow>
            (case getAgentObject (JStr a) (JStr g) (JStr cp) db of Inl e \<Rightarrow> (Inl e, db)
             | Inr (Some existing) \<Rightarrow>
                 (if so_sha256 (ao_stored existing) \<noteq> se_sha256 env data
                  then (Inl CONFLICT_COPY_MISMATCH, db)
                  else (Inr (Conflict p cp (map_option rf_etag previous) (Written (ao_stored existing))), db))
             | Inr None \<Rightarrow>
                 and_then (copy cp db)
                   (\<lambda>stored db'. (Inr (Conflict p cp (map_option rf_etag previous) stored), db'))))
      else (let (stored, db') = write_object env now a g p data db in (Inr (Written stored), db')))"

text \<open>\<open>#putAgentObject\<close>.  A conflict copy is put the same way, under the conflict path and expected
  absent; \<open>fuel\<close> is the depth of that recursion.\<close>

fun put_object ::
  "nat \<Rightarrow> sync_env \<Rightarrow> int \<Rightarrow> int \<Rightarrow> int \<Rightarrow> js \<Rightarrow> js \<Rightarrow> js \<Rightarrow> string \<Rightarrow> put_options \<Rightarrow> 'a sync_db_scheme \<Rightarrow>
   (sync_error + put_outcome) \<times> 'a sync_db_scheme" where
  "put_object 0 env date now' now accountIdInput agentIdInput relPathInput data opts db =
     (Inl STACK_EXHAUSTED, db)"
| "put_object (Suc fuel) env date now' now accountIdInput agentIdInput relPathInput data opts db =
     (case normalizeAccountId accountIdInput of Inl e \<Rightarrow> (Inl e, db)
      | Inr a \<Rightarrow>
     (case normalizeAgentId agentIdInput of Inl e \<Rightarrow> (Inl e, db)
      | Inr g \<Rightarrow>
     (case normalizeAgentPath relPathInput of Inl e \<Rightarrow> (Inl e, db)
      | Inr p \<Rightarrow>
     (if max_agent_object_bytes < int (length data) then (Inl AGENT_OBJECT_TOO_LARGE, db)
      else and_then (ensureAgent env date now' a g db)
        (\<lambda>_ db. put_at env now a g p data opts
          (\<lambda>cp db. put_object fuel env date now' now (JStr a) (JStr g) (JStr cp) data
             \<lparr>po_base_etag = JUndef, po_expect_absent = JBool True\<rparr> db) db)))))"

definition putAgentObject ::
  "sync_env \<Rightarrow> int \<Rightarrow> int \<Rightarrow> int \<Rightarrow> js \<Rightarrow> js \<Rightarrow> js \<Rightarrow> string \<Rightarrow> put_options \<Rightarrow> 'a sync_db_scheme \<Rightarrow>
   (sync_error + put_outcome) \<times> 'a sync_db_scheme" where
  "putAgentObject env date now' now accountIdInput agentIdInput relPathInput data opts db =
     in_transaction (\<lambda>db. put_object (length (agent_refs db) + 2) env date now' now
       accountIdInput agentIdInput relPathInput data opts db) db"

text \<open>SQLite's \<open>LIKE\<close>: ASCII letters match in either case, \<open>%\<close> any text, \<open>_\<close> any one character.\<close>

definition ascii_fold :: "char \<Rightarrow> char" where
  "ascii_fold c = (if is_upper c then char_of (code c + 32) else c)"

fun sql_like :: "string \<Rightarrow> string \<Rightarrow> bool" where
  "sql_like [] s = (s = [])"
| "sql_like (p # ps) [] = (p = CHR ''%'' \<and> sql_like ps [])"
| "sql_like (p # ps) (c # cs) =
     (if p = CHR ''%'' then sql_like ps (c # cs) \<or> sql_like (p # ps) cs
      else (p = CHR ''_'' \<or> ascii_fold p = ascii_fold c) \<and> sql_like ps cs)"

record ref_view =
  rv_path :: string
  rv_blob_id :: string
  rv_etag :: string
  rv_revision :: nat
  rv_updated_at_ms :: int

definition listAgentObjects :: "js \<Rightarrow> js \<Rightarrow> js \<Rightarrow> 'a sync_db_scheme \<Rightarrow> sync_error + ref_view list" where
  "listAgentObjects accountIdInput agentIdInput prefixInput db =
     (case normalizeAccountId accountIdInput of Inl e \<Rightarrow> Inl e
      | Inr a \<Rightarrow>
     (case normalizeAgentId agentIdInput of Inl e \<Rightarrow> Inl e
      | Inr g \<Rightarrow>
     (case (if trimmed prefixInput = [] then Inr [] else normalizeAgentPath (JStr (trimmed prefixInput))) of
        Inl e \<Rightarrow> Inl e
      | Inr pre \<Rightarrow> Inr (map (\<lambda>r.
          \<lparr>rv_path = rf_rel_path r, rv_blob_id = rf_blob_id r, rv_etag = rf_etag r,
           rv_revision = rf_revision r, rv_updated_at_ms = rf_updated_at_ms r\<rparr>)
          (sort_key rf_rel_path
            (filter (\<lambda>r. rf_account_id r = a \<and> rf_agent_id r = g \<and> sql_like (pre @ ''%'') (rf_rel_path r))
              (agent_refs db)))))))"

datatype delete_outcome =
    Nothing_Deleted string string
  | Delete_Conflict string string string
  | Deleted string string nat int

definition deleteAgentObject ::
  "sync_env \<Rightarrow> int \<Rightarrow> js \<Rightarrow> js \<Rightarrow> js \<Rightarrow> js \<Rightarrow> 'a sync_db_scheme \<Rightarrow>
   (sync_error + delete_outcome) \<times> 'a sync_db_scheme" where
  "deleteAgentObject env now accountIdInput agentIdInput relPathInput baseEtag db =
     (case normalizeAccountId accountIdInput of Inl e \<Rightarrow> (Inl e, db)
      | Inr a \<Rightarrow>
     (case normalizeAgentId agentIdInput of Inl e \<Rightarrow> (Inl e, db)
      | Inr g \<Rightarrow>
     (case normalizeAgentPath relPathInput of Inl e \<Rightarrow> (Inl e, db)
      | Inr p \<Rightarrow>
     (case getAgentRef (a, g, p) db of
        None \<Rightarrow> (Inr (Nothing_Deleted g p), db)
      | Some previous \<Rightarrow>
          (if baseEtag \<noteq> JUndef \<and> baseEtag \<noteq> JNull \<and> js_text baseEtag \<noteq> rf_etag previous
           then (Inr (Delete_Conflict g p (rf_etag previous)), db)
           else (let (revision, db') = appendEvent (se_retention env) a ''agent.store.deleted'' (g @ '':'' @ p)
                       (JObj [(''agentId'', JStr g), (''path'', JStr p)]) now (deleteAgentRef (a, g, p) db)
                 in (Inr (Deleted g p revision now), db')))))))"

section \<open>Cloud storage\<close>

record cloud_view =
  cv_key :: string
  cv_value :: string
  cv_revision :: nat
  cv_updated_at_ms :: int

definition cloud_view_of :: "cloud_row \<Rightarrow> cloud_view" where
  "cloud_view_of r =
     \<lparr>cv_key = cl_key r, cv_value = cl_value r, cv_revision = cl_revision r, cv_updated_at_ms = cl_updated_at_ms r\<rparr>"

definition setCloudValue ::
  "sync_env \<Rightarrow> int \<Rightarrow> js \<Rightarrow> js \<Rightarrow> js \<Rightarrow> js \<Rightarrow> 'a sync_db_scheme \<Rightarrow>
   (sync_error + cloud_view) \<times> 'a sync_db_scheme" where
  "setCloudValue env now accountIdInput miniAppIdInput keyInput valueInput db =
     (case normalizeAccountId accountIdInput of Inl e \<Rightarrow> (Inl e, db)
      | Inr a \<Rightarrow>
     (case normalizeMiniAppId miniAppIdInput of Inl e \<Rightarrow> (Inl e, db)
      | Inr m \<Rightarrow>
     (let key = trimmed keyInput; val = text_of valueInput in
      if \<not> cloud_key_pattern key then (Inl CLOUD_KEY_INVALID, db)
      else if 4096 < utf8_length val then (Inl CLOUD_VALUE_TOO_LARGE, db)
      else if cloud_get (a, m, key) db = None \<and> 1024 \<le> cloudCount a m db then (Inl CLOUD_KEY_LIMIT, db)
      else
        (let (revision, db') = appendEvent (se_retention env) a ''miniapp.cloud.set'' (m @ '':'' @ key)
               (JObj [(''miniAppId'', JStr m), (''key'', JStr key), (''value'', JStr val)]) now db
         in (Inr \<lparr>cv_key = key, cv_value = val, cv_revision = revision, cv_updated_at_ms = now\<rparr>,
             upsertCloudValue \<lparr>cl_account_id = a, cl_mini_app_id = m, cl_key = key, cl_value = val,
               cl_revision = revision, cl_updated_at_ms = now\<rparr> db')))))"

text \<open>The result is the key and, when a value was deleted, the revision and time of that.\<close>

definition deleteCloudValue ::
  "sync_env \<Rightarrow> int \<Rightarrow> js \<Rightarrow> js \<Rightarrow> js \<Rightarrow> 'a sync_db_scheme \<Rightarrow>
   (sync_error + string \<times> (nat \<times> int) option) \<times> 'a sync_db_scheme" where
  "deleteCloudValue env now accountIdInput miniAppIdInput keyInput db =
     (case normalizeAccountId accountIdInput of Inl e \<Rightarrow> (Inl e, db)
      | Inr a \<Rightarrow>
     (case normalizeMiniAppId miniAppIdInput of Inl e \<Rightarrow> (Inl e, db)
      | Inr m \<Rightarrow>
     (let key = trimmed keyInput in
      if \<not> cloud_key_pattern key then (Inl CLOUD_KEY_INVALID, db)
      else if cloud_get (a, m, key) db = None then (Inr (key, None), db)
      else
        (let (revision, db') = appendEvent (se_retention env) a ''miniapp.cloud.deleted'' (m @ '':'' @ key)
               (JObj [(''miniAppId'', JStr m), (''key'', JStr key)]) now (cloud_delete (a, m, key) db)
         in (Inr (key, Some (revision, now)), db')))))"

definition getCloudValue :: "js \<Rightarrow> js \<Rightarrow> js \<Rightarrow> 'a sync_db_scheme \<Rightarrow> sync_error + cloud_view option" where
  "getCloudValue accountIdInput miniAppIdInput keyInput db =
     (case normalizeAccountId accountIdInput of Inl e \<Rightarrow> Inl e
      | Inr a \<Rightarrow>
     (case normalizeMiniAppId miniAppIdInput of Inl e \<Rightarrow> Inl e
      | Inr m \<Rightarrow>
     (if \<not> cloud_key_pattern (trimmed keyInput) then Inl CLOUD_KEY_INVALID
      else Inr (map_option cloud_view_of (cloud_get (a, m, trimmed keyInput) db)))))"

definition listCloudValues :: "js \<Rightarrow> js \<Rightarrow> 'a sync_db_scheme \<Rightarrow> sync_error + cloud_view list" where
  "listCloudValues accountIdInput miniAppIdInput db =
     (case normalizeAccountId accountIdInput of Inl e \<Rightarrow> Inl e
      | Inr a \<Rightarrow>
     (case normalizeMiniAppId miniAppIdInput of Inl e \<Rightarrow> Inl e
      | Inr m \<Rightarrow> Inr (map cloud_view_of (sort_key cl_key
          (filter (\<lambda>r. cl_account_id r = a \<and> cl_mini_app_id r = m) (cloud_values db))))))"

section \<open>Synchronisation\<close>

definition recordEvent ::
  "sync_env \<Rightarrow> int \<Rightarrow> js \<Rightarrow> js \<Rightarrow> js \<Rightarrow> js \<Rightarrow> 'a sync_db_scheme \<Rightarrow>
   (sync_error + nat \<times> string) \<times> 'a sync_db_scheme" where
  "recordEvent env now accountIdInput eventTypeInput entityIdInput payload db =
     (case normalizeAccountId accountIdInput of Inl e \<Rightarrow> (Inl e, db)
      | Inr a \<Rightarrow>
     (if trimmed eventTypeInput = [] \<or> trimmed entityIdInput = [] then (Inl EVENT_FIELDS_REQUIRED, db)
      else (let (n, db') = appendEvent (se_retention env) a (trimmed eventTypeInput) (trimmed entityIdInput)
                  payload now db
            in (Inr (n, encodeCursor n), db'))))"

definition currentCursor :: "js \<Rightarrow> 'a sync_db_scheme \<Rightarrow> sync_error + string" where
  "currentCursor accountIdInput db =
     (case normalizeAccountId accountIdInput of Inl e \<Rightarrow> Inl e
      | Inr a \<Rightarrow> Inr (encodeCursor (currentSequence a db)))"

record snapshot =
  sn_mini_apps :: "install_view list"
  sn_bots :: "bot_group list"
  sn_agents :: "agent_view list"
  sn_cloud_revisions :: "(string \<times> string \<times> nat \<times> int) list"
  sn_store_revisions :: "(string \<times> string \<times> string \<times> nat \<times> int) list"

definition cloud_revisions :: "string \<Rightarrow> 'a sync_db_scheme \<Rightarrow> (string \<times> string \<times> nat \<times> int) list" where
  "cloud_revisions a db =
     map (\<lambda>r. (cl_mini_app_id r, cl_key r, cl_revision r, cl_updated_at_ms r))
       (sort_key cl_mini_app_id (sort_key cl_key (filter (\<lambda>r. cl_account_id r = a) (cloud_values db))))"

definition store_revisions :: "string \<Rightarrow> 'a sync_db_scheme \<Rightarrow> (string \<times> string \<times> string \<times> nat \<times> int) list" where
  "store_revisions a db =
     map (\<lambda>r. (rf_agent_id r, rf_rel_path r, rf_etag r, rf_revision r, rf_updated_at_ms r))
       (sort_key rf_agent_id (sort_key rf_rel_path (filter (\<lambda>r. rf_account_id r = a) (agent_refs db))))"

definition snapshot_of :: "sync_env \<Rightarrow> string \<Rightarrow> 'a sync_db_scheme \<Rightarrow> sync_error + snapshot" where
  "snapshot_of env a db =
     (case listMiniAppInstalls (JStr a) db of Inl e \<Rightarrow> Inl e
      | Inr apps \<Rightarrow>
     (case listBots env (JStr a) db of Inl e \<Rightarrow> Inl e
      | Inr bots \<Rightarrow>
     (case listAgents (JStr a) db of Inl e \<Rightarrow> Inl e
      | Inr ags \<Rightarrow> Inr
          \<lparr>sn_mini_apps = apps, sn_bots = bots, sn_agents = ags,
           sn_cloud_revisions = cloud_revisions a db, sn_store_revisions = store_revisions a db\<rparr>)))"

datatype snapshot_reason = Initial | Invalid_Cursor | Cursor_Ahead | Cursor_Expired

datatype sync_reply =
    Snapshot snapshot_reason string snapshot
  | Difference sync_difference

definition sync_reason :: "nat \<Rightarrow> nat \<Rightarrow> cursor \<Rightarrow> snapshot_reason option" where
  "sync_reason current least requested =
     (case requested of No_Cursor \<Rightarrow> Some Initial | Bad_Cursor \<Rightarrow> Some Invalid_Cursor
      | At n \<Rightarrow> if current < n then Some Cursor_Ahead else if n < least then Some Cursor_Expired else None)"

definition account_sync :: "sync_env \<Rightarrow> js \<Rightarrow> js \<Rightarrow> js \<Rightarrow> 'a sync_db_scheme \<Rightarrow> sync_error + sync_reply" where
  "account_sync env accountIdInput cursorInput limitInput db =
     (case normalizeAccountId accountIdInput of Inl e \<Rightarrow> Inl e
      | Inr a \<Rightarrow>
     (let limit = positiveLimit limitInput;
          current = currentSequence a db;
          requested = decodeCursor cursorInput
      in case sync_reason current (floorSequence a db) requested of
           Some reason \<Rightarrow>
             (case snapshot_of env a db of Inl e \<Rightarrow> Inl e
              | Inr s \<Rightarrow> Inr (Snapshot reason (encodeCursor current) s))
         | None \<Rightarrow>
             Inr (Difference (difference a (case requested of At n \<Rightarrow> n | _ \<Rightarrow> 0) limit db))))"

end
