(* ===== verification/SyncEffects.thy ===== *)
theory SyncEffects
  imports AgentStore
begin

text \<open>
  Every operation of the account synchronisation store is a sequence of guarded writes to the rows
  of one account (\<open>store_write\<close>).  What each write keeps, every operation keeps: \<open>store_inv\<close>, the
  rows of all other accounts, and the history of the log.
\<close>

inductive store_write :: "sync_env \<Rightarrow> string \<Rightarrow> 'a sync_db_scheme \<Rightarrow> 'a sync_db_scheme \<Rightarrow> bool"
  for env :: sync_env and a :: string where
  write_event: "store_write env a db (snd (appendEvent (se_retention env) a t i p now db))"
| write_install: "in_account_id r = a \<Longrightarrow> store_write env a db (upsertMiniAppInstall r db)"
| delete_install: "fst k = a \<Longrightarrow> store_write env a db (deleteMiniAppInstall k db)"
| write_membership: "mb_account_id r = a \<Longrightarrow> store_write env a db (upsertBotMembership r db)"
| delete_membership: "fst k = a \<Longrightarrow> store_write env a db (deleteBotMembership k db)"
| write_agent: "gr_account_id r = a \<Longrightarrow> store_write env a db (agent_upsert r db)"
| write_blob: "bl_account_id r = a \<Longrightarrow> bl_sha256 r = se_sha256 env (bl_data r) \<Longrightarrow> bl_blob_id r = bl_sha256 r \<Longrightarrow>
    bl_size_bytes r = length (bl_data r) \<Longrightarrow> int (length (bl_data r)) \<le> max_agent_object_bytes \<Longrightarrow>
    store_write env a db (insertAgentBlob r db)"
| write_ref: "rf_account_id r = a \<Longrightarrow> agent_get (a, rf_agent_id r) db \<noteq> None \<Longrightarrow>
    getAgentBlob (a, rf_agent_id r, rf_blob_id r) db \<noteq> None \<Longrightarrow> rf_etag r = ''sha256:'' @ rf_blob_id r \<Longrightarrow>
    rf_revision r \<le> sync_last db \<Longrightarrow>
    getAgentRef (ref_key r) db \<noteq> None \<or> int (agentRefCount a (rf_agent_id r) db) < max_agent_objects \<Longrightarrow>
    store_write env a db (upsertAgentRef r db)"
| delete_ref: "fst k = a \<Longrightarrow> store_write env a db (deleteAgentRef k db)"
| write_cloud: "cl_account_id r = a \<Longrightarrow> cloud_key_pattern (cl_key r) \<Longrightarrow> utf8_length (cl_value r) \<le> 4096 \<Longrightarrow>
    cl_revision r \<le> sync_last db \<Longrightarrow>
    cloud_get (cloud_key r) db \<noteq> None \<or> cloudCount a (cl_mini_app_id r) db < 1024 \<Longrightarrow>
    store_write env a db (upsertCloudValue r db)"
| delete_cloud: "fst k = a \<Longrightarrow> store_write env a db (cloud_delete k db)"

abbreviation store_writes :: "sync_env \<Rightarrow> string \<Rightarrow> 'a sync_db_scheme \<Rightarrow> 'a sync_db_scheme \<Rightarrow> bool" where
  "store_writes env a \<equiv> (store_write env a)\<^sup>*\<^sup>*"

section \<open>Frames\<close>

lemma prune_more:
  "installs (sync_prune R a now db) = installs db" "memberships (sync_prune R a now db) = memberships db"
  "cloud_values (sync_prune R a now db) = cloud_values db" "agents (sync_prune R a now db) = agents db"
  "agent_blobs (sync_prune R a now db) = agent_blobs db" "agent_refs (sync_prune R a now db) = agent_refs db"
  by (simp_all add: sync_prune_def upsertState_def deleteEventsBefore_def split: list.split)

lemma append_tables [simp]:
  "installs (snd (appendEvent R a t i p now db)) = installs db"
  "memberships (snd (appendEvent R a t i p now db)) = memberships db"
  "cloud_values (snd (appendEvent R a t i p now db)) = cloud_values db"
  "agents (snd (appendEvent R a t i p now db)) = agents db"
  "agent_blobs (snd (appendEvent R a t i p now db)) = agent_blobs db"
  "agent_refs (snd (appendEvent R a t i p now db)) = agent_refs db"
  by (simp_all add: appendEvent_def Let_def prune_more insertEvent_def)

lemma writes_then: "store_writes env a db db1 \<Longrightarrow> store_write env a db1 db2 \<Longrightarrow> store_writes env a db db2"
  by (rule rtranclp.rtrancl_into_rtrancl)

lemma writes_trans: "store_writes env a db db1 \<Longrightarrow> store_writes env a db1 db2 \<Longrightarrow> store_writes env a db db2"
  by (rule rtranclp_trans)

lemma write_two: "store_write env a db db1 \<Longrightarrow> store_write env a db1 db2 \<Longrightarrow> store_writes env a db db2"
  by (meson r_into_rtranclp rtranclp.rtrancl_into_rtrancl)

lemma writes_one: "store_write env a db db' \<Longrightarrow> store_writes env a db db'"
  by (rule r_into_rtranclp)

lemma event_writes: "store_writes env a db (snd (appendEvent (se_retention env) a t i p now db))"
  by (rule writes_one [OF write_event])

lemma write_and_log: "store_write env a db db1 \<Longrightarrow>
    store_writes env a db (snd (appendEvent (se_retention env) a t i p now db1))"
  by (rule writes_then [OF writes_one write_event])

lemma append_if_writes: "store_writes env a db (append_if c env a t i p now db)"
  by (simp add: append_if_def event_writes)

section \<open>Operations\<close>

lemma normalizeAccountId_JStr: "normalizeAccountId v = Inr a \<Longrightarrow> normalizeAccountId (JStr a) = Inr a"
  by (auto simp: normalizeAccountId_def trimmed_JStr trimmed_def split: if_splits)

lemma normalizeAgentId_JStr: "normalizeAgentId v = Inr a \<Longrightarrow> normalizeAgentId (JStr a) = Inr a"
  by (auto simp: normalizeAgentId_def trimmed_JStr trimmed_def Let_def split: if_splits)

lemma upsertAgent_writes:
  assumes "upsertAgent env date now v g p m db = (r, db')" and "normalizeAccountId v = Inr a"
  shows "store_writes env a db db'"
  using assms
  by (auto simp: upsertAgent_def Let_def split: sum.splits option.splits if_splits
      intro!: write_and_log write_agent)

lemma in_transaction_writes:
  "in_transaction body db = (r, db') \<Longrightarrow> (\<And>x d. body db = (x, d) \<Longrightarrow> store_writes env a db d) \<Longrightarrow>
     store_writes env a db db'"
  by (auto simp: in_transaction_def split: prod.splits sum.splits)

lemma and_then_writes:
  assumes "and_then r k = (y, db')"
    and "\<And>x d. r = (x, d) \<Longrightarrow> store_writes env a db d"
    and "\<And>x d z d'. r = (Inr x, d) \<Longrightarrow> k x d = (z, d') \<Longrightarrow> store_writes env a d d'"
  shows "store_writes env a db db'"
  using assms by (auto simp: and_then_def split: prod.splits sum.splits intro: writes_trans)

lemma installMiniApp_writes:
  assumes "installMiniApp env now date now' v manifest db = (r, db')" and "normalizeAccountId v = Inr a"
  shows "store_writes env a db db'"
proof (cases "normalizeMiniAppId (js_get manifest ''id'')")
  case (Inl e)
  then show ?thesis using assms by (simp add: installMiniApp_def)
next
  case m: (Inr m)
  show ?thesis
  proof (cases "normalizeBotProfile (js_get manifest ''bot'') (JStr (m @ ''-bot''))")
    case (Inl e)
    then show ?thesis using assms m by (simp add: installMiniApp_def)
  next
    case (Inr b)
    show ?thesis
      using assms(1) unfolding installMiniApp_def assms(2) m Inr sum.case Let_def
    proof (rule in_transaction_writes, goal_cases)
      case (1 x d)
      then show ?case
      proof (rule and_then_writes, goal_cases)
        case (1 y d')
        then show ?case
          by (rule writes_trans [OF writes_trans [OF writes_trans [OF write_two [OF write_install write_membership]
                append_if_writes] append_if_writes]
              upsertAgent_writes [OF _ normalizeAccountId_JStr [OF assms(2)]], rotated 2]) simp_all
      qed simp
    qed
  qed
qed

lemma removeMiniApp_writes:
  assumes "removeMiniApp env now v w db = (r, db')" and "normalizeAccountId v = Inr a"
  shows "store_writes env a db db'"
proof (cases "\<exists>m p. normalizeMiniAppId w = Inr m \<and> getMiniAppInstall (a, m) db = Some p")
  case False
  then have "db' = db" using assms by (auto simp: removeMiniApp_def split: sum.splits option.splits)
  then show ?thesis by simp
next
  case True
  then obtain m p where mp: "normalizeMiniAppId w = Inr m" "getMiniAppInstall (a, m) db = Some p" by blast
  let ?db1 = "deleteMiniAppInstall (a, m) db"
  let ?db2 = "if getBotMembership (a, in_bot_id p, ''miniapp'', m) ?db1 = None then ?db1
    else deleteBotMembership (a, in_bot_id p, ''miniapp'', m) ?db1"
  have one: "store_writes env a db ?db1" by (rule writes_one [OF delete_install]) simp
  have two: "store_writes env a ?db1 ?db2" by (simp add: writes_one [OF delete_membership])
  obtain c t i q t' i' q' where "db' = append_if c env a t i q now (append_if True env a t' i' q' now ?db2)"
    using assms mp by (simp add: removeMiniApp_def Let_def) blast
  then show ?thesis
    using writes_trans [OF writes_trans [OF writes_trans [OF one two] append_if_writes] append_if_writes] by simp
qed

lemma addBot_writes:
  assumes "addBot env now date now' v profile s i db = (r, db')" and "normalizeAccountId v = Inr a"
  shows "store_writes env a db db'"
proof (cases "normalizeBotProfile profile (JStr [])")
  case (Inl e)
  then show ?thesis using assms by (simp add: addBot_def)
next
  case (Inr b)
  show ?thesis
    using assms(1) unfolding addBot_def assms(2) Inr sum.case Let_def
  proof (rule and_then_writes, goal_cases)
    case (1 y d')
    then show ?case
      by (rule writes_trans [OF writes_trans [OF writes_one [OF write_membership] append_if_writes]
          upsertAgent_writes [OF _ normalizeAccountId_JStr [OF assms(2)]], rotated]) simp
  qed simp
qed

lemma removeBot_writes:
  assumes "removeBot env now v w s i db = (r, db')" and "normalizeAccountId v = Inr a"
  shows "store_writes env a db db'"
  using assms
  by (auto simp: removeBot_def Let_def split: option.splits if_splits
      intro!: writes_trans [OF writes_one [OF delete_membership] append_if_writes])

lemma deleteAgentObject_writes:
  assumes "deleteAgentObject env now v g p e db = (r, db')" and "normalizeAccountId v = Inr a"
  shows "store_writes env a db db'"
  using assms
  by (auto simp: deleteAgentObject_def case_prod_unfold Let_def split: sum.splits option.splits if_splits
      intro!: write_and_log delete_ref)

lemma deleteCloudValue_writes:
  assumes "deleteCloudValue env now v m k db = (r, db')" and "normalizeAccountId v = Inr a"
  shows "store_writes env a db db'"
  using assms
  by (auto simp: deleteCloudValue_def case_prod_unfold Let_def split: sum.splits option.splits if_splits
      intro!: write_and_log delete_cloud)

lemma recordEvent_writes:
  assumes "recordEvent env now v t i p db = (r, db')" and "normalizeAccountId v = Inr a"
  shows "store_writes env a db db'"
  using assms
  by (auto simp: recordEvent_def case_prod_unfold Let_def split: if_splits intro!: event_writes)

lemma lookups_append [simp]:
  "cloud_get k (snd (appendEvent R a t i p now db)) = cloud_get k db"
  "cloudCount a' m (snd (appendEvent R a t i p now db)) = cloudCount a' m db"
  "agent_get k' (snd (appendEvent R a t i p now db)) = agent_get k' db"
  "getAgentRef k (snd (appendEvent R a t i p now db)) = getAgentRef k db"
  "getAgentBlob k (snd (appendEvent R a t i p now db)) = getAgentBlob k db"
  "agentRefCount a' g (snd (appendEvent R a t i p now db)) = agentRefCount a' g db"
  by (simp_all add: cloud_get_def cloudCount_def agent_get_def getAgentRef_def getAgentBlob_def agentRefCount_def)

lemma lookups_blob [simp]:
  "agent_get k' (insertAgentBlob b db) = agent_get k' db"
  "getAgentRef k (insertAgentBlob b db) = getAgentRef k db"
  "agentRefCount a g (insertAgentBlob b db) = agentRefCount a g db"
  "getAgentBlob (blob_key b) (insertAgentBlob b db) \<noteq> None"
  by (auto simp: insertAgentBlob_def agent_get_def getAgentRef_def agentRefCount_def getAgentBlob_def
      row_where_append image_iff split: option.splits)

lemma setCloudValue_writes:
  assumes "setCloudValue env now v w k x db = (r, db')" and "normalizeAccountId v = Inr a"
  shows "store_writes env a db db'"
  using assms
  by (auto simp: setCloudValue_def case_prod_unfold Let_def appendEvent_fst appendEvent_last cloud_key_def not_le
      split: sum.splits if_splits intro!: writes_then [OF event_writes write_cloud])

lemma write_object_writes:
  assumes "agent_get (a, g) db \<noteq> None" and "int (length data) \<le> max_agent_object_bytes"
    and "getAgentRef (a, g, p) db \<noteq> None \<or> int (agentRefCount a g db) < max_agent_objects"
  shows "store_writes env a db (snd (write_object env now a g p data db))"
proof -
  let ?b = "\<lparr>bl_account_id = a, bl_agent_id = g, bl_blob_id = se_sha256 env data, bl_sha256 = se_sha256 env data,
    bl_data = data, bl_size_bytes = length data, bl_created_at_ms = now\<rparr>"
  have "getAgentBlob (blob_key ?b) (insertAgentBlob ?b db) \<noteq> None" by (rule lookups_blob)
  then have blob: "getAgentBlob (a, g, se_sha256 env data) (insertAgentBlob ?b db) \<noteq> None" by (simp add: blob_key_def)
  show ?thesis
    unfolding write_object_def Let_def case_prod_unfold snd_conv
  proof (rule writes_then [OF write_and_log [OF write_blob] write_ref])
  qed (use assms blob in \<open>simp_all add: appendEvent_fst appendEvent_last ref_key_def\<close>)
qed

lemma ensureAgent_writes:
  assumes "ensureAgent env date now' a g db = (r, db')" and "normalizeAccountId (JStr a) = Inr a"
  shows "store_writes env a db db'"
  using assms upsertAgent_writes
  by (auto simp: ensureAgent_def and_then_def split: if_splits prod.splits sum.splits)

lemma agent_get_upsert: "agent_key r = k \<Longrightarrow> agent_get k (agent_upsert r db) \<noteq> None"
proof (cases "k \<in> set (map agent_key (agents db))")
  case True
  assume k: "agent_key r = k"
  from True obtain x where "x \<in> set (agents db)" "agent_key x = k" by auto
  then have "row_where (\<lambda>r. agent_key r = k) (agents db) \<noteq> None" by auto
  then show ?thesis using True k
    by (simp add: agent_get_def agent_upsert_def upsert_row_def row_where_update_same agent_key_def
        del: row_where_None)
next
  case False
  assume "agent_key r = k"
  with False show ?thesis
    by (simp add: agent_get_def agent_upsert_def upsert_row_def row_where_append del: row_where_None split: option.split)
qed

lemma ensureAgent_exists:
  assumes "ensureAgent env date now' a g db = (Inr u, db')" and "normalizeAccountId (JStr a) = Inr a"
    and "normalizeAgentId (JStr g) = Inr g"
  shows "agent_get (a, g) db' \<noteq> None"
proof (cases "agent_get (a, g) db = None")
  case True
  then obtain x where "upsertAgent env date now' (JStr a) (JStr g) (JObj []) (JObj []) db = (Inr x, db')"
    using assms(1) by (auto simp: ensureAgent_def and_then_Inr)
  with True assms(2,3) show ?thesis
    using agent_get_upsert [of "\<lparr>gr_account_id = a, gr_agent_id = g, gr_profile_json = _, gr_metadata_json = _,
        gr_created_at_ms = _, gr_updated_at_ms = _\<rparr>" "(a, g)" db]
    by (auto simp: upsertAgent_def agent_key_def Let_def split: sum.splits)
next
  case False
  then have "db' = db" using assms(1) by (auto simp: ensureAgent_def)
  with False show ?thesis by simp
qed

lemma put_at_writes:
  assumes "put_at env now a g p data opts copy db = (r, db')"
    and "agent_get (a, g) db \<noteq> None" and "int (length data) \<le> max_agent_object_bytes"
    and "\<And>cp x d. copy cp db = (x, d) \<Longrightarrow> store_writes env a db d"
  shows "store_writes env a db db'"
proof -
  have copy: "store_writes env a db (snd (copy cp db))" for cp
    by (rule assms(4) [of cp "fst (copy cp db)"]) simp
  show ?thesis
  using assms(1) write_object_writes [OF assms(2,3), of p] copy
  by (auto simp: put_at_def Let_def case_prod_unfold not_le and_then_def
      split: if_splits sum.splits option.splits prod.splits)
qed

lemma put_object_writes:
  "put_object fuel env date now' now v w x data opts db = (r, db') \<Longrightarrow> normalizeAccountId v = Inr a \<Longrightarrow>
     store_writes env a db db'"
proof (induction fuel arbitrary: v w x opts db r db')
  case (Suc fuel)
  note v = normalizeAccountId_JStr [OF Suc.prems(2)]
  show ?case
  proof (cases "\<exists>g p. normalizeAgentId w = Inr g \<and> normalizeAgentPath x = Inr p \<and> int (length data) \<le> max_agent_object_bytes")
    case False
    then show ?thesis using Suc.prems by (auto split: sum.splits if_splits)
  next
    case True
    then obtain g p where gp: "normalizeAgentId w = Inr g" "normalizeAgentPath x = Inr p"
      and len: "int (length data) \<le> max_agent_object_bytes" by blast
    have "and_then (ensureAgent env date now' a g db)
        (\<lambda>_ db. put_at env now a g p data opts
          (\<lambda>cp db. put_object fuel env date now' now (JStr a) (JStr g) (JStr cp) data
             \<lparr>po_base_etag = JUndef, po_expect_absent = JBool True\<rparr> db) db) = (r, db')"
      using Suc.prems len by (simp add: gp)
    then show ?thesis
      by (rule and_then_writes)
        (erule ensureAgent_writes [OF _ v],
         erule put_at_writes [OF _ ensureAgent_exists [OF _ v normalizeAgentId_JStr [OF gp(1)]] len],
         assumption, erule Suc.IH [OF _ v])
  qed
qed simp

lemma putAgentObject_writes:
  assumes "putAgentObject env date now' now v w x data opts db = (r, db')" and "normalizeAccountId v = Inr a"
  shows "store_writes env a db db'"
  by (rule in_transaction_writes [OF assms(1) [unfolded putAgentObject_def]])
    (erule put_object_writes [OF _ assms(2)])

end
