(* ===== verification/SyncState.thy ===== *)
theory SyncState
  imports SyncEffects
begin

text \<open>
  What the account synchronisation store keeps: the invariant of its tables (\<open>store_inv\<close>), the
  rows of every other account (\<open>same_account\<close>), and the history of its log (\<open>kept_log\<close>).
\<close>

section \<open>The invariant of the tables\<close>

definition blob_ok :: "sync_env \<Rightarrow> blob_row \<Rightarrow> bool" where
  "blob_ok env b \<longleftrightarrow>
     bl_sha256 b = se_sha256 env (bl_data b) \<and> bl_blob_id b = bl_sha256 b \<and>
     bl_size_bytes b = length (bl_data b) \<and> int (length (bl_data b)) \<le> max_agent_object_bytes"

definition ref_ok :: "'a sync_db_scheme \<Rightarrow> ref_row \<Rightarrow> bool" where
  "ref_ok db r \<longleftrightarrow>
     agent_get (rf_account_id r, rf_agent_id r) db \<noteq> None \<and>
     getAgentBlob (rf_account_id r, rf_agent_id r, rf_blob_id r) db \<noteq> None \<and>
     rf_etag r = ''sha256:'' @ rf_blob_id r \<and> rf_revision r \<le> sync_last db"

definition cloud_ok :: "'a sync_db_scheme \<Rightarrow> cloud_row \<Rightarrow> bool" where
  "cloud_ok db r \<longleftrightarrow>
     cloud_key_pattern (cl_key r) \<and> utf8_length (cl_value r) \<le> 4096 \<and> cl_revision r \<le> sync_last db"

definition store_inv :: "sync_env \<Rightarrow> 'a sync_db_scheme \<Rightarrow> bool" where
  "store_inv env db \<longleftrightarrow>
     distinct (map install_key (installs db)) \<and> distinct (map membership_key (memberships db)) \<and>
     distinct (map cloud_key (cloud_values db)) \<and> distinct (map agent_key (agents db)) \<and>
     distinct (map blob_key (agent_blobs db)) \<and> distinct (map ref_key (agent_refs db)) \<and>
     (\<forall>b \<in> set (agent_blobs db). blob_ok env b) \<and> (\<forall>r \<in> set (agent_refs db). ref_ok db r) \<and>
     (\<forall>r \<in> set (cloud_values db). cloud_ok db r) \<and>
     (\<forall>a m. cloudCount a m db \<le> 1024) \<and> (\<forall>a g. int (agentRefCount a g db) \<le> max_agent_objects)"

lemma store_inv_parts:
  assumes "store_inv env db"
  shows "distinct (map install_key (installs db))" "distinct (map membership_key (memberships db))"
    "distinct (map cloud_key (cloud_values db))" "distinct (map agent_key (agents db))"
    "distinct (map blob_key (agent_blobs db))" "distinct (map ref_key (agent_refs db))"
    "b \<in> set (agent_blobs db) \<Longrightarrow> blob_ok env b" "r \<in> set (agent_refs db) \<Longrightarrow> ref_ok db r"
    "c \<in> set (cloud_values db) \<Longrightarrow> cloud_ok db c" "cloudCount a m db \<le> 1024"
    "int (agentRefCount a g db) \<le> max_agent_objects"
  using assms unfolding store_inv_def by blast+

text \<open>A write that leaves the tables of references, blobs, agents and cloud values as they were.\<close>

lemma store_inv_same:
  assumes "store_inv env db" and "distinct (map install_key (installs db'))" "distinct (map membership_key (memberships db'))"
    and "cloud_values db' = cloud_values db" "agents db' = agents db" "agent_blobs db' = agent_blobs db"
    "agent_refs db' = agent_refs db" "sync_last db \<le> sync_last db'"
  shows "store_inv env db'"
proof -
  have look: "agent_get k db' = agent_get k db" "getAgentBlob j db' = getAgentBlob j db"
    "cloudCount a m db' = cloudCount a m db" "agentRefCount a g db' = agentRefCount a g db" for k j a m g
    using assms(4-7) by (simp_all add: agent_get_def getAgentBlob_def cloudCount_def agentRefCount_def)
  show ?thesis
    using assms store_inv_parts(8,9) [OF assms(1)]
    unfolding store_inv_def by (fastforce simp: look ref_ok_def cloud_ok_def)
qed

lemma distinct_filter_key: "distinct (map key rows) \<Longrightarrow> distinct (map key (filter P rows))"
  by (rule distinct_map_filter)

lemma update_keys [simp]:
  "install_key (old\<lparr>in_version := v, in_bot_id := i, in_bot_json := j, in_updated_at_ms := u\<rparr>) = install_key old"
  "membership_key (m\<lparr>mb_profile_json := p, mb_updated_at_ms := u\<rparr>) = membership_key m"
  "cloud_key (c\<lparr>cl_value := x, cl_revision := n, cl_updated_at_ms := u\<rparr>) = cloud_key c"
  "agent_key (g\<lparr>gr_profile_json := p, gr_metadata_json := q, gr_updated_at_ms := u\<rparr>) = agent_key g"
  "ref_key (r\<lparr>rf_blob_id := b, rf_etag := e, rf_revision := n, rf_updated_at_ms := u\<rparr>) = ref_key r"
  by (simp_all add: install_key_def membership_key_def cloud_key_def agent_key_def ref_key_def)

lemma changes_upsert:
  assumes "\<And>x. key x = key r \<Longrightarrow> P (f x) = P x" and "\<And>x. key x = key r \<Longrightarrow> P x = P r"
  shows "changes P (upsert_row key r f rows) =
    (if key r \<in> set (map key rows) \<or> \<not> P r then changes P rows else Suc (changes P rows))"
proof -
  have "length (filter P (update_where (\<lambda>x. key x = key r) f rows)) = length (filter P rows)"
    using assms(1) by (induction rows) auto
  then show ?thesis by (simp add: changes_def upsert_row_def)
qed

lemma changes_filter_le: "changes P (filter Q rows) \<le> changes P rows"
  by (induction rows) (auto simp: changes_def)

lemma agents_upsert_keep: "agent_get k db \<noteq> None \<Longrightarrow> agent_get k (agent_upsert r db) \<noteq> None"
  using agent_table.lookup_upsert [of "agent_upsert r db" r _ db k]
  by (simp add: agent_upsert_def split: option.splits)

lemma store_inv_agent: "store_inv env db \<Longrightarrow> store_inv env (agent_upsert r db)"
proof -
  assume inv: "store_inv env db"
  have ref: "ref_ok (agent_upsert r db) x" if "x \<in> set (agent_refs db)" for x
    using store_inv_parts(8) [OF inv that] agents_upsert_keep [of _ db r]
    by (auto simp: ref_ok_def) (auto simp: agent_upsert_def getAgentBlob_def)
  have "distinct (map agent_key (agents (agent_upsert r db)))"
    unfolding agent_upsert_def using store_inv_parts(4) [OF inv] by (simp add: distinct_upsert_row)
  moreover have "cloud_values (agent_upsert r db) = cloud_values db" "agent_refs (agent_upsert r db) = agent_refs db"
    "agent_blobs (agent_upsert r db) = agent_blobs db" "sync_last (agent_upsert r db) = sync_last db"
    "installs (agent_upsert r db) = installs db" "memberships (agent_upsert r db) = memberships db"
    by (simp_all add: agent_upsert_def)
  ultimately show ?thesis
    using inv ref unfolding store_inv_def cloudCount_def agentRefCount_def cloud_ok_def by simp
qed

lemma blobs_insert_keep: "getAgentBlob k db \<noteq> None \<Longrightarrow> getAgentBlob k (insertAgentBlob b db) \<noteq> None"
  by (auto simp: insertAgentBlob_def getAgentBlob_def row_where_append)

lemma store_inv_blob:
  assumes "store_inv env db" and "blob_ok env b"
  shows "store_inv env (insertAgentBlob b db)"
proof -
  have ref: "ref_ok (insertAgentBlob b db) x" if "x \<in> set (agent_refs db)" for x
    using store_inv_parts(8) [OF assms(1) that] blobs_insert_keep [of _ db b]
    by (auto simp: ref_ok_def) (auto simp: insertAgentBlob_def)
  have "distinct (map blob_key (agent_blobs (insertAgentBlob b db)))"
    "\<forall>x \<in> set (agent_blobs (insertAgentBlob b db)). blob_ok env x"
    using store_inv_parts(5,7) [OF assms(1)] assms(2) by (auto simp: insertAgentBlob_def)
  moreover have "cloud_values (insertAgentBlob b db) = cloud_values db" "agent_refs (insertAgentBlob b db) = agent_refs db"
    "agents (insertAgentBlob b db) = agents db" "sync_last (insertAgentBlob b db) = sync_last db"
    "installs (insertAgentBlob b db) = installs db" "memberships (insertAgentBlob b db) = memberships db"
    by (simp_all add: insertAgentBlob_def)
  ultimately show ?thesis
    using assms(1) ref unfolding store_inv_def cloudCount_def agentRefCount_def cloud_ok_def by simp
qed

text \<open>The tables of references and cloud values after one of their own writes.\<close>

lemma store_inv_refs:
  assumes "store_inv env db" and "db' = db\<lparr>agent_refs := rs\<rparr>" and "distinct (map ref_key rs)"
    and "\<And>r. r \<in> set rs \<Longrightarrow> ref_ok db r"
    and "\<And>a g. int (changes (\<lambda>r. rf_account_id r = a \<and> rf_agent_id r = g) rs) \<le> max_agent_objects"
  shows "store_inv env db'"
proof -
  have "ref_ok db' r = ref_ok db r" for r by (simp add: ref_ok_def assms(2) agent_get_def getAgentBlob_def)
  then show ?thesis using assms unfolding store_inv_def by (simp add: agentRefCount_def cloudCount_def cloud_ok_def)
qed

lemma store_inv_cloud:
  assumes "store_inv env db" and "db' = db\<lparr>cloud_values := rs\<rparr>" and "distinct (map cloud_key rs)"
    and "\<And>r. r \<in> set rs \<Longrightarrow> cloud_ok db r"
    and "\<And>a m. changes (\<lambda>r. cl_account_id r = a \<and> cl_mini_app_id r = m) rs \<le> 1024"
  shows "store_inv env db'"
proof -
  have "ref_ok db' r = ref_ok db r" for r by (simp add: ref_ok_def assms(2) agent_get_def getAgentBlob_def)
  then show ?thesis using assms unfolding store_inv_def by (simp add: agentRefCount_def cloudCount_def cloud_ok_def)
qed

lemma store_inv_upsert_ref:
  assumes "store_inv env db" and "ref_ok db r"
    and "getAgentRef (ref_key r) db \<noteq> None \<or> int (agentRefCount (rf_account_id r) (rf_agent_id r) db) < max_agent_objects"
  shows "store_inv env (upsertAgentRef r db)"
proof (rule store_inv_refs [OF assms(1) upsertAgentRef_def], goal_cases)
  case 1
  show ?case using store_inv_parts(6) [OF assms(1)] by (simp add: distinct_upsert_row)
next
  case (2 x)
  from in_upsert_row [OF this] show ?case
    using store_inv_parts(8) [OF assms(1)] assms(2) by (auto simp: ref_ok_def ref_key_def)
next
  case (3 a g)
  have "getAgentRef (ref_key r) db \<noteq> None \<longleftrightarrow> ref_key r \<in> set (map ref_key (agent_refs db))"
    using ref_table.lookup_None [of "ref_key r" db] by simp
  then show ?case
    using assms(3) store_inv_parts(11) [OF assms(1), of a g]
    by (subst changes_upsert) (auto simp: ref_key_def agentRefCount_def)
qed

lemma store_inv_upsert_cloud:
  assumes "store_inv env db" and "cloud_ok db r"
    and "cloud_get (cloud_key r) db \<noteq> None \<or> cloudCount (cl_account_id r) (cl_mini_app_id r) db < 1024"
  shows "store_inv env (upsertCloudValue r db)"
proof (rule store_inv_cloud [OF assms(1) upsertCloudValue_def], goal_cases)
  case 1
  show ?case using store_inv_parts(3) [OF assms(1)] by (simp add: distinct_upsert_row)
next
  case (2 x)
  from in_upsert_row [OF this] show ?case
    using store_inv_parts(9) [OF assms(1)] assms(2) by (auto simp: cloud_ok_def cloud_key_def)
next
  case (3 a m)
  have "cloud_get (cloud_key r) db \<noteq> None \<longleftrightarrow> cloud_key r \<in> set (map cloud_key (cloud_values db))"
    using cloud_table.lookup_None [of "cloud_key r" db] by simp
  then show ?case
    using assms(3) store_inv_parts(10) [OF assms(1), of a m]
    by (subst changes_upsert) (auto simp: cloud_key_def cloudCount_def)
qed

lemma store_write_inv:
  assumes "store_inv env db" and "store_write env a db db'"
  shows "store_inv env db'"
  using assms(2)
proof cases
  case (write_event t i p now)
  then show ?thesis by (auto intro!: store_inv_same [OF assms(1)] simp: appendEvent_last store_inv_parts [OF assms(1)])
next
  case (write_install r)
  then show ?thesis
    by (auto intro!: store_inv_same [OF assms(1)] distinct_upsert_row
        simp: upsertMiniAppInstall_def store_inv_parts [OF assms(1)])
next
  case (delete_install k)
  then show ?thesis
    by (auto intro!: store_inv_same [OF assms(1)] distinct_filter_key
        simp: deleteMiniAppInstall_def store_inv_parts [OF assms(1)])
next
  case (write_membership r)
  then show ?thesis
    by (auto intro!: store_inv_same [OF assms(1)] distinct_upsert_row
        simp: upsertBotMembership_def store_inv_parts [OF assms(1)])
next
  case (delete_membership k)
  then show ?thesis
    by (auto intro!: store_inv_same [OF assms(1)] distinct_filter_key
        simp: deleteBotMembership_def store_inv_parts [OF assms(1)])
next
  case (write_agent r)
  then show ?thesis using store_inv_agent [OF assms(1)] by simp
next
  case (write_blob r)
  then show ?thesis using store_inv_blob [OF assms(1)] by (simp add: blob_ok_def)
next
  case (write_ref r)
  then show ?thesis using store_inv_upsert_ref [OF assms(1), of r] by (simp add: ref_ok_def)
next
  case (delete_ref k)
  then show ?thesis
    using store_inv_parts(6,8,11) [OF assms(1)]
    by (intro store_inv_refs [OF assms(1) deleteAgentRef_def [of k db, folded delete_ref(1)]])
      (auto intro: distinct_filter_key order_trans [OF changes_filter_le [THEN of_nat_mono]] simp: agentRefCount_def)
next
  case (write_cloud r)
  then show ?thesis using store_inv_upsert_cloud [OF assms(1), of r] by (simp add: cloud_ok_def)
next
  case (delete_cloud k)
  then show ?thesis
    using store_inv_parts(3,9,10) [OF assms(1)]
    by (intro store_inv_cloud [OF assms(1) cloud_delete_def [of k db, folded delete_cloud(1)]])
      (auto intro: distinct_filter_key order_trans [OF changes_filter_le] simp: cloudCount_def)
qed

end
