(* ===== verification/SyncRuns.thy ===== *)
theory SyncRuns
  imports SyncState
begin

text \<open>
  The account synchronisation store as a system: its operations (\<open>sync_op\<close>), the runs of statements
  with the history of every event ever appended (\<open>sync_run\<close>), and what clients rely on: no event is
  missed, one account never sees another, no write is lost.
\<close>

section \<open>Runs and their history\<close>

inductive logged_write ::
  "sync_env \<Rightarrow> string \<Rightarrow> sync_event list \<Rightarrow> 'a sync_db_scheme \<Rightarrow> 'a sync_db_scheme \<Rightarrow> bool"
  for env :: sync_env and a :: string where
  logged_event: "logged_write env a [new_event a t i p now db] db (snd (appendEvent (se_retention env) a t i p now db))"
| logged_table: "store_write env a db db' \<Longrightarrow> sync_last db' = sync_last db \<Longrightarrow> sync_events db' = sync_events db \<Longrightarrow>
    sync_floors db' = sync_floors db \<Longrightarrow> logged_write env a [] db db'"

definition fresh_sync :: "'a sync_db_scheme \<Rightarrow> bool" where
  "fresh_sync db \<longleftrightarrow> sync_last db = 0 \<and> sync_events db = [] \<and> sync_floors db = [] \<and> installs db = [] \<and>
     memberships db = [] \<and> cloud_values db = [] \<and> agents db = [] \<and> agent_blobs db = [] \<and> agent_refs db = []"

inductive sync_run :: "sync_env \<Rightarrow> sync_event list \<Rightarrow> 'a sync_db_scheme \<Rightarrow> bool" for env :: sync_env where
  run_fresh: "fresh_sync db \<Longrightarrow> sync_run env [] db"
| run_write: "sync_run env H db \<Longrightarrow> logged_write env a es db db' \<Longrightarrow> sync_run env (H @ es) db'"

lemma store_write_logged:
  assumes "store_write env a db db'"
  obtains es where "logged_write env a es db db'"
proof (cases "\<exists>t i p now. db' = snd (appendEvent (se_retention env) a t i p now db)")
  case True
  then show thesis using logged_event that by blast
next
  case False
  with assms have "sync_last db' = sync_last db \<and> sync_events db' = sync_events db \<and> sync_floors db' = sync_floors db"
    by cases (auto simp: upsertMiniAppInstall_def deleteMiniAppInstall_def upsertBotMembership_def
        deleteBotMembership_def agent_upsert_def insertAgentBlob_def upsertAgentRef_def deleteAgentRef_def
        upsertCloudValue_def cloud_delete_def)
  then show thesis using logged_table [OF assms] that by blast
qed

lemma logged_write_store: "logged_write env a es db db' \<Longrightarrow> store_write env a db db'"
  by (auto elim!: logged_write.cases intro: write_event)

lemma logged_write_account: "logged_write env a es db db' \<Longrightarrow> e \<in> set es \<Longrightarrow> ev_account_id e = a"
  by (auto elim!: logged_write.cases)

lemma floor_same: "sync_floors db' = sync_floors db \<Longrightarrow> floorSequence b db' = floorSequence b db"
  by (simp add: floorSequence_def)

lemma logged_write_log:
  assumes "0 < se_retention env" and "log_ok (se_retention env) H db" and "logged_write env a es db db'"
  shows "log_ok (se_retention env) (H @ es) db'"
  using assms(3)
proof cases
  case (logged_event t i p now)
  then show ?thesis using appendEvent_ok [OF assms(1,2)] by simp
next
  case logged_table
  then have "floorSequence b db' = floorSequence b db" "eventCount b db' = eventCount b db" for b
    by (simp_all add: floorSequence_def eventCount_def)
  with logged_table assms(2) show ?thesis by (simp add: log_ok_def logged_def)
qed

lemma sync_run_log: "sync_run env H db \<Longrightarrow> 0 < se_retention env \<Longrightarrow> log_ok (se_retention env) H db"
proof (induction rule: sync_run.induct)
  case (run_fresh db)
  then show ?case
    by (auto simp: fresh_sync_def log_ok_def logged_def account_events_def floorSequence_def eventCount_def)
next
  case (run_write H db a es db')
  then show ?case using logged_write_log by blast
qed

lemma fresh_sync_inv: "fresh_sync db \<Longrightarrow> store_inv env db"
  by (simp add: fresh_sync_def store_inv_def cloudCount_def agentRefCount_def changes_def max_agent_objects_def)

interpretation store_system: invariant_system "\<lambda>db db'. \<exists>a. store_write env a db db'" "store_inv env"
  for env :: sync_env
  by unfold_locales (auto intro: store_write_inv)

lemma sync_run_inv: "sync_run env H db \<Longrightarrow> store_inv env db"
proof (induction rule: sync_run.induct)
  case (run_fresh db)
  then show ?case by (rule fresh_sync_inv)
next
  case (run_write H db a es db')
  then show ?case using store_system.step_inv logged_write_store by blast
qed

lemma sync_run_writes:
  assumes "store_writes env a db db'" and "sync_run env H db"
  obtains es where "sync_run env (H @ es) db'" and "\<forall>e \<in> set es. ev_account_id e = a"
  using assms
proof (induction arbitrary: thesis rule: rtranclp_induct)
  case base
  then show ?case by (metis append_Nil2 empty_iff empty_set)
next
  case (step d d')
  obtain es where es: "sync_run env (H @ es) d" "\<forall>e \<in> set es. ev_account_id e = a"
    using step.IH step.prems(2) by blast
  obtain fs where fs: "logged_write env a fs d d'" using store_write_logged step.hyps(2) by blast
  have "sync_run env (H @ (es @ fs)) d'" using run_write [OF es(1) fs] by simp
  moreover have "\<forall>e \<in> set (es @ fs). ev_account_id e = a" using es(2) logged_write_account [OF fs] by auto
  ultimately show ?case by (rule step.prems(1))
qed

section \<open>Operations\<close>

text \<open>The clock readings of an operation are its first arguments.\<close>

datatype sync_op =
    Install_App int int int js
  | Remove_App int js
  | Add_Bot int int int js js js
  | Remove_Bot int js js js
  | Upsert_Agent int int js js js
  | Put_Object int int int js js string put_options
  | Delete_Object int js js js
  | Set_Cloud int js js js
  | Delete_Cloud int js js
  | Record_Event int js js js

fun sync_exec :: "sync_env \<Rightarrow> js \<Rightarrow> sync_op \<Rightarrow> 'a sync_db_scheme \<Rightarrow> 'a sync_db_scheme" where
  "sync_exec env v (Install_App now date now' manifest) db = snd (installMiniApp env now date now' v manifest db)"
| "sync_exec env v (Remove_App now m) db = snd (removeMiniApp env now v m db)"
| "sync_exec env v (Add_Bot now date now' profile s i) db = snd (addBot env now date now' v profile s i db)"
| "sync_exec env v (Remove_Bot now b s i) db = snd (removeBot env now v b s i db)"
| "sync_exec env v (Upsert_Agent date now g p m) db = snd (upsertAgent env date now v g p m db)"
| "sync_exec env v (Put_Object date now' now g p data opts) db = snd (putAgentObject env date now' now v g p data opts db)"
| "sync_exec env v (Delete_Object now g p e) db = snd (deleteAgentObject env now v g p e db)"
| "sync_exec env v (Set_Cloud now m k x) db = snd (setCloudValue env now v m k x db)"
| "sync_exec env v (Delete_Cloud now m k) db = snd (deleteCloudValue env now v m k db)"
| "sync_exec env v (Record_Event now t i p) db = snd (recordEvent env now v t i p db)"

lemmas operation_writes =
  installMiniApp_writes removeMiniApp_writes addBot_writes removeBot_writes upsertAgent_writes
  putAgentObject_writes deleteAgentObject_writes setCloudValue_writes deleteCloudValue_writes recordEvent_writes

lemma sync_exec_writes: "normalizeAccountId v = Inr a \<Longrightarrow> store_writes env a db (sync_exec env v op db)"
  by (cases op) (simp_all, (rule operation_writes [OF prod.collapse [symmetric]], assumption)+)

section \<open>Other accounts\<close>

definition same_account :: "string \<Rightarrow> 'a sync_db_scheme \<Rightarrow> 'a sync_db_scheme \<Rightarrow> bool" where
  "same_account b db db' \<longleftrightarrow>
     account_events b (sync_events db') = account_events b (sync_events db) \<and>
     floorSequence b db' = floorSequence b db \<and>
     filter (\<lambda>r. in_account_id r = b) (installs db') = filter (\<lambda>r. in_account_id r = b) (installs db) \<and>
     filter (\<lambda>r. mb_account_id r = b) (memberships db') = filter (\<lambda>r. mb_account_id r = b) (memberships db) \<and>
     filter (\<lambda>r. cl_account_id r = b) (cloud_values db') = filter (\<lambda>r. cl_account_id r = b) (cloud_values db) \<and>
     filter (\<lambda>r. gr_account_id r = b) (agents db') = filter (\<lambda>r. gr_account_id r = b) (agents db) \<and>
     filter (\<lambda>r. bl_account_id r = b) (agent_blobs db') = filter (\<lambda>r. bl_account_id r = b) (agent_blobs db) \<and>
     filter (\<lambda>r. rf_account_id r = b) (agent_refs db') = filter (\<lambda>r. rf_account_id r = b) (agent_refs db)"

lemma append_other:
  assumes "b \<noteq> a"
  shows "account_events b (sync_events (snd (appendEvent R a t i p now db))) = account_events b (sync_events db)"
    and "floorSequence b (snd (appendEvent R a t i p now db)) = floorSequence b db"
proof -
  have ins: "account_events b (sync_events (insertEvent a t i x now db)) = account_events b (sync_events db)" for x
    using assms by (simp add: account_events_def insertEvent_def)
  have "account_events b (sync_events (sync_prune R a now d)) = account_events b (sync_events d)"
    and "floorSequence b (sync_prune R a now d) = floorSequence b d" for d :: "'a sync_log_scheme"
    using assms
    by (auto simp: sync_prune_def account_events_delete floorSequence_upsertState split: list.split)
  then show "account_events b (sync_events (snd (appendEvent R a t i p now db))) = account_events b (sync_events db)"
    "floorSequence b (snd (appendEvent R a t i p now db)) = floorSequence b db"
    by (simp_all add: appendEvent_def Let_def ins)
qed

lemma store_write_other:
  assumes "store_write env a db db'" and "b \<noteq> a"
  shows "same_account b db db'"
  using assms(1)
proof cases
  case (write_event t i p now)
  then show ?thesis by (simp add: same_account_def append_other [OF assms(2)])
next
  case (write_blob r)
  then show ?thesis using assms(2) by (simp add: same_account_def insertAgentBlob_def floorSequence_def)
next
  case (write_install r)
  then show ?thesis using assms(2)
    by (auto simp: same_account_def upsertMiniAppInstall_def floorSequence_def install_key_def intro!: filter_upsert_row)
next
  case (write_membership r)
  then show ?thesis using assms(2)
    by (auto simp: same_account_def upsertBotMembership_def floorSequence_def membership_key_def intro!: filter_upsert_row)
next
  case (write_agent r)
  then show ?thesis using assms(2)
    by (auto simp: same_account_def agent_upsert_def floorSequence_def agent_key_def intro!: filter_upsert_row)
next
  case (write_ref r)
  then show ?thesis using assms(2)
    by (auto simp: same_account_def upsertAgentRef_def floorSequence_def ref_key_def intro!: filter_upsert_row)
next
  case (write_cloud r)
  then show ?thesis using assms(2)
    by (auto simp: same_account_def upsertCloudValue_def floorSequence_def cloud_key_def intro!: filter_upsert_row)
next
  case (delete_install k)
  then show ?thesis using assms(2)
    by (auto simp: same_account_def deleteMiniAppInstall_def floorSequence_def install_key_def intro!: filter_cong)
next
  case (delete_membership k)
  then show ?thesis using assms(2)
    by (auto simp: same_account_def deleteBotMembership_def floorSequence_def membership_key_def intro!: filter_cong)
next
  case (delete_ref k)
  then show ?thesis using assms(2)
    by (auto simp: same_account_def deleteAgentRef_def floorSequence_def ref_key_def intro!: filter_cong)
next
  case (delete_cloud k)
  then show ?thesis using assms(2)
    by (auto simp: same_account_def cloud_delete_def floorSequence_def cloud_key_def intro!: filter_cong)
qed

lemma store_writes_other: "store_writes env a db db' \<Longrightarrow> b \<noteq> a \<Longrightarrow> same_account b db db'"
proof (induction rule: rtranclp_induct)
  case base
  then show ?case by (simp add: same_account_def)
next
  case (step d d')
  then show ?case using store_write_other [OF step.hyps(2) step.prems] by (simp add: same_account_def)
qed

end
