(* ===== verification/ObjectLaws.thy ===== *)
theory ObjectLaws
  imports SyncRuns
begin

text \<open>
  The agent object store: what a write leaves to be read, and how \<open>putAgentObject\<close> ends.  On a store
  that satisfies \<open>store_inv\<close> the recursion for a conflict copy is one level deep.
\<close>

lemma getAgentRef_upsert:
  "getAgentRef k (upsertAgentRef r db) =
     (if k = ref_key r
      then Some (case getAgentRef k db of None \<Rightarrow> r
        | Some old \<Rightarrow> old\<lparr>rf_blob_id := rf_blob_id r, rf_etag := rf_etag r, rf_revision := rf_revision r,
             rf_updated_at_ms := rf_updated_at_ms r\<rparr>)
      else getAgentRef k db)"
  by (subst ref_table.lookup_upsert [OF _ _, where r = r and db = db]) (auto simp: upsertAgentRef_def)

lemma getAgentBlob_upsertRef [simp]: "getAgentBlob k (upsertAgentRef r db) = getAgentBlob k db"
  by (simp add: getAgentBlob_def upsertAgentRef_def)

lemma blob_key_of: "getAgentBlob k db = Some b \<Longrightarrow> blob_key b = k \<and> b \<in> set (agent_blobs db)"
  using blob_table.lookup_Some by blast

lemma getAgentBlob_insert:
  "getAgentBlob k (insertAgentBlob b db) =
     (if k = blob_key b then Some (case getAgentBlob k db of None \<Rightarrow> b | Some x \<Rightarrow> x) else getAgentBlob k db)"
proof (cases "blob_key b \<in> set (map blob_key (agent_blobs db))")
  case True
  then obtain x where "getAgentBlob (blob_key b) db = Some x"
    using blob_table.lookup_None [of "blob_key b" db] by fastforce
  then show ?thesis using True by (auto simp: insertAgentBlob_def)
next
  case False
  then have "getAgentBlob (blob_key b) db = None" by (simp add: blob_table.lookup_None)
  moreover have "agent_blobs (insertAgentBlob b db) = agent_blobs db @ [b]" using False by (simp add: insertAgentBlob_def)
  ultimately show ?thesis using blob_table.lookup_insert [of "insertAgentBlob b db" db b k] False by simp
qed

lemma write_object_read:
  assumes "store_inv env db" and "write_object env now a g p data db = (s, db')"
  shows "\<exists>obj. agent_object_at (a, g, p) db' = Some obj \<and> so_sha256 (ao_stored obj) = se_sha256 env data \<and>
      so_path (ao_stored obj) = p \<and> so_etag (ao_stored obj) = so_etag s \<and>
      se_sha256 env (ao_data obj) = se_sha256 env data \<and>
      (ao_data obj = data \<or> (\<exists>b \<in> set (agent_blobs db). ao_data obj = bl_data b))"
    and "k \<noteq> (a, g, p) \<Longrightarrow> getAgentRef k db' = getAgentRef k db"
    and "so_path s = p" and "so_etag s = ''sha256:'' @ se_sha256 env data"
proof -
  let ?sha = "se_sha256 env data"
  let ?b = "\<lparr>bl_account_id = a, bl_agent_id = g, bl_blob_id = ?sha, bl_sha256 = ?sha,
    bl_data = data, bl_size_bytes = length data, bl_created_at_ms = now\<rparr>"
  obtain rev db2 where ev: "appendEvent (se_retention env) a ''agent.store.written'' (g @ '':'' @ p)
      (JObj [(''agentId'', JStr g), (''path'', JStr p), (''blobId'', JStr ?sha), (''sha256'', JStr ?sha),
         (''sizeBytes'', JNum (int (length data)))]) now (insertAgentBlob ?b db) = (rev, db2)"
    by fastforce
  then have db2: "db2 = snd (appendEvent (se_retention env) a ''agent.store.written'' (g @ '':'' @ p)
      (JObj [(''agentId'', JStr g), (''path'', JStr p), (''blobId'', JStr ?sha), (''sha256'', JStr ?sha),
         (''sizeBytes'', JNum (int (length data)))]) now (insertAgentBlob ?b db))" by simp
  let ?r = "\<lparr>rf_account_id = a, rf_agent_id = g, rf_rel_path = p, rf_blob_id = ?sha,
    rf_etag = ''sha256:'' @ ?sha, rf_revision = rev, rf_updated_at_ms = now\<rparr>"
  have "write_object env now a g p data db = (\<lparr>so_agent_id = g, so_path = p, so_blob_id = ?sha, so_sha256 = ?sha,
      so_etag = ''sha256:'' @ ?sha, so_revision = rev, so_updated_at_ms = now, so_size_bytes = None\<rparr>,
      upsertAgentRef ?r db2)"
    unfolding write_object_def Let_def ev prod.case ..
  then have w: "db' = upsertAgentRef ?r db2" "s = \<lparr>so_agent_id = g, so_path = p, so_blob_id = ?sha, so_sha256 = ?sha,
      so_etag = ''sha256:'' @ ?sha, so_revision = rev, so_updated_at_ms = now, so_size_bytes = None\<rparr>"
    using assms(2) by simp_all
  have rk: "ref_key ?r = (a, g, p)" and bk: "blob_key ?b = (a, g, ?sha)" by (simp_all add: ref_key_def blob_key_def)
  have ref: "getAgentRef k db' = (if k = (a, g, p)
      then Some (case getAgentRef k db of None \<Rightarrow> ?r
        | Some old \<Rightarrow> old\<lparr>rf_blob_id := ?sha, rf_etag := ''sha256:'' @ ?sha, rf_revision := rev, rf_updated_at_ms := now\<rparr>)
      else getAgentRef k db)" for k
    unfolding w(1) getAgentRef_upsert rk by (simp add: db2 split: option.split)
  show "k \<noteq> (a, g, p) \<Longrightarrow> getAgentRef k db' = getAgentRef k db" by (simp add: ref)
  show "so_path s = p" "so_etag s = ''sha256:'' @ se_sha256 env data" by (simp_all add: w)
  obtain b where b: "getAgentBlob (a, g, ?sha) db' = Some b" "b = ?b \<or> getAgentBlob (a, g, ?sha) db = Some b"
    by (auto simp: w(1) db2 getAgentBlob_insert bk split: option.split)
  have bsha: "bl_sha256 b = ?sha \<and> se_sha256 env (bl_data b) = ?sha \<and> (bl_data b = data \<or> b \<in> set (agent_blobs db))"
    using b(2)
  proof
    assume "getAgentBlob (a, g, ?sha) db = Some b"
    then have "blob_key b = (a, g, ?sha)" "b \<in> set (agent_blobs db)" using blob_key_of by blast+
    then show ?thesis using store_inv_parts(7) [OF assms(1)] by (auto simp: blob_ok_def blob_key_def)
  qed simp
  have "\<exists>r. getAgentRef (a, g, p) db' = Some r \<and> rf_account_id r = a \<and> rf_agent_id r = g \<and> rf_rel_path r = p \<and>
      rf_blob_id r = ?sha \<and> rf_etag r = ''sha256:'' @ ?sha"
  proof (cases "getAgentRef (a, g, p) db")
    case (Some old)
    then have "ref_key old = (a, g, p)" using ref_table.lookup_Some by blast
    then show ?thesis by (simp add: ref Some ref_key_def)
  qed (simp add: ref)
  then show "\<exists>obj. agent_object_at (a, g, p) db' = Some obj \<and> so_sha256 (ao_stored obj) = se_sha256 env data \<and>
      so_path (ao_stored obj) = p \<and> so_etag (ao_stored obj) = so_etag s \<and>
      se_sha256 env (ao_data obj) = se_sha256 env data \<and>
      (ao_data obj = data \<or> (\<exists>b \<in> set (agent_blobs db). ao_data obj = bl_data b))"
    using b(1) bsha by (auto simp: agent_object_at_def w(2))
qed

text \<open>The database on which the checks of a put have passed and the agent exists.\<close>

lemma ensureAgent_refs:
  assumes "ensureAgent env date now' a g db = (r, db')"
  shows "agent_refs db' = agent_refs db" and "agent_blobs db' = agent_blobs db"
  using assms
  by (auto simp: ensureAgent_def and_then_def upsertAgent_def Let_def agent_upsert_def
      split: if_splits sum.splits option.splits prod.splits)

lemma no_dangling_ref:
  assumes "store_inv env db" and "agent_object_at k db = None"
  shows "getAgentRef k db = None"
proof (rule ccontr)
  assume "getAgentRef k db \<noteq> None"
  then obtain r where r: "getAgentRef k db = Some r" by blast
  then have "r \<in> set (agent_refs db)" using ref_table.lookup_Some by blast
  then have "getAgentBlob (rf_account_id r, rf_agent_id r, rf_blob_id r) db \<noteq> None"
    using store_inv_parts(8) [OF assms(1)] by (simp add: ref_ok_def)
  with r assms(2) show False by (auto simp: agent_object_at_def split: option.splits)
qed

definition absent_options :: put_options where
  "absent_options = \<lparr>po_base_etag = JUndef, po_expect_absent = JBool True\<rparr>"

text \<open>The nested put of a conflict copy meets no conflict of its own.\<close>

lemma put_copy:
  assumes "store_inv env db" and "normalizeAccountId (JStr a) = Inr a" and "normalizeAgentId (JStr g) = Inr g"
    and "agent_get (a, g) db \<noteq> None" and "int (length data) \<le> max_agent_object_bytes"
    and "getAgentObject (JStr a) (JStr g) (JStr cp) db = Inr None"
    and "put_object (Suc fuel) env date now' now (JStr a) (JStr g) (JStr cp) data absent_options db = (r, db')"
  shows "(r = Inl AGENT_OBJECT_LIMIT \<and> db' = db) \<or>
    (\<exists>p s. normalizeAgentPath (JStr cp) = Inr p \<and> getAgentRef (a, g, p) db = None \<and> r = Inr (Written s) \<and>
       write_object env now a g p data db = (s, db'))"
proof -
  obtain p where p: "normalizeAgentPath (JStr cp) = Inr p" "agent_object_at (a, g, p) db = None"
    using assms(2,3,6) by (auto simp: getAgentObject_def split: sum.splits)
  have none: "getAgentRef (a, g, p) db = None" by (rule no_dangling_ref [OF assms(1) p(2)])
  have ens: "ensureAgent env date now' a g db = (Inr (), db)" using assms(4) by (auto simp: ensureAgent_def)
  have no_conflict: "\<not> in_conflict absent_options None"
    by (simp add: in_conflict_def base_etag_def absent_options_def)
  show ?thesis
    using assms(2,3,5,7) p none no_conflict
    by (auto simp: ens put_at_def Let_def case_prod_unfold split: if_splits)
qed

declare put_object.simps [simp del]

lemma getAgentObject_at:
  "normalizeAccountId v = Inr a \<Longrightarrow> normalizeAgentId w = Inr g \<Longrightarrow> normalizeAgentPath x = Inr p \<Longrightarrow>
     getAgentObject v w x db = Inr (agent_object_at (a, g, p) db)"
  by (simp add: getAgentObject_def)

text \<open>How a put ends once its arguments are valid.\<close>

lemma ensureAgent_writes':
  "normalizeAccountId (JStr a) = Inr a \<Longrightarrow> store_writes env a db (snd (ensureAgent env date now' a g db))"
  using ensureAgent_writes [of env date now' a g db "fst (ensureAgent env date now' a g db)"] by simp

lemma store_writes_inv: "store_writes env a db db' \<Longrightarrow> store_inv env db \<Longrightarrow> store_inv env db'"
  by (induction rule: rtranclp_induct) (auto intro: store_write_inv)

lemma ensureAgent_ends:
  assumes "normalizeAccountId (JStr a) = Inr a" and "normalizeAgentId (JStr g) = Inr g"
    and "ensureAgent env date now' a g db = (r, db')"
  shows "r = Inr () \<or> (\<exists>e. r = Inl e \<and> e \<noteq> STACK_EXHAUSTED)"
  using assms
  by (auto simp: ensureAgent_def and_then_def upsertAgent_def Let_def normalizeAgentProfile_def
      normalizeAgentMetadata_def normalizeAgentId_def
      split: if_splits sum.splits option.splits prod.splits)

definition put_on ::
  "sync_env \<Rightarrow> int \<Rightarrow> string \<Rightarrow> string \<Rightarrow> string \<Rightarrow> string \<Rightarrow> put_options \<Rightarrow> 'a sync_db_scheme \<Rightarrow>
   sync_error + put_outcome \<Rightarrow> 'a sync_db_scheme \<Rightarrow> bool" where
  "put_on env now a g p data opts db r db' \<longleftrightarrow>
     (\<exists>e. r = Inl e \<and> e \<noteq> STACK_EXHAUSTED) \<or>
     (\<not> in_conflict opts (getAgentRef (a, g, p) db) \<and>
        (\<exists>s. write_object env now a g p data db = (s, db') \<and> r = Inr (Written s))) \<or>
     (in_conflict opts (getAgentRef (a, g, p) db) \<and>
        (\<exists>cp s. r = Inr (Conflict p cp (map_option rf_etag (getAgentRef (a, g, p) db)) (Written s)) \<and>
          ((\<exists>obj. getAgentObject (JStr a) (JStr g) (JStr cp) db = Inr (Some obj) \<and>
               so_sha256 (ao_stored obj) = se_sha256 env data \<and> s = ao_stored obj \<and> db' = db) \<or>
           (\<exists>q. normalizeAgentPath (JStr cp) = Inr q \<and> getAgentRef (a, g, q) db = None \<and>
               write_object env now a g q data db = (s, db')))))"

lemma put_at_ends:
  assumes "store_inv env db" and "normalizeAccountId (JStr a) = Inr a" and "normalizeAgentId (JStr g) = Inr g"
    and "agent_get (a, g) db \<noteq> None" and "int (length data) \<le> max_agent_object_bytes"
    and "put_at env now a g p data opts
      (\<lambda>cp db. put_object (Suc fuel) env date now' now (JStr a) (JStr g) (JStr cp) data
         \<lparr>po_base_etag = JUndef, po_expect_absent = JBool True\<rparr> db) db = (r, db')"
  shows "put_on env now a g p data opts db r db'"
proof (cases "in_conflict opts (getAgentRef (a, g, p) db)")
  case False
  then show ?thesis using assms(6)
    by (auto simp: put_at_def put_on_def Let_def case_prod_unfold split: if_splits)
next
  case True
  show ?thesis
  proof (cases "\<exists>cp. conflict_path env opts (getAgentRef (a, g, p) db) p data = Inr cp \<and>
      getAgentObject (JStr a) (JStr g) (JStr cp) db = Inr None \<and>
      \<not> (getAgentRef (a, g, p) db = None \<and> max_agent_objects \<le> int (agentRefCount a g db))")
    case False
    have known: "e \<noteq> STACK_EXHAUSTED" if "getAgentObject (JStr a) (JStr g) (JStr cp) db = Inl e" for cp e
      using that assms(2,3) by (auto simp: getAgentObject_def normalizeAgentPath_def Let_def split: sum.splits if_splits)
    have known': "e \<noteq> STACK_EXHAUSTED" if "conflict_path env opts q p data = Inl e" for q e
      using that by (auto simp: conflict_path_def normalizeAgentPath_def Let_def split: if_splits)
    show ?thesis using True False assms(6) known known'
      by (auto simp: put_at_def put_on_def Let_def split: if_splits sum.splits option.splits)
  next
    case copy: True
    then obtain cp where cp: "conflict_path env opts (getAgentRef (a, g, p) db) p data = Inr cp"
      "getAgentObject (JStr a) (JStr g) (JStr cp) db = Inr None"
      "\<not> (getAgentRef (a, g, p) db = None \<and> max_agent_objects \<le> int (agentRefCount a g db))" by blast
    obtain r1 db1 where nested: "put_object (Suc fuel) env date now' now (JStr a) (JStr g) (JStr cp) data
        absent_options db = (r1, db1)" by fastforce
    have res: "and_then (r1, db1) (\<lambda>stored db'.
        (Inr (Conflict p cp (map_option rf_etag (getAgentRef (a, g, p) db)) stored), db')) = (r, db')"
      using assms(6) True cp nested [unfolded absent_options_def]
      unfolding put_at_def Let_def by (simp only: if_False if_True sum.case option.case)
    from put_copy [OF assms(1-5) cp(2) nested] show ?thesis
    proof
      assume "r1 = Inl AGENT_OBJECT_LIMIT \<and> db1 = db"
      then show ?thesis using res by (auto simp: put_on_def)
    next
      assume "\<exists>q s. normalizeAgentPath (JStr cp) = Inr q \<and> getAgentRef (a, g, q) db = None \<and> r1 = Inr (Written s) \<and>
         write_object env now a g q data db = (s, db1)"
      then show ?thesis using res True by (auto simp: put_on_def)
    qed
  qed
qed

lemma put_ends:
  assumes "store_inv env db" and "putAgentObject env date now' now v w x data opts db = (r, db')"
    and "normalizeAccountId v = Inr a" and "normalizeAgentId w = Inr g" and "normalizeAgentPath x = Inr p"
  shows "(\<exists>e. r = Inl e \<and> e \<noteq> STACK_EXHAUSTED) \<or>
    (\<exists>db1. store_inv env db1 \<and> agent_refs db1 = agent_refs db \<and> agent_blobs db1 = agent_blobs db \<and>
       put_on env now a g p data opts db1 r db')"
proof (cases "max_agent_object_bytes < int (length data)")
  case True
  then show ?thesis using assms(2-5) by (auto simp: putAgentObject_def in_transaction_def put_object.simps)
next
  case False
  note v = normalizeAccountId_JStr [OF assms(3)] normalizeAgentId_JStr [OF assms(4)]
  obtain u db1 where ens: "ensureAgent env date now' a g db = (u, db1)" by fastforce
  have nlt: "\<not> max_agent_object_bytes < int (length data)" by (rule False)
  have "put_object (length (agent_refs db) + 2) env date now' now v w x data opts db =
      and_then (ensureAgent env date now' a g db) (\<lambda>_ d. put_at env now a g p data opts
      (\<lambda>cp d. put_object (Suc (length (agent_refs db))) env date now' now (JStr a) (JStr g) (JStr cp) data
         \<lparr>po_base_etag = JUndef, po_expect_absent = JBool True\<rparr> d) d)"
    unfolding add_2_eq_Suc' by (subst put_object.simps(2)) (simp only: assms(3-5) sum.case nlt if_False)
  then have "in_transaction (\<lambda>db'. and_then (u, db1) (\<lambda>_ d. put_at env now a g p data opts
      (\<lambda>cp d. put_object (Suc (length (agent_refs db))) env date now' now (JStr a) (JStr g) (JStr cp) data
         \<lparr>po_base_etag = JUndef, po_expect_absent = JBool True\<rparr> d) d)) db = (r, db')"
    using assms(2) unfolding putAgentObject_def in_transaction_def ens by simp
  then obtain d where body: "and_then (u, db1) (\<lambda>_ d. put_at env now a g p data opts
      (\<lambda>cp d. put_object (Suc (length (agent_refs db))) env date now' now (JStr a) (JStr g) (JStr cp) data
         \<lparr>po_base_etag = JUndef, po_expect_absent = JBool True\<rparr> d) d) = (r, d)"
    and d: "\<And>y. r = Inr y \<Longrightarrow> d = db'"
    unfolding in_transaction_def by (auto simp del: put_object.simps split: prod.splits sum.splits)
  from ensureAgent_ends [OF v ens] show ?thesis
  proof
    assume "\<exists>e. u = Inl e \<and> e \<noteq> STACK_EXHAUSTED"
    then show ?thesis using body by auto
  next
    assume u: "u = Inr ()"
    have inv: "store_inv env db1" using store_writes_inv [OF ensureAgent_writes [OF ens v(1)] assms(1)] .
    have ag: "agent_get (a, g) db1 \<noteq> None" using ensureAgent_exists [OF ens [unfolded u] v] .
    have len: "int (length data) \<le> max_agent_object_bytes" using False by simp
    have put: "put_on env now a g p data opts db1 r d"
      using body by (intro put_at_ends [OF inv v ag len]) (simp add: u)
    show ?thesis
    proof (cases r)
      case (Inl e)
      then show ?thesis using put by (auto simp: put_on_def)
    next
      case (Inr y)
      then show ?thesis using put d inv ensureAgent_refs [OF ens] by blast
    qed
  qed
qed

lemma stored_hash:
  assumes "store_inv env db" and "agent_object_at k db = Some obj"
  shows "se_sha256 env (ao_data obj) = so_sha256 (ao_stored obj)"
proof -
  obtain r where r: "getAgentRef k db = Some r" using assms(2) by (auto simp: agent_object_at_def split: option.splits)
  then obtain b where b: "getAgentBlob (rf_account_id r, rf_agent_id r, rf_blob_id r) db = Some b"
    using assms(2) by (auto simp: agent_object_at_def split: option.splits)
  have "ao_data obj = bl_data b" "so_sha256 (ao_stored obj) = bl_sha256 b"
    using assms(2) r b by (auto simp: agent_object_at_def)
  then show ?thesis using blob_key_of [OF b] store_inv_parts(7) [OF assms(1)] by (auto simp: blob_ok_def)
qed

end
