(* ===== verification/SyncGuarantees.thy ===== *)
theory SyncGuarantees
  imports ObjectLaws
begin

text \<open>
  What the clients of the account synchronisation store rely on, stated over \<open>sync_run\<close>: the log
  and its cursors, the separation of the accounts, and the object store with its conflict copies.
\<close>

section \<open>Cursors\<close>

lemma decode_encode: "safe_integer (int n) \<Longrightarrow> decodeCursor (JStr (encodeCursor n)) = At n"
proof -
  assume safe: "safe_integer (int n)"
  have digits: "list_all is_digit (nat_text n)" by (rule nat_text_digits)
  have "is_digit (last (nat_text n))" using digits by (simp add: list_all_iff)
  then have "\<not> is_space (last (nat_text n))" by (auto simp: is_space_def is_digit_def)
  then have "trim (encodeCursor n) = encodeCursor n"
    by (intro trim_no_space) (auto simp: encodeCursor_def is_space_def)
  then show ?thesis
    using digits safe by (simp add: decodeCursor_def encodeCursor_def digits_value_nat_text)
qed

lemma positiveLimit_bounds: "1 \<le> positiveLimit v" "positiveLimit v \<le> 1000"
  by (auto simp: positiveLimit_def split: option.split)

section \<open>No event is missed\<close>

lemma last_take: "0 < k \<Longrightarrow> k < length xs \<Longrightarrow> take k xs \<noteq> [] \<and> last (take k xs) = xs ! (k - 1)"
  by (subst last_conv_nth) (auto simp: min_def)

lemma difference_history:
  assumes "logged H db" and "floorSequence a db \<le> n" and "0 < limit"
  shows "df_events (difference a n limit db) = map sync_item_of (take limit (happened_after a n H))"
    and "df_has_more (difference a n limit db) \<longleftrightarrow> limit < length (happened_after a n H)"
    and "df_cursor (difference a n limit db) = encodeCursor
       (if limit < length (happened_after a n H) then ev_sequence (happened_after a n H ! (limit - 1))
        else max_sequence (account_events a H))"
proof -
  let ?P = "happened_after a n H"
  have rows: "eventsAfter a n (limit + 1) db = take (limit + 1) ?P" by (rule eventsAfter_history [OF assms(1,2)])
  have more: "limit < length (take (limit + 1) ?P) \<longleftrightarrow> limit < length ?P" by auto
  have page: "take limit (take (limit + 1) ?P) = take limit ?P" by simp
  have all: "\<not> limit < length ?P \<Longrightarrow> take (limit + 1) ?P = take limit ?P" by simp
  show "df_has_more (difference a n limit db) \<longleftrightarrow> limit < length ?P"
    unfolding difference_def Let_def rows by auto
  show "df_events (difference a n limit db) = map sync_item_of (take limit ?P)"
    unfolding difference_def Let_def rows more using all by (auto simp: min_def)
  have "limit < length ?P \<Longrightarrow> take limit ?P \<noteq> [] \<and> last (take limit ?P) = ?P ! (limit - 1)"
    by (rule last_take [OF assms(3)])
  then show "df_cursor (difference a n limit db) = encodeCursor
       (if limit < length ?P then ev_sequence (?P ! (limit - 1)) else max_sequence (account_events a H))"
    unfolding difference_def Let_def rows more by (auto simp: min_def currentSequence_history [OF assms(1)])
qed

lemma account_sync_difference:
  assumes "normalizeAccountId v = Inr a" and "decodeCursor c = At n"
    and "floorSequence a db \<le> n" and "n \<le> currentSequence a db"
  shows "account_sync env v c lim db = Inr (Difference (difference a n (positiveLimit lim) db))"
  using assms by (simp add: account_sync_def sync_reason_def Let_def)

text \<open>C25: a difference reply misses nothing and repeats nothing although old events are pruned: whatever
  the account's operations were, for a cursor between the account's floor and its last event the
  reply holds the first events of the complete history after that cursor, in order, as many as the
  limit allows; it says whether more follow; and its cursor is that of the last event it holds, or of
  the account's last event when nothing follows.\<close>

theorem sync_difference_is_complete:
  assumes "sync_run env H db" and "0 < se_retention env" and "normalizeAccountId v = Inr a"
    and "decodeCursor c = At n" and "floorSequence a db \<le> n" and "n \<le> currentSequence a db"
  shows "\<exists>d. account_sync env v c lim db = Inr (Difference d) \<and>
     df_events d = map sync_item_of (take (positiveLimit lim) (happened_after a n H)) \<and>
     (df_has_more d \<longleftrightarrow> positiveLimit lim < length (happened_after a n H)) \<and>
     df_cursor d = encodeCursor
       (if df_has_more d then ev_sequence (last (take (positiveLimit lim) (happened_after a n H)))
        else max_sequence (account_events a H))"
proof -
  have l: "logged H db" using sync_run_log [OF assms(1,2)] by (simp add: log_ok_def)
  have lim: "0 < positiveLimit lim" using positiveLimit_bounds(1) [of lim] by simp
  note d = difference_history [OF l assms(5) lim]
  have "last (take (positiveLimit lim) (happened_after a n H)) = happened_after a n H ! (positiveLimit lim - 1)"
    if "positiveLimit lim < length (happened_after a n H)"
    using last_take [OF lim that] by simp
  then show ?thesis
    using account_sync_difference [OF assms(3-6), of env lim] d by auto
qed

text \<open>A client that asks again with the cursor it was given until nothing more follows.\<close>

fun pull :: "nat \<Rightarrow> sync_env \<Rightarrow> js \<Rightarrow> js \<Rightarrow> js \<Rightarrow> 'a sync_db_scheme \<Rightarrow> (sync_item list \<times> string) option" where
  "pull 0 env v c lim db = None"
| "pull (Suc fuel) env v c lim db =
     (case account_sync env v c lim db of
        Inr (Difference d) \<Rightarrow>
          (if df_has_more d
           then map_option (\<lambda>(es, c'). (df_events d @ es, c')) (pull fuel env v (JStr (df_cursor d)) lim db)
           else Some (df_events d, df_cursor d))
      | _ \<Rightarrow> None)"

lemma happened_rest:
  assumes "sorted_wrt (<) (map ev_sequence H)" and "k < length (happened_after a n H)" and "0 < k"
  shows "happened_after a (ev_sequence (happened_after a n H ! (k - 1))) H = drop k (happened_after a n H)"
proof -
  let ?P = "happened_after a n H"
  have "?P = take (k - 1) ?P @ [?P ! (k - 1)] @ drop k ?P"
    using assms(2,3) id_take_nth_drop [of "k - 1" ?P] by simp
  from happened_split [OF assms(1) this] show ?thesis .
qed

lemma pull_all:
  assumes "log_ok (se_retention env) H db" and "normalizeAccountId v = Inr a"
    and "safe_integer (int (sync_last db))"
  shows "decodeCursor c = At n \<Longrightarrow> floorSequence a db \<le> n \<Longrightarrow> n \<le> currentSequence a db \<Longrightarrow>
    length (happened_after a n H) \<le> fuel * positiveLimit lim \<Longrightarrow>
    pull (Suc fuel) env v c lim db =
      Some (map sync_item_of (happened_after a n H), encodeCursor (currentSequence a db))"
proof (induction fuel arbitrary: c n)
  case 0
  have l: "logged H db" using assms(1) by (simp add: log_ok_def)
  have "0 < positiveLimit lim" using positiveLimit_bounds(1) [of lim] by simp
  note d = difference_history [OF l 0(2) this]
  from 0 d show ?case
    by (simp add: account_sync_difference [OF assms(2) 0(1-3)] currentSequence_history [OF l])
next
  case (Suc fuel)
  let ?P = "happened_after a n H" and ?L = "positiveLimit lim"
  have l: "logged H db" using assms(1) by (simp add: log_ok_def)
  have lim: "0 < ?L" using positiveLimit_bounds(1) [of lim] by simp
  note d = difference_history [OF l Suc.prems(2) lim]
  show ?case
  proof (cases "?L < length ?P")
    case False
    then show ?thesis
      using d by (simp add: account_sync_difference [OF assms(2) Suc.prems(1-3)] currentSequence_history [OF l])
  next
    case True
    let ?e = "?P ! (?L - 1)"
    have mem: "?e \<in> set ?P" using True by (intro nth_mem) simp
    then have e: "?e \<in> set (account_events a H)" "n < ev_sequence ?e" by (auto simp: happened_after_def)
    have inH: "?e \<in> set H" using e(1) by (simp add: account_events_def)
    have safe: "safe_integer (int (ev_sequence ?e))"
      using assms(3) loggedD(3) [OF l inH] by (simp add: safe_integer_def)
    have cur: "ev_sequence ?e \<le> currentSequence a db"
      unfolding currentSequence_history [OF l]
      using sequence_le_last [OF account_events_sorted [OF loggedD(1) [OF l]] e(1)]
        last_sequence_max [OF account_events_sorted [OF loggedD(1) [OF l]], of a] e(1)
      by (cases "account_events a H = []") simp_all
    note rest = happened_rest [OF loggedD(1) [OF l] True lim]
    have "pull (Suc fuel) env v (JStr (encodeCursor (ev_sequence ?e))) lim db =
        Some (map sync_item_of (happened_after a (ev_sequence ?e) H), encodeCursor (currentSequence a db))"
      by (rule Suc.IH [OF decode_encode [OF safe]]) (use Suc.prems e(2) cur rest in auto)
    then show ?thesis
      using d True rest
      by (simp add: account_sync_difference [OF assms(2) Suc.prems(1-3)] flip: map_append)
  qed
qed

text \<open>The example: one account, eighteen events with a retention of sixteen.\<close>

definition ex_sync_env :: sync_env where
  "ex_sync_env = \<lparr>se_sha256 = (\<lambda>s. s), se_locale_compare = (\<lambda>a b. if a = b then 0 else if a < b then -1 else 1),
     se_retention = eventRetention (JNum 16)\<rparr>"

definition ex_sync_empty :: sync_db where
  "ex_sync_empty = \<lparr>sync_last = 0, sync_events = [], sync_floors = [], installs = [], memberships = [],
     cloud_values = [], agents = [], agent_blobs = [], agent_refs = []\<rparr>"

definition ex_note :: sync_op where
  "ex_note = Record_Event 5 (JStr ''note'') (JStr ''n1'') (JObj [])"

definition ex_sync_db :: sync_db where
  "ex_sync_db = fold (sync_exec ex_sync_env (JStr ''alice'')) (replicate 18 ex_note) ex_sync_empty"

definition ex_log_view :: "sync_db \<Rightarrow> nat \<times> nat \<times> nat \<times> nat" where
  "ex_log_view db = (floorSequence ''alice'' db, currentSequence ''alice'' db, sync_last db, eventCount ''alice'' db)"

lemma ex_sync_facts: "ex_log_view ex_sync_db = (2, 18, 18, 16)"
  by code_simp

lemma sync_exec_run:
  assumes "sync_run env H db" and "normalizeAccountId v = Inr a"
  obtains es where "sync_run env (H @ es) (sync_exec env v op db)" and "\<forall>e \<in> set es. ev_account_id e = a"
  using sync_run_writes [OF sync_exec_writes [OF assms(2)] assms(1)] by blast

lemma sync_ops_run:
  "sync_run env H db \<Longrightarrow> normalizeAccountId v = Inr a \<Longrightarrow> \<exists>es. sync_run env (H @ es) (fold (sync_exec env v) ops db)"
proof (induction ops arbitrary: H db)
  case Nil
  then show ?case by (metis append_Nil2 fold_simps(1))
next
  case (Cons op ops)
  then obtain es where "sync_run env (H @ es) (sync_exec env v op db)" using sync_exec_run by blast
  from Cons.IH [OF this Cons.prems(2)] show ?case by auto
qed

lemma ex_sync_run: "\<exists>H. sync_run ex_sync_env H ex_sync_db"
proof -
  have "fresh_sync ex_sync_empty" by (simp add: fresh_sync_def ex_sync_empty_def)
  moreover have "normalizeAccountId (JStr ''alice'') = Inr ''alice''" by code_simp
  ultimately have "\<exists>es. sync_run ex_sync_env ([] @ es) ex_sync_db"
    unfolding ex_sync_db_def by (intro sync_ops_run run_fresh)
  then show ?thesis by blast
qed

lemma ex_sync_values:
  "floorSequence ''alice'' ex_sync_db = 2" "currentSequence ''alice'' ex_sync_db = 18"
  "sync_last ex_sync_db = 18" "eventCount ''alice'' ex_sync_db = 16"
  using ex_sync_facts by (simp_all add: ex_log_view_def)

lemma ex_sync_arguments:
  "normalizeAccountId (JStr '' alice '') = Inr ''alice''" "decodeCursor (JStr ''as1:15'') = At 15"
  "positiveLimit (JNum 2) = 2" "0 < se_retention ex_sync_env" "safe_integer 18"
  by code_simp+

lemma sync_difference_is_complete_witness:
  "\<exists>H d. sync_run ex_sync_env H ex_sync_db \<and>
     account_sync ex_sync_env (JStr '' alice '') (JStr ''as1:15'') (JNum 2) ex_sync_db = Inr (Difference d) \<and>
     df_events d = map sync_item_of (take 2 (happened_after ''alice'' 15 H))"
proof -
  obtain H where H: "sync_run ex_sync_env H ex_sync_db" using ex_sync_run by blast
  show ?thesis
    using sync_difference_is_complete [OF H ex_sync_arguments(4,1,2), of "JNum 2"] H
    by (auto simp: ex_sync_values ex_sync_arguments(3))
qed

text \<open>C26: a client catches up in a bounded number of requests: from any cursor between the account's floor
  and its last event, asking again with the cursor of the reply before, it is told within one
  request more than there are pending pages that nothing more follows, and by then it holds every
  event after its cursor, in order and once, and the cursor of the account's last event.\<close>

theorem client_catches_up:
  assumes "sync_run env H db" and "0 < se_retention env" and "normalizeAccountId v = Inr a"
    and "decodeCursor c = At n" and "floorSequence a db \<le> n" and "n \<le> currentSequence a db"
    and "safe_integer (int (sync_last db))" and "length (happened_after a n H) \<le> pages * positiveLimit lim"
  shows "pull (Suc pages) env v c lim db =
    Some (map sync_item_of (happened_after a n H), encodeCursor (currentSequence a db))"
  by (rule pull_all [OF sync_run_log [OF assms(1,2)] assms(3,7,4-6,8)])

lemma happened_after_count:
  assumes "sync_run env H db" and "0 < se_retention env" and "floorSequence a db \<le> n"
  shows "length (happened_after a n H) \<le> se_retention env"
proof -
  have l: "log_ok (se_retention env) H db" by (rule sync_run_log [OF assms(1,2)])
  then have lg: "logged H db" by (simp add: log_ok_def)
  have "happened_after a n H = filter (\<lambda>e. n < ev_sequence e) (account_events a (sync_events db))"
    using assms(3) by (auto simp: loggedD(4) [OF lg] happened_after_def intro!: filter_cong)
  then have "length (happened_after a n H) \<le> eventCount a db" by (simp add: eventCount_def)
  then show ?thesis using l by (simp add: log_ok_def)
qed

lemma client_catches_up_witness:
  "\<exists>H. sync_run ex_sync_env H ex_sync_db \<and>
     pull 9 ex_sync_env (JStr '' alice '') (JStr ''as1:15'') (JNum 2) ex_sync_db =
       Some (map sync_item_of (happened_after ''alice'' 15 H), encodeCursor 18)"
proof -
  obtain H where H: "sync_run ex_sync_env H ex_sync_db" using ex_sync_run by blast
  have "se_retention ex_sync_env = 16" by code_simp
  then have "length (happened_after ''alice'' 15 H) \<le> 8 * positiveLimit (JNum 2)"
    using happened_after_count [OF H ex_sync_arguments(4), of "''alice''" 15]
    by (simp add: ex_sync_values ex_sync_arguments(3))
  then show ?thesis
    using client_catches_up [OF H ex_sync_arguments(4,1,2), of 8 "JNum 2"] H ex_sync_arguments(5)
    by (auto simp: ex_sync_values eval_nat_numeral)
qed

text \<open>C35: the log keeps exactly the newest events: in every run the table holds of each account the last
  events of its complete history, as many as the retention allows and all of them when there are
  fewer, and the account's floor is below every one of them.\<close>

theorem retention_keeps_the_newest:
  assumes "sync_run env H db" and "0 < se_retention env"
  shows "account_events a (sync_events db) =
      drop (length (account_events a H) - se_retention env) (account_events a H) \<and>
    (\<forall>e \<in> set (account_events a (sync_events db)). floorSequence a db < ev_sequence e)"
proof -
  have l: "log_ok (se_retention env) H db" by (rule sync_run_log [OF assms])
  then have lg: "logged H db" and count: "eventCount a db = min (se_retention env) (length (account_events a H))"
    by (simp_all add: log_ok_def)
  let ?H = "account_events a H" and ?f = "floorSequence a db"
  have srt: "sorted_wrt (<) (map ev_sequence ?H)" by (rule account_events_sorted [OF loggedD(1) [OF lg]])
  have suffix: "filter (\<lambda>e. f < ev_sequence e) xs = drop (length xs - length (filter (\<lambda>e. f < ev_sequence e) xs)) xs"
    if "sorted_wrt (<) (map ev_sequence xs)" for f and xs :: "sync_event list"
    using that
  proof (induction xs)
    case (Cons x xs)
    have len: "length (filter (\<lambda>e. f < ev_sequence e) xs) \<le> length xs" by (rule length_filter_le)
    show ?case
    proof (cases "f < ev_sequence x")
      case True
      then have "filter (\<lambda>e. f < ev_sequence e) xs = xs" using Cons.prems by (fastforce simp: filter_id_conv)
      with True show ?thesis by simp
    next
      case False
      then show ?thesis using Cons len by (simp add: Suc_diff_le)
    qed
  qed simp
  have eq: "account_events a (sync_events db) = filter (\<lambda>e. ?f < ev_sequence e) ?H" by (rule loggedD(4) [OF lg])
  then have "length (filter (\<lambda>e. ?f < ev_sequence e) ?H) = min (se_retention env) (length ?H)"
    using count by (simp add: eventCount_def)
  then have "filter (\<lambda>e. ?f < ev_sequence e) ?H = drop (length ?H - min (se_retention env) (length ?H)) ?H"
    using suffix [OF srt, of ?f] by simp
  then have "filter (\<lambda>e. ?f < ev_sequence e) ?H = drop (length ?H - se_retention env) ?H"
    by (simp add: min_def split: if_splits)
  then have "account_events a (sync_events db) = drop (length ?H - se_retention env) ?H" using eq by simp
  moreover have "\<forall>e \<in> set (account_events a (sync_events db)). ?f < ev_sequence e" unfolding eq by simp
  ultimately show ?thesis by blast
qed

lemma retention_keeps_the_newest_witness:
  "\<exists>H. sync_run ex_sync_env H ex_sync_db \<and>
     account_events ''alice'' (sync_events ex_sync_db) =
       drop (length (account_events ''alice'' H) - se_retention ex_sync_env) (account_events ''alice'' H)"
proof -
  obtain H where H: "sync_run ex_sync_env H ex_sync_db" using ex_sync_run by blast
  then show ?thesis using retention_keeps_the_newest [OF H ex_sync_arguments(4), of "''alice''"] by blast
qed

section \<open>Accounts\<close>

lemma row_where_account:
  "(\<And>r. p r \<Longrightarrow> q r) \<Longrightarrow> filter q rows' = filter q rows \<Longrightarrow> row_where p rows' = row_where p rows"
  by (metis row_where_filter)

lemma same_account_reads:
  assumes "same_account b db db'" and "normalizeAccountId w = Inr b"
  shows "account_sync env w c lim db' = account_sync env w c lim db"
    and "listAgentObjects w g pre db' = listAgentObjects w g pre db"
    and "getAgentObject w g p db' = getAgentObject w g p db"
    and "getCloudValue w m k db' = getCloudValue w m k db"
    and "getAgent w g db' = getAgent w g db"
proof -
  note w = assms(2) normalizeAccountId_JStr [OF assms(2)]
  note s = assms(1) [unfolded same_account_def]
  have refs: "filter (\<lambda>r. rf_account_id r = b \<and> P r) (agent_refs db') = filter (\<lambda>r. rf_account_id r = b \<and> P r) (agent_refs db)" for P
    using arg_cong [of _ _ "filter P", OF s [THEN conjunct2, THEN conjunct2, THEN conjunct2, THEN conjunct2,
      THEN conjunct2, THEN conjunct2, THEN conjunct2]] by simp
  have seq: "currentSequence b db' = currentSequence b db" using s by (simp add: currentSequence_def)
  have ref: "getAgentRef (b, x, y) db' = getAgentRef (b, x, y) db" for x y
    using s unfolding getAgentRef_def by (intro row_where_account [where q = "\<lambda>r. rf_account_id r = b"]) (auto simp: ref_key_def)
  have blob: "getAgentBlob (b, x, y) db' = getAgentBlob (b, x, y) db" for x y
    using s unfolding getAgentBlob_def by (intro row_where_account [where q = "\<lambda>r. bl_account_id r = b"]) (auto simp: blob_key_def)
  have cloud: "cloud_get (b, x, y) db' = cloud_get (b, x, y) db" for x y
    using s unfolding cloud_get_def by (intro row_where_account [where q = "\<lambda>r. cl_account_id r = b"]) (auto simp: cloud_key_def)
  have agent: "agent_get (b, x) db' = agent_get (b, x) db" for x
    using s unfolding agent_get_def by (intro row_where_account [where q = "\<lambda>r. gr_account_id r = b"]) (auto simp: agent_key_def)
  have "agent_object_at (b, x, y) db' = agent_object_at (b, x, y) db" for x y
  proof (cases "getAgentRef (b, x, y) db")
    case (Some r)
    then have "rf_account_id r = b" using ref_table.lookup_Some by (fastforce simp: ref_key_def)
    then show ?thesis by (simp add: agent_object_at_def ref Some blob)
  qed (simp add: agent_object_at_def ref)
  then show "getAgentObject w g p db' = getAgentObject w g p db" by (simp add: getAgentObject_def w split: sum.split)
  show "getCloudValue w m k db' = getCloudValue w m k db" by (simp add: getCloudValue_def w cloud split: sum.split)
  show "getAgent w g db' = getAgent w g db" by (simp add: getAgent_def w agent split: sum.split)
  show "listAgentObjects w g pre db' = listAgentObjects w g pre db"
    by (simp add: listAgentObjects_def w refs split: sum.split)
  have snap: "snapshot_of env b db' = snapshot_of env b db" using s
    by (simp add: snapshot_of_def listMiniAppInstalls_def listBots_def listAgents_def cloud_revisions_def
        store_revisions_def w)
  have diff: "difference b n l db' = difference b n l db" for n l
    using s by (simp add: difference_def eventsAfter_def seq Let_def)
  have fl: "floorSequence b db' = floorSequence b db" using s by simp
  show "account_sync env w c lim db' = account_sync env w c lim db"
    unfolding account_sync_def w sum.case snap diff fl seq ..
qed

text \<open>C27: accounts are separate: no operation of one account, whatever its arguments, changes anything
  another account can read: its synchronisation replies (snapshot or difference, for every cursor),
  its agents and their objects, and its cloud values are the same before and after.\<close>

theorem accounts_are_separate:
  assumes "normalizeAccountId v = Inr a" and "normalizeAccountId w = Inr b" and "b \<noteq> a"
  shows "account_sync env w c lim (sync_exec env v op db) = account_sync env w c lim db \<and>
    getAgent w g (sync_exec env v op db) = getAgent w g db \<and>
    getAgentObject w g p (sync_exec env v op db) = getAgentObject w g p db \<and>
    listAgentObjects w g pre (sync_exec env v op db) = listAgentObjects w g pre db \<and>
    getCloudValue w m k (sync_exec env v op db) = getCloudValue w m k db"
  by (simp add: same_account_reads [OF store_writes_other [OF sync_exec_writes [OF assms(1)] assms(3)] assms(2)])

lemma accounts_are_separate_witness:
  "account_sync ex_sync_env (JStr ''bob'') JNull JUndef (sync_exec ex_sync_env (JStr '' alice '') ex_note ex_sync_empty) =
     account_sync ex_sync_env (JStr ''bob'') JNull JUndef ex_sync_empty"
proof -
  have "normalizeAccountId (JStr ''bob'') = Inr ''bob''" "''bob'' \<noteq> ''alice''" by code_simp+
  from accounts_are_separate [OF ex_sync_arguments(1) this] show ?thesis by blast
qed

section \<open>Agent objects\<close>

text \<open>C28: a write that is based on an old version never overwrites: when the object at a path has another
  etag than the one the client names (or exists although the client expects it absent) and the put
  succeeds, the reference at the path is what it was, the client is told of the conflict with the
  current etag, and its bytes can be read back under the conflict path it is given.\<close>

theorem stale_write_keeps_the_object:
  assumes "sync_run env H db" and "normalizeAccountId v = Inr a" and "normalizeAgentId w = Inr g"
    and "normalizeAgentPath x = Inr p" and "getAgentRef (a, g, p) db = Some ref"
    and "in_conflict opts (Some ref)" and "putAgentObject env date now' now v w x data opts db = (Inr out, db')"
  shows "getAgentRef (a, g, p) db' = Some ref \<and>
    (\<exists>cp s obj. out = Conflict p cp (Some (rf_etag ref)) (Written s) \<and>
       getAgentObject v w (JStr cp) db' = Inr (Some obj) \<and>
       so_sha256 (ao_stored obj) = se_sha256 env data \<and> se_sha256 env (ao_data obj) = se_sha256 env data)"
proof -
  note inv = sync_run_inv [OF assms(1)]
  note v = normalizeAccountId_JStr [OF assms(2)] normalizeAgentId_JStr [OF assms(3)]
  obtain db1 where db1: "store_inv env db1" "agent_refs db1 = agent_refs db"
    and put: "put_on env now a g p data opts db1 (Inr out) db'"
    using put_ends [OF inv assms(7) assms(2-4)] by auto
  have ref: "getAgentRef k db1 = getAgentRef k db" for k by (simp add: getAgentRef_def db1(2))
  from put assms(5,6) obtain cp s where out: "out = Conflict p cp (Some (rf_etag ref)) (Written s)"
    and how: "(\<exists>obj. getAgentObject (JStr a) (JStr g) (JStr cp) db1 = Inr (Some obj) \<and>
               so_sha256 (ao_stored obj) = se_sha256 env data \<and> s = ao_stored obj \<and> db' = db1) \<or>
           (\<exists>q. normalizeAgentPath (JStr cp) = Inr q \<and> getAgentRef (a, g, q) db1 = None \<and>
               write_object env now a g q data db1 = (s, db'))"
    by (auto simp: put_on_def ref)
  from how show ?thesis
  proof
    assume "\<exists>obj. getAgentObject (JStr a) (JStr g) (JStr cp) db1 = Inr (Some obj) \<and>
      so_sha256 (ao_stored obj) = se_sha256 env data \<and> s = ao_stored obj \<and> db' = db1"
    then obtain obj where obj: "getAgentObject (JStr a) (JStr g) (JStr cp) db1 = Inr (Some obj)"
      "so_sha256 (ao_stored obj) = se_sha256 env data" "db' = db1" by blast
    then obtain q where q: "normalizeAgentPath (JStr cp) = Inr q" "agent_object_at (a, g, q) db1 = Some obj"
      by (auto simp: getAgentObject_def v split: sum.splits)
    have "se_sha256 env (ao_data obj) = so_sha256 (ao_stored obj)"
      by (rule stored_hash [OF db1(1) q(2)])
    then show ?thesis using obj q assms(5) out by (auto simp: getAgentObject_def assms(2,3) ref)
  next
    assume "\<exists>q. normalizeAgentPath (JStr cp) = Inr q \<and> getAgentRef (a, g, q) db1 = None \<and>
      write_object env now a g q data db1 = (s, db')"
    then obtain q where q: "normalizeAgentPath (JStr cp) = Inr q" "getAgentRef (a, g, q) db1 = None"
      and wr: "write_object env now a g q data db1 = (s, db')" by blast
    have "(a, g, p) \<noteq> (a, g, q)" using q(2) assms(5) by (auto simp: ref)
    then have "getAgentRef (a, g, p) db' = Some ref" using write_object_read(2) [OF db1(1) wr] assms(5) by (simp add: ref)
    moreover obtain obj where "agent_object_at (a, g, q) db' = Some obj" "so_sha256 (ao_stored obj) = se_sha256 env data"
      "se_sha256 env (ao_data obj) = se_sha256 env data"
      using write_object_read(1) [OF db1(1) wr] by blast
    ultimately show ?thesis using out q(1) by (auto simp: getAgentObject_def assms(2,3))
  qed
qed

text \<open>what is put can be got: after a put without conflict that succeeds, the object at the path has
  the etag of the reply, which names the SHA-256 of the bytes; the bytes read are those written
  unless the store already held other bytes with the same SHA-256; and every other path is as
  before.\<close>

theorem put_then_get:
  assumes "sync_run env H db" and "normalizeAccountId v = Inr a" and "normalizeAgentId w = Inr g"
    and "normalizeAgentPath x = Inr p" and "\<not> in_conflict opts (getAgentRef (a, g, p) db)"
    and "\<forall>b \<in> set (agent_blobs db). se_sha256 env (bl_data b) = se_sha256 env data \<longrightarrow> bl_data b = data"
    and "putAgentObject env date now' now v w x data opts db = (Inr out, db')"
  shows "\<exists>s obj. out = Written s \<and> so_etag s = ''sha256:'' @ se_sha256 env data \<and>
    getAgentObject v w x db' = Inr (Some obj) \<and> ao_data obj = data \<and> so_etag (ao_stored obj) = so_etag s \<and>
    (\<forall>k. k \<noteq> (a, g, p) \<longrightarrow> getAgentRef k db' = getAgentRef k db)"
proof -
  obtain db1 where db1: "store_inv env db1" "agent_refs db1 = agent_refs db" "agent_blobs db1 = agent_blobs db"
    and put: "put_on env now a g p data opts db1 (Inr out) db'"
    using put_ends [OF sync_run_inv [OF assms(1)] assms(7) assms(2-4)] by auto
  have ref: "getAgentRef k db1 = getAgentRef k db" for k by (simp add: getAgentRef_def db1(2))
  from put assms(5) obtain s where s: "write_object env now a g p data db1 = (s, db')" "out = Written s"
    by (auto simp: put_on_def ref)
  obtain obj where obj: "agent_object_at (a, g, p) db' = Some obj" "so_etag (ao_stored obj) = so_etag s"
    "se_sha256 env (ao_data obj) = se_sha256 env data"
    "ao_data obj = data \<or> (\<exists>b \<in> set (agent_blobs db1). ao_data obj = bl_data b)"
    using write_object_read(1) [OF db1(1) s(1)] by blast
  then have "ao_data obj = data" using assms(6) db1(3) by auto
  then show ?thesis
    using s obj write_object_read(2,4) [OF db1(1) s(1)] ref
    by (auto simp: getAgentObject_at [OF assms(2-4)])
qed

text \<open>C37: a put always comes back: the recursion for a conflict copy never runs out, whatever the
  arguments, on every database the operations of the store can produce.\<close>

theorem put_always_returns:
  assumes "sync_run env H db"
  shows "fst (putAgentObject env date now' now v w x data opts db) \<noteq> Inl STACK_EXHAUSTED"
proof (cases "\<exists>a g p. normalizeAccountId v = Inr a \<and> normalizeAgentId w = Inr g \<and> normalizeAgentPath x = Inr p")
  case True
  then obtain a g p where k: "normalizeAccountId v = Inr a" "normalizeAgentId w = Inr g" "normalizeAgentPath x = Inr p"
    by blast
  obtain r db' where "putAgentObject env date now' now v w x data opts db = (r, db')" by fastforce
  from put_ends [OF sync_run_inv [OF assms] this k] this show ?thesis by (auto simp: put_on_def)
next
  case False
  then show ?thesis
    by (auto simp: putAgentObject_def in_transaction_def put_object.simps normalizeAccountId_def
        normalizeAgentId_def normalizeAgentPath_def Let_def split: if_splits sum.splits)
qed


text \<open>The example: alice's agent has one object.\<close>

definition ex_object_env :: sync_env where
  "ex_object_env = ex_sync_env\<lparr>se_sha256 := (\<lambda>s. if s = ''old'' then ''a'' else ''b'')\<rparr>"

definition ex_options :: "js \<Rightarrow> put_options" where
  "ex_options e = \<lparr>po_base_etag = e, po_expect_absent = JUndef\<rparr>"

definition ex_put :: "string \<Rightarrow> js \<Rightarrow> sync_db \<Rightarrow> (sync_error + put_outcome) \<times> sync_db" where
  "ex_put data e = putAgentObject ex_object_env 1 2 3 (JStr ''alice'') (JStr ''agent'') (JStr ''notes/a'') data (ex_options e)"

definition ex_object_db :: sync_db where
  "ex_object_db = snd (ex_put ''old'' JUndef ex_sync_empty)"

lemma ex_object_run: "\<exists>H. sync_run ex_object_env H ex_object_db"
proof -
  have "fresh_sync ex_sync_empty" by (simp add: fresh_sync_def ex_sync_empty_def)
  moreover have "normalizeAccountId (JStr ''alice'') = Inr ''alice''" by code_simp
  moreover have "ex_object_db = sync_exec ex_object_env (JStr ''alice'')
      (Put_Object 1 2 3 (JStr ''agent'') (JStr ''notes/a'') ''old'' (ex_options JUndef)) ex_sync_empty"
    by (simp add: ex_object_db_def ex_put_def)
  ultimately show ?thesis using sync_exec_run [OF run_fresh] by metis
qed

lemma ex_object_arguments:
  "normalizeAccountId (JStr ''alice'') = Inr ''alice''" "normalizeAgentId (JStr ''agent'') = Inr ''agent''"
  "normalizeAgentPath (JStr ''notes/a'') = Inr ''notes/a''"
  by code_simp+



definition ex_object_view :: "bool \<times> string option \<times> string list" where
  "ex_object_view = (let (r, db) = ex_put ''old'' JUndef ex_sync_empty in
     (case r of Inl e \<Rightarrow> False | Inr s \<Rightarrow> (case fst (ex_put ''new'' (JStr ''stale'') db) of Inl e \<Rightarrow> False | Inr s \<Rightarrow> True),
      map_option rf_etag (getAgentRef (''alice'', ''agent'', ''notes/a'') db), map bl_data (agent_blobs db)))"

lemma ex_object_facts: "ex_object_view = (True, Some ''sha256:a'', [''old''])"
  by code_simp

lemma ex_object_values:
  obtains ref out out' db' where "ex_put ''old'' JUndef ex_sync_empty = (Inr out, ex_object_db)"
    and "getAgentRef (''alice'', ''agent'', ''notes/a'') ex_object_db = Some ref" and "rf_etag ref = ''sha256:a''"
    and "ex_put ''new'' (JStr ''stale'') ex_object_db = (Inr out', db')"
  using ex_object_facts
  by (cases "ex_put ''old'' JUndef ex_sync_empty"; cases "ex_put ''new'' (JStr ''stale'') ex_object_db")
    (auto simp: ex_object_view_def ex_object_db_def split: sum.splits)

lemma ex_options_conflict: "rf_etag ref = ''sha256:a'' \<Longrightarrow> in_conflict (ex_options (JStr ''stale'')) (Some ref)"
  by (simp add: in_conflict_def base_etag_def ex_options_def)

lemma stale_write_keeps_the_object_witness:
  "\<exists>ref out db' cp obj. getAgentRef (''alice'', ''agent'', ''notes/a'') ex_object_db = Some ref \<and>
     ex_put ''new'' (JStr ''stale'') ex_object_db = (Inr out, db') \<and>
     getAgentRef (''alice'', ''agent'', ''notes/a'') db' = Some ref \<and>
     getAgentObject (JStr ''alice'') (JStr ''agent'') (JStr cp) db' = Inr (Some obj)"
proof -
  obtain ref out out' db' where ex: "ex_put ''old'' JUndef ex_sync_empty = (Inr out, ex_object_db)"
    "getAgentRef (''alice'', ''agent'', ''notes/a'') ex_object_db = Some ref" "rf_etag ref = ''sha256:a''"
    "ex_put ''new'' (JStr ''stale'') ex_object_db = (Inr out', db')" by (rule ex_object_values)
  obtain H where H: "sync_run ex_object_env H ex_object_db" using ex_object_run by blast
  show ?thesis
    using stale_write_keeps_the_object [OF H ex_object_arguments ex(2) ex_options_conflict [OF ex(3)]
        ex(4) [unfolded ex_put_def]] ex by blast
qed

lemma put_then_get_witness:
  "\<exists>out obj. ex_put ''old'' JUndef ex_sync_empty = (Inr out, ex_object_db) \<and>
     getAgentObject (JStr ''alice'') (JStr ''agent'') (JStr ''notes/a'') ex_object_db = Inr (Some obj) \<and> ao_data obj = ''old''"
proof -
  obtain ref out out' db' where ex: "ex_put ''old'' JUndef ex_sync_empty = (Inr out, ex_object_db)" by (rule ex_object_values)
  have run: "sync_run ex_object_env [] ex_sync_empty" by (rule run_fresh) (simp add: fresh_sync_def ex_sync_empty_def)
  have "\<not> in_conflict (ex_options JUndef) (getAgentRef (''alice'', ''agent'', ''notes/a'') ex_sync_empty)"
    by (simp add: in_conflict_def base_etag_def ex_options_def expect_absent_def)
  moreover have "\<forall>b \<in> set (agent_blobs ex_sync_empty).
      se_sha256 ex_object_env (bl_data b) = se_sha256 ex_object_env ''old'' \<longrightarrow> bl_data b = ''old''"
    by (simp add: ex_sync_empty_def)
  ultimately show ?thesis using put_then_get [OF run ex_object_arguments _ _ ex [unfolded ex_put_def]] ex by blast
qed

lemma put_always_returns_witness:
  "fst (ex_put ''new'' (JStr ''stale'') ex_object_db) \<noteq> Inl STACK_EXHAUSTED"
proof -
  obtain H where H: "sync_run ex_object_env H ex_object_db" using ex_object_run by blast
  show ?thesis unfolding ex_put_def by (rule put_always_returns [OF H])
qed


section \<open>Cursors, paths and JSON text\<close>

text \<open>a cursor that the store hands out is read back as the sequence number it was made from, for every
  sequence number that JavaScript represents exactly.\<close>

theorem cursor_round_trip:
  assumes "n \<le> 9007199254740991"
  shows "decodeCursor (JStr (encodeCursor n)) = At n"
  using assms by (intro decode_encode) (simp add: safe_integer_def)

lemma cursor_round_trip_witness: "decodeCursor (JStr (encodeCursor 9007199254740991)) = At 9007199254740991"
  by (rule cursor_round_trip) simp

lemma set_join: "set (join sep ss) \<subseteq> set sep \<union> (\<Union> (set ` set ss))"
  by (induction sep ss rule: join.induct) auto

lemma split_on_nonempty: "split_on d s \<noteq> []"
  by (induction s) (auto split: list.splits)

lemma split_on_parts: "seg \<in> set (split_on d s) \<Longrightarrow> d \<notin> set seg \<and> set seg \<subseteq> set s"
proof (induction s arbitrary: seg)
  case (Cons c s)
  obtain q qs where q: "split_on d s = q # qs" using split_on_nonempty by (cases "split_on d s") auto
  show ?case
  proof (cases "c = d")
    case True
    then show ?thesis using Cons by auto
  next
    case False
    then have "seg = c # q \<or> seg \<in> set qs" using Cons.prems q by auto
    then show ?thesis using Cons.IH [of q] Cons.IH [of seg] q False by auto
  qed
qed simp

lemma split_on_plain: "d \<notin> set s \<Longrightarrow> split_on d s = [s]"
  by (induction s) auto

lemma split_on_append: "d \<notin> set s \<Longrightarrow> split_on d (s @ d # t) = s # split_on d t"
  by (induction s) auto

lemma split_on_join: "ss \<noteq> [] \<Longrightarrow> \<forall>s \<in> set ss. d \<notin> set s \<Longrightarrow> split_on d (join [d] ss) = ss"
proof (induction ss)
  case (Cons s ss)
  then show ?case by (cases ss) (auto simp: split_on_plain split_on_append)
qed simp

text \<open>C39: a normalised path stays inside the store: it is not empty, does not start with a slash, has no
  backslash and no NUL, and each of its segments is non-empty, neither dot nor dot-dot, and at most
  255 characters long.\<close>

theorem normalized_path_is_safe:
  assumes "normalizeAgentPath v = Inr p"
  shows "p \<noteq> [] \<and> hd p \<noteq> CHR ''/'' \<and> (\<forall>c \<in> set p. code c \<noteq> 92 \<and> code c \<noteq> 0) \<and>
    (\<forall>seg \<in> set (split_on (CHR ''/'') p). seg \<noteq> [] \<and> seg \<noteq> ''.'' \<and> seg \<noteq> ''..'' \<and> length seg \<le> 255)"
proof -
  let ?t = "trim (forward_slashes (text_of v))"
  let ?segs = "path_segments ?t"
  have p: "p = join ''/'' ?segs" and ne: "?segs \<noteq> []"
    and ok: "\<forall>seg \<in> set ?segs. seg \<noteq> ''..'' \<and> length seg \<le> 255" and nul: "\<forall>c \<in> set ?t. code c \<noteq> 0"
    using assms by (auto simp: normalizeAgentPath_def Let_def list_ex_iff not_less split: if_splits)
  have seg: "seg \<noteq> [] \<and> seg \<noteq> ''.'' \<and> CHR ''/'' \<notin> set seg \<and> set seg \<subseteq> set ?t" if "seg \<in> set ?segs" for seg
    using that split_on_parts [of seg "CHR ''/''" ?t] by (auto simp: path_segments_def)
  have chars: "\<forall>c \<in> set ?t. code c \<noteq> 92"
    using set_trim by (auto simp: forward_slashes_def dest!: subsetD [OF set_trim])
  have split: "split_on (CHR ''/'') p = ?segs" unfolding p using seg by (intro split_on_join ne) blast
  obtain s ss where s: "?segs = s # ss" using ne by (cases ?segs) auto
  then obtain c cs where c: "s = c # cs" "c \<noteq> CHR ''/''" using seg [of s] by (cases s) auto
  have "p = c # (cs @ (if ss = [] then [] else ''/'' @ join ''/'' ss))" by (cases ss) (simp_all add: p s c)
  moreover have "set p \<subseteq> insert (CHR ''/'') (\<Union> (set ` set ?segs))" using set_join [of "''/''" ?segs] by (simp add: p)
  then have "\<forall>c \<in> set p. code c \<noteq> 92 \<and> code c \<noteq> 0" using seg chars nul by fastforce
  moreover have "\<forall>sg \<in> set (split_on (CHR ''/'') p). sg \<noteq> [] \<and> sg \<noteq> ''.'' \<and> sg \<noteq> ''..'' \<and> length sg \<le> 255"
    unfolding split using ok seg by blast
  ultimately show ?thesis using c(2) by (metis list.discI list.sel(1))
qed

lemma normalized_path_is_safe_witness:
  "normalizeAgentPath (JStr ''a/./b'') = Inr ''a/b'' \<and> ''..'' \<notin> set (split_on (CHR ''/'') ''a/b'')"
proof -
  have p: "normalizeAgentPath (JStr ''a/./b'') = Inr ''a/b''" by code_simp
  with normalized_path_is_safe [OF p] show ?thesis by blast
qed

text \<open>the check for a drive letter looks at the text before its dot segments are dropped: a path with a
  leading dot segment passes and is stored under a name that the same function then refuses, so
  that the object is listed under a path by which it can be neither read nor deleted.\<close>

theorem drive_check_is_bypassed:
  "normalizeAgentPath (JStr ''./C:/x'') = Inr ''C:/x'' \<and>
   normalizeAgentPath (JStr ''C:/x'') = Inl AGENT_PATH_INVALID"
  by code_simp

text \<open>a JSON column is read back as what was written: parsing the text that the store's json helper made
  of a value gives the value, with undefined members dropped and undefined elements null, for every
  value whose objects list their properties in JavaScript's order.\<close>

theorem json_column_round_trip:
  assumes "js_ok v"
  shows "parseJson (JStr (json_text v)) fallback = json_value (or_else v JNull)"
  by (simp add: parseJson_def json_parse_json_text [OF assms])

lemma json_column_round_trip_witness:
  "parseJson (JStr (json_text (JObj [(''b'', JNum (-7)), (''a'', JUndef), (''c'', JArr [JStr [CHR 0x22], JUndef])]))) JNull =
     JObj [(''b'', JNum (-7)), (''c'', JArr [JStr [CHR 0x22], JNull])]"
proof -
  have "js_ok (JObj [(''b'', JNum (-7)), (''a'', JUndef), (''c'', JArr [JStr [CHR 0x22], JUndef])])" by code_simp
  from json_column_round_trip [OF this, of JNull] show ?thesis by simp
qed

lemma plain_keys_ordered: "list_all (\<lambda>kv. \<not> index_key (fst kv)) kvs \<Longrightarrow> distinct (map fst kvs) \<Longrightarrow> own_order kvs"
  unfolding own_order_def key_before_def by (induction kvs) (auto simp: list_all_iff)

lemma js_ok_opt_text [simp]: "js_ok (opt_text x)"
  by (simp add: opt_text_def split: option.split)

lemma letter_key: "s = c # cs \<Longrightarrow> \<not> is_digit c \<Longrightarrow> \<not> index_key s"
  by (simp add: index_key_def)

lemma js_ok_subagent [simp]: "js_ok (subagent_json x)"
  by (auto simp: subagent_json_def index_key_def is_digit_def intro!: plain_keys_ordered split: option.split)

lemma js_ok_profile: "js_ok (profile_json p)"
  by (auto simp: profile_json_def index_key_def is_digit_def intro!: plain_keys_ordered)

lemma js_ok_metadata: "js_ok (metadata_json m)"
  by (auto simp: metadata_json_def index_key_def is_digit_def intro!: plain_keys_ordered split: option.split)

lemma column_read: "js_ok v \<Longrightarrow> v \<noteq> JUndef \<Longrightarrow> parseJson (JStr (json_text v)) f = json_value v"
  by (cases v) (simp_all add: parseJson_def json_parse_json_text)

lemma profile_value: "json_value (profile_json p) = profile_json p"
  by (simp add: profile_json_def)

lemma agent_get_after:
  "agent_get k (agent_upsert r db) =
     (if k = agent_key r
      then Some (case agent_get k db of None \<Rightarrow> r
        | Some old \<Rightarrow> old\<lparr>gr_profile_json := gr_profile_json r, gr_metadata_json := gr_metadata_json r,
             gr_updated_at_ms := gr_updated_at_ms r\<rparr>)
      else agent_get k db)"
  by (subst agent_table.lookup_upsert [OF _ _, where r = r and db = db]) (auto simp: agent_upsert_def)

text \<open>C38: an agent that was upserted is read back: after a successful upsert the agent exists and its
  profile and metadata are those of the reply, whether the upsert created, changed or found it
  unchanged (an undefined member of the metadata is absent in the copy read).\<close>

theorem upserted_agent_is_read_back:
  assumes "upsertAgent env date now v w profile metadata db = (Inr u, db')"
  shows "\<exists>view. getAgent v w db' = Inr (Some view) \<and> av_agent_id view = ua_agent_id u \<and>
    av_profile view = profile_json (ua_profile u) \<and> av_metadata view = json_value (metadata_json (ua_metadata u))"
proof -
  obtain a g where ag: "normalizeAccountId v = Inr a" "normalizeAgentId w = Inr g"
    using assms by (auto simp: upsertAgent_def split: sum.splits)
  have read: "parseJson (JStr (json_text (profile_json p))) f = profile_json p"
    "parseJson (JStr (json_text (metadata_json m))) f = json_value (metadata_json m)" for p m f
    using column_read [OF js_ok_profile] column_read [OF js_ok_metadata] profile_value
    by (simp_all add: profile_json_def metadata_json_def)
  have key: "\<And>r. agent_get (a, g) db = Some r \<Longrightarrow> gr_agent_id r = g"
    using agent_table.lookup_Some by (fastforce simp: agent_key_def)
  show ?thesis
    using assms key
    by (auto simp: upsertAgent_def ag Let_def getAgent_def agent_get_after agent_key_def agent_view_of_def read
        split: sum.splits option.splits if_splits)
qed

lemma upserted_agent_is_read_back_witness:
  "\<exists>u db' view. upsertAgent ex_object_env 1 2 (JStr ''alice'') (JStr ''agent'') (JObj []) (JObj []) ex_sync_empty = (Inr u, db') \<and>
     getAgent (JStr ''alice'') (JStr ''agent'') db' = Inr (Some view) \<and> av_profile view = profile_json (ua_profile u)"
proof -
  have "case fst (upsertAgent ex_object_env 1 2 (JStr ''alice'') (JStr ''agent'') (JObj []) (JObj []) ex_sync_empty) of
      Inl e \<Rightarrow> False | Inr u \<Rightarrow> True" by code_simp
  then obtain u db' where u: "upsertAgent ex_object_env 1 2 (JStr ''alice'') (JStr ''agent'') (JObj []) (JObj []) ex_sync_empty
      = (Inr u, db')"
    by (cases "upsertAgent ex_object_env 1 2 (JStr ''alice'') (JStr ''agent'') (JObj []) (JObj []) ex_sync_empty")
      (auto split: sum.splits)
  from upserted_agent_is_read_back [OF u] u show ?thesis by blast
qed

end
