(* ===== verification/StoreErrors.thy ===== *)
theory StoreErrors
  imports Main
begin

text \<open>
  The exceptions of the extension stores: each class of the source carries the \<open>code\<close> its
  callers and the HTTP layer tell apart.  The message texts are left out.
\<close>

datatype publisher_code =
    INVALID_NAMESPACE | RESERVED_NAMESPACE | INVALID_ACCOUNT | INVALID_DISPLAY_NAME
  | SECRET_AUDIT_FIELD | NAMESPACE_NOT_FOUND | NAMESPACE_FORBIDDEN | NAMESPACE_CONFLICT
  | TRANSFER_SAME_OWNER | TRANSFER_NOT_PENDING | TRANSFER_FORBIDDEN | TRANSFER_MISMATCH

datatype registry_code =
    INVALID_EXTENSION_IDENTITY | INVALID_EXTENSION_FILTER | REGISTRY_SECRET_FIELD
  | INVALID_EXTENSION_ENTRY | INVALID_EXTENSION_VERSION | INVALID_EXTENSION_PLATFORM
  | EXTENSION_NOT_PUBLISHED | INVALID_EXTENSION_CURSOR | STALE_EXTENSION_CURSOR
  | EXTENSION_NOT_FOUND

datatype release_code =
    INVALID_RELEASE_IDENTITY | INVALID_RELEASE_VERSION | RELEASE_NOT_FOUND
  | RELEASE_CONFLICT | INVALID_RELEASE_STATE

datatype artifact_code =
    INVALID_ARTIFACT_IDENTITY | INVALID_ARTIFACT_VERSION | INVALID_ARTIFACT_METADATA
  | INVALID_ARTIFACT_URL | INVALID_ARTIFACT_DIGEST | INVALID_ARTIFACT_SIZE
  | ARTIFACT_CAS_CORRUPT | ARTIFACT_RELEASE_NOT_FOUND | ARTIFACT_RELEASE_FROZEN
  | ARTIFACT_BINDING_CONFLICT | REVIEW_AUTH_REQUIRED | ARTIFACT_NOT_FOUND
  | INVALID_SCAN_STATE | SCAN_ALREADY_FINAL | INVALID_SCANNER
  | ARTIFACT_REQUIRED | ARTIFACT_SCAN_REQUIRED

datatype signing_code =
    INVALID_TRUST_EPOCH | INVALID_TRUST_FEED_TTL | INVALID_SIGNING_KEY_ID
  | INVALID_SIGNING_RELEASE | SIGNING_KEY_REQUIRED | INVALID_DESCRIPTOR_DIGEST
  | INVALID_SIGNING_ARTIFACTS | INVALID_TRUST_FEED_WINDOW | SIGNATURE_SELF_CHECK_FAILED
  | TRUST_KEY_MATERIAL_CONFLICT | TRUST_KEY_REVOKED | ACTIVE_SIGNER_REVOCATION_REQUIRES_ROTATION
  | TRUST_KEY_NOT_FOUND | TRUST_KEY_ALREADY_REVOKED | TRUST_FEED_SELF_CHECK_FAILED
  | SIGNATURE_CONFLICT | INCOMPLETE_SIGNING_CONFIGURATION | INVALID_SIGNING_PRIVATE_KEY
  | INVALID_FABAPP_MANIFEST

datatype moderation_code =
    INVALID_MODERATION_INPUT | INVALID_MODERATION_RELEASE | INVALID_CASE_ID
  | INVALID_REPORT_REASON | CASE_NOT_FOUND | MODERATION_RELEASE_NOT_FOUND
  | DUPLICATE_OPEN_REPORT | WRONG_CASE_TYPE | CASE_ALREADY_RESOLVED
  | INVALID_MODERATION_DECISION | RELEASE_NOT_ACTIONABLE | REPORT_NOT_APPEALABLE
  | DUPLICATE_OPEN_APPEAL

text \<open>
  \<open>ARTIFACT_RELEASE_NOT_FOUND\<close> is the artifact store's \<open>RELEASE_NOT_FOUND\<close>; \<open>SqliteConstraint\<close>
  is what a statement throws that would break a primary key, \<open>JsTypeError\<close> what reading a property
  of \<open>null\<close> throws.
\<close>

datatype error =
    PublisherStoreError publisher_code
  | RegistryError registry_code
  | ReleaseStoreError release_code
  | ArtifactStoreError artifact_code
  | SigningStoreError signing_code
  | ModerationStoreError moderation_code
  | SqliteConstraint
  | JsTypeError

end
