(* ===== verification/PublisherStore.thy ===== *)
theory PublisherStore
  imports JsText StoreErrors
begin

text \<open>
  The publisher namespaces of \<open>ai-backend/src/extension_publisher_store.js\<close>: the two tables, the
  validators, one definition per prepared statement and one per method.  An operation takes
  the arguments of the method (values of any type), the time \<open>now()\<close> returns and, where the
  method draws one, the random transfer id; it returns the error or the result, and the
  database it leaves.
\<close>

section \<open>Tables\<close>

record namespace_row =
  ns_namespace :: string
  ns_display_name :: string
  ns_owner_account_id :: string
  ns_status :: string
  ns_pending_transfer_id :: "string option"
  ns_pending_target_account_id :: "string option"
  ns_pending_transfer_created_at_ms :: "int option"
  ns_created_at_ms :: int
  ns_updated_at_ms :: int

record publisher_audit_row =
  pa_sequence :: nat
  pa_namespace :: string
  pa_action :: string
  pa_actor_account_id :: string
  pa_target_account_id :: "string option"
  pa_payload :: js
  pa_occurred_at_ms :: int

record publisher_db =
  namespaces :: "namespace_row list"
  publisher_audit :: "publisher_audit_row list"

section \<open>Validation\<close>

definition namespace_pattern :: "string \<Rightarrow> bool" where
  "namespace_pattern s \<longleftrightarrow> safe_component s \<and> 2 \<le> length s \<and> length s \<le> 64"

definition reserved_namespaces :: "string list" where
  "reserved_namespaces = [''fabushi'']"

definition namespaceName :: "js \<Rightarrow> error + string" where
  "namespaceName value =
     (let normalized = trimmed_lower value
      in if \<not> namespace_pattern normalized then Inl (PublisherStoreError INVALID_NAMESPACE)
         else Inr normalized)"

definition claimableNamespace :: "js \<Rightarrow> error + string" where
  "claimableNamespace value =
     (case namespaceName value of Inl e \<Rightarrow> Inl e
      | Inr normalized \<Rightarrow>
          if normalized \<in> set reserved_namespaces then Inl (PublisherStoreError RESERVED_NAMESPACE)
          else Inr normalized)"

definition accountId :: "js \<Rightarrow> error + string" where
  "accountId value =
     (let normalized = trimmed value
      in if normalized = [] \<or> 240 < length normalized then Inl (PublisherStoreError INVALID_ACCOUNT)
         else Inr normalized)"

definition displayName :: "js \<Rightarrow> js \<Rightarrow> error + string" where
  "displayName value fallback =
     (let normalized = trimmed (or_else value fallback)
      in if normalized = [] \<or> 160 < length normalized
         then Inl (PublisherStoreError INVALID_DISPLAY_NAME) else Inr normalized)"

definition assertNoSecrets :: "js \<Rightarrow> error + unit" where
  "assertNoSecrets value =
     (if has_secret_field value then Inl (PublisherStoreError SECRET_AUDIT_FIELD) else Inr ())"

text \<open>\<open>Boolean(column)\<close> of a nullable text column.\<close>

fun present :: "string option \<Rightarrow> bool" where
  "present None = False"
| "present (Some s) = (s \<noteq> [])"

record public_namespace =
  pn_namespace :: string
  pn_display_name :: string
  pn_status :: string
  pn_created_at_ms :: int
  pn_updated_at_ms :: int
  pn_transfer_pending :: bool

definition publicNamespace :: "namespace_row \<Rightarrow> public_namespace" where
  "publicNamespace row =
     \<lparr>pn_namespace = ns_namespace row, pn_display_name = ns_display_name row,
      pn_status = ns_status row, pn_created_at_ms = ns_created_at_ms row,
      pn_updated_at_ms = ns_updated_at_ms row,
      pn_transfer_pending = present (ns_pending_target_account_id row)\<rparr>"

section \<open>Statements\<close>

definition namespace_get :: "string \<Rightarrow> 'a publisher_db_scheme \<Rightarrow> namespace_row option" where
  "namespace_get n db = row_where (\<lambda>r. ns_namespace r = n) (namespaces db)"

definition namespace_insert ::
  "string \<Rightarrow> string \<Rightarrow> string \<Rightarrow> int \<Rightarrow> 'a publisher_db_scheme \<Rightarrow> error + 'a publisher_db_scheme" where
  "namespace_insert n name owner now db =
     (case insert_row ns_namespace SqliteConstraint
        \<lparr>ns_namespace = n, ns_display_name = name, ns_owner_account_id = owner,
         ns_status = ''active'', ns_pending_transfer_id = None,
         ns_pending_target_account_id = None, ns_pending_transfer_created_at_ms = None,
         ns_created_at_ms = now, ns_updated_at_ms = now\<rparr> (namespaces db) of
        Inl e \<Rightarrow> Inl e
      | Inr rows \<Rightarrow> Inr (db\<lparr>namespaces := rows\<rparr>))"

definition namespace_update ::
  "string \<Rightarrow> (namespace_row \<Rightarrow> namespace_row) \<Rightarrow> 'a publisher_db_scheme \<Rightarrow> 'a publisher_db_scheme" where
  "namespace_update n f db =
     db\<lparr>namespaces := update_where (\<lambda>r. ns_namespace r = n) f (namespaces db)\<rparr>"

definition set_display_name :: "string \<Rightarrow> int \<Rightarrow> namespace_row \<Rightarrow> namespace_row" where
  "set_display_name name now r = r\<lparr>ns_display_name := name, ns_updated_at_ms := now\<rparr>"

definition set_pending_transfer :: "string \<Rightarrow> string \<Rightarrow> int \<Rightarrow> namespace_row \<Rightarrow> namespace_row" where
  "set_pending_transfer transferId target now r =
     r\<lparr>ns_pending_transfer_id := Some transferId, ns_pending_target_account_id := Some target,
       ns_pending_transfer_created_at_ms := Some now, ns_updated_at_ms := now\<rparr>"

definition clear_pending_transfer :: "int \<Rightarrow> namespace_row \<Rightarrow> namespace_row" where
  "clear_pending_transfer now r =
     r\<lparr>ns_pending_transfer_id := None, ns_pending_target_account_id := None,
       ns_pending_transfer_created_at_ms := None, ns_updated_at_ms := now\<rparr>"

definition set_owner :: "string \<Rightarrow> int \<Rightarrow> namespace_row \<Rightarrow> namespace_row" where
  "set_owner target now r = (clear_pending_transfer now r)\<lparr>ns_owner_account_id := target\<rparr>"

definition publisher_audit_insert ::
  "string \<Rightarrow> string \<Rightarrow> string \<Rightarrow> string option \<Rightarrow> js \<Rightarrow> int \<Rightarrow>
   'a publisher_db_scheme \<Rightarrow> 'a publisher_db_scheme" where
  "publisher_audit_insert n action actor target payload now db =
     db\<lparr>publisher_audit := publisher_audit db @
        [\<lparr>pa_sequence = Suc (length (publisher_audit db)), pa_namespace = n, pa_action = action,
          pa_actor_account_id = actor, pa_target_account_id = target, pa_payload = payload,
          pa_occurred_at_ms = now\<rparr>]\<rparr>"

text \<open>
  \<open>#audit\<close>: the payload is checked for secrets, then the row is appended.  The rows of this table
  are never deleted, so its autoincrement sequence is its length plus one.
\<close>

definition publisher_log ::
  "string \<Rightarrow> string \<Rightarrow> string \<Rightarrow> string option \<Rightarrow> js \<Rightarrow> int \<Rightarrow>
   'a publisher_db_scheme \<Rightarrow> error + 'a publisher_db_scheme" where
  "publisher_log n action actor target payload now db =
     (case assertNoSecrets payload of Inl e \<Rightarrow> Inl e
      | Inr _ \<Rightarrow> Inr (publisher_audit_insert n action actor target payload now db))"

section \<open>Methods\<close>

definition publisher_owned :: "js \<Rightarrow> js \<Rightarrow> 'a publisher_db_scheme \<Rightarrow> error + namespace_row" where
  "publisher_owned namespace actorAccountId db =
     (case claimableNamespace namespace of Inl e \<Rightarrow> Inl e
      | Inr normalized \<Rightarrow>
          (case namespace_get normalized db of
             None \<Rightarrow> Inl (PublisherStoreError NAMESPACE_NOT_FOUND)
           | Some row \<Rightarrow>
               (case accountId actorAccountId of Inl e \<Rightarrow> Inl e
                | Inr actor \<Rightarrow>
                    if ns_owner_account_id row \<noteq> actor
                    then Inl (PublisherStoreError NAMESPACE_FORBIDDEN) else Inr row)))"

definition publisher_getPublic :: "js \<Rightarrow> 'a publisher_db_scheme \<Rightarrow> error + public_namespace option" where
  "publisher_getPublic namespace db =
     (case namespaceName namespace of Inl e \<Rightarrow> Inl e
      | Inr normalized \<Rightarrow> Inr (map_option publicNamespace (namespace_get normalized db)))"

definition publisher_assertOwned :: "js \<Rightarrow> js \<Rightarrow> 'a publisher_db_scheme \<Rightarrow> error + public_namespace" where
  "publisher_assertOwned namespace actorAccountId db =
     (case publisher_owned namespace actorAccountId db of Inl e \<Rightarrow> Inl e
      | Inr row \<Rightarrow> Inr (publicNamespace row))"

definition publisher_listOwned :: "js \<Rightarrow> 'a publisher_db_scheme \<Rightarrow> error + public_namespace list" where
  "publisher_listOwned actorAccountId db =
     (case accountId actorAccountId of Inl e \<Rightarrow> Inl e
      | Inr owner \<Rightarrow>
          Inr (map publicNamespace
            (sort_key ns_namespace (filter (\<lambda>r. ns_owner_account_id r = owner) (namespaces db)))))"

definition publisher_create ::
  "int \<Rightarrow> js \<Rightarrow> js \<Rightarrow> js \<Rightarrow> 'a publisher_db_scheme \<Rightarrow>
   (error + public_namespace option) \<times> 'a publisher_db_scheme" where
  "publisher_create now namespace requestedDisplayName ownerAccountId db =
     (case claimableNamespace namespace of Inl e \<Rightarrow> (Inl e, db)
      | Inr normalized \<Rightarrow>
     (case accountId ownerAccountId of Inl e \<Rightarrow> (Inl e, db)
      | Inr owner \<Rightarrow>
     (if namespace_get normalized db \<noteq> None then (Inl (PublisherStoreError NAMESPACE_CONFLICT), db)
      else
     (case displayName requestedDisplayName (JStr normalized) of Inl e \<Rightarrow> (Inl e, db)
      | Inr name \<Rightarrow>
        and_then
          (transaction (\<lambda>db.
             case namespace_insert normalized name owner now db of Inl e \<Rightarrow> Inl e
             | Inr db1 \<Rightarrow>
                 publisher_log normalized ''namespace.created'' owner None
                   (JObj [(''displayName'', JStr name)]) now db1) db)
          (\<lambda>_ db'. (publisher_getPublic (JStr normalized) db', db'))))))"

definition publisher_update ::
  "int \<Rightarrow> js \<Rightarrow> js \<Rightarrow> js \<Rightarrow> 'a publisher_db_scheme \<Rightarrow>
   (error + public_namespace option) \<times> 'a publisher_db_scheme" where
  "publisher_update now namespace actorAccountId requestedDisplayName db =
     (case publisher_owned namespace actorAccountId db of Inl e \<Rightarrow> (Inl e, db)
      | Inr current \<Rightarrow>
     (case displayName requestedDisplayName (JStr (ns_display_name current)) of Inl e \<Rightarrow> (Inl e, db)
      | Inr nextDisplayName \<Rightarrow>
     (if nextDisplayName = ns_display_name current then (Inr (Some (publicNamespace current)), db)
      else
        and_then
          (transaction (\<lambda>db.
             publisher_log (ns_namespace current) ''namespace.updated'' (ns_owner_account_id current) None
               (JObj [(''displayName'', JStr nextDisplayName)]) now
               (namespace_update (ns_namespace current) (set_display_name nextDisplayName now) db)) db)
          (\<lambda>_ db'. (publisher_getPublic (JStr (ns_namespace current)) db', db')))))"

record transfer_proposal =
  tp_namespace :: string
  tp_transfer_id :: string
  tp_target_account_id :: string
  tp_created_at_ms :: int

definition publisher_proposeTransfer ::
  "int \<Rightarrow> string \<Rightarrow> js \<Rightarrow> js \<Rightarrow> js \<Rightarrow> 'a publisher_db_scheme \<Rightarrow>
   (error + transfer_proposal) \<times> 'a publisher_db_scheme" where
  "publisher_proposeTransfer now transferId namespace actorAccountId targetAccountId db =
     (case publisher_owned namespace actorAccountId db of Inl e \<Rightarrow> (Inl e, db)
      | Inr current \<Rightarrow>
     (case accountId targetAccountId of Inl e \<Rightarrow> (Inl e, db)
      | Inr target \<Rightarrow>
     (if target = ns_owner_account_id current then (Inl (PublisherStoreError TRANSFER_SAME_OWNER), db)
      else
        and_then
          (transaction (\<lambda>db.
             publisher_log (ns_namespace current) ''namespace.transfer.proposed''
               (ns_owner_account_id current) (Some target)
               (JObj [(''transferId'', JStr transferId)]) now
               (namespace_update (ns_namespace current) (set_pending_transfer transferId target now) db)) db)
          (\<lambda>_ db'. (Inr \<lparr>tp_namespace = ns_namespace current, tp_transfer_id = transferId,
                        tp_target_account_id = target, tp_created_at_ms = now\<rparr>, db')))))"

definition publisher_acceptTransfer ::
  "int \<Rightarrow> js \<Rightarrow> js \<Rightarrow> js \<Rightarrow> 'a publisher_db_scheme \<Rightarrow>
   (error + public_namespace option) \<times> 'a publisher_db_scheme" where
  "publisher_acceptTransfer now namespace actorAccountId transferId db =
     (case claimableNamespace namespace of Inl e \<Rightarrow> (Inl e, db)
      | Inr normalized \<Rightarrow>
     (case accountId actorAccountId of Inl e \<Rightarrow> (Inl e, db)
      | Inr actor \<Rightarrow>
     (case namespace_get normalized db of
        None \<Rightarrow> (Inl (PublisherStoreError NAMESPACE_NOT_FOUND), db)
      | Some current \<Rightarrow>
     (if \<not> present (ns_pending_transfer_id current) \<or> \<not> present (ns_pending_target_account_id current)
      then (Inl (PublisherStoreError TRANSFER_NOT_PENDING), db)
      else if ns_pending_target_account_id current \<noteq> Some actor
      then (Inl (PublisherStoreError TRANSFER_FORBIDDEN), db)
      else if Some (trimmed transferId) \<noteq> ns_pending_transfer_id current
      then (Inl (PublisherStoreError TRANSFER_MISMATCH), db)
      else
        and_then
          (transaction (\<lambda>db.
             publisher_log normalized ''namespace.transfer.accepted'' actor (Some actor)
               (JObj [(''transferId'', JStr (the (ns_pending_transfer_id current))),
                      (''previousOwnerAccountId'', JStr (ns_owner_account_id current))]) now
               (namespace_update normalized (set_owner actor now) db)) db)
          (\<lambda>_ db'. (publisher_getPublic (JStr normalized) db', db'))))))"

definition publisher_cancelTransfer ::
  "int \<Rightarrow> js \<Rightarrow> js \<Rightarrow> 'a publisher_db_scheme \<Rightarrow>
   (error + public_namespace option) \<times> 'a publisher_db_scheme" where
  "publisher_cancelTransfer now namespace actorAccountId db =
     (case publisher_owned namespace actorAccountId db of Inl e \<Rightarrow> (Inl e, db)
      | Inr current \<Rightarrow>
     (if \<not> present (ns_pending_transfer_id current)
      then (Inl (PublisherStoreError TRANSFER_NOT_PENDING), db)
      else
        and_then
          (transaction (\<lambda>db.
             publisher_log (ns_namespace current) ''namespace.transfer.cancelled''
               (ns_owner_account_id current) (ns_pending_target_account_id current)
               (JObj [(''transferId'', JStr (the (ns_pending_transfer_id current)))]) now
               (namespace_update (ns_namespace current) (clear_pending_transfer now) db)) db)
          (\<lambda>_ db'. (publisher_getPublic (JStr (ns_namespace current)) db', db'))))"

definition publisher_audit_list :: "js \<Rightarrow> 'a publisher_db_scheme \<Rightarrow> error + publisher_audit_row list" where
  "publisher_audit_list namespace db =
     (case namespaceName namespace of Inl e \<Rightarrow> Inl e
      | Inr normalized \<Rightarrow>
          Inr (sort_key pa_sequence (filter (\<lambda>a. pa_namespace a = normalized) (publisher_audit db))))"

section \<open>The validators\<close>

lemma namespaceName_Inr [guards]:
  "namespaceName v = Inr n \<longleftrightarrow> n = trimmed_lower v \<and> namespace_pattern n"
  by (auto simp: namespaceName_def Let_def)

lemma claimableNamespace_Inr [guards]:
  "claimableNamespace v = Inr n \<longleftrightarrow>
     n = trimmed_lower v \<and> namespace_pattern n \<and> n \<notin> set reserved_namespaces"
  by (auto simp: claimableNamespace_def namespaceName_def Let_def)

lemma accountId_Inr [guards]:
  "accountId v = Inr a \<longleftrightarrow> a = trimmed v \<and> a \<noteq> [] \<and> length a \<le> 240"
  by (auto simp: accountId_def Let_def)

lemma displayName_Inr [guards]:
  "displayName v d = Inr a \<longleftrightarrow> a = trimmed (or_else v d) \<and> a \<noteq> [] \<and> length a \<le> 160"
  by (auto simp: displayName_def Let_def)

lemma namespaceName_normal [simp]: "namespace_pattern n \<Longrightarrow> namespaceName (JStr n) = Inr n"
  by (simp add: namespaceName_Inr component_trimmed_lower namespace_pattern_def)

lemma present_iff: "present c \<longleftrightarrow> (\<exists>s. c = Some s \<and> s \<noteq> [])"
  by (cases c) auto

lemma audit_keys_clean [simp]:
  "\<not> secret_field ''displayName''" "\<not> secret_field ''transferId''"
  "\<not> secret_field ''previousOwnerAccountId''"
  by code_simp+

lemma publisher_log_clean [simp]:
  "\<not> has_secret_field payload \<Longrightarrow>
   publisher_log n action actor target payload now db =
     Inr (publisher_audit_insert n action actor target payload now db)"
  by (simp add: publisher_log_def assertNoSecrets_def)

section \<open>The statements\<close>

interpretation ns_table: keyed_table namespace_get namespaces ns_namespace
  by unfold_locales (simp add: namespace_get_def)

lemma namespaces_audit_insert [frames, simp]:
  "namespaces (publisher_audit_insert n a ac t p now db) = namespaces db"
  by (simp add: publisher_audit_insert_def)

lemma namespaces_update [simp]:
  "namespaces (namespace_update n f db) = update_where (\<lambda>r. ns_namespace r = n) f (namespaces db)"
  by (simp add: namespace_update_def)

lemma audit_namespace_update [frames, simp]:
  "publisher_audit (namespace_update n f db) = publisher_audit db"
  by (simp add: namespace_update_def)

lemma namespace_get_audit_insert [simp]:
  "namespace_get k (publisher_audit_insert n a ac t p now db) = namespace_get k db"
  by (rule ns_table.lookup_same) simp

lemma namespace_get_update:
  "(\<And>r. ns_namespace (f r) = ns_namespace r) \<Longrightarrow>
   namespace_get k (namespace_update n f db) =
     (if k = n then map_option f (namespace_get k db) else namespace_get k db)"
  by (rule ns_table.lookup_update) simp_all

lemma row_setters_key [simp]:
  "ns_namespace (set_display_name name now r) = ns_namespace r"
  "ns_namespace (set_pending_transfer i t now r) = ns_namespace r"
  "ns_namespace (clear_pending_transfer now r) = ns_namespace r"
  "ns_namespace (set_owner t now r) = ns_namespace r"
  by (simp_all add: set_display_name_def set_pending_transfer_def clear_pending_transfer_def set_owner_def)

lemmas row_setters =
  set_display_name_def set_pending_transfer_def clear_pending_transfer_def set_owner_def

section \<open>What each method does when it succeeds\<close>

lemma publisher_owned_Inr [guards]:
  "publisher_owned namespace actor db = Inr row \<longleftrightarrow>
     claimableNamespace namespace = Inr (trimmed_lower namespace) \<and>
     namespace_get (trimmed_lower namespace) db = Some row \<and>
     accountId actor = Inr (ns_owner_account_id row)"
proof (cases "claimableNamespace namespace")
  case (Inl e)
  then show ?thesis by (simp add: publisher_owned_def)
next
  case (Inr n)
  then have "n = trimmed_lower namespace" by (simp add: claimableNamespace_Inr)
  with Inr show ?thesis
    by (auto simp: publisher_owned_def split: sum.splits option.splits)
qed

lemma publisher_owned_key:
  "publisher_owned namespace actor db = Inr row \<Longrightarrow> ns_namespace row = trimmed_lower namespace"
  by (auto simp: publisher_owned_Inr dest: ns_table.lookup_Some)

definition new_namespace_row :: "string \<Rightarrow> string \<Rightarrow> string \<Rightarrow> int \<Rightarrow> namespace_row" where
  "new_namespace_row n name owner now =
     \<lparr>ns_namespace = n, ns_display_name = name, ns_owner_account_id = owner,
      ns_status = ''active'', ns_pending_transfer_id = None,
      ns_pending_target_account_id = None, ns_pending_transfer_created_at_ms = None,
      ns_created_at_ms = now, ns_updated_at_ms = now\<rparr>"

lemma namespace_insert_new:
  "namespace_get n db = None \<Longrightarrow>
   namespace_insert n name owner now db =
     Inr (db\<lparr>namespaces := namespaces db @ [new_namespace_row n name owner now]\<rparr>)"
  by (auto simp: namespace_insert_def ns_table.lookup_None new_namespace_row_def insert_row_def)

lemma publisher_create_Inr:
  assumes "publisher_create now namespace name owner db = (Inr x, db')"
  obtains n d ac where "claimableNamespace namespace = Inr n" and "accountId owner = Inr ac"
    and "displayName name (JStr n) = Inr d" and "namespace_get n db = None"
    and "db' = publisher_audit_insert n ''namespace.created'' ac None
      (JObj [(''displayName'', JStr d)]) now
      (db\<lparr>namespaces := namespaces db @ [new_namespace_row n d ac now]\<rparr>)"
  using assms
  by (auto simp: publisher_create_def and_then_Inr transaction_simps namespace_insert_new
      split: sum.splits if_splits)

lemma publisher_update_Inr:
  assumes "publisher_update now namespace actor name db = (Inr x, db')"
  obtains (changed) row d where "publisher_owned namespace actor db = Inr row"
    and "displayName name (JStr (ns_display_name row)) = Inr d"
    and "db' = publisher_audit_insert (ns_namespace row) ''namespace.updated''
      (ns_owner_account_id row) None (JObj [(''displayName'', JStr d)]) now
      (namespace_update (ns_namespace row) (set_display_name d now) db)"
  | (same) "db' = db"
  using assms
  by (auto simp: publisher_update_def and_then_Inr transaction_simps split: sum.splits if_splits)

lemma publisher_proposeTransfer_Inr:
  assumes "publisher_proposeTransfer now uuid namespace actor target db = (Inr x, db')"
  obtains row t where "publisher_owned namespace actor db = Inr row" and "accountId target = Inr t"
    and "t \<noteq> ns_owner_account_id row"
    and "db' = publisher_audit_insert (ns_namespace row) ''namespace.transfer.proposed''
      (ns_owner_account_id row) (Some t) (JObj [(''transferId'', JStr uuid)]) now
      (namespace_update (ns_namespace row) (set_pending_transfer uuid t now) db)"
  using assms
  by (auto simp: publisher_proposeTransfer_def and_then_Inr transaction_simps
      split: sum.splits if_splits)

lemma publisher_acceptTransfer_Inr:
  assumes "publisher_acceptTransfer now namespace actor transferId db = (Inr x, db')"
  obtains row a i where "claimableNamespace namespace = Inr (ns_namespace row)"
    and "namespace_get (ns_namespace row) db = Some row" and "accountId actor = Inr a"
    and "ns_pending_target_account_id row = Some a" and "ns_pending_transfer_id row = Some i"
    and "trimmed transferId = i"
    and "db' = publisher_audit_insert (ns_namespace row) ''namespace.transfer.accepted''
      a (Some a) (JObj [(''transferId'', JStr i),
        (''previousOwnerAccountId'', JStr (ns_owner_account_id row))]) now
      (namespace_update (ns_namespace row) (set_owner a now) db)"
proof -
  note op = assms [unfolded publisher_acceptTransfer_def]
  obtain n where n: "claimableNamespace namespace = Inr n"
    using op by (cases "claimableNamespace namespace") simp_all
  obtain a where a: "accountId actor = Inr a"
    using op by (cases "accountId actor") (simp_all add: n)
  obtain row where row: "namespace_get n db = Some row"
    using op by (cases "namespace_get n db") (simp_all add: n a)
  from op have target: "ns_pending_target_account_id row = Some a"
    and i: "ns_pending_transfer_id row = Some (trimmed transferId)"
    by (simp_all add: n a row split: if_splits)
  from row have key: "ns_namespace row = n" by (auto dest: ns_table.lookup_Some)
  from op show thesis
    using that [of row a "trimmed transferId"] n a row key target i
    by (simp add: and_then_Inr transaction_simps split: if_splits)
qed

lemma publisher_cancelTransfer_Inr:
  assumes "publisher_cancelTransfer now namespace actor db = (Inr x, db')"
  obtains row i where "publisher_owned namespace actor db = Inr row"
    and "ns_pending_transfer_id row = Some i"
    and "db' = publisher_audit_insert (ns_namespace row) ''namespace.transfer.cancelled''
      (ns_owner_account_id row) (ns_pending_target_account_id row)
      (JObj [(''transferId'', JStr i)]) now
      (namespace_update (ns_namespace row) (clear_pending_transfer now) db)"
  using assms
  by (auto simp: publisher_cancelTransfer_def and_then_Inr transaction_simps present_iff
      split: sum.splits if_splits)

section \<open>Steps of the store\<close>

inductive publisher_step :: "'a publisher_db_scheme \<Rightarrow> 'a publisher_db_scheme \<Rightarrow> bool" where
  create: "publisher_create now n d owner db = (r, db') \<Longrightarrow> publisher_step db db'"
| update: "publisher_update now n actor d db = (r, db') \<Longrightarrow> publisher_step db db'"
| propose: "publisher_proposeTransfer now uuid n actor target db = (p, db') \<Longrightarrow> publisher_step db db'"
| accept: "publisher_acceptTransfer now n actor transferId db = (r, db') \<Longrightarrow> publisher_step db db'"
| cancel: "publisher_cancelTransfer now n actor db = (r, db') \<Longrightarrow> publisher_step db db'"

text \<open>
  Every failing method leaves the database as it found it: the guards run before the
  transaction, the transaction rolls back, and reading the committed row cannot fail.
\<close>

lemma namespace_pattern_owned:
  "publisher_owned namespace actor db = Inr row \<Longrightarrow> namespace_pattern (ns_namespace row)"
  by (metis claimableNamespace_Inr publisher_owned_Inr publisher_owned_key)

lemma publisher_getPublic_normal:
  "namespace_pattern n \<Longrightarrow> publisher_getPublic (JStr n) db = Inr (map_option publicNamespace (namespace_get n db))"
  by (simp add: publisher_getPublic_def)

lemma publisher_create_atomic: "atomic_on (publisher_create now n d owner db) db"
  by (auto simp: atomic_on_def publisher_create_def and_then_def transaction_def claimableNamespace_Inr
      publisher_getPublic_normal split: sum.splits prod.splits)

lemma publisher_update_atomic: "atomic_on (publisher_update now n actor d db) db"
  by (auto simp: atomic_on_def publisher_update_def and_then_def transaction_def
      publisher_getPublic_normal dest!: namespace_pattern_owned split: sum.splits prod.splits)

lemma publisher_proposeTransfer_atomic: "atomic_on (publisher_proposeTransfer now u n actor t db) db"
  by (auto simp: atomic_on_def publisher_proposeTransfer_def and_then_def transaction_def
      split: sum.splits prod.splits)

lemma publisher_acceptTransfer_atomic: "atomic_on (publisher_acceptTransfer now n actor i db) db"
  by (auto simp: atomic_on_def publisher_acceptTransfer_def and_then_def transaction_def
      claimableNamespace_Inr publisher_getPublic_normal split: sum.splits prod.splits option.splits)

lemma publisher_cancelTransfer_atomic: "atomic_on (publisher_cancelTransfer now n actor db) db"
  by (auto simp: atomic_on_def publisher_cancelTransfer_def and_then_def transaction_def
      publisher_getPublic_normal dest!: namespace_pattern_owned split: sum.splits prod.splits)

lemmas publisher_atomic =
  publisher_create_atomic publisher_update_atomic publisher_proposeTransfer_atomic
  publisher_acceptTransfer_atomic publisher_cancelTransfer_atomic

lemma atomic_onD: "atomic_on r db \<Longrightarrow> r = (Inl e, db') \<Longrightarrow> db' = db"
  by (simp add: atomic_on_def)

text \<open>
  The statements a step runs, whatever the arguments were: one insertion or one update of the
  row of a namespace, together with one audit row.
\<close>

inductive publisher_write :: "'a publisher_db_scheme \<Rightarrow> 'a publisher_db_scheme \<Rightarrow> bool" where
  created: "namespace_get n db = None \<Longrightarrow> namespace_pattern n \<Longrightarrow> n \<notin> set reserved_namespaces \<Longrightarrow>
    accountId v = Inr owner \<Longrightarrow> displayName w (JStr n) = Inr d \<Longrightarrow>
    publisher_write db (publisher_audit_insert n ''namespace.created'' owner None
      (JObj [(''displayName'', JStr d)]) now
      (db\<lparr>namespaces := namespaces db @ [new_namespace_row n d owner now]\<rparr>))"
| updated: "namespace_get (ns_namespace row) db = Some row \<Longrightarrow>
    displayName w (JStr (ns_display_name row)) = Inr d \<Longrightarrow>
    publisher_write db (publisher_audit_insert (ns_namespace row) ''namespace.updated''
      (ns_owner_account_id row) None (JObj [(''displayName'', JStr d)]) now
      (namespace_update (ns_namespace row) (set_display_name d now) db))"
| proposed: "namespace_get (ns_namespace row) db = Some row \<Longrightarrow> accountId v = Inr t \<Longrightarrow>
    t \<noteq> ns_owner_account_id row \<Longrightarrow>
    publisher_write db (publisher_audit_insert (ns_namespace row) ''namespace.transfer.proposed''
      (ns_owner_account_id row) (Some t) (JObj [(''transferId'', JStr uuid)]) now
      (namespace_update (ns_namespace row) (set_pending_transfer uuid t now) db))"
| accepted: "namespace_get (ns_namespace row) db = Some row \<Longrightarrow> accountId v = Inr a \<Longrightarrow>
    ns_pending_target_account_id row = Some a \<Longrightarrow> ns_pending_transfer_id row = Some i \<Longrightarrow>
    publisher_write db (publisher_audit_insert (ns_namespace row) ''namespace.transfer.accepted''
      a (Some a) (JObj [(''transferId'', JStr i),
        (''previousOwnerAccountId'', JStr (ns_owner_account_id row))]) now
      (namespace_update (ns_namespace row) (set_owner a now) db))"
| cancelled: "namespace_get (ns_namespace row) db = Some row \<Longrightarrow> ns_pending_transfer_id row = Some i \<Longrightarrow>
    publisher_write db (publisher_audit_insert (ns_namespace row) ''namespace.transfer.cancelled''
      (ns_owner_account_id row) (ns_pending_target_account_id row)
      (JObj [(''transferId'', JStr i)]) now
      (namespace_update (ns_namespace row) (clear_pending_transfer now) db))"

lemma owned_get:
  "publisher_owned namespace actor db = Inr row \<Longrightarrow> namespace_get (ns_namespace row) db = Some row"
  by (metis publisher_owned_Inr publisher_owned_key)

lemma publisher_step_write: "publisher_step db db' \<Longrightarrow> db' = db \<or> publisher_write db db'"
proof (induction rule: publisher_step.induct)
  case (create now n d owner db r db')
  then show ?case
    by (cases r) (auto dest: atomic_onD [OF publisher_create_atomic] elim!: publisher_create_Inr
        simp: claimableNamespace_Inr intro: publisher_write.created)
next
  case (update now n actor d db r db')
  then show ?case
    by (cases r) (auto dest: atomic_onD [OF publisher_update_atomic] elim!: publisher_update_Inr
        intro: publisher_write.updated owned_get)
next
  case (propose now uuid n actor target db p db')
  then show ?case
    by (cases p) (auto dest: atomic_onD [OF publisher_proposeTransfer_atomic]
        elim!: publisher_proposeTransfer_Inr intro: publisher_write.proposed owned_get)
next
  case (accept now n actor transferId db r db')
  then show ?case
    by (cases r) (auto dest: atomic_onD [OF publisher_acceptTransfer_atomic]
        elim!: publisher_acceptTransfer_Inr intro: publisher_write.accepted)
next
  case (cancel now n actor db r db')
  then show ?case
    by (cases r) (auto dest: atomic_onD [OF publisher_cancelTransfer_atomic]
        elim!: publisher_cancelTransfer_Inr intro: publisher_write.cancelled owned_get)
qed

section \<open>The ownership a history of audit rows tells\<close>

text \<open>
  The specification of the store: who owns each namespace and which transfer is pending, as the
  audit trail alone determines it.
\<close>

record ownership =
  own_account :: string
  own_pending :: "(string \<times> string) option"

definition ownership_event ::
  "publisher_audit_row \<Rightarrow> (string \<Rightarrow> ownership option) \<Rightarrow> (string \<Rightarrow> ownership option)" where
  "ownership_event a m =
     (let n = pa_namespace a;
          target = (case pa_target_account_id a of None \<Rightarrow> [] | Some t \<Rightarrow> t);
          i = text_of (js_get (pa_payload a) ''transferId'')
      in if pa_action a = ''namespace.created''
         then m(n := Some \<lparr>own_account = pa_actor_account_id a, own_pending = None\<rparr>)
         else if pa_action a = ''namespace.transfer.proposed''
         then m(n := map_option (own_pending_update (\<lambda>_. Some (i, target))) (m n))
         else if pa_action a = ''namespace.transfer.accepted''
         then m(n := Some \<lparr>own_account = target, own_pending = None\<rparr>)
         else if pa_action a = ''namespace.transfer.cancelled''
         then m(n := map_option (own_pending_update (\<lambda>_. None)) (m n))
         else m)"

definition replay_ownership :: "publisher_audit_row list \<Rightarrow> string \<Rightarrow> ownership option" where
  "replay_ownership log = fold ownership_event log (\<lambda>_. None)"

definition row_ownership :: "namespace_row \<Rightarrow> ownership" where
  "row_ownership r =
     \<lparr>own_account = ns_owner_account_id r,
      own_pending = (case (ns_pending_transfer_id r, ns_pending_target_account_id r) of
        (Some i, Some t) \<Rightarrow> Some (i, t) | _ \<Rightarrow> None)\<rparr>"

definition ownership_of :: "'a publisher_db_scheme \<Rightarrow> string \<Rightarrow> ownership option" where
  "ownership_of db n = map_option row_ownership (namespace_get n db)"

fun pending_ok :: "string \<Rightarrow> string option \<Rightarrow> string option \<Rightarrow> int option \<Rightarrow> bool" where
  "pending_ok owner None None None = True"
| "pending_ok owner (Some i) (Some t) (Some at) = (t \<noteq> owner)"
| "pending_ok owner _ _ _ = False"

definition namespace_row_ok :: "namespace_row \<Rightarrow> bool" where
  "namespace_row_ok r \<longleftrightarrow>
     namespace_pattern (ns_namespace r) \<and> ns_namespace r \<notin> set reserved_namespaces \<and>
     accountId (JStr (ns_owner_account_id r)) = Inr (ns_owner_account_id r) \<and>
     ns_display_name r \<noteq> [] \<and> length (ns_display_name r) \<le> 160 \<and> ns_status r = ''active'' \<and>
     pending_ok (ns_owner_account_id r) (ns_pending_transfer_id r) (ns_pending_target_account_id r)
       (ns_pending_transfer_created_at_ms r)"

definition publisher_inv :: "'a publisher_db_scheme \<Rightarrow> bool" where
  "publisher_inv db \<longleftrightarrow>
     distinct (map ns_namespace (namespaces db)) \<and> (\<forall>r\<in>set (namespaces db). namespace_row_ok r) \<and>
     map pa_sequence (publisher_audit db) = [1..<Suc (length (publisher_audit db))] \<and>
     replay_ownership (publisher_audit db) = ownership_of db"

definition empty_publisher_db :: publisher_db where
  "empty_publisher_db = \<lparr>namespaces = [], publisher_audit = []\<rparr>"

lemma publisher_inv_empty: "namespaces db = [] \<Longrightarrow> publisher_audit db = [] \<Longrightarrow> publisher_inv db"
  by (auto simp: publisher_inv_def replay_ownership_def ownership_of_def namespace_get_def)

lemma replay_snoc: "replay_ownership (log @ [a]) = ownership_event a (replay_ownership log)"
  by (simp add: replay_ownership_def)

lemma ownership_of_audit [simp]: "ownership_of (db\<lparr>publisher_audit := log\<rparr>) = ownership_of db"
  by (simp add: fun_eq_iff ownership_of_def namespace_get_def)

lemma publisher_inv_audit_insert:
  assumes "publisher_inv db"
    and "namespaces db' = rows" and "publisher_audit db' = publisher_audit db"
    and "distinct (map ns_namespace rows)" and "\<forall>r\<in>set rows. namespace_row_ok r"
    and "ownership_event \<lparr>pa_sequence = Suc (length (publisher_audit db)), pa_namespace = n,
      pa_action = a, pa_actor_account_id = ac, pa_target_account_id = t, pa_payload = p,
      pa_occurred_at_ms = now\<rparr> (ownership_of db) = ownership_of db'"
  shows "publisher_inv (publisher_audit_insert n a ac t p now db')"
  using assms
  by (simp add: publisher_inv_def publisher_audit_insert_def replay_snoc)

lemma publisher_inv_row:
  assumes "publisher_inv db" and "namespace_get n db = Some row"
  shows "namespace_row_ok row" and "ns_namespace row = n"
    and "r \<in> set (namespaces db) \<Longrightarrow> ns_namespace r = n \<Longrightarrow> r = row"
  using assms ns_table.lookup_Some [OF assms(2)]
  by (auto simp: publisher_inv_def intro: distinct_key_unique)

lemma namespace_update_rows:
  assumes inv: "publisher_inv db" and row: "namespace_get n db = Some row"
    and key: "\<And>r. ns_namespace (f r) = ns_namespace r" and ok: "namespace_row_ok (f row)"
  shows "distinct (map ns_namespace (namespaces (namespace_update n f db)))"
    and "\<forall>r\<in>set (namespaces (namespace_update n f db)). namespace_row_ok r"
proof -
  show "distinct (map ns_namespace (namespaces (namespace_update n f db)))"
    using inv by (simp add: map_update_where key publisher_inv_def)
  show "\<forall>r\<in>set (namespaces (namespace_update n f db)). namespace_row_ok r"
    using inv publisher_inv_row [OF inv row] ok
    by (auto simp: set_update_where publisher_inv_def)
qed

lemma ownership_of_update:
  "(\<And>r. ns_namespace (f r) = ns_namespace r) \<Longrightarrow>
   ownership_of (namespace_update n f db) =
     (ownership_of db)(n := map_option (row_ownership \<circ> f) (namespace_get n db))"
  by (auto simp: fun_eq_iff ownership_of_def namespace_get_update option.map_comp)

lemma accountId_trimmed: "accountId v = Inr a \<Longrightarrow> accountId (JStr a) = Inr a"
  by (auto simp: accountId_Inr)

lemma publisher_inv_update:
  assumes "publisher_inv db" and "namespace_get (ns_namespace row) db = Some row"
    and "\<And>r. ns_namespace (f r) = ns_namespace r" and "namespace_row_ok (f row)"
    and "ownership_event \<lparr>pa_sequence = Suc (length (publisher_audit db)), pa_namespace = ns_namespace row,
      pa_action = a, pa_actor_account_id = ac, pa_target_account_id = t, pa_payload = p,
      pa_occurred_at_ms = now\<rparr> (ownership_of db) =
      (ownership_of db)(ns_namespace row := Some (row_ownership (f row)))"
  shows "publisher_inv (publisher_audit_insert (ns_namespace row) a ac t p now
    (namespace_update (ns_namespace row) f db))"
  using assms namespace_update_rows [OF assms(1-4)]
  by (intro publisher_inv_audit_insert [OF assms(1)]) (simp_all add: ownership_of_update)

lemmas row_defs = namespace_row_ok_def row_setters row_ownership_def

lemma publisher_write_inv: "publisher_write db db' \<Longrightarrow> publisher_inv db \<Longrightarrow> publisher_inv db'"
proof (induction rule: publisher_write.induct)
  case (created n db v owner w d now)
  let ?db = "db\<lparr>namespaces := namespaces db @ [new_namespace_row n d owner now]\<rparr>"
  have get: "namespace_get k ?db = (if k = n then Some (new_namespace_row n d owner now) else namespace_get k db)"
    for k using created.hyps(1) by (subst ns_table.lookup_insert [where db = db])
      (auto simp: ns_table.lookup_None new_namespace_row_def)
  show ?case
  proof (rule publisher_inv_audit_insert [OF created.prems, of _ "namespaces db @ [new_namespace_row n d owner now]"])
    show "\<forall>r\<in>set (namespaces db @ [new_namespace_row n d owner now]). namespace_row_ok r"
      using created accountId_trimmed [OF created.hyps(4)]
      by (auto simp: publisher_inv_def namespace_row_ok_def new_namespace_row_def displayName_Inr)
  qed (use created get in \<open>auto simp: publisher_inv_def new_namespace_row_def ns_table.lookup_None
         ownership_event_def ownership_of_def row_ownership_def fun_eq_iff\<close>)
next
  case (updated row db w d now)
  then show ?case
    by (intro publisher_inv_update)
      (auto dest: publisher_inv_row(1) simp: row_defs displayName_Inr ownership_event_def
        ownership_of_def fun_eq_iff)
next
  case (proposed row db v t uuid now)
  then show ?case
    by (intro publisher_inv_update)
      (auto dest: publisher_inv_row(1) simp: row_defs ownership_event_def ownership_of_def fun_eq_iff)
next
  case (accepted row db v a i now)
  then show ?case using accountId_trimmed [OF accepted.hyps(2)]
    by (intro publisher_inv_update)
      (auto dest: publisher_inv_row(1) simp: row_defs ownership_event_def ownership_of_def fun_eq_iff)
next
  case (cancelled row db i now)
  then show ?case
    by (intro publisher_inv_update)
      (auto dest: publisher_inv_row(1) simp: row_defs ownership_event_def ownership_of_def fun_eq_iff)
qed

lemma publisher_step_inv: "publisher_inv db \<Longrightarrow> publisher_step db db' \<Longrightarrow> publisher_inv db'"
  by (metis publisher_step_write publisher_write_inv)

interpretation publisher: invariant_system publisher_step publisher_inv
  by unfold_locales (rule publisher_step_inv)

section \<open>Properties\<close>

lemma ownership_of_get: "namespace_get n db = Some row \<Longrightarrow> ownership_of db n = Some (row_ownership row)"
  by (simp add: ownership_of_def)

lemma ownership_of_other:
  "namespace_get n db' = namespace_get n db \<Longrightarrow> ownership_of db' n = ownership_of db n"
  by (simp add: ownership_of_def)

text \<open>C40: every sequence of publisher operations, failing ones included, from an empty store keeps the
  namespace table and the audit trail consistent: replaying the audit rows gives exactly the owner and the
  pending transfer of every namespace, the audit sequence has no gap, and every row is well formed.\<close>

theorem audit_replays_ownership:
  assumes "publisher_step\<^sup>*\<^sup>* db0 db" and "namespaces db0 = []" and "publisher_audit db0 = []"
  shows "replay_ownership (publisher_audit db) = ownership_of db \<and>
    map pa_sequence (publisher_audit db) = [1..<Suc (length (publisher_audit db))] \<and>
    distinct (map ns_namespace (namespaces db)) \<and> (\<forall>r\<in>set (namespaces db). namespace_row_ok r)"
  using publisher.reachable_inv [OF assms(1) publisher_inv_empty [OF assms(2,3)]]
  by (simp add: publisher_inv_def)

definition example_claimed :: publisher_db where
  "example_claimed =
     snd (publisher_create 7 (JStr ''acme'') (JStr ''Acme'') (JStr ''alice'') empty_publisher_db)"

lemma example_claimed_step: "publisher_step empty_publisher_db example_claimed"
  unfolding example_claimed_def by (metis publisher_step.create prod.collapse)

lemma audit_replays_ownership_witness:
  "replay_ownership (publisher_audit example_claimed) = ownership_of example_claimed \<and>
   map ns_owner_account_id (namespaces example_claimed) = [''alice'']"
proof
  show "replay_ownership (publisher_audit example_claimed) = ownership_of example_claimed"
    using audit_replays_ownership [OF r_into_rtranclp, OF example_claimed_step]
    by (simp add: empty_publisher_db_def)
qed code_simp

text \<open>an existing namespace never disappears, and one operation changes its owner only by accepting
  the transfer that is pending for exactly the new owner, which clears the pending transfer.\<close>

theorem owner_changes_only_by_pending_target:
  assumes "publisher_step db db'" and "ownership_of db n = Some o1"
  shows "\<exists>o2. ownership_of db' n = Some o2 \<and>
    (own_account o2 = own_account o1 \<or>
     (\<exists>i. own_pending o1 = Some (i, own_account o2) \<and> own_pending o2 = None))"
  using publisher_step_write [OF assms(1)]
proof
  assume "db' = db"
  then show ?thesis using assms(2) by simp
next
  assume "publisher_write db db'"
  then show ?thesis using assms(2)
  proof cases
    case (created m v owner w d now)
    then have "n \<noteq> m" using assms(2) by (auto simp: ownership_of_def)
    moreover have rows: "namespaces db' = namespaces db @ [new_namespace_row m d owner now]"
      by (simp add: created(1))
    ultimately have "namespace_get n db' = namespace_get n db"
      using ns_table.lookup_insert [OF rows, of n] created(2)
      by (simp add: ns_table.lookup_None new_namespace_row_def)
    then have "ownership_of db' n = Some o1" using assms(2) by (simp add: ownership_of_def)
    then show ?thesis by blast
  qed (auto simp: ownership_of_def namespace_get_update row_setters row_ownership_def split: if_splits)
qed

definition example_offered :: publisher_db where
  "example_offered =
     snd (publisher_proposeTransfer 8 ''t-1'' (JStr ''acme'') (JStr ''alice'') (JStr ''bob'') example_claimed)"

definition example_transferred :: publisher_db where
  "example_transferred = snd (publisher_acceptTransfer 9 (JStr ''acme'') (JStr ''bob'') (JStr ''t-1'') example_offered)"

lemma example_transferred_step: "publisher_step example_offered example_transferred"
  unfolding example_transferred_def by (metis publisher_step.accept prod.collapse)

lemma owner_changes_only_by_pending_target_witness:
  "(\<exists>o2. ownership_of example_transferred ''acme'' = Some o2 \<and>
    (own_account o2 = ''alice'' \<or> (\<exists>i. Some (''t-1'', ''bob'') = Some (i, own_account o2) \<and> own_pending o2 = None))) \<and>
   map ns_owner_account_id (namespaces example_transferred) = [''bob'']"
proof
  have "ownership_of example_offered ''acme'' =
    Some \<lparr>own_account = ''alice'', own_pending = Some (''t-1'', ''bob'')\<rparr>" by code_simp
  from owner_changes_only_by_pending_target [OF example_transferred_step this]
  show "\<exists>o2. ownership_of example_transferred ''acme'' = Some o2 \<and>
    (own_account o2 = ''alice'' \<or> (\<exists>i. Some (''t-1'', ''bob'') = Some (i, own_account o2) \<and> own_pending o2 = None))"
    by simp
qed code_simp

text \<open>a proposed transfer can be accepted by its target with the transfer id, and by nobody else;
  afterwards the target passes the ownership check and the former owner is refused.\<close>

theorem transfer_handover:
  assumes propose: "publisher_proposeTransfer now u n actor target db = (Inr p, db1)"
    and uuid: "trim u = u" "u \<noteq> []" and unpadded: "target = JStr t" "trim t = t"
  shows "(\<exists>db2 x. publisher_acceptTransfer later n target (JStr u) db1 = (Inr (Some x), db2) \<and>
      publisher_assertOwned n target db2 = Inr x \<and>
      publisher_assertOwned n actor db2 = Inl (PublisherStoreError NAMESPACE_FORBIDDEN)) \<and>
    (\<forall>other i. trimmed other \<noteq> t \<longrightarrow>
      (\<exists>e. publisher_acceptTransfer later n other i db1 = (Inl e, db1)))"
proof -
  from propose obtain row t' where row: "publisher_owned n actor db = Inr row"
    and t': "accountId target = Inr t'" and other: "t' \<noteq> ns_owner_account_id row"
    and db1: "db1 = publisher_audit_insert (ns_namespace row) ''namespace.transfer.proposed''
      (ns_owner_account_id row) (Some t') (JObj [(''transferId'', JStr u)]) now
      (namespace_update (ns_namespace row) (set_pending_transfer u t' now) db)"
    by (rule publisher_proposeTransfer_Inr)
  have t: "t' = t" "t \<noteq> []" using t' unpadded by (auto simp: accountId_Inr trimmed_JStr)
  have name: "claimableNamespace n = Inr (ns_namespace row)"
    and actor: "accountId actor = Inr (ns_owner_account_id row)"
    using row publisher_owned_key [OF row] by (simp_all add: publisher_owned_Inr)
  have get1: "namespace_get (ns_namespace row) db1 = Some (set_pending_transfer u t now row)"
    by (simp add: db1 namespace_get_update owned_get [OF row] t)
  show ?thesis
  proof
    let ?log = "JObj [(''transferId'', JStr u), (''previousOwnerAccountId'', JStr (ns_owner_account_id row))]"
    let ?db2 = "publisher_audit_insert (ns_namespace row) ''namespace.transfer.accepted'' t (Some t) ?log later
      (namespace_update (ns_namespace row) (set_owner t later) db1)"
    let ?row2 = "set_owner t later (set_pending_transfer u t now row)"
    have "publisher_acceptTransfer later n target (JStr u) db1 = (Inr (Some (publicNamespace ?row2)), ?db2)"
      using t' uuid t namespace_pattern_owned [OF row]
      by (simp add: publisher_acceptTransfer_def name get1 row_setters transaction_def trimmed_JStr
          publisher_getPublic_normal namespace_get_update)
    moreover have "publisher_assertOwned n target ?db2 = Inr (publicNamespace ?row2)"
      using t' t by (simp add: publisher_assertOwned_def publisher_owned_def name namespace_get_update get1)
        (simp add: row_setters)
    moreover have "publisher_assertOwned n actor ?db2 = Inl (PublisherStoreError NAMESPACE_FORBIDDEN)"
      using other t by (simp add: publisher_assertOwned_def publisher_owned_def name namespace_get_update get1 actor)
        (simp add: row_setters)
    ultimately show "\<exists>db2 x. publisher_acceptTransfer later n target (JStr u) db1 = (Inr (Some x), db2) \<and>
      publisher_assertOwned n target db2 = Inr x \<and>
      publisher_assertOwned n actor db2 = Inl (PublisherStoreError NAMESPACE_FORBIDDEN)" by blast
  next
    show "\<forall>other i. trimmed other \<noteq> t \<longrightarrow>
      (\<exists>e. publisher_acceptTransfer later n other i db1 = (Inl e, db1))"
      using uuid t by (auto simp: publisher_acceptTransfer_def name get1 row_setters accountId_Inr
          split: sum.splits)
  qed
qed

lemma transfer_handover_witness:
  "\<exists>db2 x. publisher_acceptTransfer 9 (JStr ''acme'') (JStr ''bob'') (JStr ''t-1'') example_offered = (Inr (Some x), db2) \<and>
      publisher_assertOwned (JStr ''acme'') (JStr ''bob'') db2 = Inr x \<and>
      publisher_assertOwned (JStr ''acme'') (JStr ''alice'') db2 = Inl (PublisherStoreError NAMESPACE_FORBIDDEN)"
proof -
  have step: "publisher_proposeTransfer 8 ''t-1'' (JStr ''acme'') (JStr ''alice'') (JStr ''bob'') example_claimed =
    (Inr \<lparr>tp_namespace = ''acme'', tp_transfer_id = ''t-1'', tp_target_account_id = ''bob'',
      tp_created_at_ms = 8\<rparr>, example_offered)" by code_simp
  have ids: "trim ''t-1'' = ''t-1''" "trim ''bob'' = ''bob''" by code_simp+
  from transfer_handover [OF step ids(1) _ refl ids(2)] show ?thesis by blast
qed

text \<open>a failing publisher operation changes nothing: the guards run before the transaction, the
  transaction rolls back, and the read that follows the commit cannot fail.\<close>

theorem publisher_failures_change_nothing:
  "atomic_on (publisher_create now n d owner db) db \<and> atomic_on (publisher_update now n actor d db) db \<and>
   atomic_on (publisher_proposeTransfer now u n actor t db) db \<and>
   atomic_on (publisher_acceptTransfer now n actor i db) db \<and>
   atomic_on (publisher_cancelTransfer now n actor db) db"
  by (intro conjI publisher_atomic)

end
