(* ===== verification/ExtensionEntry.thy ===== *)
theory ExtensionEntry
  imports JsText StoreErrors
begin

text \<open>
  The shared normaliser of \<open>ai-backend/src/extension_registry.js\<close>: an arbitrary descriptor value is
  turned into a registry entry or refused.  The entry object has a fixed shape, so it is a
  record; \<open>entry_json\<close> is the object with its keys in the order the code writes them, which is
  what \<open>JSON.stringify\<close> and the digest see.
\<close>

section \<open>Entries\<close>

record extension_entry =
  en_namespace :: string
  en_name :: string
  en_kind :: string
  en_origin :: string
  en_trust_domain :: string
  en_display_name :: string
  en_description :: string
  en_publisher_id :: string
  en_publisher_display_name :: string
  en_verified :: bool
  en_evidence :: "string list"
  en_version :: string
  en_channel :: string
  en_platforms :: "string list"
  en_capabilities :: "string list"
  en_revoked :: bool
  en_min_host_api :: "int option"
  en_manifest_digest :: "string option"
  en_bundle_digest :: "string option"
  en_categories :: "string list"
  en_tags :: "string list"
  en_legacy :: "(string \<times> js) list"
  en_runtime :: "(string \<times> js) list"

definition kinds :: "string list" where
  "kinds = [''mcp-connector'', ''skill'', ''web-miniapp'']"

definition origins :: "string list" where
  "origins = [''public'', ''team'', ''private-created'']"

definition trust_domains :: "string list" where
  "trust_domains = [''catalog-authorized'', ''team-authorized'', ''private-local-author'']"

definition channels :: "string list" where
  "channels = [''stable'', ''preview'']"

definition supported_platforms :: "string list" where
  "supported_platforms =
     [''desktop'', ''ios'', ''android'', ''web'', ''cli'', ''mobile'', ''chrome-extension'']"

definition extension_id :: "string \<Rightarrow> string \<Rightarrow> string \<Rightarrow> string" where
  "extension_id namespace name kind = namespace @ ''/'' @ name @ '':'' @ kind"

definition en_id :: "extension_entry \<Rightarrow> string" where
  "en_id e = extension_id (en_namespace e) (en_name e) (en_kind e)"

definition strings_json :: "string list \<Rightarrow> js" where
  "strings_json ss = JArr (map JStr ss)"

definition optional_property :: "string \<Rightarrow> ('a \<Rightarrow> js) \<Rightarrow> 'a option \<Rightarrow> (string \<times> js) list" where
  "optional_property k f v = (case v of None \<Rightarrow> [] | Some x \<Rightarrow> [(k, f x)])"

definition entry_json :: "extension_entry \<Rightarrow> js" where
  "entry_json e = JObj
     [(''schemaVersion'', JNum 1),
      (''protocol'', JStr ''fabushi.extension-registry.v1''),
      (''id'', JStr (en_id e)),
      (''identity'', JObj
        [(''namespace'', JStr (en_namespace e)), (''name'', JStr (en_name e)), (''kind'', JStr (en_kind e))]),
      (''origin'', JStr (en_origin e)),
      (''trustDomain'', JStr (en_trust_domain e)),
      (''displayName'', JStr (en_display_name e)),
      (''description'', JStr (en_description e)),
      (''publisher'', JObj
        [(''id'', JStr (en_publisher_id e)),
         (''displayName'', JStr (en_publisher_display_name e)),
         (''verified'', JBool (en_verified e)),
         (''verificationEvidence'', strings_json (en_evidence e))]),
      (''release'', JObj
        ([(''version'', JStr (en_version e)),
          (''channel'', JStr (en_channel e)),
          (''platforms'', strings_json (en_platforms e)),
          (''requestedCapabilities'', strings_json (en_capabilities e)),
          (''revoked'', JBool (en_revoked e))] @
         optional_property ''minHostApi'' JNum (en_min_host_api e) @
         optional_property ''manifestDigest'' JStr (en_manifest_digest e) @
         optional_property ''bundleDigest'' JStr (en_bundle_digest e))),
      (''categories'', strings_json (en_categories e)),
      (''tags'', strings_json (en_tags e)),
      (''compatibility'', JObj [(''platforms'', strings_json (en_platforms e))]),
      (''legacy'', JObj (en_legacy e)),
      (''runtime'', JObj (en_runtime e))]"

section \<open>Normalisation\<close>

definition requiredComponent :: "js \<Rightarrow> error + string" where
  "requiredComponent value =
     (let normalized = trimmed_lower value
      in if \<not> safe_component normalized then Inl (RegistryError INVALID_EXTENSION_IDENTITY)
         else Inr normalized)"

definition requiredEnum :: "js \<Rightarrow> string list \<Rightarrow> error + string" where
  "requiredEnum value allowed =
     (let normalized = trimmed_lower value
      in if normalized \<notin> set allowed then Inl (RegistryError INVALID_EXTENSION_FILTER)
         else Inr normalized)"

definition expand_platform :: "js \<Rightarrow> string list" where
  "expand_platform raw =
     (let platform = trimmed_lower raw
      in if platform = [] then []
         else if platform = ''all'' then supported_platforms
         else if platform = ''mobile'' then [''mobile'', ''ios'', ''android'']
         else if platform \<in> set supported_platforms then [platform] else [])"

text \<open>\<open>[...new Set(xs)].sort()\<close>: no duplicates, in the order of the code units.\<close>

definition sorted_set :: "string list \<Rightarrow> string list" where
  "sorted_set xs = sort (remdups xs)"

definition normalizedPlatforms :: "js \<Rightarrow> string list" where
  "normalizedPlatforms values = sorted_set (concat (map expand_platform (elements values)))"

definition stableIdentity :: "js \<Rightarrow> js \<Rightarrow> js \<Rightarrow> error + (string \<times> string \<times> string)" where
  "stableIdentity rawNamespace rawName rawKind =
     (case requiredComponent rawNamespace of Inl e \<Rightarrow> Inl e
      | Inr namespace \<Rightarrow>
     (case requiredComponent rawName of Inl e \<Rightarrow> Inl e
      | Inr name \<Rightarrow>
     (case requiredEnum rawKind kinds of Inl e \<Rightarrow> Inl e
      | Inr kind \<Rightarrow> Inr (namespace, name, kind))))"

definition assertSafePublicObject :: "js \<Rightarrow> error + unit" where
  "assertSafePublicObject value =
     (if has_secret_field value then Inl (RegistryError REGISTRY_SECRET_FIELD) else Inr ())"

definition positive_host_api :: "js \<Rightarrow> int option" where
  "positive_host_api v = (case v of JNum n \<Rightarrow> if 0 < n then Some n else None | _ \<Rightarrow> None)"

definition truthy_text :: "js \<Rightarrow> string option" where
  "truthy_text v = (if truthy v then Some (js_text v) else None)"

text \<open>\<open>...(v && typeof v === 'object' ? v : {})\<close>\<close>

definition spread_object :: "js \<Rightarrow> (string \<times> js) list" where
  "spread_object v = (if is_object v then own_properties v else [])"

text \<open>The entry object, once the parts that can be refused have been read.\<close>

definition build_entry ::
  "js \<Rightarrow> string \<Rightarrow> string \<Rightarrow> string \<Rightarrow> string \<Rightarrow> string \<Rightarrow> string \<Rightarrow> string \<Rightarrow> string list \<Rightarrow> string \<Rightarrow>
   extension_entry" where
  "build_entry value namespace name kind origin trustDomain channel version platforms publisherId =
     (let release = js_get value ''release''; publisher = js_get value ''publisher'' in
      \<lparr>en_namespace = namespace, en_name = name, en_kind = kind,
       en_origin = origin, en_trust_domain = trustDomain,
       en_display_name = slice_to 160 (trimmed (or_else (js_get value ''displayName'') (JStr name))),
       en_description = slice_to 1000 (trimmed (js_get value ''description'')),
       en_publisher_id = publisherId,
       en_publisher_display_name = slice_to 160 (trimmed
         (or_else (js_get publisher ''displayName'')
           (or_else (js_get publisher ''id'') (JStr namespace)))),
       en_verified = (js_get publisher ''verified'' = JBool True),
       en_evidence = take 8 (filter (\<lambda>s. s \<noteq> [])
         (map (trim \<circ> js_text) (elements (js_get publisher ''verificationEvidence'')))),
       en_version = version, en_channel = channel, en_platforms = platforms,
       en_capabilities = sorted_set (filter (\<lambda>s. s \<noteq> [])
         (map trimmed (elements (js_get release ''requestedCapabilities'')))),
       en_revoked = (js_get release ''revoked'' = JBool True),
       en_min_host_api = positive_host_api (js_get release ''minHostApi''),
       en_manifest_digest = truthy_text (js_get release ''manifestDigest''),
       en_bundle_digest = truthy_text (js_get release ''bundleDigest''),
       en_categories = sorted_set (filter (\<lambda>s. s \<noteq> [])
         (map (lower \<circ> trim \<circ> js_text) (elements (js_get value ''categories'')))),
       en_tags = sorted_set (filter (\<lambda>s. s \<noteq> [])
         (map (lower \<circ> trim \<circ> js_text) (elements (js_get value ''tags'')))),
       en_legacy = spread_object (js_get value ''legacy''),
       en_runtime = spread_object (js_get value ''runtime'')\<rparr>)"

definition normalizeExtensionEntry :: "js \<Rightarrow> error + extension_entry" where
  "normalizeExtensionEntry value =
     (if \<not> truthy value \<or> \<not> is_object value \<or> is_array value
      then Inl (RegistryError INVALID_EXTENSION_ENTRY)
      else
      (let ident = js_get value ''identity''; release = js_get value ''release'' in
     (case stableIdentity (js_get ident ''namespace'') (js_get ident ''name'') (js_get ident ''kind'') of
        Inl e \<Rightarrow> Inl e
      | Inr (namespace, name, kind) \<Rightarrow>
     (case requiredEnum (js_get value ''origin'') origins of Inl e \<Rightarrow> Inl e
      | Inr origin \<Rightarrow>
     (case requiredEnum (js_get value ''trustDomain'') trust_domains of Inl e \<Rightarrow> Inl e
      | Inr trustDomain \<Rightarrow>
     (case requiredEnum (or_else (js_get release ''channel'') (JStr ''stable'')) channels of Inl e \<Rightarrow> Inl e
      | Inr channel \<Rightarrow>
      (let version = trimmed (js_get release ''version'');
           platforms = normalizedPlatforms (js_get release ''platforms'') in
      if \<not> semantic_version version then Inl (RegistryError INVALID_EXTENSION_VERSION)
      else if platforms = [] then Inl (RegistryError INVALID_EXTENSION_PLATFORM)
      else
     (case requiredComponent (or_else (js_get (js_get value ''publisher'') ''id'') (JStr namespace)) of
        Inl e \<Rightarrow> Inl e
      | Inr publisherId \<Rightarrow>
      (let entry = build_entry value namespace name kind origin trustDomain channel version platforms publisherId
       in case assertSafePublicObject (entry_json entry) of Inl e \<Rightarrow> Inl e | Inr _ \<Rightarrow> Inr entry)))))))))"

section \<open>What normalisation guarantees\<close>

lemma sorted_set_props [simp]:
  "set (sorted_set xs) = set xs" "distinct (sorted_set xs)" "sorted (sorted_set xs)"
  by (simp_all add: sorted_set_def)

lemma sorted_set_id: "sorted xs \<Longrightarrow> distinct xs \<Longrightarrow> sorted_set xs = xs"
  by (simp add: sorted_set_def distinct_remdups_id sort_key_id_if_sorted sorted_sort_id)

lemma requiredComponent_Inr [guards]:
  "requiredComponent v = Inr c \<longleftrightarrow> c = trimmed_lower v \<and> safe_component c"
  by (auto simp: requiredComponent_def Let_def)

lemma requiredEnum_Inr [guards]:
  "requiredEnum v xs = Inr c \<longleftrightarrow> c = trimmed_lower v \<and> c \<in> set xs"
  by (auto simp: requiredEnum_def Let_def)

lemma stableIdentity_Inr [guards]:
  "stableIdentity a b c = Inr (ns, n, k) \<longleftrightarrow>
     requiredComponent a = Inr ns \<and> requiredComponent b = Inr n \<and> requiredEnum c kinds = Inr k"
  by (auto simp: stableIdentity_def split: sum.splits)

lemma expand_platform_supported: "set (expand_platform v) \<subseteq> set supported_platforms"
  by (auto simp: expand_platform_def Let_def supported_platforms_def)

definition entry_ok :: "extension_entry \<Rightarrow> bool" where
  "entry_ok e \<longleftrightarrow>
     safe_component (en_namespace e) \<and> safe_component (en_name e) \<and> en_kind e \<in> set kinds \<and>
     en_origin e \<in> set origins \<and> en_trust_domain e \<in> set trust_domains \<and> en_channel e \<in> set channels \<and>
     semantic_version (en_version e) \<and> trim (en_version e) = en_version e \<and>
     en_platforms e \<noteq> [] \<and> set (en_platforms e) \<subseteq> set supported_platforms \<and>
     sorted (en_platforms e) \<and> distinct (en_platforms e) \<and>
     safe_component (en_publisher_id e) \<and>
     length (en_display_name e) \<le> 160 \<and> length (en_publisher_display_name e) \<le> 160 \<and>
     length (en_description e) \<le> 1000 \<and> length (en_evidence e) \<le> 8 \<and>
     \<not> has_secret_field (entry_json e)"

text \<open>What a successful run has read on its way.\<close>

lemma normalizeExtensionEntry_Inr:
  "normalizeExtensionEntry v = Inr e \<longleftrightarrow>
     truthy v \<and> is_object v \<and> \<not> is_array v \<and>
     (\<exists>ns n k orig td ch pid.
        requiredComponent (js_get (js_get v ''identity'') ''namespace'') = Inr ns \<and>
        requiredComponent (js_get (js_get v ''identity'') ''name'') = Inr n \<and>
        requiredEnum (js_get (js_get v ''identity'') ''kind'') kinds = Inr k \<and>
        requiredEnum (js_get v ''origin'') origins = Inr orig \<and>
        requiredEnum (js_get v ''trustDomain'') trust_domains = Inr td \<and>
        requiredEnum (or_else (js_get (js_get v ''release'') ''channel'') (JStr ''stable'')) channels = Inr ch \<and>
        semantic_version (trimmed (js_get (js_get v ''release'') ''version'')) \<and>
        normalizedPlatforms (js_get (js_get v ''release'') ''platforms'') \<noteq> [] \<and>
        requiredComponent (or_else (js_get (js_get v ''publisher'') ''id'') (JStr ns)) = Inr pid \<and>
        e = build_entry v ns n k orig td ch (trimmed (js_get (js_get v ''release'') ''version''))
              (normalizedPlatforms (js_get (js_get v ''release'') ''platforms'')) pid \<and>
        \<not> has_secret_field (entry_json e))"
  unfolding normalizeExtensionEntry_def Let_def stableIdentity_def assertSafePublicObject_def
  by (auto split: sum.split)

lemma build_entry_sel [simp]:
  "en_namespace (build_entry v ns n k orig td ch ver pl pid) = ns"
  "en_name (build_entry v ns n k orig td ch ver pl pid) = n"
  "en_kind (build_entry v ns n k orig td ch ver pl pid) = k"
  "en_origin (build_entry v ns n k orig td ch ver pl pid) = orig"
  "en_trust_domain (build_entry v ns n k orig td ch ver pl pid) = td"
  "en_channel (build_entry v ns n k orig td ch ver pl pid) = ch"
  "en_version (build_entry v ns n k orig td ch ver pl pid) = ver"
  "en_platforms (build_entry v ns n k orig td ch ver pl pid) = pl"
  "en_publisher_id (build_entry v ns n k orig td ch ver pl pid) = pid"
  "en_revoked (build_entry v ns n k orig td ch ver pl pid) =
     (js_get (js_get v ''release'') ''revoked'' = JBool True)"
  "en_verified (build_entry v ns n k orig td ch ver pl pid) =
     (js_get (js_get v ''publisher'') ''verified'' = JBool True)"
  by (simp_all add: build_entry_def Let_def)

lemma build_entry_bounds:
  "length (en_display_name (build_entry v ns n k orig td ch ver pl pid)) \<le> 160"
  "length (en_publisher_display_name (build_entry v ns n k orig td ch ver pl pid)) \<le> 160"
  "length (en_description (build_entry v ns n k orig td ch ver pl pid)) \<le> 1000"
  "length (en_evidence (build_entry v ns n k orig td ch ver pl pid)) \<le> 8"
  by (simp_all add: build_entry_def Let_def)

lemma normalizedPlatforms_supported:
  "set (normalizedPlatforms p) \<subseteq> set supported_platforms"
  "sorted (normalizedPlatforms p)" "distinct (normalizedPlatforms p)"
  using expand_platform_supported by (fastforce simp: normalizedPlatforms_def)+

lemma normalizeExtensionEntry_ok:
  assumes "normalizeExtensionEntry v = Inr e"
  shows "entry_ok e"
proof -
  from assms obtain ns n k orig td ch pid where r:
    "requiredComponent (js_get (js_get v ''identity'') ''namespace'') = Inr ns"
    "requiredComponent (js_get (js_get v ''identity'') ''name'') = Inr n"
    "requiredEnum (js_get (js_get v ''identity'') ''kind'') kinds = Inr k"
    "requiredEnum (js_get v ''origin'') origins = Inr orig"
    "requiredEnum (js_get v ''trustDomain'') trust_domains = Inr td"
    "requiredEnum (or_else (js_get (js_get v ''release'') ''channel'') (JStr ''stable'')) channels = Inr ch"
    "semantic_version (trimmed (js_get (js_get v ''release'') ''version''))"
    "normalizedPlatforms (js_get (js_get v ''release'') ''platforms'') \<noteq> []"
    "requiredComponent (or_else (js_get (js_get v ''publisher'') ''id'') (JStr ns)) = Inr pid"
    "e = build_entry v ns n k orig td ch (trimmed (js_get (js_get v ''release'') ''version''))
          (normalizedPlatforms (js_get (js_get v ''release'') ''platforms'')) pid"
    and safe: "\<not> has_secret_field (entry_json e)"
    by (auto simp: normalizeExtensionEntry_Inr)
  have "trim (trimmed x) = trimmed x" for x by (simp add: trimmed_def)
  moreover from r(1-6) have "safe_component ns" "safe_component n" "k \<in> set kinds" "orig \<in> set origins"
    "td \<in> set trust_domains" "ch \<in> set channels"
    by (auto simp: guards)
  moreover from r(9) have "safe_component pid" by (auto simp: guards)
  ultimately show ?thesis using r(7,8) safe
    by (simp add: entry_ok_def r(10) build_entry_bounds normalizedPlatforms_supported)
qed

end
