(* ===== verification/ReleaseTable.thy ===== *)
theory ReleaseTable
  imports PublisherStore ExtensionEntry
begin

text \<open>
  The data of \<open>ai-backend/src/extension_release_store.js\<close>: release keys, the release and audit
  tables with their statements, the public projection and the order of versions.  The
  methods, which call the artifact and the signing store, are in \<open>ReleaseStore\<close>.

  The column \<open>descriptor_json\<close> holds the text of a normalised entry; the row keeps the entry
  itself, so reading the column back with \<open>JSON.parse\<close> is reading the field.
\<close>

section \<open>Keys\<close>

record release_key =
  rk_kind :: string
  rk_namespace :: string
  rk_name :: string
  rk_version :: string

definition release_component :: "js \<Rightarrow> error + string" where
  "release_component value =
     (let normalized = trimmed_lower value
      in if \<not> safe_component normalized then Inl (ReleaseStoreError INVALID_RELEASE_IDENTITY)
         else Inr normalized)"

definition release_version :: "js \<Rightarrow> error + string" where
  "release_version value =
     (let normalized = trimmed value
      in if \<not> semantic_version normalized then Inl (ReleaseStoreError INVALID_RELEASE_VERSION)
         else Inr normalized)"

text \<open>The four identifying arguments of a method, as they arrive.\<close>

record raw_key =
  raw_kind :: js
  raw_namespace :: js
  raw_name :: js
  raw_version :: js

definition releaseKey :: "raw_key \<Rightarrow> error + release_key" where
  "releaseKey raw =
     (case release_component (raw_kind raw) of Inl e \<Rightarrow> Inl e
      | Inr kind \<Rightarrow>
     (case release_component (raw_namespace raw) of Inl e \<Rightarrow> Inl e
      | Inr namespace \<Rightarrow>
     (case release_component (raw_name raw) of Inl e \<Rightarrow> Inl e
      | Inr name \<Rightarrow>
     (case release_version (raw_version raw) of Inl e \<Rightarrow> Inl e
      | Inr version \<Rightarrow>
          Inr \<lparr>rk_kind = kind, rk_namespace = namespace, rk_name = name, rk_version = version\<rparr>))))"

text \<open>A key that one store hands to another is read again as four strings.\<close>

definition as_raw :: "release_key \<Rightarrow> raw_key" where
  "as_raw key =
     \<lparr>raw_kind = JStr (rk_kind key), raw_namespace = JStr (rk_namespace key),
      raw_name = JStr (rk_name key), raw_version = JStr (rk_version key)\<rparr>"

definition key_ok :: "release_key \<Rightarrow> bool" where
  "key_ok key \<longleftrightarrow>
     safe_component (rk_kind key) \<and> safe_component (rk_namespace key) \<and> safe_component (rk_name key) \<and>
     semantic_version (rk_version key) \<and> trim (rk_version key) = rk_version key"

section \<open>Tables\<close>

datatype release_state = Draft | Pending_Review | Approved | Rejected | Revoked

record release_row =
  rel_key :: release_key
  rel_state :: release_state
  rel_descriptor :: extension_entry
  rel_descriptor_digest :: string
  rel_publisher_account_id :: string
  rel_created_at_ms :: int
  rel_updated_at_ms :: int
  rel_submitted_at_ms :: "int option"
  rel_reviewed_at_ms :: "int option"
  rel_revoked_at_ms :: "int option"
  rel_reviewer :: "string option"
  rel_review_notes :: string

record release_audit_row =
  ra_sequence :: nat
  ra_key :: release_key
  ra_action :: string
  ra_actor :: string
  ra_payload :: js
  ra_occurred_at_ms :: int

record release_db = publisher_db +
  releases :: "release_row list"
  release_audit :: "release_audit_row list"

definition release_get :: "release_key \<Rightarrow> 'a release_db_scheme \<Rightarrow> release_row option" where
  "release_get key db = row_where (\<lambda>r. rel_key r = key) (releases db)"

definition draft_row :: "release_key \<Rightarrow> extension_entry \<Rightarrow> string \<Rightarrow> string \<Rightarrow> int \<Rightarrow> release_row" where
  "draft_row key descriptor digest publisher now =
     \<lparr>rel_key = key, rel_state = Draft, rel_descriptor = descriptor, rel_descriptor_digest = digest,
      rel_publisher_account_id = publisher, rel_created_at_ms = now, rel_updated_at_ms = now,
      rel_submitted_at_ms = None, rel_reviewed_at_ms = None, rel_revoked_at_ms = None,
      rel_reviewer = None, rel_review_notes = []\<rparr>"

definition release_insert ::
  "release_key \<Rightarrow> extension_entry \<Rightarrow> string \<Rightarrow> string \<Rightarrow> int \<Rightarrow>
   'a release_db_scheme \<Rightarrow> error + 'a release_db_scheme" where
  "release_insert key descriptor digest publisher now db =
     (case insert_row rel_key SqliteConstraint (draft_row key descriptor digest publisher now) (releases db) of
        Inl e \<Rightarrow> Inl e
      | Inr rows \<Rightarrow> Inr (db\<lparr>releases := rows\<rparr>))"

definition release_update ::
  "release_key \<Rightarrow> (release_row \<Rightarrow> release_row) \<Rightarrow> 'a release_db_scheme \<Rightarrow> 'a release_db_scheme" where
  "release_update key f db = db\<lparr>releases := update_where (\<lambda>r. rel_key r = key) f (releases db)\<rparr>"

definition set_submitted :: "int \<Rightarrow> release_row \<Rightarrow> release_row" where
  "set_submitted now r =
     r\<lparr>rel_state := Pending_Review, rel_submitted_at_ms := Some now, rel_updated_at_ms := now\<rparr>"

definition set_reviewed :: "release_state \<Rightarrow> string \<Rightarrow> string \<Rightarrow> int \<Rightarrow> release_row \<Rightarrow> release_row" where
  "set_reviewed state reviewer notes now r =
     r\<lparr>rel_state := state, rel_reviewed_at_ms := Some now, rel_reviewer := Some reviewer,
       rel_review_notes := notes, rel_updated_at_ms := now\<rparr>"

definition set_revoked :: "string \<Rightarrow> string \<Rightarrow> int \<Rightarrow> release_row \<Rightarrow> release_row" where
  "set_revoked reviewer notes now r =
     r\<lparr>rel_state := Revoked, rel_revoked_at_ms := Some now, rel_reviewer := Some reviewer,
       rel_review_notes := notes, rel_updated_at_ms := now\<rparr>"

text \<open>\<open>#audit\<close>: one appended row; the table is append-only, so its sequence is its length plus one.\<close>

definition release_log ::
  "release_key \<Rightarrow> string \<Rightarrow> string \<Rightarrow> js \<Rightarrow> int \<Rightarrow> 'a release_db_scheme \<Rightarrow> 'a release_db_scheme" where
  "release_log key action actor payload now db =
     db\<lparr>release_audit := release_audit db @
        [\<lparr>ra_sequence = Suc (length (release_audit db)), ra_key = key, ra_action = action,
          ra_actor = actor, ra_payload = payload, ra_occurred_at_ms = now\<rparr>]\<rparr>"

section \<open>Public projection and the read methods other stores call\<close>

record public_release =
  pr_key :: release_key
  pr_state :: release_state
  pr_descriptor_digest :: string
  pr_created_at_ms :: int
  pr_updated_at_ms :: int
  pr_submitted_at_ms :: "int option"
  pr_reviewed_at_ms :: "int option"
  pr_revoked_at_ms :: "int option"
  pr_review_notes :: string
  pr_descriptor :: extension_entry

definition publicRelease :: "release_row \<Rightarrow> public_release" where
  "publicRelease row =
     \<lparr>pr_key = rel_key row, pr_state = rel_state row, pr_descriptor_digest = rel_descriptor_digest row,
      pr_created_at_ms = rel_created_at_ms row, pr_updated_at_ms = rel_updated_at_ms row,
      pr_submitted_at_ms = rel_submitted_at_ms row, pr_reviewed_at_ms = rel_reviewed_at_ms row,
      pr_revoked_at_ms = rel_revoked_at_ms row, pr_review_notes = rel_review_notes row,
      pr_descriptor = rel_descriptor row\<rparr>"

definition release_getRelease :: "raw_key \<Rightarrow> 'a release_db_scheme \<Rightarrow> error + public_release option" where
  "release_getRelease raw db =
     (case releaseKey raw of Inl e \<Rightarrow> Inl e
      | Inr key \<Rightarrow> Inr (map_option publicRelease (release_get key db)))"

definition release_require :: "release_key \<Rightarrow> 'a release_db_scheme \<Rightarrow> error + release_row" where
  "release_require key db =
     (case release_get key db of None \<Rightarrow> Inl (ReleaseStoreError RELEASE_NOT_FOUND) | Some row \<Rightarrow> Inr row)"

text \<open>\<open>digestDescriptor\<close>: the hash is Node's; \<open>sha256\<close> gives the hexadecimal digest of a text.\<close>

definition digestDescriptor :: "(string \<Rightarrow> string) \<Rightarrow> extension_entry \<Rightarrow> string" where
  "digestDescriptor sha256 descriptor = sha256 (stringify (entry_json descriptor))"

section \<open>The order of versions\<close>

record semver =
  sv_major :: int
  sv_minor :: int
  sv_patch :: int
  sv_prerelease :: "string list"

definition prerelease_part :: "string \<Rightarrow> string list option" where
  "prerelease_part s =
     (case s of [] \<Rightarrow> Some []
      | c # cs \<Rightarrow>
          (if c = CHR ''-''
           then (let pre = takeWhile version_char cs; rest = dropWhile version_char cs
                 in if pre = [] then None
                    else (case rest of [] \<Rightarrow> Some (split_on (CHR ''.'') pre)
                          | d # ds \<Rightarrow> if d = CHR ''+'' \<and> ds \<noteq> [] \<and> list_all version_char ds
                                    then Some (split_on (CHR ''.'') pre) else None))
           else if c = CHR ''+'' \<and> cs \<noteq> [] \<and> list_all version_char cs then Some [] else None))"

definition parseSemver :: "string \<Rightarrow> semver option" where
  "parseSemver s =
     (case digits_dot s of None \<Rightarrow> None
      | Some (major, s1) \<Rightarrow>
          (case digits_dot s1 of None \<Rightarrow> None
           | Some (minor, s2) \<Rightarrow>
               (if takeWhile is_digit s2 = [] then None
                else (case prerelease_part (dropWhile is_digit s2) of None \<Rightarrow> None
                      | Some pre \<Rightarrow>
                          Some \<lparr>sv_major = digits_value 10 major, sv_minor = digits_value 10 minor,
                                sv_patch = digits_value 10 (takeWhile is_digit s2),
                                sv_prerelease = pre\<rparr>))))"

definition all_digits :: "string \<Rightarrow> bool" where
  "all_digits s \<longleftrightarrow> s \<noteq> [] \<and> list_all is_digit s"

definition compare_identifier :: "(string \<Rightarrow> string \<Rightarrow> int) \<Rightarrow> string \<Rightarrow> string \<Rightarrow> int" where
  "compare_identifier localeCompare l r =
     (if all_digits l \<and> all_digits r then digits_value 10 l - digits_value 10 r
      else if all_digits l \<noteq> all_digits r then (if all_digits l then -1 else 1)
      else localeCompare l r)"

fun compare_identifiers :: "(string \<Rightarrow> string \<Rightarrow> int) \<Rightarrow> string list \<Rightarrow> string list \<Rightarrow> int" where
  "compare_identifiers lc [] [] = 0"
| "compare_identifiers lc [] (r # rs) = -1"
| "compare_identifiers lc (l # ls) [] = 1"
| "compare_identifiers lc (l # ls) (r # rs) =
     (if l = r then compare_identifiers lc ls rs else compare_identifier lc l r)"

definition comparePrerelease :: "(string \<Rightarrow> string \<Rightarrow> int) \<Rightarrow> string list \<Rightarrow> string list \<Rightarrow> int" where
  "comparePrerelease lc left right =
     (if left = [] \<and> right = [] then 0 else if left = [] then 1 else if right = [] then -1
      else compare_identifiers lc left right)"

definition compareVersions :: "(string \<Rightarrow> string \<Rightarrow> int) \<Rightarrow> string \<Rightarrow> string \<Rightarrow> int" where
  "compareVersions lc left right =
     (case (parseSemver left, parseSemver right) of
        (Some a, Some b) \<Rightarrow>
          (if sv_major a \<noteq> sv_major b then sv_major a - sv_major b
           else if sv_minor a \<noteq> sv_minor b then sv_minor a - sv_minor b
           else if sv_patch a \<noteq> sv_patch b then sv_patch a - sv_patch b
           else comparePrerelease lc (sv_prerelease a) (sv_prerelease b))
      | _ \<Rightarrow> lc left right)"

section \<open>Facts about the order of versions\<close>

text \<open>What \<open>String.prototype.localeCompare\<close> guarantees: it is a consistent comparison of texts.\<close>

definition collation :: "(string \<Rightarrow> string \<Rightarrow> int) \<Rightarrow> bool" where
  "collation lc \<longleftrightarrow> (\<forall>a b. 0 < lc a b \<longleftrightarrow> lc b a < 0) \<and>
     (\<forall>a b c. lc a b \<le> 0 \<longrightarrow> lc b c \<le> 0 \<longrightarrow> lc a c \<le> 0)"

lemma collation_turn: "collation lc \<Longrightarrow> 0 < lc a b \<longleftrightarrow> lc b a < 0"
  by (simp add: collation_def)

lemma collation_trans: "collation lc \<Longrightarrow> lc a b \<le> 0 \<Longrightarrow> lc b c \<le> 0 \<Longrightarrow> lc a c \<le> 0"
  by (simp add: collation_def)

lemma collation_refl: "collation lc \<Longrightarrow> lc a a = 0"
  by (metis collation_turn less_irrefl less_trans linorder_neqE_linordered_idom)

lemma collation_identifier:
  assumes "collation lc"
  shows "collation (compare_identifier lc)"
proof -
  have "compare_identifier lc a c \<le> 0" if "compare_identifier lc a b \<le> 0" "compare_identifier lc b c \<le> 0" for a b c
    using that collation_trans [OF assms, of a b c] by (auto simp: compare_identifier_def split: if_splits)
  moreover have "0 < compare_identifier lc a b \<longleftrightarrow> compare_identifier lc b a < 0" for a b
    using collation_turn [OF assms, of a b] by (auto simp: compare_identifier_def)
  ultimately show ?thesis by (auto simp: collation_def)
qed

text \<open>Two lists that differ first at \<open>01\<close> and \<open>1\<close> compare as equal whatever follows, so the comparison is no
  preorder; but what does not beat \<open>ps\<close> does not beat what beats \<open>ps\<close>, which is enough for a
  maximum.\<close>

lemma compare_identifiers_keep:
  assumes "collation lc"
  shows "compare_identifiers lc xs ps \<le> 0 \<Longrightarrow> 0 < compare_identifiers lc qs ps \<Longrightarrow> compare_identifiers lc xs qs \<le> 0"
proof (induction xs arbitrary: ps qs)
  case Nil
  then show ?case by (cases qs) simp_all
next
  case (Cons x xs)
  obtain p ps' where ps: "ps = p # ps'" using Cons.prems(1) by (cases ps) simp_all
  obtain q qs' where qs: "qs = q # qs'" using Cons.prems(2) by (cases qs) (simp_all add: ps)
  note order = collation_identifier [OF assms]
  from Cons show ?case
    using collation_turn [OF order, of q p] collation_trans [OF order, of x p q]
    by (auto simp: ps qs split: if_splits)
qed

lemma comparePrerelease_keep:
  assumes "collation lc" and "comparePrerelease lc x p \<le> 0" and "0 < comparePrerelease lc q p"
  shows "comparePrerelease lc x q \<le> 0"
  using assms(2,3) compare_identifiers_keep [OF assms(1), of x p q]
  by (auto simp: comparePrerelease_def split: if_splits)

lemma compareVersions_keep:
  assumes "collation lc" and "parseSemver x \<noteq> None" and "parseSemver p \<noteq> None" and "parseSemver q \<noteq> None"
    and "compareVersions lc x p \<le> 0" and "0 < compareVersions lc q p"
  shows "compareVersions lc x q \<le> 0"
proof -
  from assms(2-4) obtain a b c where parsed: "parseSemver x = Some a" "parseSemver p = Some b" "parseSemver q = Some c"
    by blast
  from assms(5,6) comparePrerelease_keep [OF assms(1), of "sv_prerelease a" "sv_prerelease b" "sv_prerelease c"]
  show ?thesis by (auto simp: compareVersions_def parsed split: if_splits)
qed

lemma compareVersions_refl: "collation lc \<Longrightarrow> compareVersions lc v v = 0"
proof -
  have "compare_identifiers lc is is = 0" for "is" by (induction "is") simp_all
  then show "collation lc \<Longrightarrow> compareVersions lc v v = 0"
    by (simp add: compareVersions_def comparePrerelease_def collation_refl split: option.split)
qed

lemma semantic_version_parsed: 
  assumes "semantic_version v"
  shows "parseSemver v \<noteq> None"
proof -
  have pre: "prerelease_part t \<noteq> None" if tail: "version_tail t" for t
  proof (cases t)
    case (Cons c cs)
    with tail have c: "c \<in> set ''-+''" and cs: "cs \<noteq> []" "list_all version_char cs"
      by (simp_all add: version_tail_def)
    then have "takeWhile version_char cs = cs" "dropWhile version_char cs = []" by (simp_all add: list_all_iff)
    note whole = this
    from c consider "c = CHR ''-''" | "c = CHR ''+''" by auto
    then show ?thesis by cases (simp_all add: prerelease_part_def Cons whole cs)
  qed (simp add: prerelease_part_def)
  show ?thesis
    using assms by (auto simp: semantic_version_def parseSemver_def dest!: pre split: option.splits)
qed

section \<open>Facts about keys and rows\<close>

lemma release_component_Inr [guards]:
  "release_component v = Inr c \<longleftrightarrow> c = trimmed_lower v \<and> safe_component c"
  by (auto simp: release_component_def Let_def)

lemma release_version_Inr [guards]:
  "release_version v = Inr c \<longleftrightarrow> c = trimmed v \<and> semantic_version c"
  by (auto simp: release_version_def Let_def)

lemma releaseKey_Inr:
  "releaseKey raw = Inr key \<longleftrightarrow>
     release_component (raw_kind raw) = Inr (rk_kind key) \<and>
     release_component (raw_namespace raw) = Inr (rk_namespace key) \<and>
     release_component (raw_name raw) = Inr (rk_name key) \<and>
     release_version (raw_version raw) = Inr (rk_version key)"
  by (cases key) (auto simp: releaseKey_def split: sum.splits)

lemma releaseKey_ok: "releaseKey raw = Inr key \<Longrightarrow> key_ok key"
  by (auto simp: releaseKey_Inr guards key_ok_def trimmed_def)

lemma releaseKey_as_raw [simp]: "key_ok key \<Longrightarrow> releaseKey (as_raw key) = Inr key"
  by (simp add: releaseKey_Inr guards key_ok_def as_raw_def component_trimmed_lower trimmed_JStr)

interpretation rel_table: keyed_table release_get releases rel_key
  by unfold_locales (simp add: release_get_def)

lemma releases_log [simp]: "releases (release_log k a ac p now db) = releases db"
  by (simp add: release_log_def)

lemma releases_update [simp]:
  "releases (release_update key f db) = update_where (\<lambda>r. rel_key r = key) f (releases db)"
  by (simp add: release_update_def)

lemma release_get_log [simp]: "release_get k (release_log key a ac p now db) = release_get k db"
  by (rule rel_table.lookup_same) simp

lemma row_setters_rel_key [simp]:
  "rel_key (set_submitted now r) = rel_key r"
  "rel_key (set_reviewed s v n now r) = rel_key r"
  "rel_key (set_revoked v n now r) = rel_key r"
  "rel_key (draft_row key d g p now) = key"
  by (simp_all add: set_submitted_def set_reviewed_def set_revoked_def draft_row_def)

lemma row_setters_state [simp]:
  "rel_state (set_submitted now r) = Pending_Review"
  "rel_state (set_reviewed s v n now r) = s"
  "rel_state (set_revoked v n now r) = Revoked"
  "rel_state (draft_row key d g p now) = Draft"
  by (simp_all add: set_submitted_def set_reviewed_def set_revoked_def draft_row_def)

lemma row_setters_descriptor [simp]:
  "rel_descriptor (set_submitted now r) = rel_descriptor r"
  "rel_descriptor (set_reviewed s v n now r) = rel_descriptor r"
  "rel_descriptor (set_revoked v n now r) = rel_descriptor r"
  "rel_descriptor (draft_row key d g p now) = d"
  "rel_descriptor_digest (set_submitted now r) = rel_descriptor_digest r"
  "rel_descriptor_digest (set_reviewed s v n now r) = rel_descriptor_digest r"
  "rel_descriptor_digest (set_revoked v n now r) = rel_descriptor_digest r"
  "rel_descriptor_digest (draft_row key d g p now) = g"
  by (simp_all add: set_submitted_def set_reviewed_def set_revoked_def draft_row_def)

lemma release_get_update:
  "(\<And>r. rel_key (f r) = rel_key r) \<Longrightarrow>
   release_get k (release_update key f db) =
     (if k = key then map_option f (release_get k db) else release_get k db)"
  by (rule rel_table.lookup_update) simp_all

lemma release_insert_Inr:
  "release_insert key d g p now db = Inr db' \<longleftrightarrow>
     release_get key db = None \<and> db' = db\<lparr>releases := releases db @ [draft_row key d g p now]\<rparr>"
  by (auto simp: release_insert_def rel_table.lookup_None insert_row_def)

lemma release_get_insert:
  "release_get key db = None \<Longrightarrow>
   release_get k (db\<lparr>releases := releases db @ [draft_row key d g p now]\<rparr>) =
     (if k = key then Some (draft_row key d g p now) else release_get k db)"
  by (subst rel_table.lookup_insert [where db = db]) (auto simp: rel_table.lookup_None)

lemma release_require_Inr [guards]: "release_require key db = Inr row \<longleftrightarrow> release_get key db = Some row"
  by (auto simp: release_require_def split: option.splits)

end
