(* ===== verification/SigningStore.thy ===== *)
theory SigningStore
  imports ReleaseTable
begin

text \<open>
  Release signatures and trust keys: \<open>ai-backend/src/extension_signing_store.js\<close> without the trust
  feed.  Ed25519, SHA-256 and key parsing are Node's, so they are functions of the record
  \<open>crypto\<close> that the operations take as an argument: a public key is its base64 SPKI text, a
  signature its base64 text, a payload the text that is signed.  The configured signer is the
  field \<open>this.signer\<close> of the store and lives in the state.
\<close>

section \<open>Cryptography and signers\<close>

record crypto =
  cr_sha256 :: "string \<Rightarrow> string"
  cr_key_fingerprint :: "string \<Rightarrow> string"
  cr_key_type :: "string \<Rightarrow> string option"
  cr_sign :: "string \<Rightarrow> string \<Rightarrow> string"
  cr_verify :: "string \<Rightarrow> string \<Rightarrow> string \<Rightarrow> bool"

record signer =
  sg_private_key :: string
  sg_public_key :: string
  sg_fingerprint :: string
  sg_key_id :: string
  sg_trust_epoch :: int

section \<open>Tables\<close>

datatype trust_status = Trust_Active | Trust_Revoked

record trust_key_row =
  tk_id :: "string \<times> int"
  tk_algorithm :: string
  tk_public_key :: string
  tk_fingerprint :: string
  tk_status :: trust_status
  tk_created_at_ms :: int
  tk_revoked_at_ms :: "int option"
  tk_revocation_reason :: string

record envelope =
  ev_protocol :: string
  ev_algorithm :: string
  ev_key_id :: string
  ev_trust_epoch :: int
  ev_public_key :: string
  ev_fingerprint :: string
  ev_payload :: string
  ev_signature :: string
  ev_signed_at_ms :: int

record signature_row =
  sr_key :: release_key
  sr_algorithm :: string
  sr_key_id :: string
  sr_trust_epoch :: int
  sr_public_key :: string
  sr_fingerprint :: string
  sr_payload :: string
  sr_signature :: string
  sr_signed_at_ms :: int

record signing_db = release_db +
  configured_signer :: "signer option"
  trust_keys :: "trust_key_row list"
  signatures :: "signature_row list"

definition trust_get :: "string \<Rightarrow> int \<Rightarrow> 'a signing_db_scheme \<Rightarrow> trust_key_row option" where
  "trust_get kid epoch db = row_where (\<lambda>r. tk_id r = (kid, epoch)) (trust_keys db)"

definition trust_insert :: "signer \<Rightarrow> int \<Rightarrow> 'a signing_db_scheme \<Rightarrow> error + 'a signing_db_scheme" where
  "trust_insert signer now db =
     (case insert_row tk_id SqliteConstraint
        \<lparr>tk_id = (sg_key_id signer, sg_trust_epoch signer), tk_algorithm = ''Ed25519'',
         tk_public_key = sg_public_key signer, tk_fingerprint = sg_fingerprint signer,
         tk_status = Trust_Active, tk_created_at_ms = now, tk_revoked_at_ms = None,
         tk_revocation_reason = []\<rparr> (trust_keys db) of
        Inl e \<Rightarrow> Inl e
      | Inr rows \<Rightarrow> Inr (db\<lparr>trust_keys := rows\<rparr>))"

definition trust_revoke :: "string \<Rightarrow> int \<Rightarrow> string \<Rightarrow> int \<Rightarrow> 'a signing_db_scheme \<Rightarrow> 'a signing_db_scheme" where
  "trust_revoke kid epoch reason now db =
     db\<lparr>trust_keys := update_where (\<lambda>r. tk_id r = (kid, epoch) \<and> tk_status r = Trust_Active)
        (\<lambda>r. r\<lparr>tk_status := Trust_Revoked, tk_revoked_at_ms := Some now, tk_revocation_reason := reason\<rparr>)
        (trust_keys db)\<rparr>"

definition signature_get :: "release_key \<Rightarrow> 'a signing_db_scheme \<Rightarrow> signature_row option" where
  "signature_get key db = row_where (\<lambda>r. sr_key r = key) (signatures db)"

definition signature_insert ::
  "release_key \<Rightarrow> envelope \<Rightarrow> 'a signing_db_scheme \<Rightarrow> error + 'a signing_db_scheme" where
  "signature_insert key env db =
     (case insert_row sr_key SqliteConstraint
        \<lparr>sr_key = key, sr_algorithm = ''Ed25519'', sr_key_id = ev_key_id env,
         sr_trust_epoch = ev_trust_epoch env, sr_public_key = ev_public_key env,
         sr_fingerprint = ev_fingerprint env, sr_payload = ev_payload env,
         sr_signature = ev_signature env, sr_signed_at_ms = ev_signed_at_ms env\<rparr> (signatures db) of
        Inl e \<Rightarrow> Inl e
      | Inr rows \<Rightarrow> Inr (db\<lparr>signatures := rows\<rparr>))"

section \<open>Validation\<close>

definition signature_protocol :: string where
  "signature_protocol = ''fabushi.extension-release-signature.v1''"

definition positiveEpoch :: "js \<Rightarrow> error + int" where
  "positiveEpoch value =
     (case js_number value of
        None \<Rightarrow> Inl (SigningStoreError INVALID_TRUST_EPOCH)
      | Some n \<Rightarrow> if \<not> safe_integer n \<or> n \<le> 0 then Inl (SigningStoreError INVALID_TRUST_EPOCH) else Inr n)"

definition key_id_pattern :: "string \<Rightarrow> bool" where
  "key_id_pattern s \<longleftrightarrow>
     s \<noteq> [] \<and> length s \<le> 128 \<and> is_alnum (hd s) \<and> list_all (\<lambda>c. is_alnum c \<or> c \<in> set ''._:-'') (tl s)"

definition keyId :: "js \<Rightarrow> error + string" where
  "keyId value =
     (let normalized = trimmed value
      in if \<not> key_id_pattern normalized then Inl (SigningStoreError INVALID_SIGNING_KEY_ID)
         else Inr normalized)"

definition signing_releaseKey :: "raw_key \<Rightarrow> error + release_key" where
  "signing_releaseKey raw =
     (let kind = trimmed_lower (raw_kind raw); namespace = trimmed_lower (raw_namespace raw);
          name = trimmed_lower (raw_name raw); version = trimmed (raw_version raw)
      in if kind = [] \<or> namespace = [] \<or> name = [] \<or> version = []
         then Inl (SigningStoreError INVALID_SIGNING_RELEASE)
         else Inr \<lparr>rk_kind = kind, rk_namespace = namespace, rk_name = name, rk_version = version\<rparr>)"

definition publicEnvelope :: "signature_row \<Rightarrow> envelope" where
  "publicEnvelope row =
     \<lparr>ev_protocol = signature_protocol, ev_algorithm = sr_algorithm row, ev_key_id = sr_key_id row,
      ev_trust_epoch = sr_trust_epoch row, ev_public_key = sr_public_key row,
      ev_fingerprint = sr_fingerprint row, ev_payload = sr_payload row,
      ev_signature = sr_signature row, ev_signed_at_ms = sr_signed_at_ms row\<rparr>"

section \<open>The signed payload\<close>

text \<open>What a signature binds of an artifact; the artifact store's public artifacts extend it.\<close>

record signed_artifact =
  sa_artifact_id :: string
  sa_digest :: string
  sa_size_bytes :: int
  sa_platform :: string
  sa_architecture :: string
  sa_format :: string
  sa_url :: string

definition artifact_json :: "'a signed_artifact_scheme \<Rightarrow> js" where
  "artifact_json a = JObj
     ([(''artifactId'', JStr (sa_artifact_id a)), (''digest'', JStr (sa_digest a)),
       (''sizeBytes'', JNum (sa_size_bytes a)), (''platform'', JStr (sa_platform a)),
       (''architecture'', JStr (sa_architecture a)), (''format'', JStr (sa_format a))] @
      (if sa_url a \<noteq> [] then [(''url'', JStr (sa_url a))] else []))"

definition artifact_order ::
  "(string \<Rightarrow> string \<Rightarrow> int) \<Rightarrow> 'a signed_artifact_scheme \<Rightarrow> 'a signed_artifact_scheme \<Rightarrow> int" where
  "artifact_order lc left right = lc (sa_artifact_id left) (sa_artifact_id right)"

text \<open>The text of the payload for given key id, trust epoch, identity, version and artifacts.\<close>

definition release_payload ::
  "(string \<Rightarrow> string \<Rightarrow> int) \<Rightarrow> string \<Rightarrow> int \<Rightarrow> extension_entry \<Rightarrow> string \<Rightarrow>
   'a signed_artifact_scheme list \<Rightarrow> string" where
  "release_payload lc kid epoch descriptor descriptorDigest artifacts =
     stringify (JObj
       [(''protocol'', JStr signature_protocol),
        (''keyId'', JStr kid),
        (''trustEpoch'', JNum epoch),
        (''identity'', JObj
          [(''namespace'', JStr (en_namespace descriptor)), (''name'', JStr (en_name descriptor)),
           (''kind'', JStr (en_kind descriptor))]),
        (''version'', JStr (en_version descriptor)),
        (''descriptorDigest'', JStr descriptorDigest),
        (''artifacts'', JArr (map artifact_json (sort_by (artifact_order lc) artifacts)))])"

definition signable_artifact :: "'a signed_artifact_scheme \<Rightarrow> bool" where
  "signable_artifact a \<longleftrightarrow> hex64 (sa_digest a) \<and> safe_integer (sa_size_bytes a) \<and> 0 < sa_size_bytes a"

definition canonicalReleaseSignaturePayload ::
  "(string \<Rightarrow> string \<Rightarrow> int) \<Rightarrow> signer option \<Rightarrow> extension_entry \<Rightarrow> string \<Rightarrow>
   'a signed_artifact_scheme list \<Rightarrow> error + string" where
  "canonicalReleaseSignaturePayload lc signer descriptor descriptorDigest artifacts =
     (case signer of
        None \<Rightarrow> Inl (SigningStoreError SIGNING_KEY_REQUIRED)
      | Some sg \<Rightarrow>
          (if \<not> hex64 descriptorDigest then Inl (SigningStoreError INVALID_DESCRIPTOR_DIGEST)
           else if artifacts = [] \<or> list_ex (\<lambda>a. \<not> signable_artifact a) artifacts
           then Inl (SigningStoreError INVALID_SIGNING_ARTIFACTS)
           else if en_kind descriptor = [] \<or> en_namespace descriptor = [] \<or> en_name descriptor = [] \<or>
                   en_version descriptor = []
           then Inl (SigningStoreError INVALID_SIGNING_RELEASE)
           else Inr (release_payload lc (sg_key_id sg) (sg_trust_epoch sg) descriptor descriptorDigest artifacts)))"

definition verifyReleaseSignatureEnvelope :: "crypto \<Rightarrow> envelope \<Rightarrow> bool" where
  "verifyReleaseSignatureEnvelope cr env \<longleftrightarrow>
     ev_protocol env = signature_protocol \<and> ev_algorithm env = ''Ed25519'' \<and>
     cr_key_fingerprint cr (ev_public_key env) = ev_fingerprint env \<and>
     cr_key_type cr (ev_public_key env) = Some ''ed25519'' \<and>
     cr_verify cr (ev_public_key env) (ev_payload env) (ev_signature env)"

section \<open>Methods\<close>

text \<open>
  The constructor with a given signer: the signer becomes the configured one and its key is
  registered, unless the key id and epoch are known with other material or as revoked.
\<close>

definition registerConfiguredSigner ::
  "int \<Rightarrow> signer \<Rightarrow> 'a signing_db_scheme \<Rightarrow> error + 'a signing_db_scheme" where
  "registerConfiguredSigner now signer db =
     (case trust_get (sg_key_id signer) (sg_trust_epoch signer) db of
        Some existing \<Rightarrow>
          (if tk_algorithm existing \<noteq> ''Ed25519'' \<or> tk_public_key existing \<noteq> sg_public_key signer \<or>
              tk_fingerprint existing \<noteq> sg_fingerprint signer
           then Inl (SigningStoreError TRUST_KEY_MATERIAL_CONFLICT)
           else if tk_status existing \<noteq> Trust_Active then Inl (SigningStoreError TRUST_KEY_REVOKED)
           else Inr db)
      | None \<Rightarrow> trust_insert signer now db)"

definition signing_open ::
  "int \<Rightarrow> signer option \<Rightarrow> 'a signing_db_scheme \<Rightarrow> (error + unit) \<times> 'a signing_db_scheme" where
  "signing_open now signer db =
     (case signer of
        None \<Rightarrow> (Inr (), db\<lparr>configured_signer := None\<rparr>)
      | Some sg \<Rightarrow>
          (case registerConfiguredSigner now sg db of
             Inl e \<Rightarrow> (Inl e, db)
           | Inr db' \<Rightarrow> (Inr (), db'\<lparr>configured_signer := Some sg\<rparr>)))"

definition listTrustKeys :: "'a signing_db_scheme \<Rightarrow> trust_key_row list" where
  "listTrustKeys db =
     sort_key (\<lambda>r. - snd (tk_id r)) (sort_key (\<lambda>r. fst (tk_id r)) (trust_keys db))"

definition revokeTrustKey ::
  "int \<Rightarrow> js \<Rightarrow> js \<Rightarrow> js \<Rightarrow> 'a signing_db_scheme \<Rightarrow>
   (error + trust_key_row option) \<times> 'a signing_db_scheme" where
  "revokeTrustKey now rawKeyId rawTrustEpoch reason db =
     (case keyId rawKeyId of Inl e \<Rightarrow> (Inl e, db)
      | Inr kid \<Rightarrow>
     (case positiveEpoch rawTrustEpoch of Inl e \<Rightarrow> (Inl e, db)
      | Inr epoch \<Rightarrow>
     (if map_option (\<lambda>sg. (sg_key_id sg, sg_trust_epoch sg)) (configured_signer db) = Some (kid, epoch)
      then (Inl (SigningStoreError ACTIVE_SIGNER_REVOCATION_REQUIRES_ROTATION), db)
      else
     (case trust_get kid epoch db of
        None \<Rightarrow> (Inl (SigningStoreError TRUST_KEY_NOT_FOUND), db)
      | Some existing \<Rightarrow>
     (if tk_status existing = Trust_Revoked then (Inl (SigningStoreError TRUST_KEY_ALREADY_REVOKED), db)
      else
       (let db' = trust_revoke kid epoch (slice_to 4000 (trimmed reason)) now db
        in (Inr (row_where (\<lambda>r. tk_id r = (kid, epoch)) (listTrustKeys db')), db')))))))"

definition getSignature :: "raw_key \<Rightarrow> 'a signing_db_scheme \<Rightarrow> error + envelope option" where
  "getSignature raw db =
     (case signing_releaseKey raw of Inl e \<Rightarrow> Inl e
      | Inr key \<Rightarrow> Inr (map_option publicEnvelope (signature_get key db)))"

definition trusts :: "crypto \<Rightarrow> envelope \<Rightarrow> 'a signing_db_scheme \<Rightarrow> bool" where
  "trusts cr signature db =
     (case trust_get (ev_key_id signature) (ev_trust_epoch signature) db of
        None \<Rightarrow> False
      | Some trust \<Rightarrow>
          tk_status trust = Trust_Active \<and> tk_algorithm trust = ev_algorithm signature \<and>
          tk_public_key trust = ev_public_key signature \<and>
          tk_fingerprint trust = ev_fingerprint signature \<and>
          verifyReleaseSignatureEnvelope cr signature)"

definition getTrustedSignature :: "crypto \<Rightarrow> raw_key \<Rightarrow> 'a signing_db_scheme \<Rightarrow> error + envelope option" where
  "getTrustedSignature cr raw db =
     (case getSignature raw db of Inl e \<Rightarrow> Inl e
      | Inr None \<Rightarrow> Inr None
      | Inr (Some signature) \<Rightarrow> Inr (if trusts cr signature db then Some signature else None))"

definition entry_raw_key :: "extension_entry \<Rightarrow> raw_key" where
  "entry_raw_key e =
     \<lparr>raw_kind = JStr (en_kind e), raw_namespace = JStr (en_namespace e),
      raw_name = JStr (en_name e), raw_version = JStr (en_version e)\<rparr>"

definition signRelease ::
  "crypto \<Rightarrow> (string \<Rightarrow> string \<Rightarrow> int) \<Rightarrow> int \<Rightarrow> extension_entry \<Rightarrow> string \<Rightarrow> 'b signed_artifact_scheme list \<Rightarrow>
   'a signing_db_scheme \<Rightarrow> (error + envelope) \<times> 'a signing_db_scheme" where
  "signRelease cr lc now descriptor descriptorDigest artifacts db =
     (case signing_releaseKey (entry_raw_key descriptor) of Inl e \<Rightarrow> (Inl e, db)
      | Inr key \<Rightarrow>
     (case canonicalReleaseSignaturePayload lc (configured_signer db) descriptor descriptorDigest artifacts of
        Inl e \<Rightarrow> (Inl e, db)
      | Inr payload \<Rightarrow>
     (case getSignature (as_raw key) db of
        Inl e \<Rightarrow> (Inl e, db)
      | Inr (Some existing) \<Rightarrow>
          (if Some (ev_key_id existing) = map_option sg_key_id (configured_signer db) \<and>
              Some (ev_trust_epoch existing) = map_option sg_trust_epoch (configured_signer db) \<and>
              ev_payload existing = payload \<and> verifyReleaseSignatureEnvelope cr existing
           then (Inr existing, db)
           else (Inl (SigningStoreError SIGNATURE_CONFLICT), db))
      | Inr None \<Rightarrow>
          (case configured_signer db of
             None \<Rightarrow> (Inl (SigningStoreError SIGNING_KEY_REQUIRED), db)
           | Some sg \<Rightarrow>
              (let env = \<lparr>ev_protocol = signature_protocol, ev_algorithm = ''Ed25519'',
                          ev_key_id = sg_key_id sg, ev_trust_epoch = sg_trust_epoch sg,
                          ev_public_key = sg_public_key sg, ev_fingerprint = sg_fingerprint sg,
                          ev_payload = payload, ev_signature = cr_sign cr (sg_private_key sg) payload,
                          ev_signed_at_ms = now\<rparr>
               in if \<not> verifyReleaseSignatureEnvelope cr env
                  then (Inl (SigningStoreError SIGNATURE_SELF_CHECK_FAILED), db)
                  else (case signature_insert key env db of
                          Inl e \<Rightarrow> (Inl e, db)
                        | Inr db' \<Rightarrow> (Inr env, db')))))))"

record current_trust =
  ct_configured :: bool
  ct_signer :: "(string \<times> int \<times> string \<times> string) option"

definition currentTrust :: "'a signing_db_scheme \<Rightarrow> current_trust" where
  "currentTrust db =
     (case configured_signer db of
        None \<Rightarrow> \<lparr>ct_configured = False, ct_signer = None\<rparr>
      | Some sg \<Rightarrow> \<lparr>ct_configured = True,
          ct_signer = Some (sg_key_id sg, sg_trust_epoch sg, sg_public_key sg, sg_fingerprint sg)\<rparr>)"

section \<open>The statements\<close>

interpretation trust_table: keyed_table "\<lambda>k. trust_get (fst k) (snd k)" trust_keys tk_id
  by unfold_locales (simp add: trust_get_def)

interpretation signature_table: keyed_table signature_get signatures sr_key
  by unfold_locales (simp add: signature_get_def)

definition envelope_row :: "release_key \<Rightarrow> envelope \<Rightarrow> signature_row" where
  "envelope_row key env =
     \<lparr>sr_key = key, sr_algorithm = ''Ed25519'', sr_key_id = ev_key_id env,
      sr_trust_epoch = ev_trust_epoch env, sr_public_key = ev_public_key env,
      sr_fingerprint = ev_fingerprint env, sr_payload = ev_payload env,
      sr_signature = ev_signature env, sr_signed_at_ms = ev_signed_at_ms env\<rparr>"

definition trust_row :: "signer \<Rightarrow> int \<Rightarrow> trust_key_row" where
  "trust_row signer now =
     \<lparr>tk_id = (sg_key_id signer, sg_trust_epoch signer), tk_algorithm = ''Ed25519'',
      tk_public_key = sg_public_key signer, tk_fingerprint = sg_fingerprint signer,
      tk_status = Trust_Active, tk_created_at_ms = now, tk_revoked_at_ms = None,
      tk_revocation_reason = []\<rparr>"

lemma envelope_row_key [simp]: "sr_key (envelope_row key env) = key"
  by (simp add: envelope_row_def)

lemma publicEnvelope_row [simp]:
  "ev_protocol env = signature_protocol \<Longrightarrow> ev_algorithm env = ''Ed25519'' \<Longrightarrow>
   publicEnvelope (envelope_row key env) = env"
  by (cases env) (simp add: publicEnvelope_def envelope_row_def)

lemma trust_row_sel [simp]:
  "tk_id (trust_row sg now) = (sg_key_id sg, sg_trust_epoch sg)" "tk_algorithm (trust_row sg now) = ''Ed25519''"
  "tk_public_key (trust_row sg now) = sg_public_key sg" "tk_fingerprint (trust_row sg now) = sg_fingerprint sg"
  "tk_status (trust_row sg now) = Trust_Active"
  by (simp_all add: trust_row_def)

lemma signature_insert_Inr:
  "signature_insert key env db = Inr db' \<longleftrightarrow>
     signature_get key db = None \<and> db' = db\<lparr>signatures := signatures db @ [envelope_row key env]\<rparr>"
  by (auto simp: signature_insert_def signature_table.lookup_None insert_row_def envelope_row_def)

lemma trust_get_None:
  "trust_get kid epoch db = None \<longleftrightarrow> (kid, epoch) \<notin> tk_id ` set (trust_keys db)"
  using trust_table.lookup_None [of "(kid, epoch)" db] by simp

lemma trust_insert_Inr:
  "trust_insert sg now db = Inr db' \<longleftrightarrow>
     trust_get (sg_key_id sg) (sg_trust_epoch sg) db = None \<and>
     db' = db\<lparr>trust_keys := trust_keys db @ [trust_row sg now]\<rparr>"
  by (auto simp: trust_insert_def trust_get_None insert_row_def trust_row_def)

lemma trust_keys_revoke [simp]:
  "trust_keys (trust_revoke kid epoch reason now db) =
     update_where (\<lambda>r. tk_id r = (kid, epoch) \<and> tk_status r = Trust_Active)
       (\<lambda>r. r\<lparr>tk_status := Trust_Revoked, tk_revoked_at_ms := Some now, tk_revocation_reason := reason\<rparr>)
       (trust_keys db)"
  "configured_signer (trust_revoke kid epoch reason now db) = configured_signer db"
  "signatures (trust_revoke kid epoch reason now db) = signatures db"
  by (simp_all add: trust_revoke_def)

section \<open>What the methods do\<close>

lemma signing_releaseKey_Inr:
  "signing_releaseKey raw = Inr key \<longleftrightarrow>
     rk_kind key = trimmed_lower (raw_kind raw) \<and> rk_namespace key = trimmed_lower (raw_namespace raw) \<and>
     rk_name key = trimmed_lower (raw_name raw) \<and> rk_version key = trimmed (raw_version raw) \<and>
     rk_kind key \<noteq> [] \<and> rk_namespace key \<noteq> [] \<and> rk_name key \<noteq> [] \<and> rk_version key \<noteq> []"
  (is "_ \<longleftrightarrow> ?ok")
proof
  assume "signing_releaseKey raw = Inr key"
  then show ?ok by (auto simp: signing_releaseKey_def Let_def split: if_splits)
next
  assume ok: ?ok
  show "signing_releaseKey raw = Inr key"
  proof (cases key)
    case (fields a b c d)
    with ok show ?thesis by (auto simp: signing_releaseKey_def Let_def)
  qed
qed

lemma signing_releaseKey_as_raw:
  "signing_releaseKey raw = Inr key \<Longrightarrow> signing_releaseKey (as_raw key) = Inr key"
  by (auto simp: signing_releaseKey_Inr as_raw_def)

lemma semantic_version_nonempty: "semantic_version s \<Longrightarrow> s \<noteq> []"
  by (auto simp: semantic_version_def digits_dot_def)

lemma signing_releaseKey_ok [simp]: "key_ok key \<Longrightarrow> signing_releaseKey (as_raw key) = Inr key"
  by (simp add: signing_releaseKey_Inr as_raw_def key_ok_def component_trimmed_lower trimmed_JStr
      safe_component_nonempty semantic_version_nonempty)

lemma getSignature_ok [simp]:
  "key_ok key \<Longrightarrow> getSignature (as_raw key) db = Inr (map_option publicEnvelope (signature_get key db))"
  by (simp add: getSignature_def)

lemma canonicalReleaseSignaturePayload_Inr:
  "canonicalReleaseSignaturePayload lc sg d g as = Inr payload \<longleftrightarrow>
     (\<exists>s. sg = Some s \<and> hex64 g \<and> as \<noteq> [] \<and> list_all signable_artifact as \<and> en_kind d \<noteq> [] \<and>
        en_namespace d \<noteq> [] \<and> en_name d \<noteq> [] \<and> en_version d \<noteq> [] \<and>
        payload = release_payload lc (sg_key_id s) (sg_trust_epoch s) d g as)"
  by (auto simp: canonicalReleaseSignaturePayload_def list_ex_iff list_all_iff split: option.splits)

text \<open>
  A successful \<open>signRelease\<close> returns a verified envelope of the configured signer over the payload
  of exactly these artifacts, either the stored one or one it has just stored.
\<close>

lemma signRelease_Inr:
  assumes "signRelease cr lc now d g as db = (Inr env, db')"
  obtains key sg where "signing_releaseKey (entry_raw_key d) = Inr key" and "configured_signer db = Some sg"
    and "ev_payload env = release_payload lc (sg_key_id sg) (sg_trust_epoch sg) d g as"
    and "list_all signable_artifact as" and "as \<noteq> []"
    and "verifyReleaseSignatureEnvelope cr env" and "ev_key_id env = sg_key_id sg"
    and "ev_trust_epoch env = sg_trust_epoch sg"
    and "(\<exists>row. signature_get key db = Some row \<and> publicEnvelope row = env \<and> db' = db) \<or>
      (signature_get key db = None \<and> ev_public_key env = sg_public_key sg \<and>
       ev_fingerprint env = sg_fingerprint sg \<and> ev_signature env = cr_sign cr (sg_private_key sg) (ev_payload env) \<and>
       db' = db\<lparr>signatures := signatures db @ [envelope_row key env]\<rparr>)"
proof -
  note op = assms [unfolded signRelease_def]
  obtain key where key: "signing_releaseKey (entry_raw_key d) = Inr key"
    using op by (cases "signing_releaseKey (entry_raw_key d)") simp_all
  obtain payload where payload: "canonicalReleaseSignaturePayload lc (configured_signer db) d g as = Inr payload"
    using op by (cases "canonicalReleaseSignaturePayload lc (configured_signer db) d g as") (simp_all add: key)
  then obtain sg where sg: "configured_signer db = Some sg"
    and p: "payload = release_payload lc (sg_key_id sg) (sg_trust_epoch sg) d g as"
    and as: "list_all signable_artifact as" "as \<noteq> []"
    by (auto simp: canonicalReleaseSignaturePayload_Inr)
  from payload p have payload: "canonicalReleaseSignaturePayload lc (Some sg) d g as =
      Inr (release_payload lc (sg_key_id sg) (sg_trust_epoch sg) d g as)" by (simp add: sg)
  have get: "getSignature (as_raw key) db = Inr (map_option publicEnvelope (signature_get key db))"
    by (simp add: getSignature_def signing_releaseKey_as_raw [OF key])
  show thesis
  proof (cases "signature_get key db")
    case None
    with op show thesis
      by (intro that [OF key sg])
        (auto simp: key payload get sg Let_def signature_insert_Inr as split: if_splits sum.splits)
  next
    case (Some row)
    with op show thesis
      by (intro that [OF key sg]) (auto simp: key payload get sg as split: if_splits)
  qed
qed

lemma signRelease_Inl: "signRelease cr lc now d g as db = (Inl e, db') \<Longrightarrow> db' = db"
  by (auto simp: signRelease_def Let_def split: sum.splits option.splits if_splits)

lemma signing_open_cases:
  assumes "signing_open now signer db = (r, db')"
  obtains (refused) "db' = db"
  | (removed) "db' = db\<lparr>configured_signer := None\<rparr>"
  | (known) sg row where "trust_get (sg_key_id sg) (sg_trust_epoch sg) db = Some row"
      "tk_algorithm row = ''Ed25519''" "tk_public_key row = sg_public_key sg"
      "tk_fingerprint row = sg_fingerprint sg" "tk_status row = Trust_Active"
      "db' = db\<lparr>configured_signer := Some sg\<rparr>"
  | (registered) sg where "trust_get (sg_key_id sg) (sg_trust_epoch sg) db = None"
      "db' = db\<lparr>trust_keys := trust_keys db @ [trust_row sg now], configured_signer := Some sg\<rparr>"
  using assms
proof (cases signer)
  case None
  with assms show thesis by (intro removed) (simp add: signing_open_def)
next
  case signer: (Some sg)
  show thesis
  proof (cases "trust_get (sg_key_id sg) (sg_trust_epoch sg) db")
    case None
    then have "trust_insert sg now db = Inr (db\<lparr>trust_keys := trust_keys db @ [trust_row sg now]\<rparr>)"
      by (simp add: trust_insert_Inr)
    with assms None signer show thesis
      by (intro registered [OF None]) (simp add: signing_open_def registerConfiguredSigner_def)
  next
    case (Some row)
    with assms signer show thesis
      by (auto simp: signing_open_def registerConfiguredSigner_def intro: refused known [OF Some] split: if_splits)
  qed
qed

lemma revokeTrustKey_cases:
  assumes "revokeTrustKey now k ep reason db = (r, db')"
  obtains (refused) "db' = db"
  | (revoked) kid epoch row where "keyId k = Inr kid" "positiveEpoch ep = Inr epoch"
      "map_option (\<lambda>sg. (sg_key_id sg, sg_trust_epoch sg)) (configured_signer db) \<noteq> Some (kid, epoch)"
      "trust_get kid epoch db = Some row" "tk_status row = Trust_Active"
      "db' = trust_revoke kid epoch (slice_to 4000 (trimmed reason)) now db"
proof -
  note op = assms [unfolded revokeTrustKey_def Let_def]
  show thesis
  proof (cases "keyId k")
    case (Inl e)
    with op show thesis by (intro refused) simp
  next
    case kid: (Inr kid)
    show thesis
    proof (cases "positiveEpoch ep")
      case (Inl e)
      with op kid show thesis by (intro refused) simp
    next
      case epoch: (Inr epoch)
      show thesis
      proof (cases "map_option (\<lambda>sg. (sg_key_id sg, sg_trust_epoch sg)) (configured_signer db) = Some (kid, epoch)")
        case True
        with op kid epoch show thesis by (intro refused) simp
      next
        case other: False
        show thesis
        proof (cases "trust_get kid epoch db")
          case None
          with op kid epoch other show thesis by (intro refused) (simp split: if_splits)
        next
          case (Some row)
          show thesis
          proof (cases "tk_status row")
            case Trust_Active
            with op kid epoch other Some show thesis
              by (intro revoked [OF kid epoch other Some]) (simp_all split: if_splits)
          next
            case Trust_Revoked
            with op kid epoch other Some show thesis by (intro refused) (simp split: if_splits)
          qed
        qed
      qed
    qed
  qed
qed

text \<open>The envelope a signer makes, and the success of signing when nothing is stored yet.\<close>

definition made_envelope :: "crypto \<Rightarrow> signer \<Rightarrow> string \<Rightarrow> int \<Rightarrow> envelope" where
  "made_envelope cr sg payload now =
     \<lparr>ev_protocol = signature_protocol, ev_algorithm = ''Ed25519'', ev_key_id = sg_key_id sg,
      ev_trust_epoch = sg_trust_epoch sg, ev_public_key = sg_public_key sg,
      ev_fingerprint = sg_fingerprint sg, ev_payload = payload,
      ev_signature = cr_sign cr (sg_private_key sg) payload, ev_signed_at_ms = now\<rparr>"

text \<open>What Node promises of a key pair: the public key belongs to the private one.\<close>

definition key_pair :: "crypto \<Rightarrow> signer \<Rightarrow> bool" where
  "key_pair cr sg \<longleftrightarrow>
     cr_key_fingerprint cr (sg_public_key sg) = sg_fingerprint sg \<and>
     cr_key_type cr (sg_public_key sg) = Some ''ed25519'' \<and>
     (\<forall>p. cr_verify cr (sg_public_key sg) p (cr_sign cr (sg_private_key sg) p))"

lemma made_envelope_verifies: "key_pair cr sg \<Longrightarrow> verifyReleaseSignatureEnvelope cr (made_envelope cr sg p now)"
  by (simp add: key_pair_def made_envelope_def verifyReleaseSignatureEnvelope_def)

lemma signRelease_new:
  assumes key: "signing_releaseKey (entry_raw_key d) = Inr key" and sg: "configured_signer db = Some sg"
    and none: "signature_get key db = None" and pair: "key_pair cr sg"
    and mat: "hex64 g" "as \<noteq> []" "list_all signable_artifact as"
      "en_kind d \<noteq> []" "en_namespace d \<noteq> []" "en_name d \<noteq> []" "en_version d \<noteq> []"
  shows "signRelease cr lc now d g as db =
    (let ev = made_envelope cr sg (release_payload lc (sg_key_id sg) (sg_trust_epoch sg) d g as) now
     in (Inr ev, db\<lparr>signatures := signatures db @ [envelope_row key ev]\<rparr>))"
proof -
  let ?p = "release_payload lc (sg_key_id sg) (sg_trust_epoch sg) d g as"
  have "canonicalReleaseSignaturePayload lc (Some sg) d g as = Inr ?p"
    using mat by (auto simp: canonicalReleaseSignaturePayload_Inr)
  moreover have "signature_insert key (made_envelope cr sg ?p now) db =
      Inr (db\<lparr>signatures := signatures db @ [envelope_row key (made_envelope cr sg ?p now)]\<rparr>)"
    using none by (simp add: signature_insert_Inr)
  ultimately show ?thesis
    using made_envelope_verifies [OF pair, of ?p now]
    by (simp add: signRelease_def key sg getSignature_def signing_releaseKey_as_raw [OF key] none Let_def
        made_envelope_def)
qed

end
