(* ===== verification/ArtifactStore.thy ===== *)
theory ArtifactStore
  imports SigningStore
begin

text \<open>
  Release artifacts: \<open>ai-backend/src/extension_artifact_store.js\<close>.  The content-addressed directory
  is a list of paths with the contents of their files; SHA-256 of bytes and the WHATWG URL parser are Node's,
  so they are functions of the record \<open>artifact_config\<close> beside the size limit and the root
  directory.  Bytes are characters.
\<close>

section \<open>Configuration and tables\<close>

record parsed_url =
  url_protocol :: string
  url_username :: string
  url_password :: string
  url_port :: string
  url_hostname :: string
  url_hash :: string
  url_text :: string

record artifact_config =
  ac_sha256 :: "string \<Rightarrow> string"
  ac_parse_url :: "string \<Rightarrow> parsed_url option"
  ac_max_bytes :: int
  ac_cas_root :: string

datatype scan_state = Scan_Pending | Scan_Passed | Scan_Rejected

record artifact_row =
  ar_id :: "release_key \<times> string"
  ar_digest :: string
  ar_size_bytes :: int
  ar_platform :: string
  ar_architecture :: string
  ar_format :: string
  ar_url :: string
  ar_scan_state :: scan_state
  ar_scanner :: "string option"
  ar_scanner_version :: "string option"
  ar_scan_notes :: string
  ar_scanned_at_ms :: "int option"
  ar_created_at_ms :: int

record artifact_audit_row =
  aa_sequence :: nat
  aa_digest :: string
  aa_action :: string
  aa_actor :: string
  aa_payload :: js
  aa_occurred_at_ms :: int

record artifact_db = signing_db +
  artifacts :: "artifact_row list"
  artifact_audit :: "artifact_audit_row list"
  cas :: "(string \<times> string) list"

definition artifact_get :: "release_key \<times> string \<Rightarrow> 'a artifact_db_scheme \<Rightarrow> artifact_row option" where
  "artifact_get i db = row_where (\<lambda>r. ar_id r = i) (artifacts db)"

definition new_artifact_row ::
  "release_key \<times> string \<Rightarrow> string \<Rightarrow> int \<Rightarrow> string \<Rightarrow> string \<Rightarrow> string \<Rightarrow> string \<Rightarrow> int \<Rightarrow> artifact_row" where
  "new_artifact_row i digest bytes platform architecture format url now =
     \<lparr>ar_id = i, ar_digest = digest, ar_size_bytes = bytes, ar_platform = platform,
      ar_architecture = architecture, ar_format = format, ar_url = url,
      ar_scan_state = Scan_Pending, ar_scanner = None, ar_scanner_version = None,
      ar_scan_notes = [], ar_scanned_at_ms = None, ar_created_at_ms = now\<rparr>"

definition artifact_insert :: "artifact_row \<Rightarrow> 'a artifact_db_scheme \<Rightarrow> error + 'a artifact_db_scheme" where
  "artifact_insert row db =
     (case insert_row ar_id SqliteConstraint row (artifacts db) of
        Inl e \<Rightarrow> Inl e
      | Inr rows \<Rightarrow> Inr (db\<lparr>artifacts := rows\<rparr>))"

definition artifact_update ::
  "release_key \<times> string \<Rightarrow> (artifact_row \<Rightarrow> artifact_row) \<Rightarrow> 'a artifact_db_scheme \<Rightarrow> 'a artifact_db_scheme" where
  "artifact_update i f db = db\<lparr>artifacts := update_where (\<lambda>r. ar_id r = i) f (artifacts db)\<rparr>"

definition set_artifact_url :: "string \<Rightarrow> artifact_row \<Rightarrow> artifact_row" where
  "set_artifact_url url r = r\<lparr>ar_url := url\<rparr>"

definition set_scan ::
  "scan_state \<Rightarrow> string \<Rightarrow> string \<Rightarrow> string \<Rightarrow> int \<Rightarrow> artifact_row \<Rightarrow> artifact_row" where
  "set_scan state scanner scannerVersion notes now r =
     r\<lparr>ar_scan_state := state, ar_scanner := Some scanner, ar_scanner_version := Some scannerVersion,
       ar_scan_notes := notes, ar_scanned_at_ms := Some now\<rparr>"

definition release_artifacts :: "release_key \<Rightarrow> 'a artifact_db_scheme \<Rightarrow> artifact_row list" where
  "release_artifacts key db = sort_key (\<lambda>r. snd (ar_id r)) (filter (\<lambda>r. fst (ar_id r) = key) (artifacts db))"

definition key_order :: "release_key \<Rightarrow> string list" where
  "key_order key = [rk_kind key, rk_namespace key, rk_name key, rk_version key]"

text \<open>The join of the artifacts that passed their scan with the approved releases.\<close>

definition approved_digest_rows :: "string \<Rightarrow> 'a artifact_db_scheme \<Rightarrow> artifact_row list" where
  "approved_digest_rows digest db =
     sort_key (\<lambda>r. key_order (fst (ar_id r)))
       (filter (\<lambda>a. ar_digest a = digest \<and> ar_scan_state a = Scan_Passed \<and>
          list_ex (\<lambda>r. rel_key r = fst (ar_id a) \<and> rel_state r = Approved) (releases db)) (artifacts db))"

definition artifact_log ::
  "string \<Rightarrow> string \<Rightarrow> js \<Rightarrow> js \<Rightarrow> int \<Rightarrow> 'a artifact_db_scheme \<Rightarrow> 'a artifact_db_scheme" where
  "artifact_log digest action actor payload now db =
     db\<lparr>artifact_audit := artifact_audit db @
        [\<lparr>aa_sequence = Suc (length (artifact_audit db)), aa_digest = digest, aa_action = action,
          aa_actor = text_of actor, aa_payload = payload, aa_occurred_at_ms = now\<rparr>]\<rparr>"

section \<open>Validation\<close>

definition artifact_component :: "js \<Rightarrow> error + string" where
  "artifact_component value =
     (let normalized = trimmed_lower value
      in if \<not> safe_component normalized then Inl (ArtifactStoreError INVALID_ARTIFACT_IDENTITY)
         else Inr normalized)"

definition artifact_version :: "js \<Rightarrow> error + string" where
  "artifact_version value =
     (let normalized = trimmed value
      in if \<not> semantic_version normalized then Inl (ArtifactStoreError INVALID_ARTIFACT_VERSION)
         else Inr normalized)"

definition artifact_releaseKey :: "raw_key \<Rightarrow> error + release_key" where
  "artifact_releaseKey raw =
     (case artifact_component (raw_kind raw) of Inl e \<Rightarrow> Inl e
      | Inr kind \<Rightarrow>
     (case artifact_component (raw_namespace raw) of Inl e \<Rightarrow> Inl e
      | Inr namespace \<Rightarrow>
     (case artifact_component (raw_name raw) of Inl e \<Rightarrow> Inl e
      | Inr name \<Rightarrow>
     (case artifact_version (raw_version raw) of Inl e \<Rightarrow> Inl e
      | Inr version \<Rightarrow>
          Inr \<lparr>rk_kind = kind, rk_namespace = namespace, rk_name = name, rk_version = version\<rparr>))))"

definition artifactId :: "js \<Rightarrow> error + string" where
  "artifactId value = artifact_component value"

definition optionalComponent :: "js \<Rightarrow> string \<Rightarrow> error + string" where
  "optionalComponent value fallback =
     (let normalized = trimmed_lower (or_else value (JStr fallback))
      in if normalized = [] then Inr fallback
         else if \<not> safe_component normalized then Inl (ArtifactStoreError INVALID_ARTIFACT_METADATA)
         else Inr normalized)"

definition artifact_url_hosts :: "string list" where
  "artifact_url_hosts =
     [''github.com'', ''objects.githubusercontent.com'', ''release-assets.githubusercontent.com'']"

definition allowed_url :: "parsed_url \<Rightarrow> bool" where
  "allowed_url u \<longleftrightarrow>
     url_protocol u = ''https:'' \<and> url_username u = [] \<and> url_password u = [] \<and>
     (url_port u = [] \<or> url_port u = ''443'') \<and> lower (url_hostname u) \<in> set artifact_url_hosts \<and>
     url_hash u = []"

definition artifactUrl :: "artifact_config \<Rightarrow> js \<Rightarrow> error + string" where
  "artifactUrl cfg value =
     (let normalized = trimmed value
      in if normalized = [] then Inr []
         else if 2048 < length normalized then Inl (ArtifactStoreError INVALID_ARTIFACT_URL)
         else (case ac_parse_url cfg normalized of
                 None \<Rightarrow> Inl (ArtifactStoreError INVALID_ARTIFACT_URL)
               | Some u \<Rightarrow> if allowed_url u then Inr (url_text u)
                           else Inl (ArtifactStoreError INVALID_ARTIFACT_URL)))"

section \<open>Public projection\<close>

record public_artifact = signed_artifact +
  pa_scan_state :: scan_state
  pa_scanner :: string
  pa_scanner_version :: string
  pa_scan_notes :: string
  pa_scanned_at_ms :: "int option"
  pa_created_at_ms :: int

definition publicArtifact :: "artifact_row \<Rightarrow> public_artifact" where
  "publicArtifact row =
     \<lparr>sa_artifact_id = snd (ar_id row), sa_digest = ar_digest row, sa_size_bytes = ar_size_bytes row,
      sa_platform = ar_platform row, sa_architecture = ar_architecture row, sa_format = ar_format row,
      sa_url = ar_url row, pa_scan_state = ar_scan_state row,
      pa_scanner = case_option [] id (ar_scanner row),
      pa_scanner_version = case_option [] id (ar_scanner_version row),
      pa_scan_notes = ar_scan_notes row, pa_scanned_at_ms = ar_scanned_at_ms row,
      pa_created_at_ms = ar_created_at_ms row\<rparr>"

section \<open>The content-addressed store\<close>

definition casPath :: "artifact_config \<Rightarrow> string \<Rightarrow> error + string" where
  "casPath cfg digest =
     (if \<not> hex64 digest then Inl (ArtifactStoreError INVALID_ARTIFACT_DIGEST)
      else Inr (ac_cas_root cfg @ ''/'' @ slice_to 2 digest @ ''/'' @ digest))"

text \<open>An object that is already there is kept when its size is the one of the bytes.\<close>

definition writeCas ::
  "artifact_config \<Rightarrow> string \<Rightarrow> string \<Rightarrow> 'a artifact_db_scheme \<Rightarrow> error + 'a artifact_db_scheme" where
  "writeCas cfg digest bytes db =
     (case casPath cfg digest of Inl e \<Rightarrow> Inl e
      | Inr destination \<Rightarrow>
          (case map_of (cas db) destination of
             Some content \<Rightarrow>
               (if length content \<noteq> length bytes then Inl (ArtifactStoreError ARTIFACT_CAS_CORRUPT)
                else Inr db)
           | None \<Rightarrow> Inr (db\<lparr>cas := (destination, bytes) # cas db\<rparr>)))"

section \<open>Methods\<close>

definition open_release_state :: "release_state \<Rightarrow> bool" where
  "open_release_state st \<longleftrightarrow> st = Draft \<or> st = Pending_Review"

definition artifact_key_json :: "release_key \<Rightarrow> string \<Rightarrow> (string \<times> js) list" where
  "artifact_key_json key i =
     [(''kind'', JStr (rk_kind key)), (''namespace'', JStr (rk_namespace key)),
      (''name'', JStr (rk_name key)), (''version'', JStr (rk_version key)), (''artifactId'', JStr i)]"

definition url_json :: "string \<Rightarrow> (string \<times> js) list" where
  "url_json url = (if url \<noteq> [] then [(''url'', JStr url)] else [])"

definition artifact_read ::
  "release_key \<times> string \<Rightarrow> 'a artifact_db_scheme \<Rightarrow> (error + public_artifact option) \<times> 'a artifact_db_scheme" where
  "artifact_read i db = (Inr (map_option publicArtifact (artifact_get i db)), db)"

definition bindUrl ::
  "int \<Rightarrow> release_key \<Rightarrow> string \<Rightarrow> string \<Rightarrow> js \<Rightarrow> 'a artifact_db_scheme \<Rightarrow>
   (error + public_artifact option) \<times> 'a artifact_db_scheme" where
  "bindUrl now key i mirrorUrl actor db =
     (case artifact_get (key, i) db of
        None \<Rightarrow> (Inl (ArtifactStoreError ARTIFACT_NOT_FOUND), db)
      | Some existing \<Rightarrow>
     (case release_getRelease (as_raw key) db of Inl e \<Rightarrow> (Inl e, db)
      | Inr release \<Rightarrow>
     (if \<not> (case release of None \<Rightarrow> False | Some r \<Rightarrow> open_release_state (pr_state r))
      then (Inl (ArtifactStoreError ARTIFACT_RELEASE_FROZEN), db)
      else artifact_read (key, i)
        (artifact_log (ar_digest existing) ''artifact.url_bound'' actor
          (JObj (artifact_key_json key i @ [(''url'', JStr mirrorUrl)])) now
          (artifact_update (key, i) (set_artifact_url mirrorUrl) db)))))"

definition attachUrl ::
  "artifact_config \<Rightarrow> int \<Rightarrow> js \<Rightarrow> raw_key \<Rightarrow> js \<Rightarrow> js \<Rightarrow> 'a artifact_db_scheme \<Rightarrow>
   (error + public_artifact option) \<times> 'a artifact_db_scheme" where
  "attachUrl cfg now actorAccountId raw rawArtifactId url db =
     (case artifact_releaseKey raw of Inl e \<Rightarrow> (Inl e, db)
      | Inr key \<Rightarrow>
     (case publisher_assertOwned (JStr (rk_namespace key)) actorAccountId db of Inl e \<Rightarrow> (Inl e, db)
      | Inr _ \<Rightarrow>
     (case artifactId rawArtifactId of Inl e \<Rightarrow> (Inl e, db)
      | Inr i \<Rightarrow>
     (case artifactUrl cfg url of Inl e \<Rightarrow> (Inl e, db)
      | Inr mirrorUrl \<Rightarrow> bindUrl now key i mirrorUrl actorAccountId db))))"

text \<open>The platform, architecture and format arguments, read in this order.\<close>

record artifact_meta =
  am_platform :: js
  am_architecture :: js
  am_format :: js

definition new_binding ::
  "release_key \<times> string \<Rightarrow> string \<Rightarrow> int \<Rightarrow> artifact_meta \<Rightarrow> string \<Rightarrow> int \<Rightarrow>
   'a artifact_db_scheme \<Rightarrow> error + 'a artifact_db_scheme" where
  "new_binding i digest bytes meta url now db =
     (case optionalComponent (am_platform meta) ''all'' of Inl e \<Rightarrow> Inl e
      | Inr platform \<Rightarrow>
     (case optionalComponent (am_architecture meta) ''any'' of Inl e \<Rightarrow> Inl e
      | Inr architecture \<Rightarrow>
     (case optionalComponent (am_format meta) ''binary'' of Inl e \<Rightarrow> Inl e
      | Inr format \<Rightarrow>
          artifact_insert (new_artifact_row i digest bytes platform architecture format url now) db)))"

definition upload ::
  "artifact_config \<Rightarrow> int \<Rightarrow> int \<Rightarrow> js \<Rightarrow> raw_key \<Rightarrow> js \<Rightarrow> artifact_meta \<Rightarrow> string option \<Rightarrow> js \<Rightarrow>
   'a artifact_db_scheme \<Rightarrow> (error + public_artifact option) \<times> 'a artifact_db_scheme" where
  "upload cfg now later actorAccountId raw rawArtifactId meta bytes url db =
     (case artifact_releaseKey raw of Inl e \<Rightarrow> (Inl e, db)
      | Inr key \<Rightarrow>
     (case publisher_assertOwned (JStr (rk_namespace key)) actorAccountId db of Inl e \<Rightarrow> (Inl e, db)
      | Inr _ \<Rightarrow>
     (case release_getRelease (as_raw key) db of Inl e \<Rightarrow> (Inl e, db)
      | Inr None \<Rightarrow> (Inl (ArtifactStoreError ARTIFACT_RELEASE_NOT_FOUND), db)
      | Inr (Some release) \<Rightarrow>
     (if \<not> open_release_state (pr_state release)
      then (Inl (ArtifactStoreError ARTIFACT_RELEASE_FROZEN), db)
      else
     (case artifactId rawArtifactId of Inl e \<Rightarrow> (Inl e, db)
      | Inr i \<Rightarrow>
     (case artifactUrl cfg url of Inl e \<Rightarrow> (Inl e, db)
      | Inr mirrorUrl \<Rightarrow>
     (let body = case_option [] id bytes; digest = ac_sha256 cfg body
      in if body = [] \<or> ac_max_bytes cfg < int (length body)
         then (Inl (ArtifactStoreError INVALID_ARTIFACT_SIZE), db)
         else
         (case artifact_get (key, i) db of
            Some existing \<Rightarrow>
              (if ar_digest existing \<noteq> digest
               then (Inl (ArtifactStoreError ARTIFACT_BINDING_CONFLICT), db)
               else if mirrorUrl \<noteq> [] \<and> mirrorUrl \<noteq> ar_url existing
               then attachUrl cfg now actorAccountId (as_raw key) (JStr i) (JStr mirrorUrl) db
               else (Inr (Some (publicArtifact existing)), db))
          | None \<Rightarrow>
              (case writeCas cfg digest body db of Inl e \<Rightarrow> (Inl e, db)
               | Inr db1 \<Rightarrow>
              (case new_binding (key, i) digest (int (length body)) meta mirrorUrl now db1 of
                 Inl e \<Rightarrow> (Inl e, db1)
               | Inr db2 \<Rightarrow>
                   artifact_read (key, i)
                     (artifact_log digest ''artifact.uploaded'' actorAccountId
                       (JObj (artifact_key_json key i @ [(''sizeBytes'', JNum (int (length body)))] @
                         url_json mirrorUrl)) later db2)))))))))))"

definition bindExternal ::
  "artifact_config \<Rightarrow> int \<Rightarrow> int \<Rightarrow> release_key \<Rightarrow> js \<Rightarrow> js \<Rightarrow> artifact_meta \<Rightarrow> js \<Rightarrow> js \<Rightarrow> js \<Rightarrow>
   'a artifact_db_scheme \<Rightarrow> (error + public_artifact option) \<times> 'a artifact_db_scheme" where
  "bindExternal cfg now later key actor rawArtifactId meta rawDigest rawSizeBytes url db =
     (case release_getRelease (as_raw key) db of Inl e \<Rightarrow> (Inl e, db)
      | Inr None \<Rightarrow> (Inl (ArtifactStoreError ARTIFACT_RELEASE_NOT_FOUND), db)
      | Inr (Some release) \<Rightarrow>
     (if \<not> open_release_state (pr_state release)
      then (Inl (ArtifactStoreError ARTIFACT_RELEASE_FROZEN), db)
      else
     (case artifactId rawArtifactId of Inl e \<Rightarrow> (Inl e, db)
      | Inr i \<Rightarrow>
     (let digest = trimmed_lower rawDigest
      in if \<not> hex64 digest then (Inl (ArtifactStoreError INVALID_ARTIFACT_DIGEST), db)
         else
         (case js_number rawSizeBytes of
            None \<Rightarrow> (Inl (ArtifactStoreError INVALID_ARTIFACT_SIZE), db)
          | Some sizeBytes \<Rightarrow>
         (if \<not> safe_integer sizeBytes \<or> sizeBytes \<le> 0 \<or> ac_max_bytes cfg < sizeBytes
          then (Inl (ArtifactStoreError INVALID_ARTIFACT_SIZE), db)
          else
         (case artifactUrl cfg url of Inl e \<Rightarrow> (Inl e, db)
          | Inr mirrorUrl \<Rightarrow>
         (if mirrorUrl = [] then (Inl (ArtifactStoreError INVALID_ARTIFACT_URL), db)
          else
         (case artifact_get (key, i) db of
            Some existing \<Rightarrow>
              (if ar_digest existing \<noteq> digest \<or> ar_size_bytes existing \<noteq> sizeBytes
               then (Inl (ArtifactStoreError ARTIFACT_BINDING_CONFLICT), db)
               else if mirrorUrl \<noteq> ar_url existing then bindUrl now key i mirrorUrl actor db
               else (Inr (Some (publicArtifact existing)), db))
          | None \<Rightarrow>
              (case new_binding (key, i) digest sizeBytes meta mirrorUrl now db of
                 Inl e \<Rightarrow> (Inl e, db)
               | Inr db1 \<Rightarrow>
                   artifact_read (key, i)
                     (artifact_log digest ''artifact.registered'' actor
                       (JObj (artifact_key_json key i @
                         [(''sizeBytes'', JNum sizeBytes), (''url'', JStr mirrorUrl)])) later db1)))))))))))"

definition registerExternal ::
  "artifact_config \<Rightarrow> int \<Rightarrow> int \<Rightarrow> js \<Rightarrow> raw_key \<Rightarrow> js \<Rightarrow> artifact_meta \<Rightarrow> js \<Rightarrow> js \<Rightarrow> js \<Rightarrow>
   'a artifact_db_scheme \<Rightarrow> (error + public_artifact option) \<times> 'a artifact_db_scheme" where
  "registerExternal cfg now later actorAccountId raw rawArtifactId meta rawDigest rawSizeBytes url db =
     (case artifact_releaseKey raw of Inl e \<Rightarrow> (Inl e, db)
      | Inr key \<Rightarrow>
     (case publisher_assertOwned (JStr (rk_namespace key)) actorAccountId db of Inl e \<Rightarrow> (Inl e, db)
      | Inr _ \<Rightarrow>
          bindExternal cfg now later key actorAccountId rawArtifactId meta rawDigest rawSizeBytes url db))"

definition registerExternalForReview ::
  "artifact_config \<Rightarrow> int \<Rightarrow> int \<Rightarrow> js \<Rightarrow> raw_key \<Rightarrow> js \<Rightarrow> artifact_meta \<Rightarrow> js \<Rightarrow> js \<Rightarrow> js \<Rightarrow>
   'a artifact_db_scheme \<Rightarrow> (error + public_artifact option) \<times> 'a artifact_db_scheme" where
  "registerExternalForReview cfg now later reviewer raw rawArtifactId meta rawDigest rawSizeBytes url db =
     (let label = slice_to 160 (trimmed reviewer)
      in if label = [] then (Inl (ArtifactStoreError REVIEW_AUTH_REQUIRED), db)
         else
         (case artifact_releaseKey raw of Inl e \<Rightarrow> (Inl e, db)
          | Inr key \<Rightarrow>
              bindExternal cfg now later key (JStr (''review:'' @ label)) rawArtifactId meta
                rawDigest rawSizeBytes url db))"

fun scan_verdict :: "string \<Rightarrow> scan_state option" where
  "scan_verdict s = (if s = ''passed'' then Some Scan_Passed
     else if s = ''rejected'' then Some Scan_Rejected else None)"

text \<open>\<open>expectedDigest\<close> and \<open>expectedSizeBytes\<close> are optional: only \<open>undefined\<close> skips the comparison.\<close>

fun expected_digest :: "js \<Rightarrow> string \<Rightarrow> bool" where
  "expected_digest JUndef d = True"
| "expected_digest (JStr s) d = (s = d)"
| "expected_digest _ d = False"

fun expected_size :: "js \<Rightarrow> int \<Rightarrow> bool" where
  "expected_size JUndef n = True"
| "expected_size (JNum m) n = (safe_integer m \<and> m = n)"
| "expected_size _ n = False"

definition recordScan ::
  "int \<Rightarrow> int \<Rightarrow> js \<Rightarrow> raw_key \<Rightarrow> js \<Rightarrow> js \<Rightarrow> js \<Rightarrow> js \<Rightarrow> js \<Rightarrow> js \<Rightarrow> js \<Rightarrow>
   'a artifact_db_scheme \<Rightarrow> (error + public_artifact option) \<times> 'a artifact_db_scheme" where
  "recordScan now later reviewer raw rawArtifactId state scanner scannerVersion expectedDigest
       expectedSizeBytes notes db =
     (case artifact_releaseKey raw of Inl e \<Rightarrow> (Inl e, db)
      | Inr key \<Rightarrow>
     (case artifactId rawArtifactId of Inl e \<Rightarrow> (Inl e, db)
      | Inr i \<Rightarrow>
     (case scan_verdict (trimmed_lower state) of
        None \<Rightarrow> (Inl (ArtifactStoreError INVALID_SCAN_STATE), db)
      | Some nextState \<Rightarrow>
     (case artifact_get (key, i) db of
        None \<Rightarrow> (Inl (ArtifactStoreError ARTIFACT_NOT_FOUND), db)
      | Some existing \<Rightarrow>
     (if \<not> expected_digest expectedDigest (ar_digest existing) \<or>
         \<not> expected_size expectedSizeBytes (ar_size_bytes existing)
      then (Inl (ArtifactStoreError ARTIFACT_BINDING_CONFLICT), db)
      else if ar_scan_state existing \<noteq> Scan_Pending
      then (Inl (ArtifactStoreError SCAN_ALREADY_FINAL), db)
      else
     (let scannerName = slice_to 160 (trimmed scanner);
          scannerVersionValue = slice_to 160 (trimmed scannerVersion)
      in if scannerName = [] \<or> scannerVersionValue = []
         then (Inl (ArtifactStoreError INVALID_SCANNER), db)
         else artifact_read (key, i)
           (artifact_log (ar_digest existing) (''artifact.scan.'' @ trimmed_lower state) reviewer
             (JObj (artifact_key_json key i @
               [(''scanner'', JStr scannerName), (''scannerVersion'', JStr scannerVersionValue)])) later
             (artifact_update (key, i)
               (set_scan nextState scannerName scannerVersionValue (slice_to 4000 (trimmed notes)) now)
               db))))))))"

definition listForRelease :: "raw_key \<Rightarrow> 'a artifact_db_scheme \<Rightarrow> error + public_artifact list" where
  "listForRelease raw db =
     (case artifact_releaseKey raw of Inl e \<Rightarrow> Inl e
      | Inr key \<Rightarrow> Inr (map publicArtifact (release_artifacts key db)))"

definition approvalGate :: "raw_key \<Rightarrow> 'a artifact_db_scheme \<Rightarrow> error + public_artifact list" where
  "approvalGate raw db =
     (case listForRelease raw db of Inl e \<Rightarrow> Inl e
      | Inr arts \<Rightarrow>
          (if arts = [] then Inl (ArtifactStoreError ARTIFACT_REQUIRED)
           else if list_ex (\<lambda>a. pa_scan_state a \<noteq> Scan_Passed) arts
           then Inl (ArtifactStoreError ARTIFACT_SCAN_REQUIRED)
           else Inr arts))"

text \<open>
  \<open>rows.find(\<dots>)\<close>: the first row whose release has a trusted signature; an exception of the
  signing store ends the search.
\<close>

fun find_trusted :: "crypto \<Rightarrow> 'a artifact_db_scheme \<Rightarrow> artifact_row list \<Rightarrow> error + artifact_row option" where
  "find_trusted cr db [] = Inr None"
| "find_trusted cr db (r # rows) =
     (case getTrustedSignature cr (as_raw (fst (ar_id r))) db of
        Inl e \<Rightarrow> Inl e
      | Inr None \<Rightarrow> find_trusted cr db rows
      | Inr (Some _) \<Rightarrow> Inr (Some r))"

record approved_artifact =
  ap_digest :: string
  ap_size_bytes :: int
  ap_path :: string

definition approvedArtifact ::
  "artifact_config \<Rightarrow> crypto option \<Rightarrow> js \<Rightarrow> 'a artifact_db_scheme \<Rightarrow> error + approved_artifact option" where
  "approvedArtifact cfg signingStore digest db =
     (let normalized = trimmed_lower digest
      in if \<not> hex64 normalized then Inl (ArtifactStoreError INVALID_ARTIFACT_DIGEST)
         else
         (case (case (approved_digest_rows normalized db, signingStore) of
                  ([], _) \<Rightarrow> Inr None
                | (rows, Some cr) \<Rightarrow> find_trusted cr db rows
                | (r # _, None) \<Rightarrow> Inr (Some r)) of
            Inl e \<Rightarrow> Inl e
          | Inr None \<Rightarrow> Inr None
          | Inr (Some row) \<Rightarrow>
              (case casPath cfg normalized of Inl e \<Rightarrow> Inl e
               | Inr path \<Rightarrow>
                   Inr (Some \<lparr>ap_digest = normalized, ap_size_bytes = ar_size_bytes row, ap_path = path\<rparr>))))"

section \<open>The statements\<close>

interpretation artifact_table: keyed_table artifact_get artifacts ar_id
  by unfold_locales (simp add: artifact_get_def)

lemma artifacts_log [simp]:
  "artifacts (artifact_log d a ac p now db) = artifacts db"
  "releases (artifact_log d a ac p now db) = releases db"
  "namespaces (artifact_log d a ac p now db) = namespaces db"
  "publisher_audit (artifact_log d a ac p now db) = publisher_audit db"
  "artifact_db.more (artifact_log d a ac p now db) = artifact_db.more db"
  "configured_signer (artifact_log d a ac p now db) = configured_signer db"
  "trust_keys (artifact_log d a ac p now db) = trust_keys db"
  "signatures (artifact_log d a ac p now db) = signatures db"
  by (simp_all add: artifact_log_def)

lemma artifacts_update [simp]:
  "artifacts (artifact_update i f db) = update_where (\<lambda>r. ar_id r = i) f (artifacts db)"
  "releases (artifact_update i f db) = releases db"
  "namespaces (artifact_update i f db) = namespaces db"
  "publisher_audit (artifact_update i f db) = publisher_audit db"
  "artifact_db.more (artifact_update i f db) = artifact_db.more db"
  "configured_signer (artifact_update i f db) = configured_signer db"
  "trust_keys (artifact_update i f db) = trust_keys db"
  "signatures (artifact_update i f db) = signatures db"
  by (simp_all add: artifact_update_def)

lemma row_setters_artifact [simp]:
  "ar_id (set_artifact_url u r) = ar_id r" "ar_id (set_scan st a b c now r) = ar_id r"
  "ar_digest (set_artifact_url u r) = ar_digest r" "ar_digest (set_scan st a b c now r) = ar_digest r"
  "ar_size_bytes (set_artifact_url u r) = ar_size_bytes r" "ar_size_bytes (set_scan st a b c now r) = ar_size_bytes r"
  "ar_scan_state (set_artifact_url u r) = ar_scan_state r" "ar_scan_state (set_scan st a b c now r) = st"
  "ar_id (new_artifact_row i d n pl ac fo u now) = i"
  "ar_digest (new_artifact_row i d n pl ac fo u now) = d"
  "ar_size_bytes (new_artifact_row i d n pl ac fo u now) = n"
  "ar_url (new_artifact_row i d n pl ac fo u now) = u"
  "ar_scan_state (new_artifact_row i d n pl ac fo u now) = Scan_Pending"
  by (simp_all add: set_artifact_url_def set_scan_def new_artifact_row_def)

lemma artifact_insert_Inr:
  "artifact_insert row db = Inr db' \<longleftrightarrow>
     artifact_get (ar_id row) db = None \<and> db' = db\<lparr>artifacts := artifacts db @ [row]\<rparr>"
  by (auto simp: artifact_insert_def artifact_table.lookup_None insert_row_def)

lemma artifact_component_Inr [guards]:
  "artifact_component v = Inr c \<longleftrightarrow> c = trimmed_lower v \<and> safe_component c"
  by (auto simp: artifact_component_def Let_def)

lemma artifact_version_Inr [guards]:
  "artifact_version v = Inr c \<longleftrightarrow> c = trimmed v \<and> semantic_version c"
  by (auto simp: artifact_version_def Let_def)

lemma artifact_releaseKey_Inr:
  "artifact_releaseKey raw = Inr key \<longleftrightarrow> releaseKey raw = Inr key"
proof -
  have "artifact_releaseKey raw = Inr key \<longleftrightarrow>
     artifact_component (raw_kind raw) = Inr (rk_kind key) \<and>
     artifact_component (raw_namespace raw) = Inr (rk_namespace key) \<and>
     artifact_component (raw_name raw) = Inr (rk_name key) \<and>
     artifact_version (raw_version raw) = Inr (rk_version key)"
    by (cases key) (auto simp: artifact_releaseKey_def split: sum.splits)
  then show ?thesis by (simp add: releaseKey_Inr guards)
qed

lemma artifact_releaseKey_ok: "artifact_releaseKey raw = Inr key \<Longrightarrow> key_ok key"
  by (simp add: artifact_releaseKey_Inr releaseKey_ok)

lemma artifact_releaseKey_as_raw [simp]: "key_ok key \<Longrightarrow> artifact_releaseKey (as_raw key) = Inr key"
  by (simp add: artifact_releaseKey_Inr)

lemma release_getRelease_ok [simp]:
  "key_ok key \<Longrightarrow> release_getRelease (as_raw key) db = Inr (map_option publicRelease (release_get key db))"
  by (simp add: release_getRelease_def)

lemma pr_state_publicRelease [simp]: "pr_state (publicRelease row) = rel_state row"
  by (simp add: publicRelease_def)

lemma new_binding_Inr:
  assumes "new_binding i d n meta u now db = Inr db'"
  obtains pl ac fo where "artifact_get i db = None"
    and "db' = db\<lparr>artifacts := artifacts db @ [new_artifact_row i d n pl ac fo u now]\<rparr>"
  using assms by (auto simp: new_binding_def artifact_insert_Inr split: sum.splits)

section \<open>What the methods do to the tables\<close>

text \<open>The tables of the other stores that an artifact method leaves as they are.\<close>

definition same_governance :: "'a artifact_db_scheme \<Rightarrow> 'a artifact_db_scheme \<Rightarrow> bool" where
  "same_governance db db' \<longleftrightarrow>
     namespaces db' = namespaces db \<and> publisher_audit db' = publisher_audit db \<and>
     releases db' = releases db \<and>
     configured_signer db' = configured_signer db \<and> trust_keys db' = trust_keys db \<and>
     signatures db' = signatures db \<and> artifact_db.more db' = artifact_db.more db"

lemma same_governance_refl [simp]: "same_governance db db"
  by (simp add: same_governance_def)

text \<open>
  Every artifact method has one of four effects: none on the tables (it may have written bytes
  to the content-addressed store), a new binding or a new download location while the release is
  open, a verdict for a binding that had none.
\<close>

inductive artifact_effect :: "artifact_config \<Rightarrow> 'a artifact_db_scheme \<Rightarrow> 'a artifact_db_scheme \<Rightarrow> bool"
  for cfg :: artifact_config where
  unchanged: "artifacts db' = artifacts db \<Longrightarrow> same_governance db db' \<Longrightarrow> artifact_effect cfg db db'"
| bound: "key_ok key \<Longrightarrow> release_get key db = Some rel \<Longrightarrow> open_release_state (rel_state rel) \<Longrightarrow>
    artifact_get (key, i) db = None \<Longrightarrow> hex64 d \<Longrightarrow> 0 < n \<Longrightarrow> n \<le> ac_max_bytes cfg \<Longrightarrow>
    artifacts db' = artifacts db @ [new_artifact_row (key, i) d n pl ac fo u now] \<Longrightarrow>
    same_governance db db' \<Longrightarrow> artifact_effect cfg db db'"
| located: "key_ok key \<Longrightarrow> release_get key db = Some rel \<Longrightarrow> open_release_state (rel_state rel) \<Longrightarrow>
    artifact_get (key, i) db = Some a \<Longrightarrow>
    artifacts db' = update_where (\<lambda>r. ar_id r = (key, i)) (set_artifact_url u) (artifacts db) \<Longrightarrow>
    same_governance db db' \<Longrightarrow> artifact_effect cfg db db'"
| scanned: "key_ok key \<Longrightarrow> artifact_get (key, i) db = Some a \<Longrightarrow> ar_scan_state a = Scan_Pending \<Longrightarrow>
    verdict \<noteq> Scan_Pending \<Longrightarrow>
    artifacts db' = update_where (\<lambda>r. ar_id r = (key, i)) (set_scan verdict s v remark now) (artifacts db) \<Longrightarrow>
    same_governance db db' \<Longrightarrow> artifact_effect cfg db db'"

lemma artifact_effect_refl: "artifact_effect cfg db db"
  by (rule artifact_effect.unchanged) simp_all

lemma bindUrl_effect:
  assumes key: "key_ok key" and op: "bindUrl now key i u actor db = (r, db')"
  shows "artifact_effect cfg db db'"
proof (cases "artifact_get (key, i) db")
  case None
  with op show ?thesis by (simp add: bindUrl_def artifact_effect_refl)
next
  case a: (Some a)
  show ?thesis
  proof (cases "\<exists>rel. release_get key db = Some rel \<and> open_release_state (rel_state rel)")
    case True
    then obtain rel where rel: "release_get key db = Some rel" "open_release_state (rel_state rel)" by blast
    with op a key show ?thesis
      by (intro artifact_effect.located [OF key rel a, where u = u])
        (auto simp: bindUrl_def artifact_read_def same_governance_def)
  next
    case False
    with op a key show ?thesis
      by (auto simp: bindUrl_def artifact_effect_refl split: option.splits if_splits)
  qed
qed

lemma attachUrl_effect:
  assumes "attachUrl cfg now actor raw i url db = (r, db')"
  shows "artifact_effect cfg db db'"
proof (cases "artifact_releaseKey raw")
  case (Inl e)
  with assms show ?thesis by (simp add: attachUrl_def artifact_effect_refl)
next
  case (Inr key)
  then have "key_ok key" by (rule artifact_releaseKey_ok)
  with Inr assms show ?thesis
    by (auto simp: attachUrl_def artifact_effect_refl elim: bindUrl_effect split: sum.splits)
qed

lemma new_binding_effect:
  assumes "key_ok key" and "release_get key db = Some rel" and "open_release_state (rel_state rel)"
    and "hex64 d" and "0 < n" and "n \<le> ac_max_bytes cfg"
    and db1: "artifacts db1 = artifacts db" "same_governance db db1"
    and "new_binding (key, i) d n meta u now db1 = Inr db2"
  shows "artifact_effect cfg db (artifact_log d' act actor p later db2)"
  using assms(9)
proof (rule new_binding_Inr)
  fix pl ac fo
  assume none: "artifact_get (key, i) db1 = None"
    and db2: "db2 = db1\<lparr>artifacts := artifacts db1 @ [new_artifact_row (key, i) d n pl ac fo u now]\<rparr>"
  from none have "artifact_get (key, i) db = None"
    by (simp add: artifact_table.lookup_None db1)
  with assms show ?thesis
    by (intro artifact_effect.bound [of key _ rel i d n cfg _ pl ac fo u now])
      (auto simp: db2 same_governance_def)
qed

lemma casPath_Inr: "casPath cfg d = Inr path \<longleftrightarrow> hex64 d \<and> path = ac_cas_root cfg @ ''/'' @ slice_to 2 d @ ''/'' @ d"
  by (auto simp: casPath_def)

lemma writeCas_Inr:
  assumes "writeCas cfg d bytes db = Inr db1"
  shows "hex64 d" and "artifacts db1 = artifacts db" and "same_governance db db1"
  using assms by (auto simp: writeCas_def casPath_Inr same_governance_def split: sum.splits option.splits if_splits)

lemma upload_effect:
  assumes "upload cfg now later actor raw rawId meta bytes url db = (r, db')"
  shows "artifact_effect cfg db db'"
proof -
  note op = assms [unfolded upload_def Let_def]
  show ?thesis
  proof (cases "artifact_releaseKey raw")
    case (Inl e)
    with op show ?thesis by (simp add: artifact_effect_refl)
  next
    case key: (Inr key)
    then have ok: "key_ok key" by (rule artifact_releaseKey_ok)
    show ?thesis
    proof (cases "\<exists>n rel i u. publisher_assertOwned (JStr (rk_namespace key)) actor db = Inr n \<and>
        release_get key db = Some rel \<and> open_release_state (rel_state rel) \<and> artifactId rawId = Inr i \<and>
        artifactUrl cfg url = Inr u \<and> case_option [] id bytes \<noteq> [] \<and>
        int (length (case_option [] id bytes)) \<le> ac_max_bytes cfg")
      case False
      with op key ok show ?thesis
        by (auto simp: artifact_effect_refl not_less split: sum.splits option.splits if_splits)
    next
      case True
      then obtain n rel i u where guards: "publisher_assertOwned (JStr (rk_namespace key)) actor db = Inr n"
        "release_get key db = Some rel" "open_release_state (rel_state rel)" "artifactId rawId = Inr i"
        "artifactUrl cfg url = Inr u" "case_option [] id bytes \<noteq> []"
        "int (length (case_option [] id bytes)) \<le> ac_max_bytes cfg" by blast
      show ?thesis
      proof (cases "artifact_get (key, i) db")
        case (Some existing)
        with op key ok guards show ?thesis
          by (auto simp: artifact_effect_refl elim: attachUrl_effect split: if_splits)
      next
        case none: None
        show ?thesis
        proof (cases "writeCas cfg (ac_sha256 cfg (case_option [] id bytes)) (case_option [] id bytes) db")
          case (Inl e)
          with op key ok guards none show ?thesis by (simp add: artifact_effect_refl)
        next
          case db1: (Inr db1)
          note cas = writeCas_Inr [OF db1]
          show ?thesis
          proof (cases "new_binding (key, i) (ac_sha256 cfg (case_option [] id bytes))
              (int (length (case_option [] id bytes))) meta u now db1")
            case (Inl e)
            with op key ok guards none db1 cas show ?thesis by (simp add: artifact_effect.unchanged)
          next
            case (Inr db2)
            with op key ok guards none db1 cas show ?thesis
              by (auto simp: artifact_read_def intro!: new_binding_effect [OF ok guards(2,3) _ _ _ cas(2,3)])
          qed
        qed
      qed
    qed
  qed
qed

lemma bindExternal_effect:
  assumes ok: "key_ok key"
    and "bindExternal cfg now later key actor rawId meta rawDigest rawSize url db = (r, db')"
  shows "artifact_effect cfg db db'"
proof -
  note op = assms(2) [unfolded bindExternal_def Let_def]
  show ?thesis
  proof (cases "\<exists>rel i n u. release_get key db = Some rel \<and> open_release_state (rel_state rel) \<and>
      artifactId rawId = Inr i \<and> hex64 (trimmed_lower rawDigest) \<and> js_number rawSize = Some n \<and>
      safe_integer n \<and> 0 < n \<and> n \<le> ac_max_bytes cfg \<and> artifactUrl cfg url = Inr u \<and> u \<noteq> []")
    case False
    with op ok show ?thesis
      by (auto simp: artifact_effect_refl not_less not_le split: sum.splits option.splits if_splits)
  next
    case True
    then obtain rel i n u where guards: "release_get key db = Some rel" "open_release_state (rel_state rel)"
      "artifactId rawId = Inr i" "hex64 (trimmed_lower rawDigest)" "js_number rawSize = Some n"
      "safe_integer n" "0 < n" "n \<le> ac_max_bytes cfg" "artifactUrl cfg url = Inr u" "u \<noteq> []" by blast
    show ?thesis
    proof (cases "artifact_get (key, i) db")
      case (Some existing)
      with op ok guards show ?thesis
        by (auto simp: artifact_effect_refl intro: bindUrl_effect [OF ok] split: if_splits)
    next
      case none: None
      show ?thesis
      proof (cases "new_binding (key, i) (trimmed_lower rawDigest) n meta u now db")
        case (Inl e)
        with op ok guards none show ?thesis by (simp add: artifact_effect_refl)
      next
        case (Inr db2)
        with op ok guards none show ?thesis
          by (auto simp: artifact_read_def
              intro!: new_binding_effect [OF ok guards(1,2,4,7,8) refl same_governance_refl])
      qed
    qed
  qed
qed

lemma registerExternal_effect:
  assumes "registerExternal cfg now later actor raw i meta d n url db = (r, db')"
  shows "artifact_effect cfg db db'"
  using assms
  by (auto simp: registerExternal_def artifact_effect_refl
      intro: bindExternal_effect artifact_releaseKey_ok split: sum.splits)

lemma registerExternalForReview_effect:
  assumes "registerExternalForReview cfg now later reviewer raw i meta d n url db = (r, db')"
  shows "artifact_effect cfg db db'"
  using assms
  by (auto simp: registerExternalForReview_def Let_def artifact_effect_refl
      intro: bindExternal_effect artifact_releaseKey_ok split: sum.splits if_splits)

lemma scan_verdict_final: "scan_verdict s = Some v \<Longrightarrow> v \<noteq> Scan_Pending"
  by (auto split: if_splits)

lemma recordScan_effect:
  assumes "recordScan now later reviewer raw rawId st sc scv ed es notes db = (r, db')"
  shows "artifact_effect cfg db db'"
proof -
  note op = assms [unfolded recordScan_def Let_def]
  show ?thesis
  proof (cases "\<exists>key i v a. artifact_releaseKey raw = Inr key \<and> artifactId rawId = Inr i \<and>
      scan_verdict (trimmed_lower st) = Some v \<and> artifact_get (key, i) db = Some a \<and>
      expected_digest ed (ar_digest a) \<and> expected_size es (ar_size_bytes a) \<and>
      ar_scan_state a = Scan_Pending \<and> slice_to 160 (trimmed sc) \<noteq> [] \<and> slice_to 160 (trimmed scv) \<noteq> []")
    case False
    with op show ?thesis
      by (auto simp: artifact_effect_refl simp del: scan_verdict.simps
          split: sum.splits option.splits if_splits)
  next
    case True
    then obtain key i v a where guards: "artifact_releaseKey raw = Inr key" "artifactId rawId = Inr i"
      "scan_verdict (trimmed_lower st) = Some v" "artifact_get (key, i) db = Some a"
      "expected_digest ed (ar_digest a)" "expected_size es (ar_size_bytes a)"
      "ar_scan_state a = Scan_Pending" "slice_to 160 (trimmed sc) \<noteq> []" "slice_to 160 (trimmed scv) \<noteq> []"
      by blast
    have "key_ok key" using guards(1) by (rule artifact_releaseKey_ok)
    with guards op scan_verdict_final [OF guards(3)] show ?thesis
      by (intro artifact_effect.scanned [OF _ guards(4), where verdict = v and s = "slice_to 160 (trimmed sc)"
            and v = "slice_to 160 (trimmed scv)" and remark = "slice_to 4000 (trimmed notes)" and now = now])
        (auto simp: artifact_read_def same_governance_def simp del: scan_verdict.simps)
  qed
qed

section \<open>The approval gate\<close>

lemma release_artifacts_set: "a \<in> set (release_artifacts key db) \<longleftrightarrow> a \<in> set (artifacts db) \<and> fst (ar_id a) = key"
  by (auto simp: release_artifacts_def)

lemma release_artifacts_same: "artifacts db' = artifacts db \<Longrightarrow> release_artifacts key db' = release_artifacts key db"
  by (simp add: release_artifacts_def)

lemma publicArtifact_sel [simp]:
  "pa_scan_state (publicArtifact a) = ar_scan_state a" "sa_digest (publicArtifact a) = ar_digest a"
  "sa_artifact_id (publicArtifact a) = snd (ar_id a)" "sa_size_bytes (publicArtifact a) = ar_size_bytes a"
  "sa_url (publicArtifact a) = ar_url a"
  by (simp_all add: publicArtifact_def)

lemma approvalGate_Inr:
  "key_ok key \<Longrightarrow> approvalGate (as_raw key) db = Inr arts \<longleftrightarrow>
     arts = map publicArtifact (release_artifacts key db) \<and> arts \<noteq> [] \<and>
     (\<forall>a\<in>set (release_artifacts key db). ar_scan_state a = Scan_Passed)"
  by (auto simp: approvalGate_def listForRelease_def list_ex_iff)

end
