(* ===== verification/ReleaseStore.thy ===== *)
theory ReleaseStore
  imports ArtifactStore
begin

text \<open>
  The methods of \<open>ai-backend/src/extension_release_store.js\<close>.  The stores attached with
  \<open>setArtifactStore\<close> and \<open>setSigningStore\<close> are flags of \<open>release_env\<close>: the service attaches both
  (\<open>miniapp_marketplace_http.js\<close>).  All stores share one database, so an operation of the
  release store may call the artifact and the signing store on its own state.
\<close>

record release_env =
  re_crypto :: crypto
  re_locale_compare :: "string \<Rightarrow> string \<Rightarrow> int"
  re_artifact_store :: bool
  re_signing_store :: bool

section \<open>Descriptors\<close>

text \<open>\<open>{...v, k: x}\<close>: the own properties of a value, some of them replaced.\<close>

definition spread :: "js \<Rightarrow> (string \<times> js) list \<Rightarrow> js" where
  "spread v overrides = JObj (filter (\<lambda>p. fst p \<notin> set (map fst overrides)) (own_properties v) @ overrides)"

definition public_descriptor :: "string \<Rightarrow> js \<Rightarrow> js" where
  "public_descriptor namespace input =
     spread input
       [(''identity'', JObj
          [(''namespace'', JStr namespace),
           (''name'', js_get (js_get input ''identity'') ''name''),
           (''kind'', js_get (js_get input ''identity'') ''kind'')]),
        (''origin'', JStr ''public''),
        (''trustDomain'', JStr ''catalog-authorized''),
        (''publisher'', JObj
          [(''id'', JStr namespace),
           (''displayName'', or_else (js_get (js_get input ''publisher'') ''displayName'') (JStr namespace)),
           (''verified'', JBool False),
           (''verificationEvidence'', JArr [])]),
        (''release'', spread (js_get input ''release'') [(''revoked'', JBool False)])]"

definition sanitizeDescriptor :: "js \<Rightarrow> error + (string \<times> extension_entry \<times> release_key)" where
  "sanitizeDescriptor input =
     (case release_component (js_get (js_get input ''identity'') ''namespace'') of Inl e \<Rightarrow> Inl e
      | Inr namespace \<Rightarrow>
     (case normalizeExtensionEntry (public_descriptor namespace input) of Inl e \<Rightarrow> Inl e
      | Inr sanitized \<Rightarrow>
     (case releaseKey (entry_raw_key sanitized) of Inl e \<Rightarrow> Inl e
      | Inr key \<Rightarrow> Inr (namespace, sanitized, key))))"

section \<open>Methods that change a release\<close>

definition release_read :: "release_key \<Rightarrow> 'a release_db_scheme \<Rightarrow> (error + public_release) \<times> 'a release_db_scheme" where
  "release_read key db =
     (case release_require key db of Inl e \<Rightarrow> (Inl e, db) | Inr row \<Rightarrow> (Inr (publicRelease row), db))"

definition digest_json :: "string \<Rightarrow> (string \<times> js) list" where
  "digest_json digest = [(''descriptorDigest'', JStr digest)]"

definition createDraft ::
  "release_env \<Rightarrow> int \<Rightarrow> js \<Rightarrow> js \<Rightarrow> 'a release_db_scheme \<Rightarrow> (error + public_release) \<times> 'a release_db_scheme" where
  "createDraft env now actorAccountId input db =
     (case sanitizeDescriptor input of Inl e \<Rightarrow> (Inl e, db)
      | Inr (namespace, sanitized, key) \<Rightarrow>
     (case publisher_assertOwned (JStr namespace) actorAccountId db of Inl e \<Rightarrow> (Inl e, db)
      | Inr _ \<Rightarrow>
     (if release_get key db \<noteq> None then (Inl (ReleaseStoreError RELEASE_CONFLICT), db)
      else
      (let digest = digestDescriptor (cr_sha256 (re_crypto env)) sanitized
       in and_then
        (transaction (\<lambda>db.
           case release_insert key sanitized digest (js_text actorAccountId) now db of Inl e \<Rightarrow> Inl e
           | Inr db1 \<Rightarrow>
               Inr (release_log key ''release.created'' (js_text actorAccountId) (JObj (digest_json digest)) now db1)) db)
        (\<lambda>_ db'. release_read key db')))))"

definition release_submit ::
  "int \<Rightarrow> js \<Rightarrow> raw_key \<Rightarrow> 'a release_db_scheme \<Rightarrow> (error + public_release) \<times> 'a release_db_scheme" where
  "release_submit now actorAccountId raw db =
     (case releaseKey raw of Inl e \<Rightarrow> (Inl e, db)
      | Inr key \<Rightarrow>
     (case release_require key db of Inl e \<Rightarrow> (Inl e, db)
      | Inr row \<Rightarrow>
     (case publisher_assertOwned (JStr (rk_namespace (rel_key row))) actorAccountId db of Inl e \<Rightarrow> (Inl e, db)
      | Inr _ \<Rightarrow>
     (if rel_state row \<noteq> Draft then (Inl (ReleaseStoreError INVALID_RELEASE_STATE), db)
      else and_then
        (transaction (\<lambda>db. Inr
           (release_log key ''release.submitted'' (js_text actorAccountId)
             (JObj (digest_json (rel_descriptor_digest row))) now
             (release_update key (set_submitted now) db))) db)
        (\<lambda>_ db'. release_read key db')))))"

definition reviewer_label :: "js \<Rightarrow> string" where
  "reviewer_label reviewer =
     (let label = slice_to 160 (trimmed (or_else reviewer (JStr ''marketplace-reviewer'')))
      in if label = [] then ''marketplace-reviewer'' else label)"

definition importReviewed ::
  "release_env \<Rightarrow> int \<Rightarrow> js \<Rightarrow> js \<Rightarrow> 'a release_db_scheme \<Rightarrow> (error + public_release) \<times> 'a release_db_scheme" where
  "importReviewed env now reviewer input db =
     (let actor = ''review:'' @ reviewer_label reviewer in
     (case sanitizeDescriptor input of Inl e \<Rightarrow> (Inl e, db)
      | Inr (namespace, sanitized, key) \<Rightarrow>
     (let digest = digestDescriptor (cr_sha256 (re_crypto env)) sanitized in
     (case release_get key db of
        Some existing \<Rightarrow>
          (if rel_descriptor_digest existing \<noteq> digest
           then (Inl (ReleaseStoreError RELEASE_CONFLICT), db)
           else if rel_state existing = Pending_Review \<or> rel_state existing = Approved
           then (Inr (publicRelease existing), db)
           else if rel_state existing \<noteq> Draft
           then (Inl (ReleaseStoreError INVALID_RELEASE_STATE), db)
           else and_then
             (transaction (\<lambda>db. Inr
                (release_log key ''release.submitted'' actor (JObj (digest_json digest)) now
                  (release_update key (set_submitted now) db))) db)
             (\<lambda>_ db'. release_read key db'))
      | None \<Rightarrow>
          and_then
            (transaction (\<lambda>db.
               case release_insert key sanitized digest actor now db of Inl e \<Rightarrow> Inl e
               | Inr db1 \<Rightarrow> Inr
                   (release_log key ''release.submitted'' actor (JObj (digest_json digest)) now
                     (release_update key (set_submitted now)
                       (release_log key ''release.created'' actor
                         (JObj (digest_json digest @ [(''imported'', JBool True)])) now db1)))) db)
            (\<lambda>_ db'. release_read key db')))))"

definition review_payload :: "string \<Rightarrow> public_artifact list option \<Rightarrow> envelope option \<Rightarrow> js" where
  "review_payload notes arts signature = JObj
     ([(''notes'', JStr notes)] @
      optional_property ''artifacts''
        (\<lambda>as. JArr (map (\<lambda>a. JObj [(''artifactId'', JStr (sa_artifact_id a)), (''digest'', JStr (sa_digest a))]) as))
        arts @
      optional_property ''signature''
        (\<lambda>s. JObj [(''keyId'', JStr (ev_key_id s)), (''trustEpoch'', JNum (ev_trust_epoch s)),
                   (''publicKeyFingerprint'', JStr (ev_fingerprint s))])
        signature)"

definition state_text :: "release_state \<Rightarrow> string" where
  "state_text st = (case st of Draft \<Rightarrow> ''draft'' | Pending_Review \<Rightarrow> ''pending_review''
     | Approved \<Rightarrow> ''approved'' | Rejected \<Rightarrow> ''rejected'' | Revoked \<Rightarrow> ''revoked'')"

text \<open>
  The statements of the review transaction: the signature first, when the release is approved
  and a signing store is attached, then the new state and the audit row.
\<close>

definition review_signature ::
  "release_env \<Rightarrow> int \<Rightarrow> bool \<Rightarrow> release_row \<Rightarrow> public_artifact list \<Rightarrow> 'a signing_db_scheme \<Rightarrow>
   error + (envelope option \<times> 'a signing_db_scheme)" where
  "review_signature env sign_now approve row arts db =
     (if approve \<and> re_signing_store env
      then (case signRelease (re_crypto env) (re_locale_compare env) sign_now (rel_descriptor row)
              (rel_descriptor_digest row) arts db of
              (Inl e, _) \<Rightarrow> Inl e
            | (Inr signature, db') \<Rightarrow> Inr (Some signature, db'))
      else Inr (None, db))"

definition review_body ::
  "release_env \<Rightarrow> int \<Rightarrow> int \<Rightarrow> bool \<Rightarrow> release_key \<Rightarrow> release_row \<Rightarrow> string \<Rightarrow> string \<Rightarrow>
   public_artifact list option \<Rightarrow> 'a signing_db_scheme \<Rightarrow> error + 'a signing_db_scheme" where
  "review_body env now sign_now approve key row reviewer notes arts db =
     (case review_signature env sign_now approve row (case_option [] id arts) db of
        Inl e \<Rightarrow> Inl e
      | Inr (signature, db1) \<Rightarrow>
          (let state = (if approve then Approved else Rejected)
           in Inr (release_log key (''release.'' @ state_text state) reviewer
                (review_payload notes arts signature) now
                (release_update key (set_reviewed state reviewer notes now) db1))))"

definition release_review ::
  "release_env \<Rightarrow> int \<Rightarrow> int \<Rightarrow> js \<Rightarrow> js \<Rightarrow> js \<Rightarrow> raw_key \<Rightarrow> 'a artifact_db_scheme \<Rightarrow>
   (error + public_release) \<times> 'a artifact_db_scheme" where
  "release_review env now sign_now approved reviewer notes raw db =
     (case releaseKey raw of Inl e \<Rightarrow> (Inl e, db)
      | Inr key \<Rightarrow>
     (case release_require key db of Inl e \<Rightarrow> (Inl e, db)
      | Inr row \<Rightarrow>
     (if rel_state row \<noteq> Pending_Review then (Inl (ReleaseStoreError INVALID_RELEASE_STATE), db)
      else
      (let approve = (approved = JBool True) in
     (case (if approve \<and> re_artifact_store env then map_sum id Some (approvalGate (as_raw key) db)
            else Inr None) of
        Inl e \<Rightarrow> (Inl e, db)
      | Inr arts \<Rightarrow>
          and_then
            (transaction (review_body env now sign_now approve key row (reviewer_label reviewer)
               (slice_to 4000 (trimmed notes)) arts) db)
            (\<lambda>_ db'. release_read key db'))))))"

definition revoke_release ::
  "int \<Rightarrow> release_key \<Rightarrow> release_row \<Rightarrow> string \<Rightarrow> js \<Rightarrow> string \<Rightarrow> 'a release_db_scheme \<Rightarrow>
   (error + public_release) \<times> 'a release_db_scheme" where
  "revoke_release now key row actor notes action db =
     (let reviewNotes = slice_to 4000 (trimmed notes) in
      and_then
        (transaction (\<lambda>db. Inr
           (release_log key action actor
             (JObj [(''previousState'', JStr (state_text (rel_state row))), (''notes'', JStr reviewNotes)]) now
             (release_update key (set_revoked actor reviewNotes now) db))) db)
        (\<lambda>_ db'. release_read key db'))"

definition release_yank ::
  "int \<Rightarrow> js \<Rightarrow> js \<Rightarrow> raw_key \<Rightarrow> 'a release_db_scheme \<Rightarrow> (error + public_release) \<times> 'a release_db_scheme" where
  "release_yank now actorAccountId notes raw db =
     (case releaseKey raw of Inl e \<Rightarrow> (Inl e, db)
      | Inr key \<Rightarrow>
     (case release_require key db of Inl e \<Rightarrow> (Inl e, db)
      | Inr row \<Rightarrow>
     (case publisher_assertOwned (JStr (rk_namespace (rel_key row))) actorAccountId db of Inl e \<Rightarrow> (Inl e, db)
      | Inr _ \<Rightarrow>
     (if rel_state row \<noteq> Approved then (Inl (ReleaseStoreError INVALID_RELEASE_STATE), db)
      else revoke_release now key row (js_text actorAccountId) notes ''release.yanked'' db))))"

definition release_revoke ::
  "int \<Rightarrow> js \<Rightarrow> js \<Rightarrow> raw_key \<Rightarrow> 'a release_db_scheme \<Rightarrow> (error + public_release) \<times> 'a release_db_scheme" where
  "release_revoke now reviewer notes raw db =
     (case releaseKey raw of Inl e \<Rightarrow> (Inl e, db)
      | Inr key \<Rightarrow>
     (case release_require key db of Inl e \<Rightarrow> (Inl e, db)
      | Inr row \<Rightarrow>
     (if rel_state row \<noteq> Approved then (Inl (ReleaseStoreError INVALID_RELEASE_STATE), db)
      else revoke_release now key row (reviewer_label reviewer) notes ''release.revoked'' db)))"

section \<open>Methods that read\<close>

definition listNamespace :: "string \<Rightarrow> 'a release_db_scheme \<Rightarrow> release_row list" where
  "listNamespace n db =
     sort_key (\<lambda>r. - rel_updated_at_ms r) (sort_key (\<lambda>r. rk_name (rel_key r))
       (sort_key (\<lambda>r. rk_kind (rel_key r)) (rev (sort_key (\<lambda>r. rk_version (rel_key r))
         (filter (\<lambda>r. rk_namespace (rel_key r) = n) (releases db))))))"

fun or_compare :: "int list \<Rightarrow> int" where
  "or_compare [] = 0"
| "or_compare (c # cs) = (if c \<noteq> 0 then c else or_compare cs)"

definition publisher_order :: "(string \<Rightarrow> string \<Rightarrow> int) \<Rightarrow> release_row \<Rightarrow> release_row \<Rightarrow> int" where
  "publisher_order lc left right = or_compare
     [rel_updated_at_ms right - rel_updated_at_ms left,
      lc (rk_namespace (rel_key left)) (rk_namespace (rel_key right)),
      lc (rk_name (rel_key left)) (rk_name (rel_key right)),
      lc (rk_version (rel_key left)) (rk_version (rel_key right))]"

definition listPublisher :: "release_env \<Rightarrow> js \<Rightarrow> 'a release_db_scheme \<Rightarrow> error + public_release list" where
  "listPublisher env actorAccountId db =
     (case publisher_listOwned actorAccountId db of Inl e \<Rightarrow> Inl e
      | Inr owned \<Rightarrow>
          Inr (map publicRelease
            (sort_by (publisher_order (re_locale_compare env))
              (concat (map (\<lambda>p. listNamespace (pn_namespace p) db) owned)))))"

definition listApproved :: "'a release_db_scheme \<Rightarrow> release_row list" where
  "listApproved db =
     sort_key (\<lambda>r. [rk_namespace (rel_key r), rk_name (rel_key r), rk_kind (rel_key r), rk_version (rel_key r)])
       (filter (\<lambda>r. rel_state r = Approved) (releases db))"

text \<open>\<open>byIdentity\<close>, a \<open>Map\<close>: an entry that is set again keeps its place.\<close>

fun keep_latest :: "(string \<Rightarrow> string \<Rightarrow> int) \<Rightarrow> release_row \<Rightarrow> release_row list \<Rightarrow> release_row list" where
  "keep_latest lc row [] = [row]"
| "keep_latest lc row (p # ps) =
     (if en_id (rel_descriptor p) = en_id (rel_descriptor row)
      then (if 0 < compareVersions lc (rk_version (rel_key row)) (rk_version (rel_key p)) then row # ps else p # ps)
      else p # keep_latest lc row ps)"

record latest_entry =
  le_descriptor :: extension_entry
  le_digest :: string
  le_artifacts :: "public_artifact list"
  le_signature :: "envelope option"

definition latest_key :: "release_row \<Rightarrow> raw_key" where
  "latest_key row = (entry_raw_key (rel_descriptor row))\<lparr>raw_version := JStr (rk_version (rel_key row))\<rparr>"

definition latest_entry_of :: "release_env \<Rightarrow> release_row \<Rightarrow> 'a artifact_db_scheme \<Rightarrow> error + latest_entry option" where
  "latest_entry_of env row db =
     (case (if re_artifact_store env then listForRelease (latest_key row) db else Inr []) of Inl e \<Rightarrow> Inl e
      | Inr arts \<Rightarrow>
     (case (if re_signing_store env then getTrustedSignature (re_crypto env) (latest_key row) db else Inr None) of
        Inl e \<Rightarrow> Inl e
      | Inr signature \<Rightarrow>
          Inr (if re_signing_store env \<and> signature = None then None
               else Some \<lparr>le_descriptor = rel_descriptor row, le_digest = rel_descriptor_digest row,
                          le_artifacts = arts, le_signature = signature\<rparr>)))"

text \<open>\<open>map\<close> followed by \<open>filter(entry != null)\<close>; an exception of \<open>map\<close> ends it.\<close>

fun collect :: "('a \<Rightarrow> error + 'b option) \<Rightarrow> 'a list \<Rightarrow> error + 'b list" where
  "collect f [] = Inr []"
| "collect f (x # xs) =
     (case f x of Inl e \<Rightarrow> Inl e
      | Inr y \<Rightarrow> (case collect f xs of Inl e \<Rightarrow> Inl e
                | Inr ys \<Rightarrow> Inr (case y of None \<Rightarrow> ys | Some z \<Rightarrow> z # ys)))"

definition latest_rows :: "release_env \<Rightarrow> 'a release_db_scheme \<Rightarrow> release_row list" where
  "latest_rows env db = fold (keep_latest (re_locale_compare env)) (listApproved db) []"

definition listApprovedLatest :: "release_env \<Rightarrow> 'a artifact_db_scheme \<Rightarrow> error + latest_entry list" where
  "listApprovedLatest env db =
     (case collect (\<lambda>row. latest_entry_of env row db) (latest_rows env db) of Inl e \<Rightarrow> Inl e
      | Inr entries \<Rightarrow>
          Inr (sort_by (\<lambda>l r. re_locale_compare env (en_id (le_descriptor l)) (en_id (le_descriptor r))) entries))"

definition release_audit_list :: "raw_key \<Rightarrow> 'a release_db_scheme \<Rightarrow> error + release_audit_row list" where
  "release_audit_list raw db =
     (case releaseKey raw of Inl e \<Rightarrow> Inl e
      | Inr key \<Rightarrow> Inr (sort_key ra_sequence (filter (\<lambda>a. ra_key a = key) (release_audit db))))"

section \<open>What a descriptor is after sanitizing\<close>

definition entry_key :: "extension_entry \<Rightarrow> release_key" where
  "entry_key e = \<lparr>rk_kind = en_kind e, rk_namespace = en_namespace e, rk_name = en_name e, rk_version = en_version e\<rparr>"

lemma kinds_component: "k \<in> set kinds \<Longrightarrow> safe_component k"
  by (auto simp: kinds_def) code_simp+

lemma entry_key_ok: "entry_ok e \<Longrightarrow> key_ok (entry_key e)"
  by (auto simp: entry_ok_def key_ok_def entry_key_def kinds_component)

lemma entry_raw_key_as_raw: "entry_raw_key e = as_raw (entry_key e)"
  by (simp add: entry_raw_key_def as_raw_def entry_key_def)

lemma js_get_append: "js_get (JObj (xs @ ys)) k = (if k \<in> set (map fst xs) then js_get (JObj xs) k else js_get (JObj ys) k)"
  by (auto simp: map_add_def map_of_eq_None_iff split: option.splits) (metis map_of_eq_None_iff not_None_eq)+

lemma js_get_spread:
  "js_get (spread v ov) k = (if k \<in> set (map fst ov) then js_get (JObj ov) k else js_get (JObj (own_properties v)) k)"
proof -
  have "map_of (filter (\<lambda>p. fst p \<notin> A) kvs) k = (if k \<in> A then None else map_of kvs k)" for A and kvs :: "(string \<times> js) list"
    by (induction kvs) auto
  moreover have "map_of (xs @ ys) k = (case map_of xs k of None \<Rightarrow> map_of ys k | Some v \<Rightarrow> Some v)"
    for xs ys :: "(string \<times> js) list" by (simp add: map_add_def)
  ultimately show ?thesis
    by (auto simp: spread_def map_of_eq_None_iff split: option.splits) (metis map_of_eq_None_iff not_None_eq)+
qed

lemma public_descriptor_get [simp]:
  "js_get (public_descriptor ns input) ''origin'' = JStr ''public''"
  "js_get (public_descriptor ns input) ''trustDomain'' = JStr ''catalog-authorized''"
  "js_get (js_get (public_descriptor ns input) ''identity'') ''namespace'' = JStr ns"
  "js_get (js_get (public_descriptor ns input) ''publisher'') ''id'' = JStr ns"
  "js_get (js_get (public_descriptor ns input) ''publisher'') ''verified'' = JBool False"
  "js_get (js_get (public_descriptor ns input) ''release'') ''revoked'' = JBool False"
  by (simp_all add: public_descriptor_def js_get_spread)

lemma literal_enums [simp]:
  "trimmed_lower (JStr ''public'') = ''public''"
  "trimmed_lower (JStr ''catalog-authorized'') = ''catalog-authorized''"
  by code_simp+

lemma sanitizeDescriptor_Inr:
  assumes "sanitizeDescriptor input = Inr (ns, d, key)"
  shows "entry_ok d" and "key = entry_key d" and "ns = en_namespace d" and "safe_component ns"
    and "en_origin d = ''public''" and "en_trust_domain d = ''catalog-authorized''"
    and "en_publisher_id d = ns" and "\<not> en_verified d" and "\<not> en_revoked d"
proof -
  from assms have ns: "safe_component ns" and d: "normalizeExtensionEntry (public_descriptor ns input) = Inr d"
    and key: "releaseKey (entry_raw_key d) = Inr key"
    by (auto simp: sanitizeDescriptor_def guards split: sum.splits)
  show ok: "entry_ok d" using d by (rule normalizeExtensionEntry_ok)
  show "key = entry_key d" using key entry_key_ok [OF ok] by (simp add: entry_raw_key_as_raw)
  show "safe_component ns" by (rule ns)
  show "ns = en_namespace d" "en_origin d = ''public''" "en_trust_domain d = ''catalog-authorized''"
    "en_publisher_id d = ns" "\<not> en_verified d" "\<not> en_revoked d"
    using d ns by (auto simp: normalizeExtensionEntry_Inr guards component_trimmed_lower)
qed

section \<open>What the methods do to the tables\<close>

definition same_artifacts :: "'a artifact_db_scheme \<Rightarrow> 'a artifact_db_scheme \<Rightarrow> bool" where
  "same_artifacts db db' \<longleftrightarrow>
     namespaces db' = namespaces db \<and> publisher_audit db' = publisher_audit db \<and>
     artifacts db' = artifacts db \<and> cas db' = cas db \<and> artifact_db.more db' = artifact_db.more db"

definition same_trust :: "'a signing_db_scheme \<Rightarrow> 'a signing_db_scheme \<Rightarrow> bool" where
  "same_trust db db' \<longleftrightarrow> configured_signer db' = configured_signer db \<and> trust_keys db' = trust_keys db"

text \<open>The envelope \<open>ev\<close> is the one stored for a key afterwards: it was there, or it is new and made by
  the signer.\<close>

definition signed_by ::
  "signer \<Rightarrow> release_key \<Rightarrow> envelope \<Rightarrow> 'a signing_db_scheme \<Rightarrow> 'a signing_db_scheme \<Rightarrow> bool" where
  "signed_by sg key ev db db' \<longleftrightarrow>
     (\<exists>row. signature_get key db = Some row \<and> publicEnvelope row = ev \<and> signatures db' = signatures db) \<or>
     (signature_get key db = None \<and> ev_public_key ev = sg_public_key sg \<and>
      ev_fingerprint ev = sg_fingerprint sg \<and> signatures db' = signatures db @ [envelope_row key ev])"

inductive release_effect :: "release_env \<Rightarrow> 'a artifact_db_scheme \<Rightarrow> 'a artifact_db_scheme \<Rightarrow> bool"
  for env :: release_env where
  drafted: "entry_ok d \<Longrightarrow> en_origin d = ''public'' \<Longrightarrow> \<not> en_verified d \<Longrightarrow> \<not> en_revoked d \<Longrightarrow>
    release_get (entry_key d) db = None \<Longrightarrow>
    releases db' = releases db @
      [draft_row (entry_key d) d (digestDescriptor (cr_sha256 (re_crypto env)) d) publisher now] \<Longrightarrow>
    same_trust db db' \<Longrightarrow> signatures db' = signatures db \<Longrightarrow> same_artifacts db db' \<Longrightarrow>
    release_effect env db db'"
| submitted: "release_get key db = Some row \<Longrightarrow> rel_state row = Draft \<Longrightarrow>
    releases db' = update_where (\<lambda>r. rel_key r = key) (set_submitted now) (releases db) \<Longrightarrow>
    same_trust db db' \<Longrightarrow> signatures db' = signatures db \<Longrightarrow> same_artifacts db db' \<Longrightarrow>
    release_effect env db db'"
| rejected: "release_get key db = Some row \<Longrightarrow> rel_state row = Pending_Review \<Longrightarrow>
    releases db' = update_where (\<lambda>r. rel_key r = key) (set_reviewed Rejected v n now) (releases db) \<Longrightarrow>
    same_trust db db' \<Longrightarrow> signatures db' = signatures db \<Longrightarrow> same_artifacts db db' \<Longrightarrow>
    release_effect env db db'"
| approved: "key_ok key \<Longrightarrow> release_get key db = Some row \<Longrightarrow> rel_state row = Pending_Review \<Longrightarrow>
    release_artifacts key db \<noteq> [] \<Longrightarrow> (\<forall>a\<in>set (release_artifacts key db). ar_scan_state a = Scan_Passed) \<Longrightarrow>
    configured_signer db = Some sg \<Longrightarrow> signing_releaseKey (entry_raw_key (rel_descriptor row)) = Inr skey \<Longrightarrow>
    ev_payload ev = release_payload (re_locale_compare env) (sg_key_id sg) (sg_trust_epoch sg)
      (rel_descriptor row) (rel_descriptor_digest row) (map publicArtifact (release_artifacts key db)) \<Longrightarrow>
    verifyReleaseSignatureEnvelope (re_crypto env) ev \<Longrightarrow> ev_key_id ev = sg_key_id sg \<Longrightarrow>
    ev_trust_epoch ev = sg_trust_epoch sg \<Longrightarrow> signed_by sg skey ev db db' \<Longrightarrow>
    releases db' = update_where (\<lambda>r. rel_key r = key) (set_reviewed Approved v n now) (releases db) \<Longrightarrow>
    same_trust db db' \<Longrightarrow> same_artifacts db db' \<Longrightarrow> release_effect env db db'"
| revoked: "release_get key db = Some row \<Longrightarrow> rel_state row = Approved \<Longrightarrow>
    releases db' = update_where (\<lambda>r. rel_key r = key) (set_revoked v n now) (releases db) \<Longrightarrow>
    same_trust db db' \<Longrightarrow> signatures db' = signatures db \<Longrightarrow> same_artifacts db db' \<Longrightarrow>
    release_effect env db db'"

lemmas same_tables = same_trust_def same_artifacts_def

lemma release_read_state: "release_read key db = (r, db') \<Longrightarrow> db' = db"
  by (auto simp: release_read_def split: sum.splits)

lemma commit_read:
  assumes "and_then (transaction body db) (\<lambda>_ d. release_read key d) = (r, db')"
  shows "db' = db \<or> body db = Inr db'"
  using assms by (cases r) (auto simp: and_then_Inr and_then_Inl transaction_simps dest: release_read_state)

lemma log_frames [simp]:
  "configured_signer (release_log k a ac p now db) = configured_signer db"
  "trust_keys (release_log k a ac p now db) = trust_keys db"
  "signatures (release_log k a ac p now db) = signatures db"
  "namespaces (release_log k a ac p now db) = namespaces db"
  "publisher_audit (release_log k a ac p now db) = publisher_audit db"
  "configured_signer (release_update key f db) = configured_signer db"
  "trust_keys (release_update key f db) = trust_keys db"
  "signatures (release_update key f db) = signatures db"
  "namespaces (release_update key f db) = namespaces db"
  "publisher_audit (release_update key f db) = publisher_audit db"
  by (simp_all add: release_log_def release_update_def)

lemma log_frames_artifacts [simp]:
  "artifacts (release_log k a ac p now db) = artifacts db" "cas (release_log k a ac p now db) = cas db"
  "artifacts (release_update key f db) = artifacts db" "cas (release_update key f db) = cas db"
  "artifact_db.more (release_log k a ac p now db) = artifact_db.more db"
  "artifact_db.more (release_update key f db) = artifact_db.more db"
  by (simp_all add: release_log_def release_update_def)

lemma createDraft_effect:
  assumes "createDraft env now actor input db = (r, db')"
  shows "db' = db \<or> release_effect env db db'"
proof (cases "sanitizeDescriptor input")
  case (Inl e)
  with assms show ?thesis by (simp add: createDraft_def)
next
  case (Inr t)
  then obtain ns d key where t: "sanitizeDescriptor input = Inr (ns, d, key)" by (cases t) auto
  note d = sanitizeDescriptor_Inr [OF t]
  show ?thesis
  proof (cases "\<exists>x. publisher_assertOwned (JStr ns) actor db = Inr x \<and> release_get key db = None")
    case False
    with assms t show ?thesis by (auto simp: createDraft_def Let_def split: sum.splits if_splits)
  next
    case True
    then have none: "release_get key db = None" by blast
    let ?digest = "digestDescriptor (cr_sha256 (re_crypto env)) d"
    let ?new = "release_log key ''release.created'' (js_text actor) (JObj (digest_json ?digest)) now
      (db\<lparr>releases := releases db @ [draft_row key d ?digest (js_text actor) now]\<rparr>)"
    from True assms t have "db' = db \<or> db' = ?new"
      by (auto simp: createDraft_def Let_def release_insert_Inr dest!: commit_read split: sum.splits)
    moreover have "release_effect env db ?new"
      using d none by (intro release_effect.drafted [of d]) (auto simp: same_tables)
    ultimately show ?thesis by blast
  qed
qed

lemma release_submit_effect:
  assumes "release_submit now actor raw db = (r, db')"
  shows "db' = db \<or> release_effect env db db'"
proof (cases "\<exists>key row. releaseKey raw = Inr key \<and> release_get key db = Some row \<and> rel_state row = Draft \<and>
    db' \<noteq> db")
  case False
  with assms show ?thesis
    by (auto simp: release_submit_def release_require_def split: sum.splits option.splits if_splits)
next
  case True
  then obtain key row where row: "releaseKey raw = Inr key" "release_get key db = Some row"
    "rel_state row = Draft" "db' \<noteq> db" by blast
  let ?new = "release_log key ''release.submitted'' (js_text actor)
    (JObj (digest_json (rel_descriptor_digest row))) now (release_update key (set_submitted now) db)"
  from row assms have "db' = ?new"
    by (auto simp: release_submit_def release_require_def dest!: commit_read split: sum.splits)
  moreover have "release_effect env db ?new"
    by (rule release_effect.submitted [OF row(2,3), where now = now]) (auto simp: same_tables)
  ultimately show ?thesis by blast
qed

lemma importReviewed_effect:
  assumes "importReviewed env now reviewer input db = (r, db')"
  shows "(release_effect env)\<^sup>*\<^sup>* db db'"
proof (cases "sanitizeDescriptor input")
  case (Inl e)
  with assms show ?thesis by (simp add: importReviewed_def Let_def)
next
  case (Inr t)
  then obtain ns d key where t: "sanitizeDescriptor input = Inr (ns, d, key)" by (cases t) auto
  note d = sanitizeDescriptor_Inr [OF t]
  let ?digest = "digestDescriptor (cr_sha256 (re_crypto env)) d"
  show ?thesis
  proof (cases "release_get key db")
    case (Some row)
    let ?new = "release_log key ''release.submitted'' (''review:'' @ reviewer_label reviewer)
      (JObj (digest_json ?digest)) now (release_update key (set_submitted now) db)"
    from assms t Some have "db' = db \<or> (rel_state row = Draft \<and> db' = ?new)"
      by (auto simp: importReviewed_def Let_def split: if_splits dest!: commit_read)
    moreover have "rel_state row = Draft \<Longrightarrow> release_effect env db ?new"
      by (rule release_effect.submitted [OF Some, where now = now]) (auto simp: same_tables)
    ultimately show ?thesis by blast
  next
    case None
    let ?actor = "''review:'' @ reviewer_label reviewer"
    let ?db1 = "release_log key ''release.created'' ?actor
      (JObj (digest_json ?digest @ [(''imported'', JBool True)])) now
      (db\<lparr>releases := releases db @ [draft_row key d ?digest ?actor now]\<rparr>)"
    let ?db2 = "release_log key ''release.submitted'' ?actor (JObj (digest_json ?digest)) now
      (release_update key (set_submitted now) ?db1)"
    from assms t None have "db' = db \<or> db' = ?db2"
      by (auto simp: importReviewed_def Let_def release_insert_Inr dest!: commit_read split: sum.splits)
    moreover have "release_effect env db ?db1"
      using d None by (intro release_effect.drafted [of d]) (auto simp: same_tables)
    moreover have "release_effect env ?db1 ?db2"
      by (rule release_effect.submitted [of key _ "draft_row key d ?digest ?actor now" _ now])
        (simp_all add: release_get_insert None same_tables)
    ultimately show ?thesis by (auto intro: rtranclp.intros)
  qed
qed

lemma revoke_release_effect:
  assumes "release_get key db = Some row" and "rel_state row = Approved"
    and "revoke_release now key row actor notes action db = (r, db')"
  shows "db' = db \<or> release_effect env db db'"
proof -
  let ?notes = "slice_to 4000 (trimmed notes)"
  let ?new = "release_log key action actor
    (JObj [(''previousState'', JStr (state_text (rel_state row))), (''notes'', JStr ?notes)]) now
    (release_update key (set_revoked actor ?notes now) db)"
  from assms(3) have "db' = db \<or> db' = ?new"
    unfolding revoke_release_def Let_def by (auto dest!: commit_read)
  moreover have "release_effect env db ?new"
    by (rule release_effect.revoked [OF assms(1,2)]) (auto simp: same_tables)
  ultimately show ?thesis by blast
qed

lemma release_yank_effect:
  assumes "release_yank now actor notes raw db = (r, db')"
  shows "db' = db \<or> release_effect env db db'"
  using assms
  by (auto simp: release_yank_def guards dest: revoke_release_effect split: sum.splits if_splits)

lemma release_revoke_effect:
  assumes "release_revoke now reviewer notes raw db = (r, db')"
  shows "db' = db \<or> release_effect env db db'"
  using assms
  by (auto simp: release_revoke_def guards dest: revoke_release_effect split: sum.splits if_splits)

definition attached :: "release_env \<Rightarrow> bool" where
  "attached env \<longleftrightarrow> re_artifact_store env \<and> re_signing_store env"

lemma signature_frames:
  "release_get k (db\<lparr>signatures := x\<rparr>) = release_get k db"
  "artifacts (db2\<lparr>signatures := x\<rparr>) = artifacts db2"
  "cas (db2\<lparr>signatures := x\<rparr>) = cas db2"
  by (simp_all add: release_get_def)

text \<open>The transaction of an approval: the artifacts the gate returned are signed, then the state changes.\<close>

lemma review_body_approved:
  assumes att: "attached env" and key: "key_ok key" and row: "release_get key db = Some row"
    and pending: "rel_state row = Pending_Review"
    and gate: "approvalGate (as_raw key) db = Inr arts"
    and body: "review_body env now sign_now True key row v n (Some arts) db = Inr db'"
  shows "release_effect env db db'"
proof -
  from body att obtain ev db1
    where sign: "signRelease (re_crypto env) (re_locale_compare env) sign_now (rel_descriptor row)
        (rel_descriptor_digest row) arts db = (Inr ev, db1)"
      and db': "db' = release_log key (''release.'' @ state_text Approved) v
        (review_payload n (Some arts) (Some ev)) now (release_update key (set_reviewed Approved v n now) db1)"
    by (auto simp: review_body_def review_signature_def attached_def Let_def split: sum.splits prod.splits)
  from gate key have arts: "arts = map publicArtifact (release_artifacts key db)"
    "release_artifacts key db \<noteq> []" "\<forall>a\<in>set (release_artifacts key db). ar_scan_state a = Scan_Passed"
    by (auto simp: approvalGate_Inr)
  show ?thesis
    using sign
  proof (rule signRelease_Inr)
    fix skey sg
    assume s: "signing_releaseKey (entry_raw_key (rel_descriptor row)) = Inr skey"
      "configured_signer db = Some sg"
      "ev_payload ev = release_payload (re_locale_compare env) (sg_key_id sg) (sg_trust_epoch sg)
        (rel_descriptor row) (rel_descriptor_digest row) arts"
      "verifyReleaseSignatureEnvelope (re_crypto env) ev" "ev_key_id ev = sg_key_id sg"
      "ev_trust_epoch ev = sg_trust_epoch sg"
      and stored: "(\<exists>row. signature_get skey db = Some row \<and> publicEnvelope row = ev \<and> db1 = db) \<or>
        (signature_get skey db = None \<and> ev_public_key ev = sg_public_key sg \<and>
         ev_fingerprint ev = sg_fingerprint sg \<and>
         ev_signature ev = cr_sign (re_crypto env) (sg_private_key sg) (ev_payload ev) \<and>
         db1 = db\<lparr>signatures := signatures db @ [envelope_row skey ev]\<rparr>)"
    have frame: "releases db1 = releases db" "same_trust db db1" "same_artifacts db db1"
      using stored by (auto simp: same_tables)
    have signed: "signed_by sg skey ev db db'"
      using stored by (auto simp: signed_by_def db')
    show ?thesis
      using frame s(3) arts(1)
      by (intro release_effect.approved [OF key row pending arts(2,3) s(2,1) _ s(4-6) signed,
            where v = v and n = n and now = now]) (simp_all add: db' same_tables)
  qed
qed

lemma review_body_rejected:
  assumes row: "release_get key db = Some row" and pending: "rel_state row = Pending_Review"
    and body: "review_body env now sign_now False key row v n arts db = Inr db'"
  shows "release_effect env db db'"
  using body
  by (intro release_effect.rejected [OF row pending, where v = v and n = n and now = now])
    (auto simp: review_body_def review_signature_def same_tables)

lemma release_review_effect:
  assumes att: "attached env"
    and "release_review env now sign_now approved reviewer notes raw db = (r, db')"
  shows "db' = db \<or> release_effect env db db'"
proof (cases "\<exists>key row. releaseKey raw = Inr key \<and> release_get key db = Some row \<and>
    rel_state row = Pending_Review")
  case False
  with assms(2) show ?thesis
    by (auto simp: release_review_def release_require_def split: sum.splits option.splits if_splits)
next
  case True
  then obtain key row where row: "releaseKey raw = Inr key" "release_get key db = Some row"
    "rel_state row = Pending_Review" by blast
  note op = assms(2) [unfolded release_review_def Let_def]
  show ?thesis
  proof (cases "approved = JBool True")
    case False
    with op row have "and_then (transaction (review_body env now sign_now False key row (reviewer_label reviewer)
        (slice_to 4000 (trimmed notes)) None) db) (\<lambda>_ d. release_read key d) = (r, db')"
      by (simp add: release_require_def)
    from commit_read [OF this] show ?thesis
      using review_body_rejected [OF row(2,3)] by blast
  next
    case approve: True
    show ?thesis
    proof (cases "approvalGate (as_raw key) db")
      case (Inl e)
      with op row att approve show ?thesis by (simp add: release_require_def attached_def)
    next
      case (Inr arts)
      with op row att approve have "and_then (transaction (review_body env now sign_now True key row
          (reviewer_label reviewer) (slice_to 4000 (trimmed notes)) (Some arts)) db)
          (\<lambda>_ d. release_read key d) = (r, db')"
        by (simp add: release_require_def attached_def)
      from commit_read [OF this] show ?thesis
        using review_body_approved [OF att releaseKey_ok [OF row(1)] row(2,3) Inr] by blast
    qed
  qed
qed

lemma artifact_db_effects: "same_artifacts db db' \<Longrightarrow> release_artifacts key db' = release_artifacts key db"
  unfolding same_artifacts_def by (blast intro: release_artifacts_same)

end
