(* ===== verification/ModerationStore.thy ===== *)
theory ModerationStore
  imports ReleaseStore
begin

text \<open>
  Reports and appeals: \<open>ai-backend/src/extension_moderation_store.js\<close>.  A report that is actioned
  revokes the release through the release store first and resolves the case in a transaction
  of its own, so the two can be apart when something fails in between.
\<close>

section \<open>Tables\<close>

datatype case_type = Report | Appeal

datatype case_state = Case_Open | Case_Dismissed | Case_Actioned | Case_Accepted | Case_Rejected

record case_row =
  mc_case_id :: string
  mc_type :: case_type
  mc_state :: case_state
  mc_key :: release_key
  mc_reporter_account_id :: "string option"
  mc_appellant_account_id :: "string option"
  mc_reason_code :: "string option"
  mc_details :: string
  mc_parent_case_id :: "string option"
  mc_reviewer :: "string option"
  mc_resolution :: string
  mc_created_at_ms :: int
  mc_updated_at_ms :: int
  mc_resolved_at_ms :: "int option"

record case_audit_row =
  ca_sequence :: nat
  ca_case_id :: string
  ca_action :: string
  ca_actor :: string
  ca_payload :: js
  ca_occurred_at_ms :: int

record moderation_db = artifact_db +
  cases :: "case_row list"
  case_audit :: "case_audit_row list"

definition case_get :: "string \<Rightarrow> 'a moderation_db_scheme \<Rightarrow> case_row option" where
  "case_get i db = row_where (\<lambda>r. mc_case_id r = i) (cases db)"

definition open_report :: "string \<Rightarrow> release_key \<Rightarrow> case_row \<Rightarrow> bool" where
  "open_report reporter key r \<longleftrightarrow>
     mc_type r = Report \<and> mc_state r = Case_Open \<and> mc_reporter_account_id r = Some reporter \<and> mc_key r = key"

definition duplicateReport :: "string \<Rightarrow> release_key \<Rightarrow> 'a moderation_db_scheme \<Rightarrow> case_row option" where
  "duplicateReport reporter key db = row_where (open_report reporter key) (cases db)"

definition open_appeal :: "string \<Rightarrow> case_row \<Rightarrow> bool" where
  "open_appeal report r \<longleftrightarrow> mc_type r = Appeal \<and> mc_state r = Case_Open \<and> mc_parent_case_id r = Some report"

definition duplicateAppeal :: "string \<Rightarrow> 'a moderation_db_scheme \<Rightarrow> case_row option" where
  "duplicateAppeal report db = row_where (open_appeal report) (cases db)"

definition report_row :: "string \<Rightarrow> release_key \<Rightarrow> string \<Rightarrow> string \<Rightarrow> string \<Rightarrow> int \<Rightarrow> case_row" where
  "report_row i key reporter reason details now =
     \<lparr>mc_case_id = i, mc_type = Report, mc_state = Case_Open, mc_key = key,
      mc_reporter_account_id = Some reporter, mc_appellant_account_id = None,
      mc_reason_code = Some reason, mc_details = details, mc_parent_case_id = None,
      mc_reviewer = None, mc_resolution = [], mc_created_at_ms = now, mc_updated_at_ms = now,
      mc_resolved_at_ms = None\<rparr>"

definition appeal_row :: "string \<Rightarrow> release_key \<Rightarrow> string \<Rightarrow> string \<Rightarrow> string \<Rightarrow> int \<Rightarrow> case_row" where
  "appeal_row i key appellant parent details now =
     \<lparr>mc_case_id = i, mc_type = Appeal, mc_state = Case_Open, mc_key = key,
      mc_reporter_account_id = None, mc_appellant_account_id = Some appellant,
      mc_reason_code = None, mc_details = details, mc_parent_case_id = Some parent,
      mc_reviewer = None, mc_resolution = [], mc_created_at_ms = now, mc_updated_at_ms = now,
      mc_resolved_at_ms = None\<rparr>"

definition case_insert :: "case_row \<Rightarrow> 'a moderation_db_scheme \<Rightarrow> error + 'a moderation_db_scheme" where
  "case_insert row db =
     (case insert_row mc_case_id SqliteConstraint row (cases db) of
        Inl e \<Rightarrow> Inl e
      | Inr rows \<Rightarrow> Inr (db\<lparr>cases := rows\<rparr>))"

definition set_resolved :: "case_state \<Rightarrow> string \<Rightarrow> string \<Rightarrow> int \<Rightarrow> case_row \<Rightarrow> case_row" where
  "set_resolved state reviewer resolution now r =
     r\<lparr>mc_state := state, mc_reviewer := Some reviewer, mc_resolution := resolution,
       mc_resolved_at_ms := Some now, mc_updated_at_ms := now\<rparr>"

definition still_open :: "string \<Rightarrow> case_row \<Rightarrow> bool" where
  "still_open i r \<longleftrightarrow> mc_case_id r = i \<and> mc_state r = Case_Open"

definition case_log ::
  "string \<Rightarrow> string \<Rightarrow> string \<Rightarrow> js \<Rightarrow> int \<Rightarrow> 'a moderation_db_scheme \<Rightarrow> 'a moderation_db_scheme" where
  "case_log i action actor payload now db =
     db\<lparr>case_audit := case_audit db @
        [\<lparr>ca_sequence = Suc (length (case_audit db)), ca_case_id = i, ca_action = action,
          ca_actor = actor, ca_payload = payload, ca_occurred_at_ms = now\<rparr>]\<rparr>"

section \<open>Validation\<close>

definition bounded :: "js \<Rightarrow> nat \<Rightarrow> bool \<Rightarrow> error + string" where
  "bounded value limit required =
     (let txt = trimmed value
      in if (required \<and> txt = []) \<or> limit < length txt
         then Inl (ModerationStoreError INVALID_MODERATION_INPUT) else Inr txt)"

definition case_component :: "js \<Rightarrow> error + string" where
  "case_component value =
     (case bounded value 128 True of Inl e \<Rightarrow> Inl e
      | Inr txt \<Rightarrow> if \<not> safe_component (lower txt) then Inl (ModerationStoreError INVALID_MODERATION_RELEASE)
                 else Inr (lower txt))"

definition case_version :: "js \<Rightarrow> error + string" where
  "case_version value =
     (case bounded value 128 True of Inl e \<Rightarrow> Inl e
      | Inr txt \<Rightarrow> if \<not> semantic_version txt then Inl (ModerationStoreError INVALID_MODERATION_RELEASE)
                 else Inr txt)"

definition case_releaseKey :: "raw_key \<Rightarrow> error + release_key" where
  "case_releaseKey raw =
     (case case_component (raw_kind raw) of Inl e \<Rightarrow> Inl e
      | Inr kind \<Rightarrow>
     (case case_component (raw_namespace raw) of Inl e \<Rightarrow> Inl e
      | Inr namespace \<Rightarrow>
     (case case_component (raw_name raw) of Inl e \<Rightarrow> Inl e
      | Inr name \<Rightarrow>
     (case case_version (raw_version raw) of Inl e \<Rightarrow> Inl e
      | Inr version \<Rightarrow>
          Inr \<lparr>rk_kind = kind, rk_namespace = namespace, rk_name = name, rk_version = version\<rparr>))))"

definition case_id_pattern :: "string \<Rightarrow> bool" where
  "case_id_pattern s \<longleftrightarrow>
     length s = 36 \<and> list_all (\<lambda>c. is_digit c \<or> lower_char c \<in> set ''abcdef'' \<or> c = CHR ''-'') s"

definition caseId :: "js \<Rightarrow> error + string" where
  "caseId value =
     (case bounded value 80 True of Inl e \<Rightarrow> Inl e
      | Inr txt \<Rightarrow> if \<not> case_id_pattern txt then Inl (ModerationStoreError INVALID_CASE_ID) else Inr txt)"

definition case_accountId :: "js \<Rightarrow> error + string" where
  "case_accountId value = bounded value 240 True"

definition report_reasons :: "string list" where
  "report_reasons = [''malware'', ''impersonation'', ''privacy'', ''policy'', ''other'']"

definition reasonCode :: "js \<Rightarrow> error + string" where
  "reasonCode value =
     (case bounded value 40 True of Inl e \<Rightarrow> Inl e
      | Inr txt \<Rightarrow> if lower txt \<notin> set report_reasons then Inl (ModerationStoreError INVALID_REPORT_REASON)
                 else Inr (lower txt))"

record public_case =
  pc_case_id :: string
  pc_type :: case_type
  pc_state :: case_state
  pc_release :: release_key
  pc_reason_code :: string
  pc_details :: string
  pc_parent_case_id :: "string option"
  pc_created_at_ms :: int
  pc_updated_at_ms :: int
  pc_resolved_at_ms :: "int option"
  pc_resolution :: string

definition publicCase :: "case_row \<Rightarrow> public_case" where
  "publicCase row =
     \<lparr>pc_case_id = mc_case_id row, pc_type = mc_type row, pc_state = mc_state row,
      pc_release = mc_key row, pc_reason_code = case_option [] id (mc_reason_code row),
      pc_details = mc_details row, pc_parent_case_id = mc_parent_case_id row,
      pc_created_at_ms = mc_created_at_ms row, pc_updated_at_ms = mc_updated_at_ms row,
      pc_resolved_at_ms = mc_resolved_at_ms row, pc_resolution = mc_resolution row\<rparr>"

section \<open>Methods\<close>

definition case_require :: "js \<Rightarrow> 'a moderation_db_scheme \<Rightarrow> error + case_row" where
  "case_require rawCaseId db =
     (case caseId rawCaseId of Inl e \<Rightarrow> Inl e
      | Inr i \<Rightarrow>
          (case case_get i db of
             None \<Rightarrow> Inl (ModerationStoreError CASE_NOT_FOUND)
           | Some row \<Rightarrow> Inr row))"

definition case_read ::
  "string \<Rightarrow> 'a moderation_db_scheme \<Rightarrow> (error + public_case) \<times> 'a moderation_db_scheme" where
  "case_read i db =
     (case case_require (JStr i) db of Inl e \<Rightarrow> (Inl e, db) | Inr row \<Rightarrow> (Inr (publicCase row), db))"

text \<open>\<open>#audit\<close> bounds the actor; the bound is part of the transaction.\<close>

definition case_audit_insert ::
  "string \<Rightarrow> string \<Rightarrow> string \<Rightarrow> js \<Rightarrow> int \<Rightarrow> 'a moderation_db_scheme \<Rightarrow> error + 'a moderation_db_scheme" where
  "case_audit_insert i action actor payload now db =
     (case bounded (JStr actor) 240 True of Inl e \<Rightarrow> Inl e
      | Inr who \<Rightarrow> Inr (case_log i action who payload now db))"

definition open_case ::
  "case_row \<Rightarrow> string \<Rightarrow> string \<Rightarrow> js \<Rightarrow> int \<Rightarrow> 'a moderation_db_scheme \<Rightarrow> error + 'a moderation_db_scheme" where
  "open_case row action actor payload now db =
     (case case_insert row db of Inl e \<Rightarrow> Inl e
      | Inr db1 \<Rightarrow> case_audit_insert (mc_case_id row) action actor payload now db1)"

definition createReport ::
  "string \<Rightarrow> int \<Rightarrow> js \<Rightarrow> js \<Rightarrow> js \<Rightarrow> raw_key \<Rightarrow> 'a moderation_db_scheme \<Rightarrow>
   (error + public_case) \<times> 'a moderation_db_scheme" where
  "createReport uuid now reporterAccountId rawReasonCode details raw db =
     (case case_accountId reporterAccountId of Inl e \<Rightarrow> (Inl e, db)
      | Inr reporter \<Rightarrow>
     (case case_releaseKey raw of Inl e \<Rightarrow> (Inl e, db)
      | Inr key \<Rightarrow>
     (case release_getRelease (as_raw key) db of Inl e \<Rightarrow> (Inl e, db)
      | Inr None \<Rightarrow> (Inl (ModerationStoreError MODERATION_RELEASE_NOT_FOUND), db)
      | Inr (Some _) \<Rightarrow>
     (case reasonCode rawReasonCode of Inl e \<Rightarrow> (Inl e, db)
      | Inr reason \<Rightarrow>
     (case bounded details 4000 False of Inl e \<Rightarrow> (Inl e, db)
      | Inr reportDetails \<Rightarrow>
     (if duplicateReport reporter key db \<noteq> None
      then (Inl (ModerationStoreError DUPLICATE_OPEN_REPORT), db)
      else and_then
        (transaction (open_case (report_row uuid key reporter reason reportDetails now)
           ''report.created'' (''account:'' @ reporter) (JObj [(''reasonCode'', JStr reason)]) now) db)
        (\<lambda>_ db'. case_read uuid db')))))))"

definition resolve_case ::
  "string \<Rightarrow> case_state \<Rightarrow> string \<Rightarrow> string \<Rightarrow> string \<Rightarrow> string \<Rightarrow> int \<Rightarrow>
   'a moderation_db_scheme \<Rightarrow> error + 'a moderation_db_scheme" where
  "resolve_case i state action reviewer resolution decision now db =
     (if changes (still_open i) (cases db) \<noteq> 1
      then Inl (ModerationStoreError CASE_ALREADY_RESOLVED)
      else case_audit_insert i action (''reviewer:'' @ reviewer) (JObj [(''decision'', JStr decision)]) now
        (db\<lparr>cases := update_where (still_open i) (set_resolved state reviewer resolution now) (cases db)\<rparr>))"

text \<open>The release side of a report that is actioned, before the case is resolved.\<close>

definition action_release ::
  "int \<Rightarrow> release_key \<Rightarrow> string \<Rightarrow> string \<Rightarrow> 'a moderation_db_scheme \<Rightarrow>
   (error + unit) \<times> 'a moderation_db_scheme" where
  "action_release now key reviewer notes db =
     (case release_getRelease (as_raw key) db of Inl e \<Rightarrow> (Inl e, db)
      | Inr None \<Rightarrow> (Inl (ModerationStoreError MODERATION_RELEASE_NOT_FOUND), db)
      | Inr (Some release) \<Rightarrow>
          (if pr_state release = Approved
           then and_then (release_revoke now (JStr reviewer) (JStr notes) (as_raw key) db) (\<lambda>_ db'. (Inr (), db'))
           else if pr_state release \<noteq> Revoked
           then (Inl (ModerationStoreError RELEASE_NOT_ACTIONABLE), db)
           else (Inr (), db)))"

definition resolveReport ::
  "int \<Rightarrow> int \<Rightarrow> js \<Rightarrow> js \<Rightarrow> js \<Rightarrow> js \<Rightarrow> 'a moderation_db_scheme \<Rightarrow>
   (error + public_case) \<times> 'a moderation_db_scheme" where
  "resolveReport release_now now rawCaseId decision reviewer resolution db =
     (case case_require rawCaseId db of Inl e \<Rightarrow> (Inl e, db)
      | Inr row \<Rightarrow>
     (if mc_type row \<noteq> Report then (Inl (ModerationStoreError WRONG_CASE_TYPE), db)
      else if mc_state row \<noteq> Case_Open then (Inl (ModerationStoreError CASE_ALREADY_RESOLVED), db)
      else
     (case map_sum id lower (bounded decision 24 True) of Inl e \<Rightarrow> (Inl e, db)
      | Inr normalizedDecision \<Rightarrow>
     (if normalizedDecision \<notin> set [''dismiss'', ''revoke'']
      then (Inl (ModerationStoreError INVALID_MODERATION_DECISION), db)
      else
     (case bounded (or_else reviewer (JStr ''marketplace-reviewer'')) 160 True of Inl e \<Rightarrow> (Inl e, db)
      | Inr reviewerName \<Rightarrow>
     (case bounded resolution 4000 False of Inl e \<Rightarrow> (Inl e, db)
      | Inr resolutionText \<Rightarrow>
     (case case_releaseKey (as_raw (mc_key row)) of Inl e \<Rightarrow> (Inl e, db)
      | Inr key \<Rightarrow>
        and_then
          (if normalizedDecision = ''revoke''
           then action_release release_now key reviewerName
             (if resolutionText \<noteq> [] then resolutionText else ''moderation case '' @ mc_case_id row) db
           else (Inr (), db))
          (\<lambda>_ db1.
            and_then
              (transaction
                (let state = (if normalizedDecision = ''revoke'' then Case_Actioned else Case_Dismissed)
                 in resolve_case (mc_case_id row) state
                      (if normalizedDecision = ''revoke'' then ''report.actioned'' else ''report.dismissed'')
                      reviewerName resolutionText normalizedDecision now) db1)
              (\<lambda>_ db2. case_read (mc_case_id row) db2)))))))))"

definition createAppeal ::
  "string \<Rightarrow> int \<Rightarrow> js \<Rightarrow> js \<Rightarrow> js \<Rightarrow> 'a moderation_db_scheme \<Rightarrow>
   (error + public_case) \<times> 'a moderation_db_scheme" where
  "createAppeal uuid now reportCaseId actorAccountId details db =
     (case case_require reportCaseId db of Inl e \<Rightarrow> (Inl e, db)
      | Inr report \<Rightarrow>
     (if mc_type report \<noteq> Report \<or> mc_state report \<noteq> Case_Actioned
      then (Inl (ModerationStoreError REPORT_NOT_APPEALABLE), db)
      else
     (case case_accountId actorAccountId of Inl e \<Rightarrow> (Inl e, db)
      | Inr actor \<Rightarrow>
     (case publisher_assertOwned (JStr (rk_namespace (mc_key report))) (JStr actor) db of Inl e \<Rightarrow> (Inl e, db)
      | Inr _ \<Rightarrow>
     (if duplicateAppeal (mc_case_id report) db \<noteq> None
      then (Inl (ModerationStoreError DUPLICATE_OPEN_APPEAL), db)
      else
     (case bounded details 4000 True of Inl e \<Rightarrow> (Inl e, db)
      | Inr appealDetails \<Rightarrow>
        and_then
          (transaction (open_case (appeal_row uuid (mc_key report) actor (mc_case_id report) appealDetails now)
             ''appeal.created'' (''account:'' @ actor)
             (JObj [(''reportCaseId'', JStr (mc_case_id report))]) now) db)
          (\<lambda>_ db'. case_read uuid db')))))))"

definition resolveAppeal ::
  "int \<Rightarrow> js \<Rightarrow> js \<Rightarrow> js \<Rightarrow> js \<Rightarrow> 'a moderation_db_scheme \<Rightarrow>
   (error + public_case) \<times> 'a moderation_db_scheme" where
  "resolveAppeal now rawCaseId decision reviewer resolution db =
     (case case_require rawCaseId db of Inl e \<Rightarrow> (Inl e, db)
      | Inr row \<Rightarrow>
     (if mc_type row \<noteq> Appeal then (Inl (ModerationStoreError WRONG_CASE_TYPE), db)
      else if mc_state row \<noteq> Case_Open then (Inl (ModerationStoreError CASE_ALREADY_RESOLVED), db)
      else
     (case map_sum id lower (bounded decision 24 True) of Inl e \<Rightarrow> (Inl e, db)
      | Inr normalizedDecision \<Rightarrow>
     (if normalizedDecision \<notin> set [''accept'', ''reject'']
      then (Inl (ModerationStoreError INVALID_MODERATION_DECISION), db)
      else
     (case bounded (or_else reviewer (JStr ''marketplace-reviewer'')) 160 True of Inl e \<Rightarrow> (Inl e, db)
      | Inr reviewerName \<Rightarrow>
     (case bounded resolution 4000 False of Inl e \<Rightarrow> (Inl e, db)
      | Inr resolutionText \<Rightarrow>
        and_then
          (transaction
            (let state = (if normalizedDecision = ''accept'' then Case_Accepted else Case_Rejected)
             in resolve_case (mc_case_id row) state
                  (if normalizedDecision = ''accept'' then ''appeal.accepted'' else ''appeal.rejected'')
                  reviewerName resolutionText normalizedDecision now) db)
          (\<lambda>_ db'. case_read (mc_case_id row) db')))))))"

definition newest_first :: "case_row list \<Rightarrow> case_row list" where
  "newest_first rows = sort_key (\<lambda>r. - mc_created_at_ms r) (sort_key mc_case_id rows)"

definition case_listMine :: "js \<Rightarrow> 'a moderation_db_scheme \<Rightarrow> error + public_case list" where
  "case_listMine reporterAccountId db =
     (case case_accountId reporterAccountId of Inl e \<Rightarrow> Inl e
      | Inr reporter \<Rightarrow>
          Inr (map publicCase (newest_first
            (filter (\<lambda>r. mc_type r = Report \<and> mc_reporter_account_id r = Some reporter) (cases db)))))"

definition listPublisherAppeals :: "js \<Rightarrow> 'a moderation_db_scheme \<Rightarrow> error + public_case list" where
  "listPublisherAppeals actorAccountId db =
     (case case_accountId actorAccountId of Inl e \<Rightarrow> Inl e
      | Inr actor \<Rightarrow>
     (case publisher_listOwned (JStr actor) db of Inl e \<Rightarrow> Inl e
      | Inr owned \<Rightarrow>
          Inr (map publicCase
            (filter (\<lambda>r. rk_namespace (mc_key r) \<in> set (map pn_namespace owned) \<and>
                mc_appellant_account_id r = Some actor)
              (newest_first (filter (\<lambda>r. mc_type r = Appeal) (cases db)))))))"

definition case_audit_list :: "js \<Rightarrow> 'a moderation_db_scheme \<Rightarrow> error + case_audit_row list" where
  "case_audit_list rawCaseId db =
     (case case_require rawCaseId db of Inl e \<Rightarrow> Inl e
      | Inr row \<Rightarrow> Inr (sort_key ca_sequence (filter (\<lambda>a. ca_case_id a = mc_case_id row) (case_audit db))))"

definition case_find :: "js \<Rightarrow> 'a moderation_db_scheme \<Rightarrow> error + public_case" where
  "case_find rawCaseId db = map_sum id publicCase (case_require rawCaseId db)"

section \<open>The validators\<close>

lemma bounded_Inr [guards]:
  "bounded v n req = Inr t \<longleftrightarrow> t = trimmed v \<and> (req \<longrightarrow> t \<noteq> []) \<and> length t \<le> n"
  by (auto simp: bounded_def Let_def)

lemma case_component_Inr [guards]:
  "case_component v = Inr c \<longleftrightarrow> c = trimmed_lower v \<and> safe_component c"
proof -
  have "safe_component (trimmed_lower v) \<Longrightarrow> trimmed v \<noteq> [] \<and> length (trimmed v) \<le> 128"
    by (auto simp: safe_component_def trimmed_lower_def)
  then show ?thesis
    by (cases "bounded v 128 True")
      (auto simp: case_component_def trimmed_lower_def guards bounded_def Let_def split: if_splits)
qed

lemma case_version_Inr [guards]:
  "case_version v = Inr c \<longleftrightarrow> c = trimmed v \<and> semantic_version c \<and> length c \<le> 128"
  using semantic_version_nonempty [of "trimmed v"]
  by (auto simp: case_version_def bounded_def Let_def split: if_splits)

lemma case_releaseKey_Inr:
  "case_releaseKey raw = Inr key \<longleftrightarrow> releaseKey raw = Inr key \<and> length (rk_version key) \<le> 128"
proof -
  have "case_releaseKey raw = Inr key \<longleftrightarrow>
     case_component (raw_kind raw) = Inr (rk_kind key) \<and>
     case_component (raw_namespace raw) = Inr (rk_namespace key) \<and>
     case_component (raw_name raw) = Inr (rk_name key) \<and>
     case_version (raw_version raw) = Inr (rk_version key)"
    by (cases key) (auto simp: case_releaseKey_def split: sum.splits)
  then show ?thesis by (auto simp: releaseKey_Inr guards)
qed

definition case_key_ok :: "release_key \<Rightarrow> bool" where
  "case_key_ok key \<longleftrightarrow> key_ok key \<and> length (rk_version key) \<le> 128"

lemma case_releaseKey_ok: "case_releaseKey raw = Inr key \<Longrightarrow> case_key_ok key"
  by (auto simp: case_releaseKey_Inr case_key_ok_def releaseKey_ok)

lemma case_releaseKey_as_raw [simp]: "case_key_ok key \<Longrightarrow> case_releaseKey (as_raw key) = Inr key"
  by (simp add: case_releaseKey_Inr case_key_ok_def)

section \<open>The statements\<close>

interpretation case_table: keyed_table case_get cases mc_case_id
  by unfold_locales (simp add: case_get_def)

lemma case_insert_Inr:
  "case_insert row db = Inr db' \<longleftrightarrow>
     case_get (mc_case_id row) db = None \<and> db' = db\<lparr>cases := cases db @ [row]\<rparr>"
  by (auto simp: case_insert_def case_table.lookup_None insert_row_def)

text \<open>The tables of the other stores, which a case method changes only by revoking a release.\<close>

definition same_platform :: "'a moderation_db_scheme \<Rightarrow> 'a moderation_db_scheme \<Rightarrow> bool" where
  "same_platform db db' \<longleftrightarrow>
     namespaces db' = namespaces db \<and> publisher_audit db' = publisher_audit db \<and>
     releases db' = releases db \<and> configured_signer db' = configured_signer db \<and>
     trust_keys db' = trust_keys db \<and> signatures db' = signatures db \<and>
     artifacts db' = artifacts db \<and> cas db' = cas db"

lemma case_log_frames [simp]:
  "cases (case_log i a ac p now db) = cases db" "same_platform db (case_log i a ac p now db)"
  "releases (case_log i a ac p now db) = releases db"
  by (simp_all add: case_log_def same_platform_def)

lemma case_audit_insert_Inr:
  assumes "case_audit_insert i a ac p now db = Inr db'"
  shows "cases db' = cases db" and "same_platform db db'"
  using assms by (auto simp: case_audit_insert_def split: sum.splits)

lemma same_platform_trans: "same_platform a b \<Longrightarrow> same_platform b c \<Longrightarrow> same_platform a c"
  by (simp add: same_platform_def)

lemma same_platform_cases [simp]: "same_platform db (db\<lparr>cases := x\<rparr>)"
  by (simp add: same_platform_def)

lemma same_platform_refl [simp]: "same_platform db db"
  by (simp add: same_platform_def)

lemma open_case_Inr:
  assumes "open_case row a ac p now db = Inr db'"
  shows "case_get (mc_case_id row) db = None" and "cases db' = cases db @ [row]" and "same_platform db db'"
proof -
  from assms have none: "case_get (mc_case_id row) db = None"
    and log: "case_audit_insert (mc_case_id row) a ac p now (db\<lparr>cases := cases db @ [row]\<rparr>) = Inr db'"
    by (auto simp: open_case_def case_insert_Inr split: sum.splits)
  show "case_get (mc_case_id row) db = None" by (rule none)
  show "cases db' = cases db @ [row]" using case_audit_insert_Inr(1) [OF log] by simp
  show "same_platform db db'"
    by (rule same_platform_trans [OF same_platform_cases case_audit_insert_Inr(2) [OF log]])
qed

lemma resolve_case_Inr:
  assumes "resolve_case i st a v res dec now db = Inr db'"
  shows "\<exists>r\<in>set (cases db). still_open i r"
    and "cases db' = update_where (still_open i) (set_resolved st v res now) (cases db)"
    and "same_platform db db'"
proof -
  from assms have one: "changes (still_open i) (cases db) = 1"
    and ins: "case_audit_insert i a (''reviewer:'' @ v) (JObj [(''decision'', JStr dec)]) now
        (db\<lparr>cases := update_where (still_open i) (set_resolved st v res now) (cases db)\<rparr>) = Inr db'"
    by (auto simp: resolve_case_def split: if_splits)
  show "\<exists>r\<in>set (cases db). still_open i r"
  proof (rule ccontr)
    assume "\<not> (\<exists>r\<in>set (cases db). still_open i r)"
    then have "filter (still_open i) (cases db) = []" by (simp add: filter_empty_conv)
    with one show False by (simp add: changes_def)
  qed
  show "cases db' = update_where (still_open i) (set_resolved st v res now) (cases db)"
    using case_audit_insert_Inr(1) [OF ins] by simp
  show "same_platform db db'"
    by (rule same_platform_trans [OF same_platform_cases case_audit_insert_Inr(2) [OF ins]])
qed

section \<open>What the methods do to the tables\<close>

definition verdict_of :: "case_type \<Rightarrow> case_state \<Rightarrow> bool" where
  "verdict_of ty st \<longleftrightarrow>
     (case ty of Report \<Rightarrow> st = Case_Dismissed \<or> st = Case_Actioned | Appeal \<Rightarrow> st = Case_Accepted \<or> st = Case_Rejected)"

inductive case_effect :: "'a moderation_db_scheme \<Rightarrow> 'a moderation_db_scheme \<Rightarrow> bool" where
  reported: "case_get i db = None \<Longrightarrow> case_key_ok key \<Longrightarrow> release_get key db = Some rel \<Longrightarrow>
    duplicateReport reporter key db = None \<Longrightarrow> reason \<in> set report_reasons \<Longrightarrow>
    cases db' = cases db @ [report_row i key reporter reason details now] \<Longrightarrow> same_platform db db' \<Longrightarrow>
    case_effect db db'"
| appealed: "case_get i db = None \<Longrightarrow> report \<in> set (cases db) \<Longrightarrow> mc_type report = Report \<Longrightarrow>
    mc_state report = Case_Actioned \<Longrightarrow> duplicateAppeal (mc_case_id report) db = None \<Longrightarrow>
    publisher_owned (JStr (rk_namespace (mc_key report))) (JStr actor) db = Inr ns \<Longrightarrow>
    cases db' = cases db @ [appeal_row i (mc_key report) actor (mc_case_id report) details now] \<Longrightarrow>
    same_platform db db' \<Longrightarrow> case_effect db db'"
| resolved: "case_get i db = Some row \<Longrightarrow> mc_state row = Case_Open \<Longrightarrow> verdict_of (mc_type row) st \<Longrightarrow>
    (st = Case_Actioned \<Longrightarrow> \<exists>rel. release_get (mc_key row) db = Some rel \<and> rel_state rel = Revoked) \<Longrightarrow>
    cases db' = update_where (still_open i) (set_resolved st v res now) (cases db) \<Longrightarrow>
    same_platform db db' \<Longrightarrow> case_effect db db'"

lemma case_read_state: "case_read i db = (r, db') \<Longrightarrow> db' = db"
  by (auto simp: case_read_def split: sum.splits)

lemma commit_case:
  assumes "and_then (transaction body db) (\<lambda>_ d. case_read i d) = (r, db')"
  shows "db' = db \<or> body db = Inr db'"
  using assms by (cases r) (auto simp: and_then_Inr and_then_Inl transaction_simps dest: case_read_state)

lemma case_require_Inr: "case_require i db = Inr row \<Longrightarrow> case_get (mc_case_id row) db = Some row"
  by (auto simp: case_require_def dest: case_table.lookup_Some split: sum.splits option.splits)

lemma createReport_effect:
  assumes "createReport uuid now acc reason details raw db = (r, db')"
  shows "db' = db \<or> case_effect db db'"
proof -
  note op = assms [unfolded createReport_def]
  show ?thesis
  proof (cases "\<exists>reporter key code d rel. case_accountId acc = Inr reporter \<and> case_releaseKey raw = Inr key \<and>
      release_get key db = Some rel \<and> reasonCode reason = Inr code \<and> bounded details 4000 False = Inr d \<and>
      duplicateReport reporter key db = None \<and> db' \<noteq> db")
    case False
    with op show ?thesis
      by (auto dest: case_releaseKey_ok simp: case_key_ok_def split: sum.splits option.splits if_splits)
  next
    case True
    then obtain reporter key code d rel where guards: "case_accountId acc = Inr reporter"
      "case_releaseKey raw = Inr key" "release_get key db = Some rel" "reasonCode reason = Inr code"
      "bounded details 4000 False = Inr d" "duplicateReport reporter key db = None" "db' \<noteq> db" by blast
    have key: "case_key_ok key" using guards(2) by (rule case_releaseKey_ok)
    with op guards have "and_then (transaction (open_case (report_row uuid key reporter code d now)
        ''report.created'' (''account:'' @ reporter) (JObj [(''reasonCode'', JStr code)]) now) db)
        (\<lambda>_ d. case_read uuid d) = (r, db')"
      by (simp add: case_key_ok_def)
    from commit_case [OF this] guards(7)
    have body: "open_case (report_row uuid key reporter code d now)
        ''report.created'' (''account:'' @ reporter) (JObj [(''reasonCode'', JStr code)]) now db = Inr db'"
      by blast
    have "code \<in> set report_reasons"
      using guards(4) by (auto simp: reasonCode_def split: sum.splits if_splits)
    with open_case_Inr [OF body] key guards show ?thesis
      by (intro disjI2 case_effect.reported) (simp_all add: report_row_def)
  qed
qed

lemma createAppeal_effect:
  assumes "createAppeal uuid now report acc details db = (r, db')"
  shows "db' = db \<or> case_effect db db'"
proof -
  note op = assms [unfolded createAppeal_def]
  show ?thesis
  proof (cases "\<exists>row actor ns d. case_require report db = Inr row \<and> mc_type row = Report \<and>
      mc_state row = Case_Actioned \<and> case_accountId acc = Inr actor \<and>
      publisher_assertOwned (JStr (rk_namespace (mc_key row))) (JStr actor) db = Inr ns \<and>
      duplicateAppeal (mc_case_id row) db = None \<and> bounded details 4000 True = Inr d \<and> db' \<noteq> db")
    case False
    with op show ?thesis by (auto split: sum.splits if_splits)
  next
    case True
    then obtain row actor ns d where guards: "case_require report db = Inr row" "mc_type row = Report"
      "mc_state row = Case_Actioned" "case_accountId acc = Inr actor"
      "publisher_assertOwned (JStr (rk_namespace (mc_key row))) (JStr actor) db = Inr ns"
      "duplicateAppeal (mc_case_id row) db = None" "bounded details 4000 True = Inr d" "db' \<noteq> db" by blast
    with op have "and_then (transaction (open_case (appeal_row uuid (mc_key row) actor (mc_case_id row) d now)
        ''appeal.created'' (''account:'' @ actor)
        (JObj [(''reportCaseId'', JStr (mc_case_id row))]) now) db) (\<lambda>_ d. case_read uuid d) = (r, db')"
      by simp
    from commit_case [OF this] guards(8)
    have body: "open_case (appeal_row uuid (mc_key row) actor (mc_case_id row) d now)
        ''appeal.created'' (''account:'' @ actor)
        (JObj [(''reportCaseId'', JStr (mc_case_id row))]) now db = Inr db'" by blast
    from guards(5) obtain nrow where "publisher_owned (JStr (rk_namespace (mc_key row))) (JStr actor) db = Inr nrow"
      by (auto simp: publisher_assertOwned_def split: sum.splits)
    moreover have "row \<in> set (cases db)"
      using case_table.lookup_Some [OF case_require_Inr [OF guards(1)]] by simp
    ultimately show ?thesis
      using open_case_Inr [OF body] guards
      by (intro disjI2 case_effect.appealed [of uuid db row actor nrow _ d now]) (simp_all add: appeal_row_def)
  qed
qed

lemma cases_frames [simp]:
  "cases (release_log k a ac p now db) = cases db" "cases (release_update key f db) = cases db"
  by (simp_all add: release_log_def release_update_def)

lemma revoke_release_state:
  assumes "revoke_release now key row actor notes action db = (r, db')"
  shows "cases db' = cases db"
    and "r = Inr x \<Longrightarrow> release_get key db' = map_option (set_revoked actor (slice_to 4000 (trimmed notes)) now) (release_get key db)"
  using assms
  by (auto simp: revoke_release_def Let_def and_then_Inr transaction_simps release_get_update
      dest!: commit_read release_read_state)

lemma release_revoke_state:
  assumes "release_revoke now v n (as_raw key) db = (r, db')" and "key_ok key"
  shows "cases db' = cases db"
    and "r = Inr x \<Longrightarrow> \<exists>rel. release_get key db' = Some rel \<and> rel_state rel = Revoked"
  using assms
  by (auto simp: release_revoke_def guards split: sum.splits if_splits dest: revoke_release_state)

lemma action_release_state:
  assumes op: "action_release now key v n db = (r, db')" and key: "key_ok key"
  shows "cases db' = cases db" and "db' = db \<or> release_effect env db db'"
    and "r = Inr x \<Longrightarrow> \<exists>rel. release_get key db' = Some rel \<and> rel_state rel = Revoked"
proof -
  have "cases db' = cases db \<and> (db' = db \<or> release_effect env db db') \<and>
    (r = Inr x \<longrightarrow> (\<exists>rel. release_get key db' = Some rel \<and> rel_state rel = Revoked))"
  proof (cases "release_get key db")
    case None
    with op key show ?thesis by (auto simp: action_release_def)
  next
    case (Some rel)
    show ?thesis
    proof (cases "rel_state rel = Approved")
      case True
      obtain q db1 where rv: "release_revoke now (JStr v) (JStr n) (as_raw key) db = (q, db1)" by fastforce
      note st = release_revoke_state [OF rv key] release_revoke_effect [OF rv, of env]
      from op key Some True rv have "db' = db1" "r = Inr x \<Longrightarrow> \<exists>y. q = Inr y"
        by (cases q; auto simp: action_release_def)+
      with st show ?thesis by auto
    next
      case False
      with op key Some show ?thesis by (auto simp: action_release_def split: if_splits)
    qed
  qed
  then show "cases db' = cases db" and "db' = db \<or> release_effect env db db'"
    and "r = Inr x \<Longrightarrow> \<exists>rel. release_get key db' = Some rel \<and> rel_state rel = Revoked" by auto
qed

lemma resolve_case_effect:
  assumes row: "case_get i db = Some row" and "verdict_of (mc_type row) st"
    and act: "st = Case_Actioned \<Longrightarrow> \<exists>rel. release_get (mc_key row) db = Some rel \<and> rel_state rel = Revoked"
    and dist: "mc_state row = Case_Open" and body: "resolve_case i st a v res dec now db = Inr db'"
  shows "case_effect db db'"
  by (rule case_effect.resolved [OF row dist assms(2) act resolve_case_Inr(2,3) [OF body]])

lemma resolveAppeal_effect:
  assumes "resolveAppeal now i decision reviewer res db = (r, db')"
  shows "db' = db \<or> case_effect db db'"
proof -
  note op = assms [unfolded resolveAppeal_def Let_def]
  show ?thesis
  proof (cases "\<exists>row dec v t. case_require i db = Inr row \<and> mc_type row = Appeal \<and> mc_state row = Case_Open \<and>
      map_sum id lower (bounded decision 24 True) = Inr dec \<and> (dec = ''accept'' \<or> dec = ''reject'') \<and>
      bounded (or_else reviewer (JStr ''marketplace-reviewer'')) 160 True = Inr v \<and>
      bounded res 4000 False = Inr t")
    case False
    with op show ?thesis by (auto simp del: or_else_simps split: sum.splits if_splits)
  next
    case True
    then obtain row dec v t where guards: "case_require i db = Inr row" "mc_type row = Appeal"
      "mc_state row = Case_Open" "map_sum id lower (bounded decision 24 True) = Inr dec"
      "dec = ''accept'' \<or> dec = ''reject''"
      "bounded (or_else reviewer (JStr ''marketplace-reviewer'')) 160 True = Inr v"
      "bounded res 4000 False = Inr t" by blast
    define st a where "st = (if dec = ''accept'' then Case_Accepted else Case_Rejected)"
      and "a = (if dec = ''accept'' then ''appeal.accepted'' else ''appeal.rejected'')"
    from op guards have "and_then (transaction (resolve_case (mc_case_id row) st a v t dec now) db)
        (\<lambda>_ d. case_read (mc_case_id row) d) = (r, db')"
      by (auto simp: st_def a_def)
    from commit_case [OF this] show ?thesis
    proof
      assume "resolve_case (mc_case_id row) st a v t dec now db = Inr db'"
      then show ?thesis
        by (intro disjI2 resolve_case_effect [OF case_require_Inr [OF guards(1)] _ _ guards(3)])
          (auto simp: st_def verdict_of_def guards(2) split: if_splits)
    qed simp
  qed
qed

text \<open>
  Resolving a report is two transactions: the release may be revoked and the case left open when
  the second one fails.
\<close>

lemma resolveReport_effect:
  assumes keys: "\<forall>c\<in>set (cases db). case_key_ok (mc_key c)"
    and "resolveReport release_now now i decision reviewer res db = (r, db')"
  shows "\<exists>db1. cases db1 = cases db \<and> (db1 = db \<or> release_effect env db db1) \<and>
    (db' = db1 \<or> case_effect db1 db')"
proof -
  note op = assms(2) [unfolded resolveReport_def Let_def]
  show ?thesis
  proof (cases "\<exists>row dec v t. case_require i db = Inr row \<and> mc_type row = Report \<and> mc_state row = Case_Open \<and>
      map_sum id lower (bounded decision 24 True) = Inr dec \<and> (dec = ''dismiss'' \<or> dec = ''revoke'') \<and>
      bounded (or_else reviewer (JStr ''marketplace-reviewer'')) 160 True = Inr v \<and>
      bounded res 4000 False = Inr t \<and> case_key_ok (mc_key row)")
    case False
    have "db' = db"
    proof (cases "case_require i db")
      case (Inr row)
      then have "case_key_ok (mc_key row)"
        using keys case_table.lookup_Some [OF case_require_Inr [OF Inr]] by auto
      with False op Inr show ?thesis
        by (auto simp del: or_else_simps split: sum.splits if_splits)
    qed (use op in simp)
    then show ?thesis by blast
  next
    case True
    then obtain row dec v t where guards: "case_require i db = Inr row" "mc_type row = Report"
      "mc_state row = Case_Open" "map_sum id lower (bounded decision 24 True) = Inr dec"
      "dec = ''dismiss'' \<or> dec = ''revoke''"
      "bounded (or_else reviewer (JStr ''marketplace-reviewer'')) 160 True = Inr v"
      "bounded res 4000 False = Inr t" "case_key_ok (mc_key row)" by blast
    define st a where "st = (if dec = ''revoke'' then Case_Actioned else Case_Dismissed)"
      and "a = (if dec = ''revoke'' then ''report.actioned'' else ''report.dismissed'')"
    define first where "first = (if dec = ''revoke''
      then action_release release_now (mc_key row) v (if t \<noteq> [] then t else ''moderation case '' @ mc_case_id row) db
      else (Inr (), db))"
    obtain q db1 where q: "first = (q, db1)" by fastforce
    have two: "and_then first (\<lambda>_ db1. and_then (transaction (resolve_case (mc_case_id row) st a v t dec now) db1)
        (\<lambda>_ db2. case_read (mc_case_id row) db2)) = (r, db')"
      using op guards unfolding st_def a_def first_def by auto
    have key: "key_ok (mc_key row)" using guards(8) by (simp add: case_key_ok_def)
    have db1: "cases db1 = cases db" "db1 = db \<or> release_effect env db db1"
      "q = Inr () \<Longrightarrow> dec = ''revoke'' \<Longrightarrow> \<exists>rel. release_get (mc_key row) db1 = Some rel \<and> rel_state rel = Revoked"
    proof (atomize (full), cases "dec = ''revoke''")
      case False
      with q show "cases db1 = cases db \<and> (db1 = db \<or> release_effect env db db1) \<and>
          (q = Inr () \<longrightarrow> dec = ''revoke'' \<longrightarrow>
            (\<exists>rel. release_get (mc_key row) db1 = Some rel \<and> rel_state rel = Revoked))"
        by (simp add: first_def)
    next
      case True
      with q obtain n where "action_release release_now (mc_key row) v n db = (q, db1)"
        unfolding first_def by simp
      note st = action_release_state [OF this key]
      then show "cases db1 = cases db \<and> (db1 = db \<or> release_effect env db db1) \<and>
          (q = Inr () \<longrightarrow> dec = ''revoke'' \<longrightarrow>
            (\<exists>rel. release_get (mc_key row) db1 = Some rel \<and> rel_state rel = Revoked))"
        by blast
    qed
    show ?thesis
    proof (cases q)
      case (Inl e)
      with two q db1 show ?thesis by auto
    next
      case (Inr u)
      with two q have "and_then (transaction (resolve_case (mc_case_id row) st a v t dec now) db1)
        (\<lambda>_ db2. case_read (mc_case_id row) db2) = (r, db')" by simp
      from commit_case [OF this] have "db' = db1 \<or> case_effect db1 db'"
      proof
        assume body: "resolve_case (mc_case_id row) st a v t dec now db1 = Inr db'"
        have get: "case_get (mc_case_id row) db1 = Some row"
          using case_require_Inr [OF guards(1)] case_table.lookup_same [OF db1(1)] by simp
        have "case_effect db1 db'"
          by (rule resolve_case_effect [OF get _ _ guards(3) body])
            (use Inr db1(3) guards(5) in \<open>auto simp: st_def verdict_of_def guards(2) split: if_splits\<close>)
        then show ?thesis by blast
      qed simp
      with db1 show ?thesis by blast
    qed
  qed
qed

section \<open>The invariant of the cases\<close>

definition case_ok :: "release_row list \<Rightarrow> case_row list \<Rightarrow> case_row \<Rightarrow> bool" where
  "case_ok rels all c \<longleftrightarrow>
     case_key_ok (mc_key c) \<and> (mc_state c = Case_Open \<or> verdict_of (mc_type c) (mc_state c)) \<and>
     (mc_resolved_at_ms c = None \<longleftrightarrow> mc_state c = Case_Open) \<and>
     (mc_state c = Case_Actioned \<longrightarrow> (\<exists>r\<in>set rels. rel_key r = mc_key c \<and> rel_state r = Revoked)) \<and>
     (mc_type c = Appeal \<longrightarrow>
        (\<exists>p\<in>set all. mc_type p = Report \<and> mc_state p = Case_Actioned \<and>
           mc_parent_case_id c = Some (mc_case_id p) \<and> mc_key p = mc_key c))"

definition cases_inv :: "'a moderation_db_scheme \<Rightarrow> bool" where
  "cases_inv db \<longleftrightarrow>
     distinct (map mc_case_id (cases db)) \<and>
     (\<forall>c\<in>set (cases db). case_ok (releases db) (cases db) c) \<and>
     (\<forall>reporter key. changes (open_report reporter key) (cases db) \<le> 1) \<and>
     (\<forall>report. changes (open_appeal report) (cases db) \<le> 1)"

lemma changes_append [simp]: "changes p (xs @ ys) = changes p xs + changes p ys"
  by (simp add: changes_def)

lemma changes_one [simp]: "changes p [x] = (if p x then 1 else 0)"
  by (simp add: changes_def)

lemma changes_none: "row_where p rows = None \<Longrightarrow> changes p rows = 0"
  by (simp add: changes_def filter_False)

lemma changes_update_le:
  "(\<And>r. r \<in> set rows \<Longrightarrow> q r \<Longrightarrow> p (f r) \<Longrightarrow> p r) \<Longrightarrow> changes p (update_where q f rows) \<le> changes p rows"
  by (induction rows) (auto simp: changes_def)

lemma set_resolved_sel [simp]:
  "mc_case_id (set_resolved st v res now r) = mc_case_id r" "mc_type (set_resolved st v res now r) = mc_type r"
  "mc_key (set_resolved st v res now r) = mc_key r" "mc_state (set_resolved st v res now r) = st"
  "mc_parent_case_id (set_resolved st v res now r) = mc_parent_case_id r"
  "mc_resolved_at_ms (set_resolved st v res now r) = Some now"
  by (simp_all add: set_resolved_def)

lemma case_ok_mono:
  assumes "case_ok rels all c"
    and "\<And>r. r \<in> set rels \<Longrightarrow> rel_state r = Revoked \<Longrightarrow> r \<in> set rels'"
    and "\<And>p. p \<in> set all \<Longrightarrow> mc_state p = Case_Actioned \<Longrightarrow> p \<in> set all'"
  shows "case_ok rels' all' c"
  using assms unfolding case_ok_def by metis

lemma cases_inv_keys: "cases_inv db \<Longrightarrow> \<forall>c\<in>set (cases db). case_key_ok (mc_key c)"
  by (simp add: cases_inv_def case_ok_def)

lemma open_report_row [simp]:
  "open_report rep k (report_row i key reporter reason details now) \<longleftrightarrow> reporter = rep \<and> key = k"
  "\<not> open_report rep k (appeal_row i key actor parent details now)"
  "open_appeal p (appeal_row i key actor parent details now) \<longleftrightarrow> parent = p"
  "\<not> open_appeal p (report_row i key reporter reason details now)"
  by (auto simp: open_report_def open_appeal_def report_row_def appeal_row_def)

lemma new_row_ok:
  "case_key_ok key \<Longrightarrow> case_ok rels all (report_row i key reporter reason details now)"
  "case_key_ok (mc_key p) \<Longrightarrow> p \<in> set all \<Longrightarrow> mc_type p = Report \<Longrightarrow> mc_state p = Case_Actioned \<Longrightarrow>
     case_ok rels all (appeal_row i (mc_key p) actor (mc_case_id p) details now)"
  by (auto simp: case_ok_def report_row_def appeal_row_def)

lemma new_row_id [simp]:
  "mc_case_id (report_row i key reporter reason details now) = i"
  "mc_case_id (appeal_row i key actor parent details now) = i"
  by (simp_all add: report_row_def appeal_row_def)

lemma same_platform_releases: "same_platform db db' \<Longrightarrow> releases db' = releases db"
  by (simp add: same_platform_def)

lemma cases_inv_append:
  assumes inv: "cases_inv db" and new: "case_get (mc_case_id row) db = None"
    and rows: "cases db' = cases db @ [row]" and rels: "releases db' = releases db"
    and ok: "case_ok (releases db) (cases db @ [row]) row"
    and "\<And>rep k. open_report rep k row \<Longrightarrow> duplicateReport rep k db = None"
    and "\<And>p. open_appeal p row \<Longrightarrow> duplicateAppeal p db = None"
  shows "cases_inv db'"
proof -
  have "changes (open_report rep k) (cases db @ [row]) \<le> 1" for rep k
    using inv assms(6) [of rep k] changes_none [of "open_report rep k" "cases db"]
    unfolding cases_inv_def duplicateReport_def by (cases "open_report rep k row") simp_all
  moreover have "changes (open_appeal p) (cases db @ [row]) \<le> 1" for p
    using inv assms(7) [of p] changes_none [of "open_appeal p" "cases db"]
    unfolding cases_inv_def duplicateAppeal_def by (cases "open_appeal p row") simp_all
  moreover have "case_ok (releases db) (cases db @ [row]) c" if "c \<in> set (cases db)" for c
  proof -
    have "case_ok (releases db) (cases db) c" using inv that unfolding cases_inv_def by blast
    then show ?thesis by (rule case_ok_mono) simp_all
  qed
  ultimately show ?thesis
    using inv new ok by (simp add: cases_inv_def rows rels case_table.lookup_None)
qed

lemma cases_inv_resolved:
  assumes inv: "cases_inv db" and row: "case_get i db = Some row" and verdict: "verdict_of (mc_type row) st"
    and act: "st = Case_Actioned \<Longrightarrow> \<exists>rel. release_get (mc_key row) db = Some rel \<and> rel_state rel = Revoked"
    and rows: "cases db' = update_where (still_open i) (set_resolved st v res now) (cases db)"
    and rels: "releases db' = releases db"
  shows "cases_inv db'"
proof -
  have st: "st \<noteq> Case_Open" using verdict by (auto simp: verdict_of_def split: case_type.splits)
  have same: "c = row" if "c \<in> set (cases db)" "still_open i c" for c
    using that inv row case_table.lookup_row [of db c] by (simp add: cases_inv_def still_open_def)
  have keep: "p \<in> set (cases db')" if "p \<in> set (cases db)" "mc_state p = Case_Actioned" for p
    using in_update_where [OF that(1), of "still_open i" "set_resolved st v res now"] that(2)
    by (simp add: rows still_open_def split: if_splits)
  have "changes (open_report rep k) (cases db') \<le> changes (open_report rep k) (cases db)"
    "changes (open_appeal p) (cases db') \<le> changes (open_appeal p) (cases db)" for rep k p
    unfolding rows using st by (auto intro!: changes_update_le simp: open_report_def open_appeal_def)
  then have "changes (open_report rep k) (cases db') \<le> 1" "changes (open_appeal p) (cases db') \<le> 1" for rep k p
    using inv unfolding cases_inv_def by (meson order_trans)+
  moreover have "case_ok (releases db') (cases db') c'" if "c' \<in> set (cases db')" for c'
  proof -
    from that obtain c where c: "c \<in> set (cases db)"
      "c' = (if still_open i c then set_resolved st v res now c else c)"
      by (auto simp: rows set_update_where)
    have "case_ok (releases db) (cases db) c" using inv c(1) unfolding cases_inv_def by blast
    then have ok: "case_ok (releases db') (cases db') c"
      by (rule case_ok_mono) (simp_all only: rels keep)
    show ?thesis
    proof (cases "still_open i c")
      case True
      with c same have "c = row" "c' = set_resolved st v res now row" by auto
      with ok verdict st act rel_table.lookup_Some [of "mc_key row" db] show ?thesis
        by (auto simp: case_ok_def rels)
    qed (use c ok in simp)
  qed
  moreover have "distinct (map mc_case_id (cases db'))"
    using inv unfolding rows by (subst map_update_where) (simp_all add: cases_inv_def)
  ultimately show ?thesis by (simp add: cases_inv_def)
qed

lemma case_effect_inv:
  assumes "case_effect db db'" and inv: "cases_inv db"
  shows "cases_inv db'"
  using assms(1)
proof cases
  case (reported i key rel reporter reason details now)
  then show ?thesis
    by (intro cases_inv_append [OF inv _ reported(6) same_platform_releases [OF reported(7)]])
      (auto intro: new_row_ok)
next
  case (appealed i report actor ns details now)
  then show ?thesis using cases_inv_keys [OF inv]
    by (intro cases_inv_append [OF inv _ appealed(7) same_platform_releases [OF appealed(8)]])
      (auto intro!: new_row_ok)
next
  case (resolved i row st v res now)
  then show ?thesis
    by (intro cases_inv_resolved [OF inv resolved(1,3,4,5)]) (simp_all add: same_platform_releases)
qed

end
