(* ===== verification/Governance.thy ===== *)
theory Governance
  imports ModerationStore
begin

text \<open>
  What holds of the shared database between two operations, whatever operations of the publisher,
  release, artifact, signing and moderation stores ran before: a release that is or was approved
  is covered by a verified signature over exactly the artifacts it still has, all of which passed
  their scan.  The invariant is kept by each of the effects the stores' operations have.
\<close>

section \<open>The invariant\<close>

definition release_ok :: "release_env \<Rightarrow> release_row \<Rightarrow> bool" where
  "release_ok env r \<longleftrightarrow>
     entry_ok (rel_descriptor r) \<and> rel_key r = entry_key (rel_descriptor r) \<and>
     rel_descriptor_digest r = digestDescriptor (cr_sha256 (re_crypto env)) (rel_descriptor r) \<and>
     en_origin (rel_descriptor r) = ''public'' \<and> \<not> en_verified (rel_descriptor r) \<and>
     \<not> en_revoked (rel_descriptor r)"

definition decided :: "release_state \<Rightarrow> bool" where
  "decided st \<longleftrightarrow> st = Approved \<or> st = Revoked"

definition payload_of :: "release_env \<Rightarrow> release_row \<Rightarrow> signature_row \<Rightarrow> artifact_row list \<Rightarrow> string" where
  "payload_of env r s arts =
     release_payload (re_locale_compare env) (sr_key_id s) (sr_trust_epoch s) (rel_descriptor r)
       (rel_descriptor_digest r) (map publicArtifact arts)"

definition covered :: "release_env \<Rightarrow> signature_row list \<Rightarrow> artifact_row list \<Rightarrow> release_row \<Rightarrow> bool" where
  "covered env sigs arts r \<longleftrightarrow>
     arts \<noteq> [] \<and> (\<forall>a\<in>set arts. ar_scan_state a = Scan_Passed) \<and>
     (\<exists>s\<in>set sigs. sr_key s = rel_key r \<and> sr_payload s = payload_of env r s arts)"

definition known_key :: "trust_key_row list \<Rightarrow> string \<Rightarrow> int \<Rightarrow> string \<Rightarrow> string \<Rightarrow> bool" where
  "known_key keys kid epoch public fingerprint \<longleftrightarrow>
     (\<exists>t\<in>set keys. tk_id t = (kid, epoch) \<and> tk_algorithm t = ''Ed25519'' \<and>
        tk_public_key t = public \<and> tk_fingerprint t = fingerprint)"

definition signature_ok ::
  "release_env \<Rightarrow> release_row list \<Rightarrow> trust_key_row list \<Rightarrow> signature_row \<Rightarrow> bool" where
  "signature_ok env rels keys s \<longleftrightarrow>
     verifyReleaseSignatureEnvelope (re_crypto env) (publicEnvelope s) \<and>
     (\<exists>r\<in>set rels. rel_key r = sr_key s \<and> decided (rel_state r)) \<and>
     known_key keys (sr_key_id s) (sr_trust_epoch s) (sr_public_key s) (sr_fingerprint s)"

definition active_signer :: "signer option \<Rightarrow> trust_key_row list \<Rightarrow> bool" where
  "active_signer signer keys \<longleftrightarrow>
     (case signer of None \<Rightarrow> True
      | Some sg \<Rightarrow> (\<exists>t\<in>set keys. tk_id t = (sg_key_id sg, sg_trust_epoch sg) \<and> tk_status t = Trust_Active \<and>
          tk_algorithm t = ''Ed25519'' \<and> tk_public_key t = sg_public_key sg \<and>
          tk_fingerprint t = sg_fingerprint sg))"

definition governed :: "release_env \<Rightarrow> 'a artifact_db_scheme \<Rightarrow> bool" where
  "governed env db \<longleftrightarrow>
     distinct (map rel_key (releases db)) \<and> distinct (map ar_id (artifacts db)) \<and>
     distinct (map sr_key (signatures db)) \<and> distinct (map tk_id (trust_keys db)) \<and>
     (\<forall>r\<in>set (releases db). release_ok env r) \<and>
     (\<forall>s\<in>set (signatures db). signature_ok env (releases db) (trust_keys db) s) \<and>
     (\<forall>r\<in>set (releases db). decided (rel_state r) \<longrightarrow>
        covered env (signatures db) (release_artifacts (rel_key r) db) r) \<and>
     active_signer (configured_signer db) (trust_keys db)"

lemma governed_empty:
  "releases db = [] \<Longrightarrow> artifacts db = [] \<Longrightarrow> signatures db = [] \<Longrightarrow> trust_keys db = [] \<Longrightarrow>
   configured_signer db = None \<Longrightarrow> governed env db"
  by (simp add: governed_def active_signer_def)

lemma governed_parts:
  assumes "governed env db"
  shows "distinct (map rel_key (releases db))" "distinct (map ar_id (artifacts db))"
    "distinct (map sr_key (signatures db))" "distinct (map tk_id (trust_keys db))"
    "r \<in> set (releases db) \<Longrightarrow> release_ok env r"
    "s \<in> set (signatures db) \<Longrightarrow> signature_ok env (releases db) (trust_keys db) s"
    "r \<in> set (releases db) \<Longrightarrow> decided (rel_state r) \<Longrightarrow>
       covered env (signatures db) (release_artifacts (rel_key r) db) r"
    "active_signer (configured_signer db) (trust_keys db)"
  using assms by (auto simp: governed_def)

lemma governed_cong:
  assumes "releases db' = releases db" "artifacts db' = artifacts db" "signatures db' = signatures db"
    "trust_keys db' = trust_keys db" "configured_signer db' = configured_signer db"
  shows "governed env db' = governed env db"
  using assms by (simp add: governed_def release_artifacts_def)

section \<open>Artifacts\<close>

lemma filter_update_where:
  "(\<And>x. x \<in> set xs \<Longrightarrow> p x \<Longrightarrow> \<not> q x \<and> \<not> q (f x)) \<Longrightarrow> filter q (update_where p f xs) = filter q xs"
  by (induction xs) auto

lemma release_artifacts_other:
  assumes "artifacts db' = update_where (\<lambda>r. ar_id r = (key, i)) f (artifacts db)"
    and "\<And>r. ar_id (f r) = ar_id r" and "k \<noteq> key"
  shows "release_artifacts k db' = release_artifacts k db"
  using assms by (auto simp: release_artifacts_def intro!: arg_cong [where f = "sort_key _"] filter_update_where)

lemma decided_not_open: "open_release_state st \<Longrightarrow> \<not> decided st"
  by (auto simp: open_release_state_def decided_def)

text \<open>
  A change of the artifacts keeps the invariant when the artifacts of the decided releases stay
  as they are.
\<close>

lemma governed_artifacts:
  assumes gov: "governed env db" and same: "same_governance db db'"
    and "distinct (map ar_id (artifacts db'))"
    and "\<And>r. r \<in> set (releases db) \<Longrightarrow> decided (rel_state r) \<Longrightarrow>
      release_artifacts (rel_key r) db' = release_artifacts (rel_key r) db"
  shows "governed env db'"
  using assms by (simp add: governed_def same_governance_def)

lemma distinct_update_key:
  assumes "distinct (map key rows)" and "\<And>r. key (f r) = key r"
  shows "distinct (map key (update_where p f rows))"
  using assms by (simp add: map_update_where)

lemma governed_release_get:
  assumes "governed env db" and "release_get key db = Some row" and "r \<in> set (releases db)" and "rel_key r = key"
  shows "r = row"
  using assms rel_table.lookup_row [of db r] by (simp add: governed_def)

lemma artifact_effect_governed:
  assumes "artifact_effect cfg db db'" and gov: "governed env db"
  shows "governed env db'"
  using assms(1)
proof cases
  case unchanged
  with gov show ?thesis by (simp add: same_governance_def governed_cong [of db' db])
next
  case (bound key rel i d n pl ac fo u now)
  show ?thesis
  proof (rule governed_artifacts [OF gov])
    show "same_governance db db'" by fact
    show "distinct (map ar_id (artifacts db'))"
      using governed_parts(2) [OF gov] bound(4,8) by (auto simp: artifact_table.lookup_None)
    fix r assume "r \<in> set (releases db)" "decided (rel_state r)"
    with bound(2,3) have "rel_key r \<noteq> key"
      using governed_release_get [OF gov bound(2)] decided_not_open by blast
    then show "release_artifacts (rel_key r) db' = release_artifacts (rel_key r) db"
      by (simp add: release_artifacts_def bound(8))
  qed
next
  case (located key rel i a u)
  show ?thesis
  proof (rule governed_artifacts [OF gov])
    show "same_governance db db'" by fact
    show "distinct (map ar_id (artifacts db'))"
      using governed_parts(2) [OF gov] located(5) by (simp add: distinct_update_key)
    fix r assume "r \<in> set (releases db)" "decided (rel_state r)"
    with located(2,3) have "rel_key r \<noteq> key"
      using governed_release_get [OF gov located(2)] decided_not_open by blast
    then show "release_artifacts (rel_key r) db' = release_artifacts (rel_key r) db"
      by (intro release_artifacts_other [OF located(5)]) simp_all
  qed
next
  case (scanned key i a verdict s v remark now)
  show ?thesis
  proof (rule governed_artifacts [OF gov])
    show "same_governance db db'" by fact
    show "distinct (map ar_id (artifacts db'))"
      using governed_parts(2) [OF gov] scanned(5) by (simp add: distinct_update_key)
    fix r assume r: "r \<in> set (releases db)" "decided (rel_state r)"
    have "a \<in> set (artifacts db)" "ar_id a = (key, i)"
      using artifact_table.lookup_Some [OF scanned(2)] by auto
    then have "rel_key r \<noteq> key"
      using governed_parts(7) [OF gov r] scanned(3) by (auto simp: covered_def release_artifacts_set)
    then show "release_artifacts (rel_key r) db' = release_artifacts (rel_key r) db"
      by (intro release_artifacts_other [OF scanned(5)]) simp_all
  qed
qed

section \<open>Trust keys and signers\<close>

text \<open>The three ways the configured signer and the trust keys change.\<close>

inductive trust_effect :: "'a signing_db_scheme \<Rightarrow> 'a signing_db_scheme \<Rightarrow> bool" where
  unsigned: "db' = db\<lparr>configured_signer := None\<rparr> \<Longrightarrow> trust_effect db db'"
| signer_known: "trust_get (sg_key_id sg) (sg_trust_epoch sg) db = Some row \<Longrightarrow>
    tk_algorithm row = ''Ed25519'' \<Longrightarrow> tk_public_key row = sg_public_key sg \<Longrightarrow>
    tk_fingerprint row = sg_fingerprint sg \<Longrightarrow> tk_status row = Trust_Active \<Longrightarrow>
    db' = db\<lparr>configured_signer := Some sg\<rparr> \<Longrightarrow> trust_effect db db'"
| signer_registered: "trust_get (sg_key_id sg) (sg_trust_epoch sg) db = None \<Longrightarrow>
    db' = db\<lparr>trust_keys := trust_keys db @ [trust_row sg now], configured_signer := Some sg\<rparr> \<Longrightarrow>
    trust_effect db db'"
| key_revoked: "map_option (\<lambda>sg. (sg_key_id sg, sg_trust_epoch sg)) (configured_signer db) \<noteq> Some (kid, epoch) \<Longrightarrow>
    trust_get kid epoch db = Some row \<Longrightarrow> tk_status row = Trust_Active \<Longrightarrow>
    db' = trust_revoke kid epoch reason now db \<Longrightarrow> trust_effect db db'"

lemma signing_open_effect: "signing_open now sg db = (r, db') \<Longrightarrow> db' = db \<or> trust_effect db db'"
  by (erule signing_open_cases) (auto intro: trust_effect.intros)

lemma revokeTrustKey_effect: "revokeTrustKey now k ep reason db = (r, db') \<Longrightarrow> db' = db \<or> trust_effect db db'"
  by (erule revokeTrustKey_cases) (auto intro: trust_effect.intros)

lemma known_key_more:
  assumes "known_key keys kid epoch public fingerprint"
    and "\<And>t. t \<in> set keys \<Longrightarrow> \<exists>t'\<in>set keys'. tk_id t' = tk_id t \<and> tk_algorithm t' = tk_algorithm t \<and>
      tk_public_key t' = tk_public_key t \<and> tk_fingerprint t' = tk_fingerprint t"
  shows "known_key keys' kid epoch public fingerprint"
  using assms unfolding known_key_def by metis

lemma governed_trust:
  assumes gov: "governed env db"
    and "releases db' = releases db" "artifacts db' = artifacts db" "signatures db' = signatures db"
    and "distinct (map tk_id (trust_keys db'))"
    and keep: "\<And>t. t \<in> set (trust_keys db) \<Longrightarrow> \<exists>t'\<in>set (trust_keys db'). tk_id t' = tk_id t \<and>
      tk_algorithm t' = tk_algorithm t \<and> tk_public_key t' = tk_public_key t \<and> tk_fingerprint t' = tk_fingerprint t"
    and "active_signer (configured_signer db') (trust_keys db')"
  shows "governed env db'"
  using assms known_key_more [OF _ keep]
  by (auto simp: governed_def signature_ok_def release_artifacts_def)

lemma trust_effect_frames:
  fixes db :: "'a artifact_db_scheme"
  assumes "trust_effect db db'"
  shows "releases db' = releases db" "artifacts db' = artifacts db" "signatures db' = signatures db"
    "namespaces db' = namespaces db" "publisher_audit db' = publisher_audit db"
    "artifact_db.more db' = artifact_db.more db"
  using assms by (auto elim!: trust_effect.cases simp: trust_revoke_def)

lemma trust_effect_governed:
  fixes db :: "'a artifact_db_scheme"
  assumes eff: "trust_effect db db'" and gov: "governed env db"
  shows "governed env db'"
proof (rule governed_trust [OF gov trust_effect_frames(1-3) [OF eff]])
  note keys = governed_parts(4) [OF gov] and signer = governed_parts(8) [OF gov]
  show "distinct (map tk_id (trust_keys db'))"
    using eff
  proof cases
    case (key_revoked kid epoch row reason now)
    then show ?thesis using keys by (simp add: distinct_update_key)
  qed (use keys in \<open>auto simp: trust_get_None\<close>)
  show "active_signer (configured_signer db') (trust_keys db')"
    using eff
  proof cases
    case (signer_known sg row)
    then show ?thesis
      using trust_table.lookup_Some [of "(sg_key_id sg, sg_trust_epoch sg)" db row]
      by (auto simp: active_signer_def)
  next
    case (key_revoked kid epoch row reason now)
    then show ?thesis using signer
      by (auto simp: active_signer_def set_update_where image_iff split: option.splits)
  qed (auto simp: active_signer_def)
  fix t assume t: "t \<in> set (trust_keys db)"
  show "\<exists>t'\<in>set (trust_keys db'). tk_id t' = tk_id t \<and> tk_algorithm t' = tk_algorithm t \<and>
    tk_public_key t' = tk_public_key t \<and> tk_fingerprint t' = tk_fingerprint t"
    using eff
  proof cases
    case (key_revoked kid epoch row reason now)
    then show ?thesis
      using in_update_where [OF t, of "\<lambda>r. tk_id r = (kid, epoch) \<and> tk_status r = Trust_Active"
        "\<lambda>r. r\<lparr>tk_status := Trust_Revoked, tk_revoked_at_ms := Some now, tk_revocation_reason := reason\<rparr>"]
      by (auto split: if_splits elim!: bexI [rotated])
  qed (use t in auto)
qed

section \<open>Releases\<close>

text \<open>
  A new state for the row of one key: the row stays well formed, and the signatures stay attached
  to decided releases because a decided release never becomes undecided.
\<close>

lemma release_ok_setters [simp]:
  "release_ok env (set_submitted now r) = release_ok env r"
  "release_ok env (set_reviewed st v n now r) = release_ok env r"
  "release_ok env (set_revoked v n now r) = release_ok env r"
  by (simp_all add: release_ok_def)

lemma covered_setters [simp]:
  "covered env sigs arts (set_reviewed st v n now r) = covered env sigs arts r"
  "covered env sigs arts (set_revoked v n now r) = covered env sigs arts r"
  by (simp_all add: covered_def payload_of_def)

lemma signature_ok_releases:
  assumes "signature_ok env rels keys s"
    and "\<And>r. r \<in> set rels \<Longrightarrow> decided (rel_state r) \<Longrightarrow> \<exists>r'\<in>set rels'. rel_key r' = rel_key r \<and> decided (rel_state r')"
  shows "signature_ok env rels' keys s"
  using assms unfolding signature_ok_def by metis

lemma governed_release_update:
  assumes gov: "governed env db" and row: "release_get key db = Some row"
    and rels: "releases db' = update_where (\<lambda>r. rel_key r = key) f (releases db)"
    and trust: "same_trust db db'" and sigs: "signatures db' = signatures db" and arts: "same_artifacts db db'"
    and f_key: "\<And>r. rel_key (f r) = rel_key r" and f_ok: "release_ok env (f row)"
    and f_decided: "decided (rel_state row) \<Longrightarrow> decided (rel_state (f row))"
    and f_covered: "decided (rel_state (f row)) \<Longrightarrow> covered env (signatures db) (release_artifacts key db) (f row)"
  shows "governed env db'"
proof -
  have rows: "\<And>r. r \<in> set (releases db) \<Longrightarrow> rel_key r = key \<Longrightarrow> r = row"
    using governed_release_get [OF gov row] by blast
  have key: "rel_key row = key" "row \<in> set (releases db)"
    using rel_table.lookup_Some [OF row] by auto
  have "\<exists>r'\<in>set (releases db'). rel_key r' = rel_key r \<and> decided (rel_state r')"
    if "r \<in> set (releases db)" "decided (rel_state r)" for r
    using that rows [of r] f_decided f_key by (cases "rel_key r = key") (auto simp: rels set_update_where image_iff)
  then have "\<forall>s\<in>set (signatures db'). signature_ok env (releases db') (trust_keys db') s"
    using trust sigs signature_ok_releases [OF governed_parts(6) [OF gov]] by (simp add: same_trust_def)
  moreover have "\<forall>r\<in>set (releases db'). release_ok env r"
    using governed_parts(5) [OF gov] rows f_ok by (auto simp: rels set_update_where)
  moreover have "covered env (signatures db') (release_artifacts (rel_key r') db') r'"
    if "r' \<in> set (releases db')" "decided (rel_state r')" for r'
  proof -
    from that(1) obtain r where r: "r \<in> set (releases db)" "r' = (if rel_key r = key then f r else r)"
      by (auto simp: rels set_update_where)
    show ?thesis
    proof (cases "rel_key r = key")
      case True
      with r rows have "r' = f row" by simp
      with f_covered that(2) show ?thesis
        by (simp add: sigs artifact_db_effects [OF arts] f_key key)
    next
      case False
      with r that(2) governed_parts(7) [OF gov, of r] show ?thesis
        by (simp add: sigs artifact_db_effects [OF arts])
    qed
  qed
  ultimately show ?thesis
    using gov trust arts sigs f_key
    by (simp add: governed_def same_tables rels distinct_update_key)
qed

lemma covered_more: "covered env sigs arts r \<Longrightarrow> covered env (sigs @ extra) arts r"
  by (auto simp: covered_def)

lemma payload_of_envelope:
  "rel_key r = key \<Longrightarrow> payload_of env r (envelope_row key ev) arts =
     release_payload (re_locale_compare env) (ev_key_id ev) (ev_trust_epoch ev) (rel_descriptor r)
       (rel_descriptor_digest r) (map publicArtifact arts)"
  by (simp add: payload_of_def envelope_row_def)

lemma governed_drafted:
  assumes gov: "governed env db" and d: "entry_ok d" "en_origin d = ''public''" "\<not> en_verified d" "\<not> en_revoked d"
    and none: "release_get (entry_key d) db = None"
    and rels: "releases db' = releases db @
      [draft_row (entry_key d) d (digestDescriptor (cr_sha256 (re_crypto env)) d) publisher now]"
    and same: "same_trust db db'" "signatures db' = signatures db" "same_artifacts db db'"
  shows "governed env db'"
proof -
  have "\<forall>s\<in>set (signatures db'). signature_ok env (releases db') (trust_keys db') s"
    using same signature_ok_releases [OF governed_parts(6) [OF gov], where rels' = "releases db'"]
    by (simp add: same_trust_def rels) blast
  moreover have "\<forall>r\<in>set (releases db'). decided (rel_state r) \<longrightarrow>
      covered env (signatures db') (release_artifacts (rel_key r) db') r"
    using governed_parts(7) [OF gov] artifact_db_effects [OF same(3)] same(2)
    by (auto simp: rels decided_def)
  moreover have "\<forall>r\<in>set (releases db'). release_ok env r"
    using governed_parts(5) [OF gov] d by (auto simp: rels release_ok_def)
  moreover have "distinct (map rel_key (releases db'))"
    using governed_parts(1) [OF gov] none by (simp add: rels rel_table.lookup_None)
  ultimately show ?thesis
    using gov same by (simp add: governed_def same_tables)
qed

lemma trust_get_known:
  assumes "active_signer (Some sg) keys"
  shows "known_key keys (sg_key_id sg) (sg_trust_epoch sg) (sg_public_key sg) (sg_fingerprint sg)"
  using assms by (auto simp: active_signer_def known_key_def)

lemma verified_envelope:
  "verifyReleaseSignatureEnvelope cr ev \<Longrightarrow> publicEnvelope (envelope_row key ev) = ev"
  by (simp add: verifyReleaseSignatureEnvelope_def)

lemma entry_raw_key_release:
  assumes "release_ok env row" and "signing_releaseKey (entry_raw_key (rel_descriptor row)) = Inr skey"
  shows "skey = rel_key row"
  using assms by (simp add: release_ok_def entry_raw_key_as_raw entry_key_ok)

lemma governed_approved:
  assumes gov: "governed env db" and row: "release_get key db = Some row"
    and pending: "rel_state row = Pending_Review" and arts: "release_artifacts key db \<noteq> []"
    and passed: "\<forall>a\<in>set (release_artifacts key db). ar_scan_state a = Scan_Passed"
    and signer: "configured_signer db = Some sg"
    and skey: "signing_releaseKey (entry_raw_key (rel_descriptor row)) = Inr skey"
    and payload: "ev_payload ev = release_payload (re_locale_compare env) (sg_key_id sg) (sg_trust_epoch sg)
      (rel_descriptor row) (rel_descriptor_digest row) (map publicArtifact (release_artifacts key db))"
    and verified: "verifyReleaseSignatureEnvelope (re_crypto env) ev"
    and ids: "ev_key_id ev = sg_key_id sg" "ev_trust_epoch ev = sg_trust_epoch sg"
    and signed: "signed_by sg skey ev db db'"
    and rels: "releases db' = update_where (\<lambda>r. rel_key r = key) (set_reviewed Approved v n now) (releases db)"
    and trust: "same_trust db db'" and same: "same_artifacts db db'"
  shows "governed env db'"
proof -
  have key: "rel_key row = key" "row \<in> set (releases db)"
    using rel_table.lookup_Some [OF row] by auto
  have ok: "release_ok env row" using governed_parts(5) [OF gov key(2)] .
  have skey: "skey = key" using entry_raw_key_release [OF ok skey] key(1) by simp
  have undecided: "\<not> decided (rel_state row)" by (simp add: decided_def pending)
  have "signature_get key db = None"
  proof (rule ccontr)
    assume "signature_get key db \<noteq> None"
    then obtain s where "s \<in> set (signatures db)" "sr_key s = key"
      using signature_table.lookup_Some [of key db] by auto
    then obtain r where "r \<in> set (releases db)" "rel_key r = key" "decided (rel_state r)"
      using governed_parts(6) [OF gov] by (auto simp: signature_ok_def)
    with undecided governed_release_get [OF gov row] show False by blast
  qed
  with signed skey have material: "ev_public_key ev = sg_public_key sg" "ev_fingerprint ev = sg_fingerprint sg"
    and sigs: "signatures db' = signatures db @ [envelope_row key ev]" and none: "signature_get key db = None"
    by (auto simp: signed_by_def)
  let ?db1 = "db\<lparr>releases := releases db'\<rparr>"
  have rows: "r = row" if "r \<in> set (releases db)" "rel_key r = key" for r
    using governed_release_get [OF gov row that] .
  have keep: "\<exists>r'\<in>set (releases db'). rel_key r' = rel_key r \<and> decided (rel_state r')"
    if "r \<in> set (releases db)" "decided (rel_state r)" for r
    using in_update_where [OF that(1), of "\<lambda>r. rel_key r = key" "set_reviewed Approved v n now"] that(2)
    by (auto simp: rels [symmetric] decided_def split: if_splits intro: bexI [rotated])
  have new: "set_reviewed Approved v n now row \<in> set (releases db')"
    using in_update_where [OF key(2), of "\<lambda>r. rel_key r = key" "set_reviewed Approved v n now"] key(1)
    by (simp add: rels)
  have "signature_ok env (releases db') (trust_keys db') s" if "s \<in> set (signatures db')" for s
  proof (cases "s \<in> set (signatures db)")
    case True
    with trust signature_ok_releases [OF governed_parts(6) [OF gov True] keep] show ?thesis
      by (simp add: same_trust_def)
  next
    case False
    with that sigs have s: "s = envelope_row key ev" by simp
    have "known_key (trust_keys db) (sg_key_id sg) (sg_trust_epoch sg) (sg_public_key sg) (sg_fingerprint sg)"
      using governed_parts(8) [OF gov] signer by (intro trust_get_known) simp
    moreover have "\<exists>r\<in>set (releases db'). rel_key r = key \<and> decided (rel_state r)"
      by (rule bexI [OF _ new]) (simp add: key decided_def)
    ultimately show ?thesis
      using trust verified material ids
      by (simp add: signature_ok_def s same_trust_def verified_envelope) (simp add: envelope_row_def)
  qed
  moreover have "release_ok env r" if "r \<in> set (releases db')" for r
    using that governed_parts(5) [OF gov] by (auto simp: rels set_update_where)
  moreover have "covered env (signatures db') (release_artifacts (rel_key r') db') r'"
    if "r' \<in> set (releases db')" "decided (rel_state r')" for r'
  proof -
    from that(1) obtain r where r: "r \<in> set (releases db)"
      "r' = (if rel_key r = key then set_reviewed Approved v n now r else r)"
      by (auto simp: rels set_update_where)
    show ?thesis
    proof (cases "rel_key r = key")
      case True
      with r rows have "r' = set_reviewed Approved v n now row" by simp
      then show ?thesis using arts passed payload ids
        by (simp add: covered_def sigs artifact_db_effects [OF same] key payload_of_envelope) (simp add: envelope_row_def)
    next
      case False
      with r that(2) governed_parts(7) [OF gov, of r] show ?thesis
        by (simp add: sigs artifact_db_effects [OF same] covered_more)
    qed
  qed
  moreover have "distinct (map sr_key (signatures db'))"
    using governed_parts(3) [OF gov] none by (simp add: sigs signature_table.lookup_None)
  ultimately show ?thesis
    using gov trust same by (simp add: governed_def same_tables rels distinct_update_key)
qed

lemma release_effect_governed:
  assumes "release_effect env db db'" and gov: "governed env db"
  shows "governed env db'"
  using assms(1)
proof cases
  case (drafted d publisher now)
  then show ?thesis by (intro governed_drafted [OF gov]) simp_all
next
  case (submitted key row now)
  then show ?thesis
    by (intro governed_release_update [OF gov submitted(1,3-6)])
      (use governed_parts(5) [OF gov] rel_table.lookup_Some [OF submitted(1)] in \<open>auto simp: decided_def\<close>)
next
  case (rejected key row v n now)
  then show ?thesis
    by (intro governed_release_update [OF gov rejected(1,3-6)])
      (use governed_parts(5) [OF gov] rel_table.lookup_Some [OF rejected(1)] in \<open>auto simp: decided_def\<close>)
next
  case (approved key row sg skey ev v n now)
  then show ?thesis by (intro governed_approved [OF gov]) simp_all
next
  case (revoked key row v n now)
  then show ?thesis
    by (intro governed_release_update [OF gov revoked(1,3-6)])
      (use governed_parts(5,7) [OF gov] rel_table.lookup_Some [OF revoked(1)] in \<open>auto simp: decided_def\<close>)
qed

section \<open>An approval succeeds\<close>

text \<open>
  When the gate lets the artifacts through, the signer holds a key pair and nothing is stored for
  the release yet, approving a pending release signs it and returns it approved.
\<close>

lemma approving_review:
  assumes att: "attached env" and raw: "releaseKey raw = Inr key" and row: "release_get key db = Some row"
    and pending: "rel_state row = Pending_Review" and ok: "release_ok env row"
    and arts: "release_artifacts key db \<noteq> []" "\<forall>a\<in>set (release_artifacts key db). ar_scan_state a = Scan_Passed"
    and sg: "configured_signer db = Some sg" and pair: "key_pair (re_crypto env) sg"
    and none: "signature_get key db = None" and digest: "hex64 (rel_descriptor_digest row)"
    and signable: "\<forall>a\<in>set (release_artifacts key db). signable_artifact (publicArtifact a)"
  shows "\<exists>db'. release_review env now sign_now (JBool True) reviewer remark raw db =
      (Inr (publicRelease (set_reviewed Approved (reviewer_label reviewer) (slice_to 4000 (trimmed remark)) now row)), db') \<and>
    release_get key db' = Some (set_reviewed Approved (reviewer_label reviewer) (slice_to 4000 (trimmed remark)) now row) \<and>
    signature_get key db' = Some (envelope_row key (made_envelope (re_crypto env) sg
      (release_payload (re_locale_compare env) (sg_key_id sg) (sg_trust_epoch sg) (rel_descriptor row)
        (rel_descriptor_digest row) (map publicArtifact (release_artifacts key db))) sign_now))"
proof -
  have key: "key_ok key" using raw by (rule releaseKey_ok)
  have rk: "rel_key row = key" using rel_table.lookup_Some [OF row] by simp
  have entry: "entry_ok (rel_descriptor row)" "entry_key (rel_descriptor row) = key"
    using ok rk by (simp_all add: release_ok_def)
  have skey: "signing_releaseKey (entry_raw_key (rel_descriptor row)) = Inr key"
    using entry key by (simp add: entry_raw_key_as_raw)
  have names: "en_kind (rel_descriptor row) \<noteq> []" "en_namespace (rel_descriptor row) \<noteq> []"
    "en_name (rel_descriptor row) \<noteq> []" "en_version (rel_descriptor row) \<noteq> []"
    using entry(1) kinds_component safe_component_nonempty semantic_version_nonempty
    unfolding entry_ok_def by blast+
  let ?arts = "map publicArtifact (release_artifacts key db)"
  have gate: "approvalGate (as_raw key) db = Inr ?arts" using arts by (simp add: approvalGate_Inr key)
  let ?ev = "made_envelope (re_crypto env) sg (release_payload (re_locale_compare env) (sg_key_id sg)
    (sg_trust_epoch sg) (rel_descriptor row) (rel_descriptor_digest row) ?arts) sign_now"
  let ?db1 = "db\<lparr>signatures := signatures db @ [envelope_row key ?ev]\<rparr>"
  have sign: "signRelease (re_crypto env) (re_locale_compare env) sign_now (rel_descriptor row)
      (rel_descriptor_digest row) ?arts db = (Inr ?ev, ?db1)"
    using signRelease_new [OF skey sg none pair digest _ _ names, of ?arts] arts signable
    by (simp add: Let_def list_all_iff)
  let ?f = "set_reviewed Approved (reviewer_label reviewer) (slice_to 4000 (trimmed remark)) now"
  let ?db2 = "release_log key (''release.'' @ state_text Approved) (reviewer_label reviewer)
    (review_payload (slice_to 4000 (trimmed remark)) (Some ?arts) (Some ?ev)) now (release_update key ?f ?db1)"
  have body: "review_body env now sign_now True key row (reviewer_label reviewer)
      (slice_to 4000 (trimmed remark)) (Some ?arts) db = Inr ?db2"
    using att by (simp add: review_body_def review_signature_def attached_def sign)
  have get: "release_get key ?db2 = Some (?f row)"
    using row by (simp add: release_get_update signature_frames)
  have "release_review env now sign_now (JBool True) reviewer remark raw db =
      (Inr (publicRelease (?f row)), ?db2)"
    using att row pending gate body get
    by (simp add: release_review_def raw release_require_def attached_def transaction_def release_read_def)
  moreover have "signature_get key ?db2 = Some (envelope_row key ?ev)"
    using signature_table.lookup_insert [of ?db2 db "envelope_row key ?ev" key] none
    by (simp add: signature_table.lookup_None)
  ultimately show ?thesis using get by blast
qed

end
