(* ===== verification/Platform.thy ===== *)
theory Platform
  imports Governance
begin

text \<open>
  The service as a transition system: one step is one call of an operation of the publisher,
  release, artifact, signing or moderation store on the shared database, failing calls
  included, with any arguments and any clock.  The invariant of every reachable database joins
  the invariants of the stores.
\<close>

section \<open>Steps\<close>

inductive platform_step ::
  "release_env \<Rightarrow> artifact_config \<Rightarrow> 'a moderation_db_scheme \<Rightarrow> 'a moderation_db_scheme \<Rightarrow> bool"
  for env :: release_env and cfg :: artifact_config where
  publisher: "publisher_step db db' \<Longrightarrow> platform_step env cfg db db'"
| draft: "createDraft env now actor input db = (r, db') \<Longrightarrow> platform_step env cfg db db'"
| submit: "release_submit now actor raw db = (r, db') \<Longrightarrow> platform_step env cfg db db'"
| import: "importReviewed env now reviewer input db = (r, db') \<Longrightarrow> platform_step env cfg db db'"
| review: "release_review env now sign_now ok reviewer remark raw db = (r, db') \<Longrightarrow> platform_step env cfg db db'"
| yank: "release_yank now actor remark raw db = (r, db') \<Longrightarrow> platform_step env cfg db db'"
| revoke: "release_revoke now reviewer remark raw db = (r, db') \<Longrightarrow> platform_step env cfg db db'"
| upload: "upload cfg now later actor raw i meta bytes url db = (a, db') \<Longrightarrow> platform_step env cfg db db'"
| external: "registerExternal cfg now later actor raw i meta d n url db = (a, db') \<Longrightarrow> platform_step env cfg db db'"
| external_review: "registerExternalForReview cfg now later reviewer raw i meta d n url db = (a, db') \<Longrightarrow>
    platform_step env cfg db db'"
| attach: "attachUrl cfg now actor raw i url db = (a, db') \<Longrightarrow> platform_step env cfg db db'"
| scan: "recordScan now later reviewer raw i st sc scv ed es remark db = (a, db') \<Longrightarrow> platform_step env cfg db db'"
| start_signer: "signing_open now signer db = (u, db') \<Longrightarrow> platform_step env cfg db db'"
| revoke_key: "revokeTrustKey now k ep reason db = (t, db') \<Longrightarrow> platform_step env cfg db db'"
| report: "createReport uuid now acc reason details raw db = (c, db') \<Longrightarrow> platform_step env cfg db db'"
| resolve_report: "resolveReport release_now now i decision reviewer res db = (c, db') \<Longrightarrow> platform_step env cfg db db'"
| appeal: "createAppeal uuid now rep acc details db = (c, db') \<Longrightarrow> platform_step env cfg db db'"
| resolve_appeal: "resolveAppeal now i decision reviewer res db = (c, db') \<Longrightarrow> platform_step env cfg db db'"

text \<open>Every step is a sequence of effects of one store each.\<close>

inductive platform_effect ::
  "release_env \<Rightarrow> artifact_config \<Rightarrow> 'a moderation_db_scheme \<Rightarrow> 'a moderation_db_scheme \<Rightarrow> bool"
  for env :: release_env and cfg :: artifact_config where
  publisher_part: "publisher_write db db' \<Longrightarrow> platform_effect env cfg db db'"
| release_part: "release_effect env db db' \<Longrightarrow> platform_effect env cfg db db'"
| artifact_part: "artifact_effect cfg db db' \<Longrightarrow> platform_effect env cfg db db'"
| trust_part: "trust_effect db db' \<Longrightarrow> platform_effect env cfg db db'"
| case_part: "case_effect db db' \<Longrightarrow> platform_effect env cfg db db'"

lemma platform_effects:
  assumes "platform_step env cfg db db'" and "attached env" and "\<forall>c\<in>set (cases db). case_key_ok (mc_key c)"
  shows "(platform_effect env cfg)\<^sup>*\<^sup>* db db'"
proof -
  note one = r_into_rtranclp [of "platform_effect env cfg" db]
  have lift: "(platform_effect env cfg)\<^sup>*\<^sup>* a b" if "(release_effect env)\<^sup>*\<^sup>* a b" for a b :: "'a moderation_db_scheme"
    using that by induction (auto intro: platform_effect.release_part rtranclp.rtrancl_into_rtrancl)
  show ?thesis
    using assms(1)
  proof cases
    case publisher
    then show ?thesis by (auto dest!: publisher_step_write intro: one platform_effect.publisher_part)
  next
    case (draft now actor input r)
    then show ?thesis by (auto dest!: createDraft_effect intro: one platform_effect.release_part)
  next
    case (submit now actor raw r)
    then show ?thesis by (auto dest!: release_submit_effect [where env = env] intro: one platform_effect.release_part)
  next
    case (import now reviewer input r)
    then show ?thesis by (intro lift importReviewed_effect)
  next
    case (review now sign_now ok reviewer remark raw r)
    then show ?thesis using assms(2) by (auto dest!: release_review_effect intro: one platform_effect.release_part)
  next
    case (yank now actor remark raw r)
    then show ?thesis by (auto dest!: release_yank_effect [where env = env] intro: one platform_effect.release_part)
  next
    case (revoke now reviewer remark raw r)
    then show ?thesis by (auto dest!: release_revoke_effect [where env = env] intro: one platform_effect.release_part)
  next
    case (scan now later reviewer raw i st sc scv ed es remark a)
    then show ?thesis by (intro one platform_effect.artifact_part recordScan_effect)
  next
    case (start_signer now signer u)
    then show ?thesis by (auto dest!: signing_open_effect intro: one platform_effect.trust_part)
  next
    case (revoke_key now k ep reason t)
    then show ?thesis by (auto dest!: revokeTrustKey_effect intro: one platform_effect.trust_part)
  next
    case (report uuid now acc reason details raw c)
    then show ?thesis by (auto dest!: createReport_effect intro: one platform_effect.case_part)
  next
    case (resolve_report release_now now i decision reviewer res c)
    then obtain db1 where "db1 = db \<or> release_effect env db db1" "db' = db1 \<or> case_effect db1 db'"
      using resolveReport_effect [OF assms(3), of release_now now i decision reviewer res c db' env] by blast
    then have "(platform_effect env cfg)\<^sup>*\<^sup>* db db1" "(platform_effect env cfg)\<^sup>*\<^sup>* db1 db'"
      by (auto intro: platform_effect.release_part platform_effect.case_part)
    then show ?thesis by (rule rtranclp_trans)
  next
    case (appeal uuid now rep acc details c)
    then show ?thesis by (auto dest!: createAppeal_effect intro: one platform_effect.case_part)
  next
    case (resolve_appeal now i decision reviewer res c)
    then show ?thesis by (auto dest!: resolveAppeal_effect intro: one platform_effect.case_part)
  qed (auto intro!: one platform_effect.artifact_part
      intro: upload_effect registerExternal_effect registerExternalForReview_effect attachUrl_effect)
qed

section \<open>The invariant of the platform\<close>

definition platform_inv :: "release_env \<Rightarrow> 'a moderation_db_scheme \<Rightarrow> bool" where
  "platform_inv env db \<longleftrightarrow> publisher_inv db \<and> governed env db \<and> cases_inv db"

lemma publisher_inv_same:
  "namespaces db' = namespaces db \<Longrightarrow> publisher_audit db' = publisher_audit db \<Longrightarrow>
   publisher_inv db' = publisher_inv db"
  by (simp add: publisher_inv_def ownership_of_def [abs_def] namespace_get_def fun_eq_iff)

lemma cases_of_more: "artifact_db.more db' = artifact_db.more db \<Longrightarrow> cases db' = cases db"
  by (cases db, cases db') simp

lemma publisher_write_frames:
  fixes db :: "'a artifact_db_scheme"
  assumes "publisher_write db db'"
  shows "releases db' = releases db" "artifacts db' = artifacts db" "signatures db' = signatures db"
    "trust_keys db' = trust_keys db" "configured_signer db' = configured_signer db"
    "artifact_db.more db' = artifact_db.more db"
  using assms
  by (auto elim!: publisher_write.cases simp: publisher_audit_insert_def namespace_update_def)

lemma cases_inv_same: "cases db' = cases db \<Longrightarrow> releases db' = releases db \<Longrightarrow> cases_inv db' = cases_inv db"
  by (simp add: cases_inv_def)

text \<open>A revoked release is never touched again, so a case that is actioned stays right.\<close>

lemma release_effect_keeps_revoked:
  assumes "release_effect env db db'" and gov: "governed env db"
    and r: "r \<in> set (releases db)" "rel_state r = Revoked"
  shows "r \<in> set (releases db')"
proof -
  have keep: "r \<in> set (update_where (\<lambda>r. rel_key r = key) f (releases db))"
    if "release_get key db = Some row" "rel_state row \<noteq> Revoked" for key row f
  proof -
    have "rel_key r \<noteq> key" using governed_release_get [OF gov that(1) r(1)] that(2) r(2) by auto
    then show ?thesis using in_update_where [OF r(1), of "\<lambda>r. rel_key r = key" f] by simp
  qed
  from assms(1) show ?thesis by cases (use r(1) in \<open>auto intro: keep\<close>)
qed

lemma cases_inv_releases:
  assumes inv: "cases_inv db" and "cases db' = cases db"
    and "\<And>r. r \<in> set (releases db) \<Longrightarrow> rel_state r = Revoked \<Longrightarrow> r \<in> set (releases db')"
  shows "cases_inv db'"
proof -
  have "case_ok (releases db') (cases db') c" if "c \<in> set (cases db')" for c
  proof -
    have "case_ok (releases db) (cases db) c" using inv that unfolding cases_inv_def assms(2) by blast
    then show ?thesis by (rule case_ok_mono) (simp_all add: assms(2,3))
  qed
  then show ?thesis using inv by (simp add: cases_inv_def assms(2))
qed

lemma artifact_effect_frames:
  assumes "artifact_effect cfg db db'"
  shows "same_governance db db'"
  using assms by cases

lemma release_effect_frames:
  assumes "release_effect env db db'"
  shows "same_artifacts db db'" and "same_trust db db'"
  using assms by (cases; simp)+

lemma case_effect_frames:
  assumes "case_effect db db'"
  shows "same_platform db db'"
  using assms by cases

lemma platform_effect_inv:
  assumes inv: "platform_inv env db" and "platform_effect env cfg db db'"
  shows "platform_inv env db'"
  using assms(2)
proof cases
  case publisher_part
  note fr = publisher_write_frames [OF publisher_part]
  have "governed env db' = governed env db" "cases_inv db' = cases_inv db"
    by (rule governed_cong cases_inv_same cases_of_more fr)+
  then show ?thesis
    using inv publisher_write_inv [OF publisher_part] by (simp add: platform_inv_def)
next
  case release_part
  note fr = release_effect_frames(1) [OF release_part, unfolded same_artifacts_def]
  have gov: "governed env db" using inv by (simp add: platform_inv_def)
  have "cases_inv db'"
  proof (rule cases_inv_releases)
    show "cases_inv db" using inv by (simp add: platform_inv_def)
    show "cases db' = cases db" using fr by (intro cases_of_more) simp
  qed (rule release_effect_keeps_revoked [OF release_part gov])
  moreover have "publisher_inv db' = publisher_inv db" using fr by (intro publisher_inv_same) simp_all
  ultimately show ?thesis
    using inv release_effect_governed [OF release_part gov] by (simp add: platform_inv_def)
next
  case artifact_part
  note fr = artifact_effect_frames [OF artifact_part, unfolded same_governance_def]
  then have "publisher_inv db' = publisher_inv db" "cases_inv db' = cases_inv db"
    by (intro publisher_inv_same cases_inv_same cases_of_more; simp)+
  then show ?thesis
    using inv artifact_effect_governed [OF artifact_part, of env] by (simp add: platform_inv_def)
next
  case trust_part
  note fr = trust_effect_frames [OF trust_part]
  have "publisher_inv db' = publisher_inv db" "cases_inv db' = cases_inv db"
    by (rule publisher_inv_same cases_inv_same cases_of_more fr)+
  then show ?thesis
    using inv trust_effect_governed [OF trust_part, of env] by (simp add: platform_inv_def)
next
  case case_part
  note fr = case_effect_frames [OF case_part, unfolded same_platform_def]
  have "publisher_inv db' = publisher_inv db" "governed env db' = governed env db"
    using fr by (intro publisher_inv_same governed_cong; simp)+
  then show ?thesis
    using inv case_effect_inv [OF case_part] by (simp add: platform_inv_def)
qed

interpretation platform: invariant_system "platform_effect env cfg" "platform_inv env"
  by unfold_locales (rule platform_effect_inv)

lemma platform_inv_empty:
  "namespaces db = [] \<Longrightarrow> publisher_audit db = [] \<Longrightarrow> releases db = [] \<Longrightarrow> artifacts db = [] \<Longrightarrow>
   signatures db = [] \<Longrightarrow> trust_keys db = [] \<Longrightarrow> configured_signer db = None \<Longrightarrow> cases db = [] \<Longrightarrow>
   platform_inv env db"
  by (simp add: platform_inv_def publisher_inv_empty governed_empty cases_inv_def changes_def)

text \<open>A run of operations is a run of effects, so facts about effects carry over to runs.\<close>

lemma platform_run_effects:
  assumes "(platform_step env cfg)\<^sup>*\<^sup>* db db'" and "attached env" and "platform_inv env db"
  shows "(platform_effect env cfg)\<^sup>*\<^sup>* db db'"
  using assms(1)
proof induction
  case (step db1 db2)
  have "platform_inv env db1" using platform.reachable_inv [OF step.IH assms(3)] .
  then have "\<forall>c\<in>set (cases db1). case_key_ok (mc_key c)" unfolding platform_inv_def using cases_inv_keys by blast
  from step.IH platform_effects [OF step.hyps(2) assms(2) this] show ?case by (rule rtranclp_trans)
qed simp

lemma platform_run_inv:
  "(platform_step env cfg)\<^sup>*\<^sup>* db db' \<Longrightarrow> attached env \<Longrightarrow> platform_inv env db \<Longrightarrow> platform_inv env db'"
  by (rule platform.reachable_inv [OF platform_run_effects])

end
