(* ===== verification/Guarantees.thy ===== *)
theory Guarantees
  imports Platform
begin

text \<open>
  What the invariant of the platform gives its users: facts that, once they hold, hold in every
  later state of the database, and the properties of the release life cycle, of signatures and
  trust keys, of artifacts and of moderation that follow.
\<close>

section \<open>What one effect keeps\<close>

text \<open>The release rows: the material never changes and the state only moves forward.\<close>

fun later_state :: "release_state \<Rightarrow> release_state \<Rightarrow> bool" where
  "later_state Draft st = True"
| "later_state Pending_Review st = (st \<noteq> Draft)"
| "later_state Approved st = (st = Approved \<or> st = Revoked)"
| "later_state Rejected st = (st = Rejected)"
| "later_state Revoked st = (st = Revoked)"

definition follows :: "release_row \<Rightarrow> release_row \<Rightarrow> bool" where
  "follows r r' \<longleftrightarrow>
     rel_key r' = rel_key r \<and> rel_descriptor r' = rel_descriptor r \<and>
     rel_descriptor_digest r' = rel_descriptor_digest r \<and>
     rel_publisher_account_id r' = rel_publisher_account_id r \<and>
     rel_created_at_ms r' = rel_created_at_ms r \<and> later_state (rel_state r) (rel_state r') \<and>
     (rel_state r = Revoked \<longrightarrow> r' = r)"

lemma later_state_refl [simp]: "later_state st st"
  by (cases st) simp_all

lemma later_state_trans: "later_state a b \<Longrightarrow> later_state b c \<Longrightarrow> later_state a c"
  by (cases a; cases b; cases c) simp_all

lemma follows_refl [simp]: "follows r r"
  by (simp add: follows_def)

lemma follows_keep: "r \<in> A \<Longrightarrow> \<exists>r'\<in>A. follows r r'"
  using follows_refl by blast

lemma follows_trans: "follows a b \<Longrightarrow> follows b c \<Longrightarrow> follows a c"
  by (auto simp: follows_def intro: later_state_trans)

lemma follows_setters:
  "rel_state r = Draft \<Longrightarrow> follows r (set_submitted now r)"
  "rel_state r = Pending_Review \<Longrightarrow> st = Approved \<or> st = Rejected \<Longrightarrow> follows r (set_reviewed st v n now r)"
  "rel_state r = Approved \<Longrightarrow> follows r (set_revoked v n now r)"
  by (auto simp: follows_def) (simp_all add: set_submitted_def set_reviewed_def set_revoked_def)

lemma release_effect_follows:
  assumes "release_effect env db db'" and gov: "governed env db" and r: "r \<in> set (releases db)"
  shows "\<exists>r'\<in>set (releases db'). follows r r'"
proof -
  have upd: "\<exists>r'\<in>set (update_where (\<lambda>r. rel_key r = key) f (releases db)). follows r r'"
    if "release_get key db = Some row" "follows row (f row)" for key row f
    using in_update_where [OF r, of "\<lambda>r. rel_key r = key" f] governed_release_get [OF gov that(1) r] that(2)
    by (cases "rel_key r = key") (auto intro: bexI [rotated])
  from assms(1) show ?thesis
  proof cases
    case (drafted d publisher now)
    with r show ?thesis by (auto intro: follows_keep)
  next
    case (submitted key row now)
    then show ?thesis by (simp add: upd follows_setters)
  next
    case (rejected key row v n now)
    then show ?thesis by (simp add: upd follows_setters)
  next
    case (approved key row sg skey ev v n now)
    then show ?thesis by (simp add: upd follows_setters)
  next
    case (revoked key row v n now)
    then show ?thesis by (simp add: upd follows_setters)
  qed
qed

lemma effect_follows:
  assumes "platform_effect env cfg db db'" and inv: "platform_inv env db" and r: "r \<in> set (releases db)"
  shows "\<exists>r'\<in>set (releases db'). follows r r'"
  using assms(1)
proof cases
  case publisher_part
  with r show ?thesis by (auto simp: publisher_write_frames intro: follows_keep)
next
  case release_part
  with inv r show ?thesis unfolding platform_inv_def by (blast intro: release_effect_follows)
next
  case artifact_part
  with r show ?thesis by (auto dest!: artifact_effect_frames simp: same_governance_def intro: follows_keep)
next
  case trust_part
  with r show ?thesis by (auto simp: trust_effect_frames intro: follows_keep)
next
  case case_part
  with r show ?thesis by (auto dest!: case_effect_frames simp: same_platform_def intro: follows_keep)
qed

interpretation release_life: stable_fact "platform_effect env cfg" "platform_inv env"
  "\<lambda>db. \<exists>r'\<in>set (releases db). follows r r'"
proof unfold_locales
  fix db db' assume "platform_inv env db" "\<exists>r'\<in>set (releases db). follows r r'" "platform_effect env cfg db db'"
  then show "\<exists>r'\<in>set (releases db'). follows r r'"
    by (meson effect_follows follows_trans)
qed

text \<open>Signatures are never changed or removed, nor are revoked keys.\<close>

lemma effect_signature:
  assumes "platform_effect env cfg db db'" and "s \<in> set (signatures db)"
  shows "s \<in> set (signatures db')"
  using assms(1)
proof cases
  case release_part
  then show ?thesis using assms(2) by cases (auto simp: signed_by_def)
qed (use assms(2) in \<open>auto simp: publisher_write_frames trust_effect_frames same_governance_def same_platform_def
      dest!: artifact_effect_frames case_effect_frames\<close>)

lemma trust_effect_revoked:
  assumes "trust_effect db db'" and t: "t \<in> set (trust_keys db)" "tk_status t = Trust_Revoked"
  shows "t \<in> set (trust_keys db')"
  using assms(1)
proof cases
  case (key_revoked kid epoch row reason now)
  then show ?thesis using t
    in_update_where [OF t(1), of "\<lambda>r. tk_id r = (kid, epoch) \<and> tk_status r = Trust_Active"]
    by (simp split: if_splits)
qed (use t in auto)

lemma effect_revoked_key:
  assumes "platform_effect env cfg db db'" and t: "t \<in> set (trust_keys db)" "tk_status t = Trust_Revoked"
  shows "t \<in> set (trust_keys db')"
  using assms(1)
proof cases
  case trust_part
  then show ?thesis using t by (rule trust_effect_revoked)
qed (use t in \<open>auto simp: publisher_write_frames same_governance_def same_platform_def same_trust_def
      dest!: artifact_effect_frames case_effect_frames release_effect_frames(2)\<close>)

interpretation signature_kept: stable_fact "platform_effect env cfg" "platform_inv env"
  "\<lambda>db. s \<in> set (signatures db)"
  by unfold_locales (rule effect_signature)

interpretation revoked_key_kept: stable_fact "platform_effect env cfg" "platform_inv env"
  "\<lambda>db. t \<in> set (trust_keys db) \<and> tk_status t = Trust_Revoked"
  by unfold_locales (blast intro: effect_revoked_key)

text \<open>
  Artifact rows: id, digest, size and kind of an artifact never change, and a verdict is final.
  The artifacts of a decided release do not change at all.
\<close>

definition same_bytes :: "artifact_row \<Rightarrow> artifact_row \<Rightarrow> bool" where
  "same_bytes a a' \<longleftrightarrow>
     ar_id a' = ar_id a \<and> ar_digest a' = ar_digest a \<and> ar_size_bytes a' = ar_size_bytes a \<and>
     ar_platform a' = ar_platform a \<and> ar_architecture a' = ar_architecture a \<and> ar_format a' = ar_format a \<and>
     (ar_scan_state a \<noteq> Scan_Pending \<longrightarrow>
        ar_scan_state a' = ar_scan_state a \<and> ar_scanner a' = ar_scanner a \<and>
        ar_scanner_version a' = ar_scanner_version a \<and> ar_scanned_at_ms a' = ar_scanned_at_ms a)"

lemma same_bytes_refl [simp]: "same_bytes a a"
  by (simp add: same_bytes_def)

lemma same_bytes_keep: "a \<in> A \<Longrightarrow> \<exists>a'\<in>A. same_bytes a a'"
  using same_bytes_refl by blast

lemma same_bytes_trans: "same_bytes a b \<Longrightarrow> same_bytes b c \<Longrightarrow> same_bytes a c"
  by (auto simp: same_bytes_def)

lemma same_bytes_setters:
  "same_bytes a (set_artifact_url u a)"
  "ar_scan_state a = Scan_Pending \<Longrightarrow> same_bytes a (set_scan v s sv n now a)"
  by (simp_all add: same_bytes_def set_artifact_url_def set_scan_def)

lemma artifact_effect_bytes:
  assumes "artifact_effect cfg db db'" and dist: "distinct (map ar_id (artifacts db))" and a: "a \<in> set (artifacts db)"
  shows "\<exists>a'\<in>set (artifacts db'). same_bytes a a'"
proof -
  have upd: "\<exists>a'\<in>set (update_where (\<lambda>r. ar_id r = i) f (artifacts db)). same_bytes a a'"
    if "ar_id a = i \<Longrightarrow> same_bytes a (f a)" for i f
    using in_update_where [OF a, of "\<lambda>r. ar_id r = i" f] that
    by (cases "ar_id a = i") (auto intro: bexI [rotated])
  from assms(1) show ?thesis
  proof cases
    case (scanned key i a0 verdict s v remark now)
    have "ar_id a = (key, i) \<Longrightarrow> a = a0"
      using artifact_table.lookup_row [OF dist a] scanned(2) by simp
    with scanned show ?thesis by (auto intro!: upd same_bytes_setters)
  qed (use a in \<open>auto simp: upd same_bytes_setters intro: same_bytes_keep\<close>)
qed

lemma effect_bytes:
  assumes "platform_effect env cfg db db'" and inv: "platform_inv env db" and a: "a \<in> set (artifacts db)"
  shows "\<exists>a'\<in>set (artifacts db'). same_bytes a a'"
  using assms(1)
proof cases
  case artifact_part
  with inv a show ?thesis by (intro artifact_effect_bytes) (simp_all add: platform_inv_def governed_def)
qed (use a in \<open>auto simp: publisher_write_frames trust_effect_frames same_platform_def same_artifacts_def
      dest!: case_effect_frames release_effect_frames(1) intro: same_bytes_keep\<close>)

interpretation artifact_life: stable_fact "platform_effect env cfg" "platform_inv env"
  "\<lambda>db. \<exists>a'\<in>set (artifacts db). same_bytes a a'"
proof unfold_locales
  fix db db' assume "platform_inv env db" "\<exists>a'\<in>set (artifacts db). same_bytes a a'" "platform_effect env cfg db db'"
  then show "\<exists>a'\<in>set (artifacts db'). same_bytes a a'"
    by (meson effect_bytes same_bytes_trans)
qed

lemma artifact_effect_decided:
  assumes "artifact_effect cfg db db'" and gov: "governed env db"
    and r: "r \<in> set (releases db)" "decided (rel_state r)"
  shows "release_artifacts (rel_key r) db' = release_artifacts (rel_key r) db"
  using assms(1)
proof cases
  case unchanged
  then show ?thesis by (simp add: release_artifacts_def)
next
  case (bound key rel i d n pl ac fo u now)
  with r have "rel_key r \<noteq> key"
    using governed_release_get [OF gov bound(2)] decided_not_open by blast
  then show ?thesis by (simp add: release_artifacts_def bound(8))
next
  case (located key rel i a u)
  with r have "rel_key r \<noteq> key"
    using governed_release_get [OF gov located(2)] decided_not_open by blast
  then show ?thesis by (intro release_artifacts_other [OF located(5)]) simp_all
next
  case (scanned key i a verdict s v remark now)
  have "a \<in> set (artifacts db)" "ar_id a = (key, i)"
    using artifact_table.lookup_Some [OF scanned(2)] by auto
  then have "rel_key r \<noteq> key"
    using governed_parts(7) [OF gov r] scanned(3) by (auto simp: covered_def release_artifacts_set)
  then show ?thesis by (intro release_artifacts_other [OF scanned(5)]) simp_all
qed

lemma effect_decided:
  assumes "platform_effect env cfg db db'" and inv: "platform_inv env db"
    and r: "r \<in> set (releases db)" "decided (rel_state r)"
  shows "release_artifacts (rel_key r) db' = release_artifacts (rel_key r) db"
  using assms(1)
proof cases
  case artifact_part
  with inv r show ?thesis by (intro artifact_effect_decided [where env = env]) (simp_all add: platform_inv_def)
qed (auto simp: publisher_write_frames trust_effect_frames same_platform_def same_artifacts_def release_artifacts_def
      dest!: case_effect_frames release_effect_frames(1))

lemma follows_decided: "follows r r' \<Longrightarrow> decided (rel_state r) \<Longrightarrow> decided (rel_state r') \<and> rel_key r' = rel_key r"
  by (auto simp: follows_def decided_def)

interpretation decided_frozen: stable_fact "platform_effect env cfg" "platform_inv env"
  "\<lambda>db. (\<exists>r\<in>set (releases db). rel_key r = key \<and> decided (rel_state r)) \<and> release_artifacts key db = arts"
proof unfold_locales
  fix db db'
  assume inv: "platform_inv env db" and eff: "platform_effect env cfg db db'"
    and "(\<exists>r\<in>set (releases db). rel_key r = key \<and> decided (rel_state r)) \<and> release_artifacts key db = arts"
  then obtain r where r: "r \<in> set (releases db)" "rel_key r = key" "decided (rel_state r)"
    and arts: "release_artifacts key db = arts" by blast
  obtain r' where "r' \<in> set (releases db')" "follows r r'" using effect_follows [OF eff inv r(1)] by blast
  moreover have "release_artifacts key db' = arts" using effect_decided [OF eff inv r(1,3)] r(2) arts by simp
  ultimately show "(\<exists>r\<in>set (releases db'). rel_key r = key \<and> decided (rel_state r)) \<and> release_artifacts key db' = arts"
    using r follows_decided by metis
qed

section \<open>An example run\<close>

text \<open>
  A publisher claims a namespace, drafts a release, registers an artifact on the mirror and
  submits; the scan passes, a signer is configured and the release is approved.  The
  cryptography is a stand-in: a signature is the payload itself.
\<close>

definition ex_crypto :: crypto where
  "ex_crypto = \<lparr>cr_sha256 = (\<lambda>_. replicate 64 CHR ''a''), cr_key_fingerprint = (\<lambda>k. k),
     cr_key_type = (\<lambda>_. Some ''ed25519''), cr_sign = (\<lambda>_ p. p), cr_verify = (\<lambda>_ p s. s = p)\<rparr>"

definition ex_env :: release_env where
  "ex_env = \<lparr>re_crypto = ex_crypto, re_locale_compare = (\<lambda>a b. if a = b then 0 else if a < b then -1 else 1),
     re_artifact_store = True, re_signing_store = True\<rparr>"

definition ex_cfg :: artifact_config where
  "ex_cfg = \<lparr>ac_sha256 = (\<lambda>_. replicate 64 CHR ''b''),
     ac_parse_url = (\<lambda>s. Some \<lparr>url_protocol = ''https:'', url_username = [], url_password = [], url_port = [],
       url_hostname = ''github.com'', url_hash = [], url_text = s\<rparr>),
     ac_max_bytes = 26214400, ac_cas_root = ''cas''\<rparr>"

definition ex_empty :: moderation_db where
  "ex_empty = \<lparr>namespaces = [], publisher_audit = [], releases = [], release_audit = [],
     configured_signer = None, trust_keys = [], signatures = [], artifacts = [], artifact_audit = [],
     cas = [], cases = [], case_audit = []\<rparr>"

definition ex_descriptor :: js where
  "ex_descriptor = JObj
     [(''identity'', JObj [(''namespace'', JStr ''acme''), (''name'', JStr ''demo''), (''kind'', JStr ''skill'')]),
      (''release'', JObj [(''version'', JStr ''1.0.0''), (''platforms'', JArr [JStr ''web''])])]"

definition ex_key :: release_key where
  "ex_key = \<lparr>rk_kind = ''skill'', rk_namespace = ''acme'', rk_name = ''demo'', rk_version = ''1.0.0''\<rparr>"

definition ex_meta :: artifact_meta where
  "ex_meta = \<lparr>am_platform = JUndef, am_architecture = JUndef, am_format = JUndef\<rparr>"

definition ex_signer :: signer where
  "ex_signer = \<lparr>sg_private_key = ''private'', sg_public_key = ''public'', sg_fingerprint = ''public'',
     sg_key_id = ''key-1'', sg_trust_epoch = 1\<rparr>"

definition ex_claimed :: moderation_db where
  "ex_claimed = snd (publisher_create 1 (JStr ''acme'') (JStr ''Acme'') (JStr ''alice'') ex_empty)"

definition ex_drafted :: moderation_db where
  "ex_drafted = snd (createDraft ex_env 2 (JStr ''alice'') ex_descriptor ex_claimed)"

definition ex_bound :: moderation_db where
  "ex_bound = snd (registerExternal ex_cfg 3 4 (JStr ''alice'') (as_raw ex_key) (JStr ''main'') ex_meta
     (JStr (replicate 64 CHR ''c'')) (JNum 100) (JStr ''https://github.com/acme/demo.zip'') ex_drafted)"

definition ex_submitted :: moderation_db where
  "ex_submitted = snd (release_submit 5 (JStr ''alice'') (as_raw ex_key) ex_bound)"

definition ex_scan :: "string \<Rightarrow> moderation_db \<Rightarrow> moderation_db" where
  "ex_scan verdict db = snd (recordScan 6 7 (JStr ''scan'') (as_raw ex_key) (JStr ''main'') (JStr verdict)
     (JStr ''clamav'') (JStr ''1.0'') JUndef JUndef JUndef db)"

definition ex_trusted :: moderation_db where
  "ex_trusted = snd (signing_open 8 (Some ex_signer) (ex_scan ''passed'' ex_submitted))"

definition ex_approved :: moderation_db where
  "ex_approved = snd (release_review ex_env 9 10 (JBool True) (JStr ''rev'') JUndef (as_raw ex_key) ex_trusted)"

definition ex_revoked :: moderation_db where
  "ex_revoked = snd (release_revoke 11 (JStr ''rev'') JUndef (as_raw ex_key) ex_approved)"

lemma ex_attached: "attached ex_env"
  by (simp add: attached_def ex_env_def)

lemma step_snd:
  "(\<And>r db'. f db = (r, db') \<Longrightarrow> platform_step env cfg db db') \<Longrightarrow> platform_step env cfg db (snd (f db))"
  by (cases "f db") simp

lemma ex_run_submitted: "(platform_step ex_env ex_cfg)\<^sup>*\<^sup>* ex_empty ex_submitted"
proof -
  have "platform_step ex_env ex_cfg ex_empty ex_claimed"
    unfolding ex_claimed_def by (intro platform_step.publisher) (metis publisher_step.create prod.collapse)
  moreover have "platform_step ex_env ex_cfg ex_claimed ex_drafted"
    unfolding ex_drafted_def by (rule step_snd) (rule platform_step.draft)
  moreover have "platform_step ex_env ex_cfg ex_drafted ex_bound"
    unfolding ex_bound_def by (rule step_snd) (rule platform_step.external)
  moreover have "platform_step ex_env ex_cfg ex_bound ex_submitted"
    unfolding ex_submitted_def by (rule step_snd) (rule platform_step.submit)
  ultimately show ?thesis by (meson rtranclp.intros)
qed

lemma ex_run_trusted: "(platform_step ex_env ex_cfg)\<^sup>*\<^sup>* ex_empty ex_trusted"
proof -
  note ex_run_submitted
  moreover have "platform_step ex_env ex_cfg ex_submitted (ex_scan ''passed'' ex_submitted)"
    unfolding ex_scan_def by (rule step_snd) (rule platform_step.scan)
  moreover have "platform_step ex_env ex_cfg (ex_scan ''passed'' ex_submitted) ex_trusted"
    unfolding ex_trusted_def by (rule step_snd) (rule platform_step.start_signer)
  ultimately show ?thesis by (meson rtranclp.intros)
qed

lemma ex_step_approved: "platform_step ex_env ex_cfg ex_trusted ex_approved"
  unfolding ex_approved_def by (rule step_snd) (rule platform_step.review)

lemma ex_run_approved: "(platform_step ex_env ex_cfg)\<^sup>*\<^sup>* ex_empty ex_approved"
  using ex_run_trusted ex_step_approved by (rule rtranclp.rtrancl_into_rtrancl)

text \<open>The database before the scan, evaluated once.\<close>

definition ex_entry :: extension_entry where
  "ex_entry = \<lparr>en_namespace = ''acme'', en_name = ''demo'', en_kind = ''skill'', en_origin = ''public'',
     en_trust_domain = ''catalog-authorized'', en_display_name = ''demo'', en_description = [],
     en_publisher_id = ''acme'', en_publisher_display_name = ''acme'', en_verified = False,
     en_evidence = [], en_version = ''1.0.0'', en_channel = ''stable'', en_platforms = [''web''],
     en_capabilities = [], en_revoked = False, en_min_host_api = None, en_manifest_digest = None,
     en_bundle_digest = None, en_categories = [], en_tags = [], en_legacy = [], en_runtime = []\<rparr>"

definition ex_row :: release_row where
  "ex_row = set_submitted 5 (draft_row ex_key ex_entry (replicate 64 CHR ''a'') ''alice'' 2)"

definition ex_unscanned :: artifact_row where
  "ex_unscanned = new_artifact_row (ex_key, ''main'') (replicate 64 CHR ''c'') 100 ''all'' ''any'' ''binary''
     ''https://github.com/acme/demo.zip'' 3"

definition ex_artifact :: artifact_row where
  "ex_artifact = set_scan Scan_Passed ''clamav'' ''1.0'' [] 6 ex_unscanned"

definition ex_pending :: moderation_db where
  "ex_pending = \<lparr>namespaces = [new_namespace_row ''acme'' ''Acme'' ''alice'' 1],
     publisher_audit = [\<lparr>pa_sequence = 1, pa_namespace = ''acme'', pa_action = ''namespace.created'',
       pa_actor_account_id = ''alice'', pa_target_account_id = None,
       pa_payload = JObj [(''displayName'', JStr ''Acme'')], pa_occurred_at_ms = 1\<rparr>],
     releases = [ex_row],
     release_audit =
       [\<lparr>ra_sequence = 1, ra_key = ex_key, ra_action = ''release.created'', ra_actor = ''alice'',
         ra_payload = JObj (digest_json (replicate 64 CHR ''a'')), ra_occurred_at_ms = 2\<rparr>,
        \<lparr>ra_sequence = 2, ra_key = ex_key, ra_action = ''release.submitted'', ra_actor = ''alice'',
         ra_payload = JObj (digest_json (replicate 64 CHR ''a'')), ra_occurred_at_ms = 5\<rparr>],
     configured_signer = None, trust_keys = [], signatures = [],
     artifacts = [ex_unscanned],
     artifact_audit =
       [\<lparr>aa_sequence = 1, aa_digest = replicate 64 CHR ''c'', aa_action = ''artifact.registered'',
         aa_actor = ''alice'',
         aa_payload = JObj (artifact_key_json ex_key ''main'' @
           [(''sizeBytes'', JNum 100), (''url'', JStr ''https://github.com/acme/demo.zip'')]),
         aa_occurred_at_ms = 4\<rparr>],
     cas = [], cases = [], case_audit = []\<rparr>"

lemma ex_submitted_eq: "ex_submitted = ex_pending"
  by code_simp

definition ex_view :: "moderation_db \<Rightarrow> release_row list \<times> artifact_row list \<times> signer option \<times>
    signature_row list \<times> trust_key_row list \<times> case_row list \<times> string list" where
  "ex_view db = (releases db, artifacts db, configured_signer db, signatures db, trust_keys db, cases db,
     map ns_owner_account_id (namespaces db))"

lemma ex_trusted_tables:
  "ex_view ex_trusted =
   ([ex_row], [ex_artifact], Some ex_signer, [], [trust_row ex_signer 8], [], [''alice''])"
  unfolding ex_trusted_def ex_submitted_eq by code_simp

lemma ex_key_ok: "key_ok ex_key"
  by code_simp

lemma ex_tables:
  "releases ex_trusted = [ex_row]" "artifacts ex_trusted = [ex_artifact]"
  "configured_signer ex_trusted = Some ex_signer" "signatures ex_trusted = []"
  "trust_keys ex_trusted = [trust_row ex_signer 8]" "cases ex_trusted = []"
  using ex_trusted_tables by (simp_all add: ex_view_def)

lemma ex_row_sel [simp]:
  "rel_key ex_row = ex_key" "rel_state ex_row = Pending_Review" "rel_descriptor ex_row = ex_entry"
  "rel_descriptor_digest ex_row = replicate 64 CHR ''a''"
  by (simp_all add: ex_row_def)

lemma ex_get: "release_get ex_key ex_trusted = Some ex_row"
  by (simp add: release_get_def ex_tables)

lemma ex_artifacts: "release_artifacts ex_key ex_trusted = [ex_artifact]"
  by (simp add: release_artifacts_def ex_tables) (simp add: ex_artifact_def ex_unscanned_def)

lemma ex_pair: "key_pair ex_crypto ex_signer"
  by (simp add: key_pair_def ex_crypto_def ex_signer_def)

lemma ex_digests: "hex64 (replicate 64 CHR ''a'')" "signable_artifact (publicArtifact ex_artifact)"
  "ar_scan_state ex_artifact = Scan_Passed"
  by code_simp+

section \<open>Reachable databases\<close>

definition fresh :: "'a moderation_db_scheme \<Rightarrow> bool" where
  "fresh db \<longleftrightarrow>
     namespaces db = [] \<and> publisher_audit db = [] \<and> releases db = [] \<and> artifacts db = [] \<and>
     signatures db = [] \<and> trust_keys db = [] \<and> configured_signer db = None \<and> cases db = []"

definition reachable :: "release_env \<Rightarrow> artifact_config \<Rightarrow> 'a moderation_db_scheme \<Rightarrow> bool" where
  "reachable env cfg db \<longleftrightarrow> attached env \<and> (\<exists>db0. fresh db0 \<and> (platform_step env cfg)\<^sup>*\<^sup>* db0 db)"

lemma reachable_attached: "reachable env cfg db \<Longrightarrow> attached env"
  by (simp add: reachable_def)

lemma reachable_state_inv: "reachable env cfg db \<Longrightarrow> platform_inv env db"
  by (auto simp: reachable_def fresh_def intro: platform_run_inv platform_inv_empty)

lemma reachable_run: "reachable env cfg db \<Longrightarrow> (platform_step env cfg)\<^sup>*\<^sup>* db db' \<Longrightarrow> reachable env cfg db'"
  by (auto simp: reachable_def intro: rtranclp_trans)

lemma reachable_parts:
  assumes "reachable env cfg db"
  shows "governed env db" and "publisher_inv db" and "cases_inv db"
  using reachable_state_inv [OF assms] by (simp_all add: platform_inv_def)

lemma later_effects:
  "reachable env cfg db \<Longrightarrow> (platform_step env cfg)\<^sup>*\<^sup>* db db' \<Longrightarrow> (platform_effect env cfg)\<^sup>*\<^sup>* db db'"
  by (rule platform_run_effects) (auto intro: reachable_attached reachable_state_inv)

lemma ex_fresh: "fresh ex_empty"
  by (simp add: fresh_def ex_empty_def)

lemma ex_reachable_trusted: "reachable ex_env ex_cfg ex_trusted"
  using ex_attached ex_fresh ex_run_trusted unfolding reachable_def by blast

lemma ex_reachable: "reachable ex_env ex_cfg ex_approved"
  using ex_attached ex_fresh ex_run_approved unfolding reachable_def by blast

lemma governed_get:
  assumes "governed env db"
  shows "r \<in> set (releases db) \<Longrightarrow> release_get (rel_key r) db = Some r"
    and "s \<in> set (signatures db) \<Longrightarrow> signature_get (sr_key s) db = Some s"
    and "a \<in> set (artifacts db) \<Longrightarrow> artifact_get (ar_id a) db = Some a"
    and "t \<in> set (trust_keys db) \<Longrightarrow> trust_get (fst (tk_id t)) (snd (tk_id t)) db = Some t"
  using governed_parts(1-4) [OF assms]
    rel_table.lookup_row signature_table.lookup_row artifact_table.lookup_row trust_table.lookup_row by blast+

lemma ex_approved_facts:
  "release_get ex_key ex_approved = Some (set_reviewed Approved ''rev'' [] 9 ex_row)"
  "signature_get ex_key ex_approved \<noteq> None"
proof -
  have ok: "release_ok ex_env ex_row"
    using reachable_parts(1) [OF ex_reachable_trusted] by (simp add: governed_def ex_tables)
  have none: "signature_get ex_key ex_trusted = None" by (simp add: signature_get_def ex_tables)
  have label: "reviewer_label (JStr ''rev'') = ''rev''" "slice_to 4000 (trimmed JUndef) = []" by code_simp+
  have env: "re_crypto ex_env = ex_crypto" by (simp add: ex_env_def)
  obtain db' where "release_review ex_env 9 10 (JBool True) (JStr ''rev'') JUndef (as_raw ex_key) ex_trusted =
      (Inr (publicRelease (set_reviewed Approved ''rev'' [] 9 ex_row)), db')"
    and "release_get ex_key db' = Some (set_reviewed Approved ''rev'' [] 9 ex_row)"
    and "signature_get ex_key db' \<noteq> None"
    using approving_review [OF ex_attached releaseKey_as_raw [OF ex_key_ok] ex_get _ ok _ _ ex_tables(3) _ none,
        of 9 10 "JStr ''rev''" JUndef] ex_pair
    by (auto simp: ex_artifacts ex_digests label env)
  then show "release_get ex_key ex_approved = Some (set_reviewed Approved ''rev'' [] 9 ex_row)"
    "signature_get ex_key ex_approved \<noteq> None"
    by (simp_all add: ex_approved_def)
qed

lemma ex_approved_state: "map_option rel_state (release_get ex_key ex_approved) = Some Approved"
  by (simp add: ex_approved_facts)

section \<open>Releases\<close>

text \<open>C1: in every reachable state of the service an approved (or later revoked) release is covered: it has
  at least one artifact, every artifact passed its scan, and one signature is stored for it that
  verifies, was made with a registered trust key and signs exactly the release's descriptor digest,
  identity, version and present artifacts.\<close>

theorem approved_release_is_covered:
  assumes "reachable env cfg db" and "release_get key db = Some r" and "rel_state r = Approved \<or> rel_state r = Revoked"
  shows "release_artifacts key db \<noteq> [] \<and> (\<forall>a\<in>set (release_artifacts key db). ar_scan_state a = Scan_Passed) \<and>
    (\<exists>s. signature_get key db = Some s \<and>
       verifyReleaseSignatureEnvelope (re_crypto env) (publicEnvelope s) \<and>
       known_key (trust_keys db) (sr_key_id s) (sr_trust_epoch s) (sr_public_key s) (sr_fingerprint s) \<and>
       sr_payload s = release_payload (re_locale_compare env) (sr_key_id s) (sr_trust_epoch s)
         (rel_descriptor r) (rel_descriptor_digest r) (map publicArtifact (release_artifacts key db)))"
proof -
  note gov = reachable_parts(1) [OF assms(1)]
  have r: "r \<in> set (releases db)" "rel_key r = key" using rel_table.lookup_Some [OF assms(2)] by auto
  have "covered env (signatures db) (release_artifacts key db) r"
    using governed_parts(7) [OF gov r(1)] assms(3) r(2) by (simp add: decided_def)
  then show ?thesis
    using governed_parts(6) [OF gov] governed_get(2) [OF gov] r(2)
    unfolding covered_def signature_ok_def payload_of_def by metis
qed

lemma approved_release_is_covered_witness:
  "release_artifacts ex_key ex_approved \<noteq> [] \<and> signature_get ex_key ex_approved \<noteq> None"
proof -
  obtain r where "release_get ex_key ex_approved = Some r" "rel_state r = Approved"
    using ex_approved_state by auto
  then show ?thesis
    using approved_release_is_covered [OF ex_reachable, of ex_key r] by auto
qed

text \<open>C2: a release row is never deleted or replaced: in every later state the row of its key has the same
  descriptor, digest, publisher and creation time, and its state has only moved forward along
  draft, pending review, approved or rejected, revoked; a revoked row does not change at all.\<close>

theorem release_life_cycle:
  assumes "reachable env cfg db" and "(platform_step env cfg)\<^sup>*\<^sup>* db db'" and "release_get key db = Some r"
  shows "\<exists>r'. release_get key db' = Some r' \<and> rel_descriptor r' = rel_descriptor r \<and>
    rel_descriptor_digest r' = rel_descriptor_digest r \<and>
    rel_publisher_account_id r' = rel_publisher_account_id r \<and> rel_created_at_ms r' = rel_created_at_ms r \<and>
    later_state (rel_state r) (rel_state r') \<and> (rel_state r = Revoked \<longrightarrow> r' = r)"
proof -
  have r: "r \<in> set (releases db)" "rel_key r = key" using rel_table.lookup_Some [OF assms(3)] by auto
  have "\<exists>r'\<in>set (releases db'). follows r r'"
    using release_life.reachable_fact [OF later_effects [OF assms(1,2)] reachable_state_inv [OF assms(1)]]
      follows_keep [OF r(1)] by blast
  then obtain r' where r': "r' \<in> set (releases db')" "follows r r'" by blast
  moreover have "release_get key db' = Some r'"
    using governed_get(1) [OF reachable_parts(1) [OF reachable_run [OF assms(1,2)]] r'(1)] r'(2) r(2)
    by (simp add: follows_def)
  ultimately show ?thesis by (auto simp: follows_def)
qed

lemma release_life_cycle_witness:
  "\<exists>r'. release_get ex_key ex_approved = Some r' \<and> later_state Pending_Review (rel_state r')"
proof -
  obtain r where r: "release_get ex_key ex_trusted = Some r" "rel_state r = Pending_Review"
  using ex_get by simp
  show ?thesis
    using release_life_cycle [OF ex_reachable_trusted r_into_rtranclp, OF ex_step_approved r(1)] r(2) by auto
qed

text \<open>C3: once a release is approved, what was signed is fixed for ever: in every later state it is
  approved or revoked, its artifact rows (digests, sizes, platforms, locations, verdicts) are the same
  list and the stored signature is the same row.\<close>

theorem approved_material_is_frozen:
  assumes "reachable env cfg db" and "(platform_step env cfg)\<^sup>*\<^sup>* db db'" and "release_get key db = Some r"
    and "rel_state r = Approved"
  shows "release_artifacts key db' = release_artifacts key db \<and> signature_get key db' = signature_get key db \<and>
    (\<exists>r'. release_get key db' = Some r' \<and> (rel_state r' = Approved \<or> rel_state r' = Revoked))"
proof -
  have r: "r \<in> set (releases db)" "rel_key r = key" "decided (rel_state r)"
    using rel_table.lookup_Some [OF assms(3)] assms(4) by (auto simp: decided_def)
  note run = later_effects [OF assms(1,2)] and inv = reachable_state_inv [OF assms(1)]
  note gov' = reachable_parts(1) [OF reachable_run [OF assms(1,2)]]
  have frozen: "(\<exists>r\<in>set (releases db'). rel_key r = key \<and> decided (rel_state r)) \<and>
      release_artifacts key db' = release_artifacts key db"
    by (rule decided_frozen.reachable_fact [OF run inv]) (use r in blast)
  obtain s where s: "s \<in> set (signatures db)" "sr_key s = key"
    using governed_parts(7) [OF reachable_parts(1) [OF assms(1)] r(1,3)] r(2) by (auto simp: covered_def)
  then have "signature_get key db = Some s"
    using governed_get(2) [OF reachable_parts(1) [OF assms(1)]] by blast
  moreover have "signature_get key db' = Some s"
    using governed_get(2) [OF gov'] signature_kept.reachable_fact [OF run inv s(1)] s(2) by blast
  ultimately show ?thesis
    using frozen governed_get(1) [OF gov'] by (auto simp: decided_def)
qed

lemma approved_material_is_frozen_witness:
  "release_artifacts ex_key ex_revoked = release_artifacts ex_key ex_approved \<and>
   signature_get ex_key ex_revoked = signature_get ex_key ex_approved"
proof -
  obtain r where r: "release_get ex_key ex_approved = Some r" "rel_state r = Approved"
    using ex_approved_state by auto
  have "platform_step ex_env ex_cfg ex_approved ex_revoked"
    unfolding ex_revoked_def by (rule step_snd) (rule platform_step.revoke)
  from approved_material_is_frozen [OF ex_reachable r_into_rtranclp, OF this r] show ?thesis by simp
qed

text \<open>C4: with a stored key pair as signer, approving a pending release whose artifacts all passed succeeds:
  the review returns the release approved and stores one signature made with that signer over the
  canonical payload of the release and its artifacts.\<close>

theorem approval_signs_and_approves:
  assumes "reachable env cfg db" and "releaseKey raw = Inr key" and "release_get key db = Some row"
    and "rel_state row = Pending_Review" and "release_artifacts key db \<noteq> []"
    and "\<forall>a\<in>set (release_artifacts key db). ar_scan_state a = Scan_Passed \<and> signable_artifact (publicArtifact a)"
    and "configured_signer db = Some sg" and "key_pair (re_crypto env) sg" and "hex64 (rel_descriptor_digest row)"
  shows "\<exists>p db' s. release_review env now sign_now (JBool True) reviewer remark raw db = (Inr p, db') \<and>
    pr_state p = Approved \<and> signature_get key db = None \<and> signature_get key db' = Some s \<and>
    sr_payload s = release_payload (re_locale_compare env) (sg_key_id sg) (sg_trust_epoch sg) (rel_descriptor row)
      (rel_descriptor_digest row) (map publicArtifact (release_artifacts key db)) \<and>
    sr_signature s = cr_sign (re_crypto env) (sg_private_key sg) (sr_payload s)"
proof -
  note gov = reachable_parts(1) [OF assms(1)]
  have row: "row \<in> set (releases db)" "rel_key row = key" using rel_table.lookup_Some [OF assms(3)] by auto
  have ok: "release_ok env row" by (rule governed_parts(5) [OF gov row(1)])
  have none: "signature_get key db = None"
  proof (rule ccontr)
    assume "signature_get key db \<noteq> None"
    then obtain s where "s \<in> set (signatures db)" "sr_key s = key"
      using signature_table.lookup_Some [of key db] by auto
    then obtain r where "r \<in> set (releases db)" "rel_key r = key" "decided (rel_state r)"
      using governed_parts(6) [OF gov] by (auto simp: signature_ok_def)
    with assms(4) governed_release_get [OF gov assms(3)] show False by (auto simp: decided_def)
  qed
  from approving_review [OF reachable_attached [OF assms(1)] assms(2,3,4) ok assms(5) _ assms(7,8) none assms(9),
      of now sign_now reviewer remark] assms(6) none
  show ?thesis by (fastforce simp: envelope_row_def made_envelope_def)
qed

lemma approval_signs_and_approves_witness:
  "\<exists>p db'. release_review ex_env 9 10 (JBool True) JUndef JUndef (as_raw ex_key) ex_trusted = (Inr p, db') \<and>
    pr_state p = Approved"
proof -
  have "re_crypto ex_env = ex_crypto" by (simp add: ex_env_def)
  with approval_signs_and_approves [OF ex_reachable_trusted releaseKey_as_raw [OF ex_key_ok] ex_get _ _ _ ex_tables(3),
      of 9 10 JUndef JUndef] ex_pair
  show ?thesis by (auto simp: ex_artifacts ex_digests)
qed

section \<open>Artifacts\<close>

text \<open>C5: the bytes bound to an artifact id never change: in every later state the artifact row of that id
  has the same digest, size, platform, architecture and format, and once a scan verdict is recorded
  the verdict, the scanner and its version stay what they were.\<close>

theorem artifact_binding_is_immutable:
  assumes "reachable env cfg db" and "(platform_step env cfg)\<^sup>*\<^sup>* db db'" and "artifact_get i db = Some a"
  shows "\<exists>a'. artifact_get i db' = Some a' \<and> ar_digest a' = ar_digest a \<and>
    ar_size_bytes a' = ar_size_bytes a \<and> ar_platform a' = ar_platform a \<and>
    ar_architecture a' = ar_architecture a \<and> ar_format a' = ar_format a \<and>
    (ar_scan_state a = Scan_Pending \<or>
     ar_scan_state a' = ar_scan_state a \<and> ar_scanner a' = ar_scanner a \<and>
     ar_scanner_version a' = ar_scanner_version a)"
proof -
  have a: "a \<in> set (artifacts db)" "ar_id a = i" using artifact_table.lookup_Some [OF assms(3)] by auto
  have "\<exists>a'\<in>set (artifacts db'). same_bytes a a'"
    using artifact_life.reachable_fact [OF later_effects [OF assms(1,2)] reachable_state_inv [OF assms(1)]]
      same_bytes_keep [OF a(1)] by blast
  then obtain a' where a': "a' \<in> set (artifacts db')" "same_bytes a a'" by blast
  moreover have "artifact_get i db' = Some a'"
    using governed_get(3) [OF reachable_parts(1) [OF reachable_run [OF assms(1,2)]] a'(1)] a'(2) a(2)
    by (simp add: same_bytes_def)
  ultimately show ?thesis by (auto simp: same_bytes_def)
qed

lemma ex_artifact_id: "ar_id ex_artifact = (ex_key, ''main'')"
  by (simp add: ex_artifact_def ex_unscanned_def)

lemma artifact_binding_is_immutable_witness:
  "\<exists>a. artifact_get (ex_key, ''main'') ex_approved = Some a \<and> ar_digest a = replicate 64 CHR ''c''"
proof -
  have "artifact_get (ex_key, ''main'') ex_trusted = Some ex_artifact"
    by (simp add: artifact_get_def ex_tables ex_artifact_id)
  from artifact_binding_is_immutable [OF ex_reachable_trusted r_into_rtranclp, OF ex_step_approved this]
  show ?thesis by (auto simp: ex_artifact_def ex_unscanned_def)
qed

text \<open>C6: a rejected artifact can not be forgotten: once a scan rejected an artifact of a release, in every
  later state the release is not approved, and a review that wants to approve it fails and changes
  nothing.\<close>

theorem rejected_artifact_blocks_approval:
  assumes "reachable env cfg db" and "(platform_step env cfg)\<^sup>*\<^sup>* db db'"
    and "artifact_get (key, i) db = Some a" and "ar_scan_state a = Scan_Rejected" and "releaseKey raw = Inr key"
  shows "\<not> (\<exists>r. release_get key db' = Some r \<and> (rel_state r = Approved \<or> rel_state r = Revoked)) \<and>
    (\<exists>e. release_review env now sign_now (JBool True) reviewer remark raw db' = (Inl e, db'))"
proof -
  have a: "a \<in> set (artifacts db)" "ar_id a = (key, i)" using artifact_table.lookup_Some [OF assms(3)] by auto
  have att: "attached env" by (rule reachable_attached [OF assms(1)])
  note gov' = reachable_parts(1) [OF reachable_run [OF assms(1,2)]]
  have "\<exists>a'\<in>set (artifacts db'). same_bytes a a'"
    using artifact_life.reachable_fact [OF later_effects [OF assms(1,2)] reachable_state_inv [OF assms(1)]]
      same_bytes_keep [OF a(1)] by blast
  then obtain a' where "a' \<in> set (artifacts db')" "ar_id a' = (key, i)" "ar_scan_state a' = Scan_Rejected"
    using assms(4) a(2) by (auto simp: same_bytes_def)
  then have bad: "a' \<in> set (release_artifacts key db')" "ar_scan_state a' \<noteq> Scan_Passed"
    by (simp_all add: release_artifacts_set)
  have "\<not> decided (rel_state r)" if "release_get key db' = Some r" for r
    using governed_parts(7) [OF gov', of r] rel_table.lookup_Some [OF that] bad by (auto simp: covered_def)
  moreover have "\<exists>e. release_review env now sign_now (JBool True) reviewer remark raw db' = (Inl e, db')"
  proof (cases "approvalGate (as_raw key) db'")
    case (Inl e)
    then show ?thesis using att assms(5)
      by (auto simp: release_review_def release_require_def attached_def split: option.splits)
  next
    case (Inr arts)
    with bad assms(5) show ?thesis by (auto simp: approvalGate_Inr releaseKey_ok)
  qed
  ultimately show ?thesis by (auto simp: decided_def)
qed

definition ex_rejected :: moderation_db where
  "ex_rejected = ex_scan ''rejected'' ex_submitted"

lemma rejected_artifact_blocks_approval_witness:
  "\<exists>e. release_review ex_env 9 10 (JBool True) JUndef JUndef (as_raw ex_key) ex_rejected = (Inl e, ex_rejected)"
proof -
  have run: "(platform_step ex_env ex_cfg)\<^sup>*\<^sup>* ex_empty ex_submitted" by (rule ex_run_submitted)
  have "platform_step ex_env ex_cfg ex_submitted ex_rejected"
    unfolding ex_rejected_def ex_scan_def by (rule step_snd) (rule platform_step.scan)
  with run have "reachable ex_env ex_cfg ex_rejected"
    using ex_attached ex_fresh unfolding reachable_def by (blast intro: rtranclp.rtrancl_into_rtrancl)
  moreover obtain a where "artifact_get (ex_key, ''main'') ex_rejected = Some a" "ar_scan_state a = Scan_Rejected"
  proof -
    have "map_option ar_scan_state (artifact_get (ex_key, ''main'') ex_rejected) = Some Scan_Rejected"
      unfolding ex_rejected_def ex_submitted_eq by code_simp
    then show ?thesis using that by auto
  qed
  ultimately show ?thesis
    using rejected_artifact_blocks_approval [OF _ rtranclp.rtrancl_refl _ _ releaseKey_as_raw [OF ex_key_ok]] by blast
qed

section \<open>Trust keys\<close>

lemma revoked_key_later:
  assumes "reachable env cfg db" and "(platform_step env cfg)\<^sup>*\<^sup>* db db'"
    and "trust_get kid epoch db = Some t" and "tk_status t = Trust_Revoked"
  shows "trust_get kid epoch db' = Some t"
proof -
  have t: "t \<in> set (trust_keys db)" "tk_id t = (kid, epoch)"
    using trust_table.lookup_Some [of "(kid, epoch)" db t] assms(3) by auto
  have "t \<in> set (trust_keys db') \<and> tk_status t = Trust_Revoked"
    by (rule revoked_key_kept.reachable_fact [OF later_effects [OF assms(1,2)] reachable_state_inv [OF assms(1)]])
      (use t assms(4) in simp)
  then show ?thesis
    using governed_get(4) [OF reachable_parts(1) [OF reachable_run [OF assms(1,2)]], of t] t(2) by simp
qed

text \<open>C7: revoking a trust key is permanent: in every later state no signature made under that key id and
  epoch is trusted, so no release signed with it is handed out, and the service can not be started
  with a signer of that id and epoch.\<close>

theorem key_revocation_is_permanent:
  assumes "reachable env cfg db" and "(platform_step env cfg)\<^sup>*\<^sup>* db db'"
    and "trust_get kid epoch db = Some t" and "tk_status t = Trust_Revoked"
  shows "(\<forall>cr ev. trusts cr ev db' \<longrightarrow> (ev_key_id ev, ev_trust_epoch ev) \<noteq> (kid, epoch)) \<and>
    (\<forall>cr raw ev. getTrustedSignature cr raw db' = Inr (Some ev) \<longrightarrow> (ev_key_id ev, ev_trust_epoch ev) \<noteq> (kid, epoch)) \<and>
    (\<forall>sg now. sg_key_id sg = kid \<and> sg_trust_epoch sg = epoch \<longrightarrow> (\<exists>e. signing_open now (Some sg) db' = (Inl e, db')))"
proof -
  note key = revoked_key_later [OF assms]
  have untrusted: "trusts cr ev db' \<Longrightarrow> (ev_key_id ev, ev_trust_epoch ev) \<noteq> (kid, epoch)" for cr ev
    using key assms(4) by (auto simp: trusts_def)
  moreover have "getTrustedSignature cr raw db' = Inr (Some ev) \<Longrightarrow> trusts cr ev db'" for cr raw ev
    by (auto simp: getTrustedSignature_def split: sum.splits option.splits if_splits)
  moreover have "sg_key_id sg = kid \<Longrightarrow> sg_trust_epoch sg = epoch \<Longrightarrow>
      \<exists>e. signing_open now (Some sg) db' = (Inl e, db')" for sg now
    using key assms(4) by (simp add: signing_open_def registerConfiguredSigner_def)
  ultimately show ?thesis by blast
qed

definition ex_rotated :: moderation_db where
  "ex_rotated = snd (signing_open 12 (Some (ex_signer\<lparr>sg_key_id := ''key-2''\<rparr>)) ex_trusted)"

definition ex_key_revoked :: moderation_db where
  "ex_key_revoked = snd (revokeTrustKey 13 (JStr ''key-1'') (JNum 1) (JStr ''leaked'') ex_rotated)"

lemma ex_key_revoked_reachable: "reachable ex_env ex_cfg ex_key_revoked"
proof -
  have "platform_step ex_env ex_cfg ex_trusted ex_rotated"
    unfolding ex_rotated_def by (rule step_snd) (rule platform_step.start_signer)
  moreover have "platform_step ex_env ex_cfg ex_rotated ex_key_revoked"
    unfolding ex_key_revoked_def by (rule step_snd) (rule platform_step.revoke_key)
  ultimately show ?thesis
    by (meson ex_reachable_trusted reachable_run r_into_rtranclp)
qed

lemma key_revocation_is_permanent_witness:
  "trust_get ''key-1'' 1 ex_key_revoked \<noteq> None \<and>
   (\<exists>e. signing_open 14 (Some ex_signer) ex_key_revoked = (Inl e, ex_key_revoked))"
proof -
  have "map_option tk_status (trust_get ''key-1'' 1 ex_key_revoked) = Some Trust_Revoked"
    unfolding ex_key_revoked_def ex_rotated_def ex_trusted_def ex_submitted_eq by code_simp
  then obtain t where t: "trust_get ''key-1'' 1 ex_key_revoked = Some t" "tk_status t = Trust_Revoked" by auto
  then show ?thesis
    using key_revocation_is_permanent [OF ex_key_revoked_reachable rtranclp.rtrancl_refl t]
    by (auto simp: ex_signer_def)
qed

text \<open>in every reachable state the configured signer's key is registered, active and has the signer's
  material, and revoking it is refused: a key that signs can only be revoked after the service
  was started with another signer.\<close>

theorem configured_signer_is_active:
  assumes "reachable env cfg db" and "configured_signer db = Some sg"
  shows "(\<exists>t. trust_get (sg_key_id sg) (sg_trust_epoch sg) db = Some t \<and> tk_status t = Trust_Active \<and>
      tk_public_key t = sg_public_key sg \<and> tk_fingerprint t = sg_fingerprint sg) \<and>
    (\<forall>now k ep reason. keyId k = Inr (sg_key_id sg) \<and> positiveEpoch ep = Inr (sg_trust_epoch sg) \<longrightarrow>
      revokeTrustKey now k ep reason db =
        (Inl (SigningStoreError ACTIVE_SIGNER_REVOCATION_REQUIRES_ROTATION), db))"
proof -
  have "active_signer (configured_signer db) (trust_keys db)"
    by (rule governed_parts(8) [OF reachable_parts(1) [OF assms(1)]])
  then obtain t where "t \<in> set (trust_keys db)" "tk_id t = (sg_key_id sg, sg_trust_epoch sg)"
    "tk_status t = Trust_Active" "tk_public_key t = sg_public_key sg" "tk_fingerprint t = sg_fingerprint sg"
    using assms(2) by (auto simp: active_signer_def)
  moreover have "trust_get (sg_key_id sg) (sg_trust_epoch sg) db = Some t"
    using governed_get(4) [OF reachable_parts(1) [OF assms(1)], of t] calculation by simp
  ultimately show ?thesis using assms(2) by (auto simp: revokeTrustKey_def)
qed

lemma configured_signer_is_active_witness:
  "revokeTrustKey 9 (JStr ''key-1'') (JNum 1) JUndef ex_trusted =
     (Inl (SigningStoreError ACTIVE_SIGNER_REVOCATION_REQUIRES_ROTATION), ex_trusted)"
proof -
  have "keyId (JStr ''key-1'') = Inr (sg_key_id ex_signer)" "positiveEpoch (JNum 1) = Inr (sg_trust_epoch ex_signer)"
    by code_simp+
  with configured_signer_is_active [OF ex_reachable_trusted ex_tables(3)] show ?thesis by blast
qed

lemma find_trusted_Inr:
  "find_trusted cr db rows = Inr (Some row) \<Longrightarrow>
     row \<in> set rows \<and> (\<exists>ev. getTrustedSignature cr (as_raw (fst (ar_id row))) db = Inr (Some ev))"
  by (induction rows) (auto split: sum.splits option.splits)

lemma approvedArtifact_Inr:
  assumes "approvedArtifact c (Some cr) d db = Inr (Some p)"
  obtains row where "row \<in> set (approved_digest_rows (trimmed_lower d) db)"
    and "\<exists>ev. getTrustedSignature cr (as_raw (fst (ar_id row))) db = Inr (Some ev)"
    and "ap_digest p = trimmed_lower d" and "ap_size_bytes p = ar_size_bytes row"
proof (cases "approved_digest_rows (trimmed_lower d) db")
  case Nil
  with assms show thesis by (auto simp: approvedArtifact_def Let_def split: if_splits)
next
  case (Cons r rows)
  with assms show thesis
    by (auto simp: approvedArtifact_def Let_def intro: that dest!: find_trusted_Inr
        split: if_splits sum.splits option.splits)
qed

text \<open>C23: what is handed out for download is approved and signed: when the artifact store serves a digest
  in a reachable state, some approved release has an artifact with that digest that passed its scan, the
  size served is that artifact's, and the release has a stored signature whose payload lists its
  artifacts and which verifies under an active trust key.\<close>

theorem served_artifact_is_approved:
  assumes "reachable env cfg db" and "approvedArtifact c (Some (re_crypto env)) d db = Inr (Some p)"
  shows "\<exists>key r a s. release_get key db = Some r \<and> rel_state r = Approved \<and>
    a \<in> set (release_artifacts key db) \<and> ar_digest a = ap_digest p \<and> ar_size_bytes a = ap_size_bytes p \<and>
    ar_scan_state a = Scan_Passed \<and> signature_get key db = Some s \<and>
    trusts (re_crypto env) (publicEnvelope s) db \<and>
    sr_payload s = release_payload (re_locale_compare env) (sr_key_id s) (sr_trust_epoch s) (rel_descriptor r)
      (rel_descriptor_digest r) (map publicArtifact (release_artifacts key db))"
proof -
  note gov = reachable_parts(1) [OF assms(1)]
  from assms(2) obtain a ev where a: "a \<in> set (approved_digest_rows (trimmed_lower d) db)"
    and ev: "getTrustedSignature (re_crypto env) (as_raw (fst (ar_id a))) db = Inr (Some ev)"
    and p: "ap_digest p = trimmed_lower d" "ap_size_bytes p = ar_size_bytes a"
    by (rule approvedArtifact_Inr) blast
  from a obtain r where row: "a \<in> set (artifacts db)" "ar_digest a = trimmed_lower d" "ar_scan_state a = Scan_Passed"
    "r \<in> set (releases db)" "rel_key r = fst (ar_id a)" "rel_state r = Approved"
    by (auto simp: approved_digest_rows_def list_ex_iff)
  let ?key = "fst (ar_id a)"
  have "covered env (signatures db) (release_artifacts (rel_key r) db) r"
    using governed_parts(7) [OF gov row(4)] row(6) by (simp add: decided_def)
  then obtain s where s: "s \<in> set (signatures db)" "sr_key s = ?key"
    "sr_payload s = payload_of env r s (release_artifacts ?key db)"
    by (auto simp: covered_def row(5))
  have get: "signature_get ?key db = Some s" using governed_get(2) [OF gov s(1)] s(2) by simp
  have "release_ok env r" by (rule governed_parts(5) [OF gov row(4)])
  then have "key_ok ?key" using entry_key_ok row(5) by (simp add: release_ok_def)
  with ev get have "trusts (re_crypto env) (publicEnvelope s) db"
    by (simp add: getTrustedSignature_def split: if_splits)
  moreover have "release_get ?key db = Some r" using governed_get(1) [OF gov row(4)] row(5) by simp
  moreover have "a \<in> set (release_artifacts ?key db)" using row(1) by (simp add: release_artifacts_set)
  ultimately show ?thesis using get s(3) p row(2,3,6) unfolding payload_of_def by metis
qed

lemma ex_served:
  "case approvedArtifact ex_cfg (Some (re_crypto ex_env)) (JStr (replicate 64 CHR ''c'')) ex_approved of
     Inr (Some p) \<Rightarrow> ap_size_bytes p = 100 | _ \<Rightarrow> False"
  unfolding ex_approved_def ex_trusted_def ex_submitted_eq by code_simp

lemma served_artifact_is_approved_witness:
  "\<exists>p key r a s.
     approvedArtifact ex_cfg (Some (re_crypto ex_env)) (JStr (replicate 64 CHR ''c'')) ex_approved = Inr (Some p) \<and>
     ap_size_bytes p = 100 \<and> release_get key ex_approved = Some r \<and> rel_state r = Approved \<and>
     a \<in> set (release_artifacts key ex_approved) \<and> ar_digest a = ap_digest p \<and>
     signature_get key ex_approved = Some s \<and> trusts (re_crypto ex_env) (publicEnvelope s) ex_approved"
proof -
  obtain p where p: "approvedArtifact ex_cfg (Some (re_crypto ex_env)) (JStr (replicate 64 CHR ''c'')) ex_approved =
      Inr (Some p)" and "ap_size_bytes p = 100"
    using ex_served by (auto split: sum.splits option.splits)
  with served_artifact_is_approved [OF ex_reachable p] show ?thesis by blast
qed

section \<open>Moderation\<close>

text \<open>C24: in every reachable state an account has at most one open report on a release and a report has at
  most one open appeal; an appeal belongs to an actioned report on the same release; and the
  release of an actioned report is revoked, now and in every later state.\<close>

theorem moderation_cases_are_consistent:
  assumes "reachable env cfg db" and "(platform_step env cfg)\<^sup>*\<^sup>* db db'" and "case_get i db = Some c"
  shows "changes (open_report reporter key) (cases db) \<le> 1 \<and> changes (open_appeal report) (cases db) \<le> 1 \<and>
    (mc_type c = Appeal \<longrightarrow> (\<exists>p. p \<in> set (cases db) \<and> mc_parent_case_id c = Some (mc_case_id p) \<and>
       mc_type p = Report \<and> mc_state p = Case_Actioned \<and> mc_key p = mc_key c)) \<and>
    (mc_state c = Case_Actioned \<longrightarrow>
       (\<exists>r. release_get (mc_key c) db' = Some r \<and> rel_state r = Revoked))"
proof -
  note inv = reachable_parts(3) [OF assms(1)]
  have c: "c \<in> set (cases db)" using case_table.lookup_Some [OF assms(3)] by simp
  then have ok: "case_ok (releases db) (cases db) c" using inv unfolding cases_inv_def by blast
  have "\<exists>r. release_get (mc_key c) db' = Some r \<and> rel_state r = Revoked" if "mc_state c = Case_Actioned"
  proof -
    from ok that obtain r where r: "r \<in> set (releases db)" "rel_key r = mc_key c" "rel_state r = Revoked"
      by (auto simp: case_ok_def)
    have "\<exists>r'\<in>set (releases db'). follows r r'"
      using release_life.reachable_fact [OF later_effects [OF assms(1,2)] reachable_state_inv [OF assms(1)]]
        follows_keep [OF r(1)] by blast
    then have "r \<in> set (releases db')" using r(3) by (auto simp: follows_def)
    then show ?thesis
      using governed_get(1) [OF reachable_parts(1) [OF reachable_run [OF assms(1,2)]]] r(2,3) by metis
  qed
  moreover have "changes (open_report reporter key) (cases db) \<le> 1" "changes (open_appeal report) (cases db) \<le> 1"
    using inv unfolding cases_inv_def by blast+
  moreover have "mc_type c = Appeal \<longrightarrow> (\<exists>p. p \<in> set (cases db) \<and> mc_parent_case_id c = Some (mc_case_id p) \<and>
       mc_type p = Report \<and> mc_state p = Case_Actioned \<and> mc_key p = mc_key c)"
    using ok unfolding case_ok_def by blast
  ultimately show ?thesis by blast
qed

definition ex_case_id :: string where
  "ex_case_id = ''00000000-0000-4000-8000-000000000001''"

definition ex_reported :: moderation_db where
  "ex_reported = snd (createReport ex_case_id 20 (JStr ''carol'') (JStr ''malware'') JUndef (as_raw ex_key) ex_trusted)"

lemma ex_reported_reachable: "reachable ex_env ex_cfg ex_reported"
proof -
  have "platform_step ex_env ex_cfg ex_trusted ex_reported"
    unfolding ex_reported_def by (rule step_snd) (rule platform_step.report)
  then show ?thesis by (meson ex_reachable_trusted reachable_run r_into_rtranclp)
qed

lemma moderation_cases_are_consistent_witness:
  "changes (open_report ''carol'' ex_key) (cases ex_reported) = 1"
proof -
  have one: "map mc_state (filter (open_report ''carol'' ex_key) (cases ex_reported)) = [Case_Open]"
    unfolding ex_reported_def ex_trusted_def ex_submitted_eq by code_simp
  then obtain c where only: "filter (open_report ''carol'' ex_key) (cases ex_reported) = [c]" by auto
  then have "c \<in> set (filter (open_report ''carol'' ex_key) (cases ex_reported))" by simp
  then have "c \<in> set (cases ex_reported)" by simp
  moreover have "1 \<le> changes (open_report ''carol'' ex_key) (cases ex_reported)"
    by (simp add: changes_def only)
  moreover have "case_get (mc_case_id c) ex_reported = Some c"
    using case_table.lookup_row [of ex_reported c] calculation reachable_parts(3) [OF ex_reported_reachable]
    by (simp add: cases_inv_def)
  ultimately show ?thesis
    using moderation_cases_are_consistent [OF ex_reported_reachable rtranclp.rtrancl_refl, of "mc_case_id c" c "''carol''" ex_key]
    by (simp add: le_antisym)
qed

lemma revoke_release_succeeds:
  assumes "release_get key db = Some row"
  shows "\<exists>p db'. revoke_release now key row actor remark action db = (Inr p, db')"
  using assms
  by (simp add: revoke_release_def Let_def transaction_def release_read_def release_require_def release_get_update)

lemma action_release_failure:
  assumes "action_release now key v n db = (Inl e, db')" and "key_ok key"
  shows "db' = db"
proof (cases "\<exists>rel. release_get key db = Some rel \<and> rel_state rel = Approved")
  case True
  then obtain rel where rel: "release_get key db = Some rel" "rel_state rel = Approved" by blast
  obtain p db1 where "revoke_release now key rel (reviewer_label (JStr v)) (JStr n) ''release.revoked'' db = (Inr p, db1)"
    using revoke_release_succeeds [OF rel(1)] by blast
  with assms rel show ?thesis
    by (simp add: action_release_def release_revoke_def release_require_def)
qed (use assms in \<open>auto simp: action_release_def split: option.splits if_splits\<close>)

lemma bounded_prefix:
  assumes "bounded v 160 True = Inr t"
  shows "\<exists>w. bounded (JStr (''reviewer:'' @ t)) 240 True = Inr w"
proof -
  have "length (trimmed (JStr (''reviewer:'' @ t))) \<le> length (''reviewer:'' @ t)"
    by (simp only: trimmed_JStr length_trim)
  moreover have "length t \<le> 160" using assms by (auto simp: bounded_Inr)
  moreover have "trimmed (JStr (''reviewer:'' @ t)) \<noteq> []"
    by (simp add: trimmed_JStr trim_def is_space_def)
  ultimately show ?thesis by (auto simp: bounded_Inr)
qed

lemma changes_key:
  "distinct (map key rows) \<Longrightarrow> r \<in> set rows \<Longrightarrow> q r \<Longrightarrow> changes (\<lambda>x. key x = key r \<and> q x) rows = 1"
  by (induction rows) (auto simp: changes_def filter_empty_conv image_iff)

lemma case_require_id: "case_require i db = Inr row \<Longrightarrow> caseId (JStr (mc_case_id row)) = Inr (mc_case_id row)"
proof -
  assume "case_require i db = Inr row"
  then have "caseId i = Inr (mc_case_id row)"
    by (auto simp: case_require_def dest: case_table.lookup_Some split: sum.splits option.splits)
  moreover from this have "trimmed i = mc_case_id row"
    by (auto simp: caseId_def guards split: sum.splits if_splits)
  then have "trimmed (JStr (mc_case_id row)) = mc_case_id row" by (metis trimmed_trimmed)
  ultimately show ?thesis
    by (auto simp: caseId_def bounded_def Let_def split: if_splits)
qed

text \<open>The second transaction of a resolution: on an open case it commits.\<close>

lemma resolution_commits:
  assumes inv: "distinct (map mc_case_id (cases db))" and req: "case_require i db0 = Inr row" and get: "case_get (mc_case_id row) db = Some row"
    and op: "mc_state row = Case_Open" and v: "bounded w 160 True = Inr v"
  shows "\<exists>db'. and_then (transaction (resolve_case (mc_case_id row) st a v t dec now) db)
      (\<lambda>_ d. case_read (mc_case_id row) d) = (Inr (publicCase (set_resolved st v t now row)), db') \<and>
    same_platform db db'"
proof -
  have row: "row \<in> set (cases db)" using case_table.lookup_Some [OF get] by simp
  have "changes (still_open (mc_case_id row)) (cases db) = 1"
    using changes_key [of mc_case_id "cases db" row "\<lambda>r. mc_state r = Case_Open"] inv row op
    by (simp add: still_open_def [abs_def])
  moreover obtain who where "bounded (JStr (''reviewer:'' @ v)) 240 True = Inr who"
    using bounded_prefix [OF v] by blast
  moreover define db2 where "db2 = case_log (mc_case_id row) a who (JObj [(''decision'', JStr dec)]) now
    (db\<lparr>cases := update_where (still_open (mc_case_id row)) (set_resolved st v t now) (cases db)\<rparr>)"
  ultimately have body: "resolve_case (mc_case_id row) st a v t dec now db = Inr db2"
    by (simp add: resolve_case_def case_audit_insert_def)
  have "set_resolved st v t now row \<in> set (cases db2)"
    using in_update_where [OF row, of "still_open (mc_case_id row)"] op
    by (simp add: db2_def still_open_def)
  moreover have "distinct (map mc_case_id (cases db2))"
    using inv unfolding db2_def by (simp add: map_update_where)
  ultimately have get2: "case_get (mc_case_id row) db2 = Some (set_resolved st v t now row)"
    using case_table.lookup_row [of db2 "set_resolved st v t now row"] by simp
  have "same_platform db db2"
    unfolding db2_def by (rule same_platform_trans [OF same_platform_cases case_log_frames(2)])
  then show ?thesis
    by (simp add: transaction_def body case_read_def case_require_def case_require_id [OF req] get2)
qed

lemma resolveReport_open:
  assumes "case_require i db = Inr row" and "mc_type row = Report" and "mc_state row = Case_Open"
    and "map_sum id lower (bounded decision 24 True) = Inr dec" and "dec = ''dismiss'' \<or> dec = ''revoke''"
    and "bounded (or_else reviewer (JStr ''marketplace-reviewer'')) 160 True = Inr v"
    and "bounded res 4000 False = Inr t" and "case_key_ok (mc_key row)"
  shows "resolveReport release_now now i decision reviewer res db =
    and_then (if dec = ''revoke''
        then action_release release_now (mc_key row) v
          (if t \<noteq> [] then t else ''moderation case '' @ mc_case_id row) db
        else (Inr (), db))
      (\<lambda>_ db1. and_then (transaction (resolve_case (mc_case_id row)
          (if dec = ''revoke'' then Case_Actioned else Case_Dismissed)
          (if dec = ''revoke'' then ''report.actioned'' else ''report.dismissed'') v t dec now) db1)
        (\<lambda>_ db2. case_read (mc_case_id row) db2))"
  using assms by (auto simp: resolveReport_def Let_def simp del: or_else_simps)

text \<open>resolving a report is all or nothing although it commits two transactions: when it fails, in any
  reachable state and for any arguments, the release was not revoked and the database is as before.\<close>

theorem report_resolution_is_all_or_nothing:
  assumes reach: "reachable env cfg db"
    and op: "resolveReport release_now now i decision reviewer res db = (Inl e, db')"
  shows "db' = db"
proof -
  note inv = reachable_parts(3) [OF reach]
  show ?thesis
  proof (cases "case_require i db")
    case (Inl e')
    with op show ?thesis by (simp add: resolveReport_def)
  next
    case (Inr row)
    have row: "case_get (mc_case_id row) db = Some row" by (rule case_require_Inr [OF Inr])
    then have key: "case_key_ok (mc_key row)"
      using cases_inv_keys [OF inv] case_table.lookup_Some [OF row] by auto
    show ?thesis
    proof (cases "\<exists>dec v t. mc_type row = Report \<and> mc_state row = Case_Open \<and>
        map_sum id lower (bounded decision 24 True) = Inr dec \<and> (dec = ''dismiss'' \<or> dec = ''revoke'') \<and>
        bounded (or_else reviewer (JStr ''marketplace-reviewer'')) 160 True = Inr v \<and> bounded res 4000 False = Inr t")
      case False
      with op Inr key show ?thesis
        by (auto simp: resolveReport_def Let_def simp del: or_else_simps split: sum.splits if_splits)
    next
      case True
      then obtain dec v t where guards: "mc_type row = Report" "mc_state row = Case_Open"
        "map_sum id lower (bounded decision 24 True) = Inr dec" "dec = ''dismiss'' \<or> dec = ''revoke''"
        "bounded (or_else reviewer (JStr ''marketplace-reviewer'')) 160 True = Inr v"
        "bounded res 4000 False = Inr t" by blast
      note body = op [unfolded resolveReport_open [OF Inr guards key]]
      obtain q db1 where first: "(if dec = ''revoke'' then action_release release_now (mc_key row) v
          (if t \<noteq> [] then t else ''moderation case '' @ mc_case_id row) db else (Inr (), db)) = (q, db1)"
        by fastforce
      have cases1: "cases db1 = cases db"
        using first action_release_state(1) key by (fastforce simp: case_key_ok_def split: if_splits)
      show ?thesis
      proof (cases q)
        case (Inl e1)
        with first body key show ?thesis
          by (auto simp: case_key_ok_def dest: action_release_failure split: if_splits)
      next
        case (Inr u)
        have "distinct (map mc_case_id (cases db1))" using inv by (simp add: cases1 cases_inv_def)
        moreover have "case_get (mc_case_id row) db1 = Some row"
          using row case_table.lookup_same [OF cases1] by simp
        ultimately obtain x db2 where "and_then (transaction (resolve_case (mc_case_id row)
            (if dec = ''revoke'' then Case_Actioned else Case_Dismissed)
            (if dec = ''revoke'' then ''report.actioned'' else ''report.dismissed'') v t dec now) db1)
            (\<lambda>_ d. case_read (mc_case_id row) d) = (Inr x, db2)"
          using resolution_commits [OF _ \<open>case_require i db = Inr row\<close> _ guards(2,5)] by metis
        with body first Inr show ?thesis by simp
      qed
    qed
  qed
qed

lemma report_resolution_is_all_or_nothing_witness:
  "\<exists>e. resolveReport 21 22 (JStr ex_case_id) (JStr ''revoke'') JUndef JUndef ex_reported = (Inl e, ex_reported)"
proof -
  have "\<exists>e. fst (resolveReport 21 22 (JStr ex_case_id) (JStr ''revoke'') JUndef JUndef ex_reported) = Inl e"
  proof -
    have "(case fst (resolveReport 21 22 (JStr ex_case_id) (JStr ''revoke'') JUndef JUndef ex_reported) of
        Inl e \<Rightarrow> True | Inr x \<Rightarrow> False)"
      unfolding ex_reported_def ex_trusted_def ex_submitted_eq by code_simp
    then show ?thesis by (auto split: sum.splits)
  qed
  then obtain e db' where "resolveReport 21 22 (JStr ex_case_id) (JStr ''revoke'') JUndef JUndef ex_reported = (Inl e, db')"
    by (metis fst_conv prod.collapse)
  with report_resolution_is_all_or_nothing [OF ex_reported_reachable this] show ?thesis by simp
qed

text \<open>resolving is safe to repeat after a crash between its two transactions: when the release is already
  revoked, resolving an open report with the decision to revoke succeeds, marks the report actioned and
  leaves the releases, their signatures and artifacts as they are.\<close>

theorem interrupted_resolution_completes:
  assumes reach: "reachable env cfg db" and req: "case_require i db = Inr row"
    and open_report: "mc_type row = Report" "mc_state row = Case_Open"
    and release: "release_get (mc_key row) db = Some rel" "rel_state rel = Revoked"
    and args: "trimmed_lower decision = ''revoke''"
      "bounded (or_else reviewer (JStr ''marketplace-reviewer'')) 160 True = Inr v" "bounded res 4000 False = Inr t"
  shows "\<exists>p db'. resolveReport release_now now i decision reviewer res db = (Inr p, db') \<and>
    pc_state p = Case_Actioned \<and> pc_case_id p = mc_case_id row \<and> same_platform db db'"
proof -
  note inv = reachable_parts(3) [OF reach]
  have row: "case_get (mc_case_id row) db = Some row" by (rule case_require_Inr [OF req])
  then have key: "case_key_ok (mc_key row)"
    using cases_inv_keys [OF inv] case_table.lookup_Some [OF row] by auto
  have "length (trimmed decision) = 6"
    using arg_cong [OF args(1), of length] by (simp add: trimmed_lower_def)
  then have dec: "map_sum id lower (bounded decision 24 True) = Inr ''revoke''"
    using args(1) by (auto simp: bounded_def Let_def trimmed_lower_def)
  have first: "action_release release_now (mc_key row) v n db = (Inr (), db)" for n
    using key release by (simp add: action_release_def case_key_ok_def)
  have "distinct (map mc_case_id (cases db))" using inv by (simp add: cases_inv_def)
  from resolution_commits [OF this req row open_report(2) args(2)]
  obtain db' where "and_then (transaction (resolve_case (mc_case_id row) Case_Actioned ''report.actioned'' v t
      ''revoke'' now) db) (\<lambda>_ d. case_read (mc_case_id row) d) =
      (Inr (publicCase (set_resolved Case_Actioned v t now row)), db')" "same_platform db db'" by metis
  then show ?thesis
    using resolveReport_open [OF req open_report dec _ args(2,3) key, of release_now now]
    by (simp add: first publicCase_def)
qed

text \<open>The approved release of the example is reported, then revoked before the report is resolved.\<close>

definition ex_report :: case_row where
  "ex_report = report_row ex_case_id ex_key ''carol'' ''malware'' [] 30"

definition ex_reported_approved :: moderation_db where
  "ex_reported_approved = snd (createReport ex_case_id 30 (JStr ''carol'') (JStr ''malware'') JUndef (as_raw ex_key) ex_approved)"

definition ex_interrupted :: moderation_db where
  "ex_interrupted = snd (release_revoke 31 (JStr ''rev'') JUndef (as_raw ex_key) ex_reported_approved)"

lemma ex_interrupted_reachable: "reachable ex_env ex_cfg ex_interrupted"
proof -
  have "platform_step ex_env ex_cfg ex_approved ex_reported_approved"
    unfolding ex_reported_approved_def by (rule step_snd) (rule platform_step.report)
  moreover have "platform_step ex_env ex_cfg ex_reported_approved ex_interrupted"
    unfolding ex_interrupted_def by (rule step_snd) (rule platform_step.revoke)
  ultimately show ?thesis by (meson ex_reachable reachable_run r_into_rtranclp)
qed

lemma ex_approved_cases: "cases ex_approved = []"
proof -
  obtain r where "release_review ex_env 9 10 (JBool True) (JStr ''rev'') JUndef (as_raw ex_key) ex_trusted = (r, ex_approved)"
    unfolding ex_approved_def by (metis prod.collapse)
  from release_review_effect [OF ex_attached this] show ?thesis
    using ex_tables(6) by (auto dest!: release_effect_frames(1) cases_of_more simp: same_artifacts_def)
qed

lemma ex_report_args:
  "case_accountId (JStr ''carol'') = Inr ''carol''" "case_releaseKey (as_raw ex_key) = Inr ex_key"
  "reasonCode (JStr ''malware'') = Inr ''malware''" "bounded JUndef 4000 False = Inr []"
  "bounded (JStr ''account:carol'') 240 True = Inr ''account:carol''" "caseId (JStr ex_case_id) = Inr ex_case_id"
  by code_simp+

lemma ex_reported_approved_eq:
  "cases ex_reported_approved = [ex_report]" "release_get k ex_reported_approved = release_get k ex_approved"
proof -
  have "createReport ex_case_id 30 (JStr ''carol'') (JStr ''malware'') JUndef (as_raw ex_key) ex_approved =
    (Inr (publicCase ex_report), case_log ex_case_id ''report.created'' ''account:carol''
      (JObj [(''reasonCode'', JStr ''malware'')]) 30 (ex_approved\<lparr>cases := [ex_report]\<rparr>))"
    using ex_report_args ex_key_ok
    by (simp add: createReport_def ex_approved_facts duplicateReport_def ex_approved_cases transaction_def open_case_def
        case_insert_def ex_report_def case_audit_insert_def case_read_def case_require_def case_get_def)
  then show "cases ex_reported_approved = [ex_report]" "release_get k ex_reported_approved = release_get k ex_approved"
    by (simp_all add: ex_reported_approved_def release_get_def)
qed

lemma ex_interrupted_facts:
  "cases ex_interrupted = [ex_report]"
  "\<exists>rel. release_get ex_key ex_interrupted = Some rel \<and> rel_state rel = Revoked"
proof -
  let ?row = "set_reviewed Approved ''rev'' [] 9 ex_row"
  have row: "release_get ex_key ex_reported_approved = Some ?row"
    by (simp add: ex_reported_approved_eq ex_approved_facts)
  obtain p db' where rv: "revoke_release 31 ex_key ?row (reviewer_label (JStr ''rev'')) JUndef ''release.revoked'' ex_reported_approved = (Inr p, db')"
    using revoke_release_succeeds [OF row] by blast
  then have "release_revoke 31 (JStr ''rev'') JUndef (as_raw ex_key) ex_reported_approved = (Inr p, db')"
    by (simp add: release_revoke_def release_require_def row ex_key_ok)
  then have eq: "ex_interrupted = db'" by (simp add: ex_interrupted_def)
  show "cases ex_interrupted = [ex_report]"
    using revoke_release_state(1) [OF rv] by (simp add: eq ex_reported_approved_eq)
  show "\<exists>rel. release_get ex_key ex_interrupted = Some rel \<and> rel_state rel = Revoked"
    using revoke_release_state(2) [OF rv, of p] by (simp add: eq row)
qed

lemma interrupted_resolution_completes_witness:
  "\<exists>p db'. resolveReport 32 33 (JStr ex_case_id) (JStr ''Revoke'') JUndef JUndef ex_interrupted = (Inr p, db') \<and>
    pc_state p = Case_Actioned"
proof -
  have req: "case_require (JStr ex_case_id) ex_interrupted = Inr ex_report"
    by (simp add: case_require_def ex_report_args case_get_def ex_interrupted_facts) (simp add: ex_report_def)
  have args: "trimmed_lower (JStr ''Revoke'') = ''revoke''"
    "bounded (or_else JUndef (JStr ''marketplace-reviewer'')) 160 True = Inr ''marketplace-reviewer''" by code_simp+
  have sel: "mc_type ex_report = Report" "mc_state ex_report = Case_Open" "mc_key ex_report = ex_key"
    by (simp_all add: ex_report_def report_row_def)
  obtain rel where rel: "release_get (mc_key ex_report) ex_interrupted = Some rel" "rel_state rel = Revoked"
    using ex_interrupted_facts(2) sel(3) by metis
  from interrupted_resolution_completes [OF ex_interrupted_reachable req sel(1,2) rel args ex_report_args(4), of 32 33]
  show ?thesis by blast
qed

text \<open>an account name the publisher store accepts can be too long for the moderation audit: an account of
  more than 232 characters can not report a release, because the actor of the audit row is the account
  with a prefix and the same bound; nothing is stored.\<close>

theorem long_account_cannot_report:
  assumes "accountId acc = Inr a" and "232 < length a"
  shows "case_accountId acc = Inr a \<and> (\<exists>e. createReport uuid now acc reason details raw db = (Inl e, db))"
proof -
  have acc: "case_accountId acc = Inr a"
    using assms(1) by (auto simp: case_accountId_def bounded_Inr accountId_Inr)
  have "trim a = a" using assms(1) by (auto simp: accountId_Inr trimmed_def)
  have "trimmed (JStr (''account:'' @ a)) = ''account:'' @ a"
  proof -
    have "a \<noteq> []" using assms(2) by auto
    then have "\<not> is_space (last a)" using trim_ends [of a] \<open>trim a = a\<close> by simp
    with \<open>a \<noteq> []\<close> have "dropWhile is_space (rev a) = rev a" by (cases a rule: rev_cases) auto
    then have "trim (''account:'' @ a) = ''account:'' @ a"
      using \<open>a \<noteq> []\<close> \<open>\<not> is_space (last a)\<close>
      by (cases a rule: rev_cases) (auto simp: trim_def is_space_def)
    then show ?thesis by (simp add: trimmed_JStr)
  qed
  then have long: "bounded (JStr (''account:'' @ a)) 240 True = Inl (ModerationStoreError INVALID_MODERATION_INPUT)"
    using assms(2) by (simp add: bounded_def Let_def)
  have "\<exists>e. and_then (transaction (open_case row act (''account:'' @ a) p now) db) (\<lambda>_ d. case_read uuid d) = (Inl e, db)" for row act p
    using long by (auto simp: open_case_def case_audit_insert_def transaction_def split: sum.splits)
  then show ?thesis
    by (auto simp: createReport_def acc split: sum.splits option.splits)
qed

lemma long_account_cannot_report_witness:
  "\<exists>e. createReport ex_case_id 1 (JStr (replicate 233 CHR ''a'')) (JStr ''malware'') JUndef (as_raw ex_key) ex_approved =
    (Inl e, ex_approved)"
proof -
  have "trim (replicate 233 CHR ''a'') = replicate 233 CHR ''a''"
    by (simp add: trim_def is_space_def)
  then have "accountId (JStr (replicate 233 CHR ''a'')) = Inr (replicate 233 CHR ''a'')"
    by (simp add: accountId_Inr trimmed_JStr)
  with long_account_cannot_report show ?thesis by fastforce
qed

end
