(* ===== verification/TrustFeed.thy ===== *)
theory TrustFeed
  imports SigningStore JsonText
begin

text \<open>
  The trust feed and the configuration of \<open>ai-backend/src/extension_signing_store.js\<close>: the signer is
  loaded from the environment, \<open>trustFeed\<close> signs a dated list of every trust key, and
  \<open>verifyTrustFeedEnvelope\<close> is what a client runs on it, parsing the signed text with the
  \<open>json_parse\<close> of JsonText.  Key parsing, hashing and Ed25519 are the parameters \<open>crypto\<close> and
  \<open>key_loader\<close>.
\<close>

section \<open>Configuration\<close>

definition default_trust_feed_ttl_ms :: int where
  "default_trust_feed_ttl_ms = 24 * 60 * 60 * 1000"

definition max_trust_feed_ttl_ms :: int where
  "max_trust_feed_ttl_ms = 7 * 24 * 60 * 60 * 1000"

definition trust_feed_max_future_skew_ms :: int where
  "trust_feed_max_future_skew_ms = 5 * 60 * 1000"

definition trust_feed_protocol :: string where
  "trust_feed_protocol = ''fabushi.extension-trust-feed.v1''"

definition trustFeedTtlMs :: "js \<Rightarrow> error + int" where
  "trustFeedTtlMs value =
     (case js_number (or_else value (JNum default_trust_feed_ttl_ms)) of
        None \<Rightarrow> Inl (SigningStoreError INVALID_TRUST_FEED_TTL)
      | Some parsed \<Rightarrow>
          if \<not> safe_integer parsed \<or> parsed \<le> 0 \<or> max_trust_feed_ttl_ms < parsed
          then Inl (SigningStoreError INVALID_TRUST_FEED_TTL) else Inr parsed)"

text \<open>\<open>createPrivateKey\<close> of a PEM text (its key type, if it is one) and the base64 SPKI text of its
  public key are Node's.\<close>

record key_loader =
  kl_private_key_type :: "string \<Rightarrow> string option"
  kl_public_key :: "string \<Rightarrow> string"

fun unescape_newlines :: "string \<Rightarrow> string" where
  "unescape_newlines (a # b # s) =
     (if code a = 92 \<and> b = CHR ''n'' then char_of (10::nat) # unescape_newlines s
      else a # unescape_newlines (b # s))"
| "unescape_newlines s = s"

definition loadConfiguredMarketplaceSigner ::
  "crypto \<Rightarrow> key_loader \<Rightarrow> js \<Rightarrow> js \<Rightarrow> js \<Rightarrow> error + signer option" where
  "loadConfiguredMarketplaceSigner cr kl env_private_key env_key_id env_epoch =
     (let rawPrivateKey = trimmed env_private_key; rawKeyId = trimmed env_key_id; rawEpoch = trimmed env_epoch
      in if rawPrivateKey = [] \<and> rawKeyId = [] \<and> rawEpoch = [] then Inr None
         else if rawPrivateKey = [] \<or> rawKeyId = [] \<or> rawEpoch = []
         then Inl (SigningStoreError INCOMPLETE_SIGNING_CONFIGURATION)
         else
           (let privateKey = unescape_newlines rawPrivateKey
            in if kl_private_key_type kl privateKey \<noteq> Some ''ed25519''
               then Inl (SigningStoreError INVALID_SIGNING_PRIVATE_KEY)
               else
                 (case keyId (JStr rawKeyId) of Inl e \<Rightarrow> Inl e
                  | Inr kid \<Rightarrow>
                 (case positiveEpoch (JStr rawEpoch) of Inl e \<Rightarrow> Inl e
                  | Inr epoch \<Rightarrow>
                      Inr (Some \<lparr>sg_private_key = privateKey, sg_public_key = kl_public_key kl privateKey,
                        sg_fingerprint = cr_key_fingerprint cr (kl_public_key kl privateKey),
                        sg_key_id = kid, sg_trust_epoch = epoch\<rparr>)))))"

section \<open>The feed\<close>

definition trust_status_text :: "trust_status \<Rightarrow> string" where
  "trust_status_text st = (case st of Trust_Active \<Rightarrow> ''active'' | Trust_Revoked \<Rightarrow> ''revoked'')"

text \<open>One key of the feed, its id and epoch checked again.\<close>

definition feed_key :: "trust_key_row \<Rightarrow> error + trust_key_row" where
  "feed_key item =
     (case keyId (JStr (fst (tk_id item))) of Inl e \<Rightarrow> Inl e
      | Inr kid \<Rightarrow>
     (case positiveEpoch (JNum (snd (tk_id item))) of Inl e \<Rightarrow> Inl e
      | Inr epoch \<Rightarrow> Inr (item\<lparr>tk_id := (kid, epoch)\<rparr>)))"

definition feed_key_json :: "trust_key_row \<Rightarrow> js" where
  "feed_key_json k = JObj
     [(''algorithm'', JStr (tk_algorithm k)),
      (''keyId'', JStr (fst (tk_id k))),
      (''trustEpoch'', JNum (snd (tk_id k))),
      (''publicKey'', JStr (tk_public_key k)),
      (''publicKeyFingerprint'', JStr (tk_fingerprint k)),
      (''status'', JStr (trust_status_text (tk_status k))),
      (''createdAtMs'', JNum (tk_created_at_ms k)),
      (''revokedAtMs'', case tk_revoked_at_ms k of None \<Rightarrow> JNull | Some t \<Rightarrow> JNum t),
      (''revocationReason'', JStr (tk_revocation_reason k))]"

definition feed_key_order :: "(string \<Rightarrow> string \<Rightarrow> int) \<Rightarrow> trust_key_row \<Rightarrow> trust_key_row \<Rightarrow> int" where
  "feed_key_order lc left right =
     (let d = snd (tk_id left) - snd (tk_id right)
      in if d \<noteq> 0 then d else lc (fst (tk_id left)) (fst (tk_id right)))"

definition feed_json ::
  "(string \<Rightarrow> string \<Rightarrow> int) \<Rightarrow> signer \<Rightarrow> trust_key_row list \<Rightarrow> int \<Rightarrow> int \<Rightarrow> js" where
  "feed_json lc sg keys issuedAtMs expiresAtMs = JObj
     [(''protocol'', JStr trust_feed_protocol),
      (''issuedAtMs'', JNum issuedAtMs),
      (''expiresAtMs'', JNum expiresAtMs),
      (''signer'', JObj
        [(''algorithm'', JStr ''Ed25519''), (''keyId'', JStr (sg_key_id sg)),
         (''trustEpoch'', JNum (sg_trust_epoch sg)), (''publicKeyFingerprint'', JStr (sg_fingerprint sg))]),
      (''keys'', JArr (map feed_key_json (sort_by (feed_key_order lc) keys)))]"

definition canonicalTrustFeedPayload ::
  "(string \<Rightarrow> string \<Rightarrow> int) \<Rightarrow> signer option \<Rightarrow> trust_key_row list \<Rightarrow> int \<Rightarrow> int \<Rightarrow> error + string" where
  "canonicalTrustFeedPayload lc signer keys issuedAtMs expiresAtMs =
     (case signer of None \<Rightarrow> Inl (SigningStoreError SIGNING_KEY_REQUIRED)
      | Some sg \<Rightarrow>
          (if \<not> safe_integer issuedAtMs \<or> \<not> safe_integer expiresAtMs \<or> expiresAtMs \<le> issuedAtMs
           then Inl (SigningStoreError INVALID_TRUST_FEED_WINDOW)
           else (case map_results feed_key keys of Inl e \<Rightarrow> Inl e
                 | Inr normalizedKeys \<Rightarrow> Inr (stringify (feed_json lc sg normalizedKeys issuedAtMs expiresAtMs)))))"

record feed_envelope =
  fe_protocol :: string
  fe_algorithm :: string
  fe_key_id :: string
  fe_trust_epoch :: int
  fe_public_key :: string
  fe_fingerprint :: string
  fe_issued_at_ms :: int
  fe_expires_at_ms :: int
  fe_payload :: string
  fe_signature :: string

text \<open>\<open>payload.keys.find(...)\<close>; an item that is \<open>null\<close> makes the callback throw, which the caller turns
  into the same refusal as finding nothing.\<close>

fun find_feed_key :: "string \<Rightarrow> int \<Rightarrow> js list \<Rightarrow> js option" where
  "find_feed_key kid epoch [] = None"
| "find_feed_key kid epoch (item # items) =
     (if item = JNull then None
      else if js_get item ''keyId'' = JStr kid \<and> js_number (js_get item ''trustEpoch'') = Some epoch then Some item
      else find_feed_key kid epoch items)"

definition safe_number :: "js \<Rightarrow> int option" where
  "safe_number v = (case v of JNum n \<Rightarrow> if safe_integer n then Some n else None | _ \<Rightarrow> None)"

definition feed_window_ok :: "int \<Rightarrow> bool \<Rightarrow> feed_envelope \<Rightarrow> js \<Rightarrow> bool" where
  "feed_window_ok nowMs allowExpired env payload \<longleftrightarrow>
     (case (safe_number (js_get payload ''issuedAtMs''), safe_number (js_get payload ''expiresAtMs'')) of
        (Some issuedAtMs, Some expiresAtMs) \<Rightarrow>
          issuedAtMs < expiresAtMs \<and> issuedAtMs = fe_issued_at_ms env \<and> expiresAtMs = fe_expires_at_ms env \<and>
          issuedAtMs \<le> nowMs + trust_feed_max_future_skew_ms \<and> (allowExpired \<or> nowMs \<le> expiresAtMs)
      | _ \<Rightarrow> False)"

definition feed_signer_ok :: "feed_envelope \<Rightarrow> js \<Rightarrow> bool" where
  "feed_signer_ok env signer \<longleftrightarrow>
     js_get signer ''algorithm'' = JStr ''Ed25519'' \<and> js_get signer ''keyId'' = JStr (fe_key_id env) \<and>
     js_number (js_get signer ''trustEpoch'') = Some (fe_trust_epoch env) \<and>
     js_get signer ''publicKeyFingerprint'' = JStr (fe_fingerprint env)"

definition feed_lists_signer :: "feed_envelope \<Rightarrow> js \<Rightarrow> bool" where
  "feed_lists_signer env keys \<longleftrightarrow>
     (case find_feed_key (fe_key_id env) (fe_trust_epoch env) (elements keys) of None \<Rightarrow> False
      | Some signerKey \<Rightarrow>
          js_get signerKey ''status'' = JStr ''active'' \<and> js_get signerKey ''algorithm'' = JStr ''Ed25519'' \<and>
          js_get signerKey ''publicKey'' = JStr (fe_public_key env) \<and>
          js_get signerKey ''publicKeyFingerprint'' = JStr (fe_fingerprint env))"

definition verifyTrustFeedEnvelope :: "crypto \<Rightarrow> int \<Rightarrow> bool \<Rightarrow> feed_envelope \<Rightarrow> bool" where
  "verifyTrustFeedEnvelope cr nowMs allowExpired env \<longleftrightarrow>
     fe_protocol env = trust_feed_protocol \<and> fe_algorithm env = ''Ed25519'' \<and> safe_integer nowMs \<and>
     cr_key_fingerprint cr (fe_public_key env) = fe_fingerprint env \<and>
     cr_key_type cr (fe_public_key env) = Some ''ed25519'' \<and>
     cr_verify cr (fe_public_key env) (fe_payload env) (fe_signature env) \<and>
     (case json_parse (fe_payload env) of None \<Rightarrow> False
      | Some payload \<Rightarrow>
          js_get payload ''protocol'' = JStr trust_feed_protocol \<and>
          feed_window_ok nowMs allowExpired env payload \<and>
          feed_signer_ok env (js_get payload ''signer'') \<and>
          feed_lists_signer env (js_get payload ''keys''))"

definition trustFeed ::
  "crypto \<Rightarrow> (string \<Rightarrow> string \<Rightarrow> int) \<Rightarrow> js \<Rightarrow> int \<Rightarrow> js \<Rightarrow> 'a signing_db_scheme \<Rightarrow> error + feed_envelope" where
  "trustFeed cr lc env_ttl now ttlMs db =
     (case configured_signer db of None \<Rightarrow> Inl (SigningStoreError SIGNING_KEY_REQUIRED)
      | Some sg \<Rightarrow>
     (case trustFeedTtlMs (or_else ttlMs env_ttl) of Inl e \<Rightarrow> Inl e
      | Inr ttl \<Rightarrow>
     (case canonicalTrustFeedPayload lc (configured_signer db) (listTrustKeys db) now (now + ttl) of
        Inl e \<Rightarrow> Inl e
      | Inr payload \<Rightarrow>
          (let env = \<lparr>fe_protocol = trust_feed_protocol, fe_algorithm = ''Ed25519'',
                 fe_key_id = sg_key_id sg, fe_trust_epoch = sg_trust_epoch sg,
                 fe_public_key = sg_public_key sg, fe_fingerprint = sg_fingerprint sg,
                 fe_issued_at_ms = now, fe_expires_at_ms = now + ttl, fe_payload = payload,
                 fe_signature = cr_sign cr (sg_private_key sg) payload\<rparr>
           in if \<not> verifyTrustFeedEnvelope cr now False env
              then Inl (SigningStoreError TRUST_FEED_SELF_CHECK_FAILED) else Inr env))))"

section \<open>Validity of the listed keys\<close>

definition trust_id_ok :: "string \<times> int \<Rightarrow> bool" where
  "trust_id_ok k \<longleftrightarrow> key_id_pattern (fst k) \<and> 0 < snd k \<and> safe_integer (snd k)"

definition trust_table_ok :: "trust_key_row list \<Rightarrow> bool" where
  "trust_table_ok rows \<longleftrightarrow> distinct (map tk_id rows) \<and> (\<forall>r\<in>set rows. trust_id_ok (tk_id r))"

lemma key_id_char_not_space: "is_alnum c \<or> c \<in> set ''._:-'' \<Longrightarrow> \<not> is_space c"
  by (auto simp: is_alnum_def is_digit_def is_lower_def is_upper_def is_space_def)

lemma key_id_trim: "key_id_pattern s \<Longrightarrow> trim s = s"
proof (rule trim_no_space)
  assume k: "key_id_pattern s"
  then have "\<forall>c\<in>set s. is_alnum c \<or> c \<in> set ''._:-''"
    by (cases s) (auto simp: key_id_pattern_def list_all_iff)
  moreover have "hd s \<in> set s" "last s \<in> set s" using k by (simp_all add: key_id_pattern_def)
  ultimately show "\<not> is_space (hd s) \<and> \<not> is_space (last s)" using key_id_char_not_space by blast
qed

lemma keyId_Inr: "keyId v = Inr kid \<longleftrightarrow> kid = trimmed v \<and> key_id_pattern kid"
  by (auto simp: keyId_def Let_def)

lemma positiveEpoch_Inr: "positiveEpoch v = Inr n \<longleftrightarrow> js_number v = Some n \<and> safe_integer n \<and> 0 < n"
  by (auto simp: positiveEpoch_def split: option.splits)

lemma feed_key_ok: "trust_id_ok (tk_id r) \<Longrightarrow> feed_key r = Inr r"
proof -
  assume "trust_id_ok (tk_id r)"
  then have "keyId (JStr (fst (tk_id r))) = Inr (fst (tk_id r))"
    "positiveEpoch (JNum (snd (tk_id r))) = Inr (snd (tk_id r))"
    by (simp_all add: trust_id_ok_def keyId_Inr positiveEpoch_Inr trimmed_JStr key_id_trim)
  then show ?thesis by (simp add: feed_key_def)
qed

lemma trust_table_tables: "trust_table_ok (listTrustKeys db) \<longleftrightarrow> trust_table_ok (trust_keys db)"
  by (simp add: trust_table_ok_def listTrustKeys_def distinct_map)

section \<open>Reading a feed\<close>

lemmas own_order_simps = own_order_def key_before_def index_key_def is_digit_def

lemma feed_key_json_ok: "js_ok (feed_key_json r)" "json_value (feed_key_json r) = feed_key_json r"
  by (simp_all add: feed_key_json_def own_order_simps split: option.splits)

lemma feed_json_ok: "js_ok (feed_json lc sg rows a b)" "json_value (feed_json lc sg rows a b) = feed_json lc sg rows a b"
proof -
  have "map (json_value \<circ> feed_key_json) xs = map feed_key_json xs" for xs by (simp add: feed_key_json_ok)
  then show "js_ok (feed_json lc sg rows a b)" "json_value (feed_json lc sg rows a b) = feed_json lc sg rows a b"
    by (simp_all add: feed_json_def own_order_simps list_all_iff feed_key_json_ok)
qed

lemma parse_feed: "json_parse (stringify (feed_json lc sg rows a b)) = Some (feed_json lc sg rows a b)"
  using json_parse_stringify feed_json_ok by metis

lemma find_feed_key_rows:
  "find_feed_key kid epoch (map feed_key_json rows) =
     map_option feed_key_json (row_where (\<lambda>r. tk_id r = (kid, epoch)) rows)"
proof (induction rows)
  case (Cons r rows)
  have "feed_key_json r \<noteq> JNull" by (simp add: feed_key_json_def)
  moreover have "js_get (feed_key_json r) ''keyId'' = JStr kid \<and>
      js_number (js_get (feed_key_json r) ''trustEpoch'') = Some epoch \<longleftrightarrow> tk_id r = (kid, epoch)"
    by (cases "tk_id r") (simp add: feed_key_json_def)
  ultimately show ?case using Cons by simp
qed simp

lemma row_where_sorted_keys:
  assumes "distinct (map tk_id rows)" and "r \<in> set rows"
  shows "row_where (\<lambda>x. tk_id x = tk_id r) (sort_by (feed_key_order lc) rows) = Some r"
proof -
  obtain r' where r': "row_where (\<lambda>x. tk_id x = tk_id r) (sort_by (feed_key_order lc) rows) = Some r'"
    using row_where_exists [of r "sort_by (feed_key_order lc) rows"] assms(2) by fastforce
  then have "r' \<in> set rows" "tk_id r' = tk_id r" by (auto dest: row_where_SomeD)
  then show ?thesis using r' distinct_key_unique [OF assms(1)] assms(2) by simp
qed

lemma feed_json_get:
  "js_get (feed_json lc sg rows a b) ''protocol'' = JStr trust_feed_protocol"
  "js_get (feed_json lc sg rows a b) ''issuedAtMs'' = JNum a"
  "js_get (feed_json lc sg rows a b) ''expiresAtMs'' = JNum b"
  "js_get (feed_json lc sg rows a b) ''signer'' = JObj
     [(''algorithm'', JStr ''Ed25519''), (''keyId'', JStr (sg_key_id sg)),
      (''trustEpoch'', JNum (sg_trust_epoch sg)), (''publicKeyFingerprint'', JStr (sg_fingerprint sg))]"
  "js_get (feed_json lc sg rows a b) ''keys'' = JArr (map feed_key_json (sort_by (feed_key_order lc) rows))"
  by (simp_all add: feed_json_def)

text \<open>The envelope that \<open>trustFeed\<close> makes of checked keys, and when it verifies.\<close>

definition made_feed ::
  "crypto \<Rightarrow> (string \<Rightarrow> string \<Rightarrow> int) \<Rightarrow> signer \<Rightarrow> trust_key_row list \<Rightarrow> int \<Rightarrow> int \<Rightarrow> feed_envelope" where
  "made_feed cr lc sg rows now expires =
     (let payload = stringify (feed_json lc sg rows now expires)
      in \<lparr>fe_protocol = trust_feed_protocol, fe_algorithm = ''Ed25519'', fe_key_id = sg_key_id sg,
          fe_trust_epoch = sg_trust_epoch sg, fe_public_key = sg_public_key sg,
          fe_fingerprint = sg_fingerprint sg, fe_issued_at_ms = now, fe_expires_at_ms = expires,
          fe_payload = payload, fe_signature = cr_sign cr (sg_private_key sg) payload\<rparr>)"

text \<open>The row of the signer's own key, active and with its material.\<close>

definition signer_row :: "signer \<Rightarrow> trust_key_row \<Rightarrow> bool" where
  "signer_row sg r \<longleftrightarrow> tk_id r = (sg_key_id sg, sg_trust_epoch sg) \<and> tk_status r = Trust_Active \<and>
     tk_algorithm r = ''Ed25519'' \<and> tk_public_key r = sg_public_key sg \<and> tk_fingerprint r = sg_fingerprint sg"

lemma made_feed_verifies:
  assumes "key_pair cr sg" and "trust_table_ok rows" and "r \<in> set rows" and "signer_row sg r"
    and "safe_integer now" "safe_integer expires" "now < expires"
  shows "verifyTrustFeedEnvelope cr t allow (made_feed cr lc sg rows now expires) \<longleftrightarrow>
     safe_integer t \<and> now \<le> t + trust_feed_max_future_skew_ms \<and> (allow \<or> t \<le> expires)"
proof -
  let ?env = "made_feed cr lc sg rows now expires" and ?p = "feed_json lc sg rows now expires"
  have "feed_signer_ok ?env (js_get ?p ''signer'')"
    by (simp add: feed_signer_ok_def feed_json_get made_feed_def Let_def)
  moreover have "feed_lists_signer ?env (js_get ?p ''keys'')"
    using row_where_sorted_keys [OF _ assms(3), of lc] assms(2,4)
    by (simp add: feed_lists_signer_def feed_json_get made_feed_def Let_def find_feed_key_rows trust_table_ok_def
        signer_row_def) (simp add: feed_key_json_def trust_status_text_def)
  moreover have "feed_window_ok t allow ?env ?p \<longleftrightarrow>
      now \<le> t + trust_feed_max_future_skew_ms \<and> (allow \<or> t \<le> expires)"
    using assms(5-7) by (simp add: feed_window_ok_def feed_json_get made_feed_def Let_def safe_number_def)
  moreover have "json_parse (fe_payload ?env) = Some ?p" by (simp add: made_feed_def Let_def parse_feed)
  ultimately show ?thesis using assms(1)
    by (simp add: verifyTrustFeedEnvelope_def key_pair_def feed_json_get) (auto simp: made_feed_def Let_def)
qed

lemma trustFeedTtlMs_Inr:
  "trustFeedTtlMs v = Inr ttl \<longleftrightarrow>
     js_number (or_else v (JNum default_trust_feed_ttl_ms)) = Some ttl \<and> 0 < ttl \<and> ttl \<le> max_trust_feed_ttl_ms"
  by (auto simp: trustFeedTtlMs_def safe_integer_def max_trust_feed_ttl_ms_def split: option.splits)

lemma canonicalTrustFeedPayload_ok:
  assumes "trust_table_ok rows" and "safe_integer now" "safe_integer expires" "now < expires"
  shows "canonicalTrustFeedPayload lc (Some sg) rows now expires = Inr (stringify (feed_json lc sg rows now expires))"
proof -
  have "map_results feed_key rows = Inr (map id rows)"
    by (rule map_results_total) (use assms(1) in \<open>simp add: trust_table_ok_def feed_key_ok\<close>)
  then show ?thesis using assms by (simp add: canonicalTrustFeedPayload_def)
qed

lemma trustFeed_ok:
  assumes "configured_signer db = Some sg" and "key_pair cr sg" and "trust_table_ok (trust_keys db)"
    and "r \<in> set (trust_keys db)" and "signer_row sg r"
    and "trustFeedTtlMs (or_else ttlMs env_ttl) = Inr ttl" and "safe_integer now" and "safe_integer (now + ttl)"
  shows "trustFeed cr lc env_ttl now ttlMs db = Inr (made_feed cr lc sg (listTrustKeys db) now (now + ttl))"
proof -
  have ttl: "0 < ttl" using assms(6) by (simp add: trustFeedTtlMs_Inr)
  have tab: "trust_table_ok (listTrustKeys db)" using assms(3) by (simp add: trust_table_tables)
  have r: "r \<in> set (listTrustKeys db)" using assms(4) by (simp add: listTrustKeys_def)
  have "verifyTrustFeedEnvelope cr now False (made_feed cr lc sg (listTrustKeys db) now (now + ttl))"
    using made_feed_verifies [OF assms(2) tab r assms(5,7,8)] ttl assms(7)
    by (simp add: trust_feed_max_future_skew_ms_def)
  then show ?thesis
    using canonicalTrustFeedPayload_ok [OF tab assms(7,8)] ttl
    by (simp add: trustFeed_def assms(1,6) made_feed_def Let_def)
qed

lemma trustFeed_Inr:
  assumes "trustFeed cr lc env_ttl now ttlMs db = Inr env" and "trust_table_ok (trust_keys db)"
  obtains sg ttl where "configured_signer db = Some sg" and "trustFeedTtlMs (or_else ttlMs env_ttl) = Inr ttl"
    and "env = made_feed cr lc sg (listTrustKeys db) now (now + ttl)"
    and "verifyTrustFeedEnvelope cr now False env"
proof -
  note op = assms(1) [unfolded trustFeed_def]
  obtain sg where sg: "configured_signer db = Some sg" using op by (auto split: option.splits)
  obtain ttl where ttl: "trustFeedTtlMs (or_else ttlMs env_ttl) = Inr ttl"
    using op sg by (auto split: sum.splits)
  obtain p where p: "canonicalTrustFeedPayload lc (Some sg) (listTrustKeys db) now (now + ttl) = Inr p"
    using op sg ttl by (auto split: sum.splits)
  then have "safe_integer now" "safe_integer (now + ttl)" "now < now + ttl"
    by (auto simp: canonicalTrustFeedPayload_def split: if_splits)
  then have "p = stringify (feed_json lc sg (listTrustKeys db) now (now + ttl))"
    using canonicalTrustFeedPayload_ok p assms(2) trust_table_tables [of db] by simp
  then show thesis using op sg ttl p
    by (intro that [OF sg ttl]) (auto simp: made_feed_def Let_def split: if_splits)
qed

text \<open>What a client that parses the payload finds for a key of the table.\<close>

lemma made_feed_entry:
  assumes "trust_table_ok (trust_keys db)" and "r \<in> set (trust_keys db)"
  shows "\<exists>payload. json_parse (fe_payload (made_feed cr lc sg (listTrustKeys db) now expires)) = Some payload \<and>
    find_feed_key (fst (tk_id r)) (snd (tk_id r)) (elements (js_get payload ''keys'')) = Some (feed_key_json r)"
proof -
  have "distinct (map tk_id (listTrustKeys db))" "r \<in> set (listTrustKeys db)"
    using assms trust_table_tables [of db] by (auto simp: trust_table_ok_def listTrustKeys_def)
  then show ?thesis
    using row_where_sorted_keys [of "listTrustKeys db" r lc]
    by (simp add: made_feed_def Let_def parse_feed feed_json_get find_feed_key_rows)
qed

end
