(* ===== verification/FabApp.thy ===== *)
theory FabApp
  imports TrustFeed
begin

text \<open>
  Signed fabapp manifests of \<open>ai-backend/src/extension_signing_store.js\<close>: the validation of an
  unsigned manifest, its canonical JSON text with the domain separator in front, and the signature
  over it.  A manifest is an arbitrary value, as the HTTP layer hands it in.
\<close>

section \<open>Canonical JSON\<close>

fun canonicalJson :: "js \<Rightarrow> error + string" where
  "canonicalJson JUndef = Inl (SigningStoreError INVALID_FABAPP_MANIFEST)"
| "canonicalJson JNull = Inr (stringify JNull)"
| "canonicalJson (JBool b) = Inr (stringify (JBool b))"
| "canonicalJson (JStr s) = Inr (stringify (JStr s))"
| "canonicalJson (JNum n) =
     (if \<not> safe_integer n then Inl (SigningStoreError INVALID_FABAPP_MANIFEST) else Inr (int_text n))"
| "canonicalJson (JArr xs) =
     (case map_results canonicalJson xs of Inl e \<Rightarrow> Inl e
      | Inr ts \<Rightarrow> Inr (''['' @ join '','' ts @ '']''))"
| "canonicalJson (JObj kvs) =
     (case map_results (\<lambda>(k, v). case canonicalJson v of Inl e \<Rightarrow> Inl e | Inr t \<Rightarrow> Inr (quoted k @ '':'' @ t))
             (sort_key fst kvs) of
        Inl e \<Rightarrow> Inl e
      | Inr ts \<Rightarrow> Inr (''{'' @ join '','' ts @ ''}''))"

section \<open>Validation\<close>

definition fabapp_fields :: "string list" where
  "fabapp_fields =
     [''manifestVersion'', ''packageClass'', ''appId'', ''publisherId'', ''version'',
      ''displayName'', ''entrypoint'', ''runtime'', ''minHostApi'', ''offlineCore'',
      ''requestedCapabilities'', ''networkPolicy'', ''files'']"

definition path_part_ok :: "string \<Rightarrow> bool" where
  "path_part_ok part \<longleftrightarrow> part \<noteq> [] \<and> part \<noteq> ''.'' \<and> part \<noteq> ''..''"

definition validFabAppPath :: "js \<Rightarrow> bool" where
  "validFabAppPath value =
     (case value of
        JStr s \<Rightarrow>
          (if s = [] \<or> 1024 < int (length s) then False
           else if hd s = CHR ''/'' \<or> list_ex (\<lambda>c. code c = 92) s \<or> list_ex (\<lambda>c. code c = 0) s then False
           else list_all path_part_ok (split_on (CHR ''/'') s))
      | _ \<Rightarrow> False)"

text \<open>\<open>/^[A-Za-z0-9][A-Za-z0-9._-]{0,127}$/\<close>, \<open>/^[A-Za-z0-9_.-]{1,128}$/\<close> and
  \<open>/^[a-z0-9.+-]+\/[a-z0-9.+-]+$/i\<close>\<close>

definition fabapp_identifier :: "string \<Rightarrow> bool" where
  "fabapp_identifier s \<longleftrightarrow>
     s \<noteq> [] \<and> length s \<le> 128 \<and> is_alnum (hd s) \<and> list_all (\<lambda>c. is_alnum c \<or> c \<in> set ''._-'') (tl s)"

definition capability_pattern :: "string \<Rightarrow> bool" where
  "capability_pattern s \<longleftrightarrow>
     1 \<le> length s \<and> length s \<le> 128 \<and> list_all (\<lambda>c. is_alnum c \<or> c \<in> set ''_.-'') s"

definition mime_pattern :: "string \<Rightarrow> bool" where
  "mime_pattern s \<longleftrightarrow>
     (case split_on (CHR ''/'') s of
        [a, b] \<Rightarrow> a \<noteq> [] \<and> b \<noteq> [] \<and> list_all (\<lambda>c. is_alnum c \<or> c \<in> set ''.+-'') (a @ b)
      | _ \<Rightarrow> False)"

fun object_properties :: "js \<Rightarrow> (string \<times> js) list option" where
  "object_properties (JObj kvs) = Some kvs"
| "object_properties _ = None"

definition sorted_keys :: "(string \<times> js) list \<Rightarrow> string" where
  "sorted_keys kvs = join '','' (sort (map fst kvs))"

fun is_string :: "js \<Rightarrow> bool" where
  "is_string (JStr s) = True"
| "is_string _ = False"

fun is_boolean :: "js \<Rightarrow> bool" where
  "is_boolean (JBool b) = True"
| "is_boolean _ = False"

text \<open>The loop over the capabilities, with the set of those seen.\<close>

fun capabilities_ok :: "string list \<Rightarrow> js list \<Rightarrow> bool" where
  "capabilities_ok seen [] = True"
| "capabilities_ok seen (JStr c # cs) =
     (capability_pattern c \<and> c \<notin> set seen \<and> capabilities_ok (c # seen) cs)"
| "capabilities_ok seen (_ # cs) = False"

definition network_policy_ok :: "js \<Rightarrow> bool" where
  "network_policy_ok policy =
     (case object_properties policy of None \<Rightarrow> False
      | Some kvs \<Rightarrow>
          sorted_keys kvs = ''allowedOrigins,mode'' \<and>
          (js_get policy ''mode'' = JStr ''deny'' \<or> js_get policy ''mode'' = JStr ''allowlist'') \<and>
          is_array (js_get policy ''allowedOrigins'') \<and>
          list_all is_string (elements (js_get policy ''allowedOrigins'')))"

definition fabapp_file_ok :: "string \<times> js \<Rightarrow> bool" where
  "fabapp_file_ok entry =
     (case entry of (path, item) \<Rightarrow>
       validFabAppPath (JStr path) \<and>
       (case object_properties item of None \<Rightarrow> False
        | Some kvs \<Rightarrow>
            sorted_keys kvs = ''bytes,mime,sha256'' \<and> hex64 (text_of (js_get item ''sha256'')) \<and>
            (case js_get item ''bytes'' of JNum n \<Rightarrow> safe_integer n \<and> 0 \<le> n | _ \<Rightarrow> False) \<and>
            (case js_get item ''mime'' of JStr m \<Rightarrow> mime_pattern m | _ \<Rightarrow> False)))"

definition files_ok :: "js \<Rightarrow> js \<Rightarrow> bool" where
  "files_ok files entrypoint =
     (case object_properties files of None \<Rightarrow> False
      | Some kvs \<Rightarrow>
          1 \<le> int (length kvs) \<and> int (length kvs) \<le> 10000 \<and> list_all fabapp_file_ok kvs \<and>
          truthy (js_get files (js_text entrypoint)) \<and>
          js_get (js_get files (js_text entrypoint)) ''mime'' = JStr ''text/html'')"

definition manifest_ok :: "js \<Rightarrow> bool" where
  "manifest_ok raw =
     (case object_properties raw of None \<Rightarrow> False
      | Some kvs \<Rightarrow>
          list_all (\<lambda>kv. fst kv \<in> set fabapp_fields) kvs \<and> length kvs = length fabapp_fields \<and>
          js_get raw ''manifestVersion'' = JNum 1 \<and> js_get raw ''packageClass'' = JStr ''catalog'' \<and>
          fabapp_identifier (js_text (js_get raw ''appId'')) \<and>
          fabapp_identifier (js_text (js_get raw ''publisherId'')) \<and>
          semantic_version (js_text (js_get raw ''version'')) \<and>
          (case js_get raw ''displayName'' of JStr s \<Rightarrow> 1 \<le> length s \<and> length s \<le> 160 | _ \<Rightarrow> False) \<and>
          validFabAppPath (js_get raw ''entrypoint'') \<and> js_get raw ''runtime'' = JStr ''web'' \<and>
          (case js_get raw ''minHostApi'' of JNum n \<Rightarrow> safe_integer n \<and> 1 \<le> n | _ \<Rightarrow> False) \<and>
          is_boolean (js_get raw ''offlineCore'') \<and>
          is_array (js_get raw ''requestedCapabilities'') \<and>
          capabilities_ok [] (elements (js_get raw ''requestedCapabilities'')) \<and>
          network_policy_ok (js_get raw ''networkPolicy'') \<and>
          \<not> (js_get (js_get raw ''networkPolicy'') ''mode'' = JStr ''deny'' \<and>
             elements (js_get (js_get raw ''networkPolicy'') ''allowedOrigins'') \<noteq> []) \<and>
          \<not> (truthy (js_get raw ''offlineCore'') \<and>
             js_get (js_get raw ''networkPolicy'') ''mode'' \<noteq> JStr ''deny'') \<and>
          files_ok (js_get raw ''files'') (js_get raw ''entrypoint''))"

text \<open>The result is \<open>JSON.parse(JSON.stringify(rawManifest))\<close>, which never throws
  (\<open>json_parse_read_back\<close>).\<close>

definition validateFabAppManifest :: "js \<Rightarrow> error + js" where
  "validateFabAppManifest raw =
     (if \<not> manifest_ok raw then Inl (SigningStoreError INVALID_FABAPP_MANIFEST)
      else (case json_parse (stringify raw) of
              None \<Rightarrow> Inl (SigningStoreError INVALID_FABAPP_MANIFEST)
            | Some manifest \<Rightarrow> Inr manifest))"

section \<open>The signature\<close>

definition fabapp_domain_separator :: string where
  "fabapp_domain_separator = ''fabushi.fabapp.manifest.v1'' @ [char_of (0::nat)]"

definition canonicalFabAppSigningPayload :: "js \<Rightarrow> error + string" where
  "canonicalFabAppSigningPayload raw =
     (case validateFabAppManifest raw of Inl e \<Rightarrow> Inl e
      | Inr manifest \<Rightarrow>
     (case canonicalJson manifest of Inl e \<Rightarrow> Inl e
      | Inr t \<Rightarrow> Inr (fabapp_domain_separator @ t)))"

text \<open>The base64url text of the bytes of a base64 text.\<close>

definition base64url_of :: "string \<Rightarrow> string" where
  "base64url_of s = map (\<lambda>c. if c = CHR ''+'' then CHR ''-'' else if c = CHR ''/'' then CHR ''_'' else c)
     (filter (\<lambda>c. c \<noteq> CHR ''='') s)"

record fabapp_trust =
  ft_algorithm :: string
  ft_key_id :: string
  ft_trust_epoch :: int
  ft_fingerprint :: string
  ft_raw_public_key :: string

record signed_fabapp =
  sf_manifest :: js
  sf_trust :: fabapp_trust

text \<open>The exported JWK of the signer's public key is a function of its text.\<close>

definition signFabAppManifestWithSigner ::
  "crypto \<Rightarrow> (string \<Rightarrow> js) \<Rightarrow> signer option \<Rightarrow> js \<Rightarrow> error + signed_fabapp" where
  "signFabAppManifestWithSigner cr jwk_of signer rawManifest =
     (case signer of None \<Rightarrow> Inl (SigningStoreError SIGNING_KEY_REQUIRED)
      | Some sg \<Rightarrow>
     (case validateFabAppManifest rawManifest of Inl e \<Rightarrow> Inl e
      | Inr manifest \<Rightarrow>
     (case canonicalFabAppSigningPayload manifest of Inl e \<Rightarrow> Inl e
      | Inr payload \<Rightarrow>
     (let signature = cr_sign cr (sg_private_key sg) payload; jwk = jwk_of (sg_public_key sg)
      in if \<not> cr_verify cr (sg_public_key sg) payload signature
         then Inl (SigningStoreError SIGNATURE_SELF_CHECK_FAILED)
         else if js_get jwk ''kty'' \<noteq> JStr ''OKP'' \<or> js_get jwk ''crv'' \<noteq> JStr ''Ed25519'' \<or>
                 \<not> is_string (js_get jwk ''x'')
         then Inl (SigningStoreError INVALID_SIGNING_PRIVATE_KEY)
         else Inr \<lparr>sf_manifest = JObj (put_property ''signature''
                     (JObj [(''algorithm'', JStr ''Ed25519''), (''keyId'', JStr (sg_key_id sg)),
                            (''value'', JStr (base64url_of signature))]) (own_properties manifest)),
                   sf_trust = \<lparr>ft_algorithm = ''Ed25519'', ft_key_id = sg_key_id sg,
                     ft_trust_epoch = sg_trust_epoch sg, ft_fingerprint = sg_fingerprint sg,
                     ft_raw_public_key = js_text (js_get jwk ''x'')\<rparr>\<rparr>))))"

definition signFabAppManifest ::
  "crypto \<Rightarrow> (string \<Rightarrow> js) \<Rightarrow> js \<Rightarrow> 'a signing_db_scheme \<Rightarrow> error + signed_fabapp" where
  "signFabAppManifest cr jwk_of manifest db = signFabAppManifestWithSigner cr jwk_of (configured_signer db) manifest"

section \<open>The reference form\<close>

text \<open>The value with the properties of every object sorted by name, whose ordinary JSON text the
  canonical text is.\<close>

fun normal_js :: "js \<Rightarrow> js" where
  "normal_js (JArr xs) = JArr (map normal_js xs)"
| "normal_js (JObj kvs) = JObj (map (\<lambda>(k, v). (k, normal_js v)) (sort_key fst kvs))"
| "normal_js v = v"

text \<open>Values whose objects have no repeated name and that nowhere contain \<open>undefined\<close>.\<close>

fun js_plain :: "js \<Rightarrow> bool" where
  "js_plain (JArr xs) = list_all js_plain xs"
| "js_plain (JObj kvs) = (distinct (map fst kvs) \<and> list_all (\<lambda>kv. js_plain (snd kv)) kvs)"
| "js_plain v = (v \<noteq> JUndef)"

fun distinct_names :: "js \<Rightarrow> bool" where
  "distinct_names (JArr xs) = list_all distinct_names xs"
| "distinct_names (JObj kvs) = (distinct (map fst kvs) \<and> list_all (\<lambda>kv. distinct_names (snd kv)) kvs)"
| "distinct_names v = True"

lemma js_plain_undef: "js_plain v \<Longrightarrow> v \<noteq> JUndef"
  by (cases v) simp_all

lemma normal_js_undef [simp]: "normal_js v = JUndef \<longleftrightarrow> v = JUndef"
  by (cases v) simp_all

lemma list_all2_map_eq: "list_all2 (\<lambda>x y. f x = y) xs ys \<longleftrightarrow> ys = map f xs"
  by (auto simp: list_all2_conv_all_nth intro: nth_equalityI)

lemma map_results_map:
  assumes "map_results f xs = Inr ys" and "\<And>x y. x \<in> set xs \<Longrightarrow> f x = Inr y \<Longrightarrow> y = g x"
  shows "ys = map g xs"
proof -
  have "list_all2 (\<lambda>x y. f x = Inr y) xs ys" using assms(1) by (simp add: map_results_Inr)
  then have "list_all2 (\<lambda>x y. g x = y) xs ys"
    by (rule list.rel_mono_strong) (use assms(2) in force)
  then show ?thesis by (simp add: list_all2_map_eq)
qed

lemma map_results_each: "map_results f xs = Inr ys \<Longrightarrow> x \<in> set xs \<Longrightarrow> \<exists>y. f x = Inr y"
  by (auto simp: map_results_Inr list_all2_conv_all_nth in_set_conv_nth)

lemma canonicalJson_undef [simp]: "canonicalJson v = Inr t \<Longrightarrow> v \<noteq> JUndef"
  by auto

lemma canonicalJson_stringify: "canonicalJson v = Inr t \<Longrightarrow> t = stringify (normal_js v)"
proof (induction v arbitrary: t)
  case (JArr xs)
  then obtain ts where ts: "map_results canonicalJson xs = Inr ts" and t: "t = ''['' @ join '','' ts @ '']''"
    by (auto split: sum.splits)
  have "ts = map (\<lambda>x. stringify (normal_js x)) xs" by (rule map_results_map [OF ts]) (rule JArr.IH)
  then show ?case by (simp add: t comp_def)
next
  case (JObj kvs)
  let ?f = "\<lambda>(k, v). case canonicalJson v of Inl e \<Rightarrow> Inl e | Inr t \<Rightarrow> Inr (quoted k @ '':'' @ t)"
  from JObj.prems obtain ts where ts: "map_results ?f (sort_key fst kvs) = Inr ts"
    and t: "t = ''{'' @ join '','' ts @ ''}''" by (auto split: sum.splits)
  have "ts = map (\<lambda>kv. quoted (fst kv) @ '':'' @ stringify (normal_js (snd kv))) (sort_key fst kvs)"
    by (rule map_results_map [OF ts]) (use JObj.IH in \<open>fastforce split: sum.splits prod.splits\<close>)
  moreover have "snd kv \<noteq> JUndef" if "kv \<in> set kvs" for kv
    using map_results_each [OF ts, of kv] that by (auto split: sum.splits prod.splits)
  then have "filter (\<lambda>kv. snd kv \<noteq> JUndef) (map (\<lambda>(k, v). (k, normal_js v)) (sort_key fst kvs)) =
      map (\<lambda>(k, v). (k, normal_js v)) (sort_key fst kvs)"
    by (intro filter_True) (auto simp: case_prod_unfold)
  ultimately show ?case by (simp add: t case_prod_unfold comp_def)
qed (auto split: if_splits)

lemma canonicalJson_plain: "canonicalJson v = Inr t \<Longrightarrow> distinct_names v \<Longrightarrow> js_plain v"
proof (induction v arbitrary: t)
  case (JArr xs)
  then obtain ts where ts: "map_results canonicalJson xs = Inr ts" by (auto split: sum.splits)
  show ?case using JArr.IH JArr.prems(2) map_results_each [OF ts] by (fastforce simp: list_all_iff)
next
  case (JObj kvs)
  let ?f = "\<lambda>(k, v). case canonicalJson v of Inl e \<Rightarrow> Inl e | Inr t \<Rightarrow> Inr (quoted k @ '':'' @ t)"
  from JObj.prems obtain ts where ts: "map_results ?f (sort_key fst kvs) = Inr ts" by (auto split: sum.splits)
  have "js_plain (snd kv)" if kv: "kv \<in> set kvs" for kv
  proof -
    obtain s where "canonicalJson (snd kv) = Inr s"
      using map_results_each [OF ts, of kv] kv by (auto split: sum.splits prod.splits)
    then show ?thesis using JObj.IH [OF kv, of "snd kv"] JObj.prems(2) kv by (auto simp: list_all_iff snds.intros)
  qed
  then show ?case using JObj.prems(2) by (simp add: list_all_iff)
qed simp_all

section \<open>Reading the reference form back\<close>

lemma put_property_keys:
  "set (map fst (put_property k v kvs)) = insert k (set (map fst kvs))"
  "distinct (map fst kvs) \<Longrightarrow> distinct (map fst (put_property k v kvs))"
proof -
  let ?P = "\<lambda>p. key_before (fst p) k"
  have split: "takeWhile ?P kvs @ dropWhile ?P kvs = kvs" by (rule takeWhile_dropWhile_id)
  then have keys: "map fst kvs = map fst (takeWhile ?P kvs) @ map fst (dropWhile ?P kvs)"
    by (metis map_append)
  have same: "map fst (map (\<lambda>(k', w). (k', if k' = k then v else w)) kvs) = map fst kvs"
    by (simp add: comp_def case_prod_unfold)
  show "set (map fst (put_property k v kvs)) = insert k (set (map fst kvs))"
    using same keys by (auto simp: put_property_def simp del: set_map)
  show "distinct (map fst kvs) \<Longrightarrow> distinct (map fst (put_property k v kvs))"
    using same keys by (auto simp: put_property_def simp del: set_map)
qed

lemma put_property_fresh: "k \<notin> set (map fst kvs) \<Longrightarrow> set (put_property k v kvs) = insert (k, v) (set kvs)"
proof -
  let ?P = "\<lambda>p. key_before (fst p) k"
  assume "k \<notin> set (map fst kvs)"
  moreover have "set (takeWhile ?P kvs) \<union> set (dropWhile ?P kvs) = set kvs"
    by (metis set_append takeWhile_dropWhile_id)
  ultimately show ?thesis by (auto simp: put_property_def)
qed

lemma assigned_distinct: "distinct (map fst (assigned kvs))"
proof (induction kvs rule: rev_induct)
  case (snoc p kvs)
  then show ?case by (cases p) (simp add: assigned_snoc put_property_keys)
qed simp

lemma assigned_keys: "set (map fst (assigned kvs)) = set (map fst kvs)"
proof (induction kvs rule: rev_induct)
  case (snoc p kvs)
  then show ?case by (cases p) (simp add: assigned_snoc put_property_keys del: set_map)
qed simp

lemma assigned_set: "distinct (map fst kvs) \<Longrightarrow> set (assigned kvs) = set kvs"
proof (induction kvs rule: rev_induct)
  case (snoc p kvs)
  obtain k v where p: "p = (k, v)" by (cases p)
  have "k \<notin> set (map fst (assigned kvs))" using snoc.prems by (simp add: assigned_keys p del: set_map)
  then show ?case using snoc by (simp add: p assigned_snoc put_property_fresh del: set_map)
qed simp

lemma read_back_distinct: "distinct_names (read_back v)"
proof (induction v)
  case (JObj kvs)
  let ?ps = "map (\<lambda>(k, v). (k, read_back v)) (filter (\<lambda>kv. snd kv \<noteq> JUndef) kvs)"
  have "distinct_names w" if "w \<in> set (map snd (assigned ?ps))" for w
  proof -
    have "w \<in> set (map snd ?ps)" using that assigned_values by blast
    then obtain kv where "kv \<in> set kvs" "w = read_back (snd kv)" by (auto simp: case_prod_unfold)
    then show ?thesis using JObj.IH [of kv "snd kv"] by (simp add: snds.intros)
  qed
  then show ?case using assigned_distinct by (auto simp: list_all_iff)
qed (simp_all add: list_all_iff)

lemma sort_key_same:
  assumes "distinct (map fst xs)" and "distinct (map fst ys)" and "set xs = set ys"
  shows "sort_key fst xs = sort_key fst ys"
proof (rule map_sorted_distinct_set_unique [where f = fst])
  have "inj_on fst (set xs)" using assms(1) by (simp add: distinct_map)
  then show "inj_on fst (set (sort_key fst xs) \<union> set (sort_key fst ys))" using assms(3) by simp
qed (use assms in \<open>simp_all add: distinct_map\<close>)

lemma distinct_sort_key: "distinct (map f xs) \<Longrightarrow> distinct (map f (sort_key g xs))"
  by (simp add: distinct_map)

lemma sort_key_map_values:
  "sort_key fst (map (\<lambda>(k, v). (k, f v)) kvs) = map (\<lambda>(k, v). (k, f v)) (sort_key fst kvs)"
  if "distinct (map fst kvs)"
proof (rule map_sorted_distinct_set_unique [where f = fst])
  have d: "distinct (map fst (map (\<lambda>(k, v). (k, f v)) kvs))" using that by (simp add: comp_def case_prod_unfold)
  have "inj_on fst (set (map (\<lambda>(k, v). (k, f v)) kvs))"
    using that by (auto simp: inj_on_def dest: eq_key_imp_eq_value)
  then show "inj_on fst (set (sort_key fst (map (\<lambda>(k, v). (k, f v)) kvs)) \<union>
      set (map (\<lambda>(k, v). (k, f v)) (sort_key fst kvs)))" by simp
  show "distinct (map fst (sort_key fst (map (\<lambda>(k, v). (k, f v)) kvs)))" by (rule distinct_sort_key [OF d])
  show "distinct (map fst (map (\<lambda>(k, v). (k, f v)) (sort_key fst kvs)))"
    using distinct_sort_key [OF that] by (simp add: comp_def case_prod_unfold)
qed (simp_all add: comp_def case_prod_unfold)

lemma normal_js_idem: "js_plain v \<Longrightarrow> normal_js (read_back (normal_js v)) = normal_js v"
proof (induction v)
  case (JArr xs)
  then show ?case by (auto simp: list_all_iff)
next
  case (JObj kvs)
  let ?ks = "sort_key fst kvs"
  let ?ps = "map (\<lambda>(k, v). (k, read_back (normal_js v))) ?ks"
  have plain: "js_plain v" if "(k, v) \<in> set kvs" for k v using JObj.prems that by (auto simp: list_all_iff)
  have d: "distinct (map fst ?ks)" using JObj.prems by (simp add: distinct_map)
  have dp: "distinct (map fst ?ps)" using d by (simp add: comp_def case_prod_unfold)
  have "filter (\<lambda>kv. snd kv \<noteq> JUndef) (map (\<lambda>(k, v). (k, normal_js v)) ?ks) = map (\<lambda>(k, v). (k, normal_js v)) ?ks"
    by (intro filter_True) (auto dest: plain js_plain_undef)
  then have "read_back (normal_js (JObj kvs)) = JObj (assigned ?ps)"
    by (simp add: comp_def case_prod_unfold)
  moreover have "sort_key fst (assigned ?ps) = sort_key fst ?ps"
    by (rule sort_key_same) (rule assigned_distinct, rule dp, rule assigned_set [OF dp])
  moreover have "sort_key fst ?ps = map (\<lambda>(k, v). (k, read_back (normal_js v))) (sort_key fst ?ks)"
    by (rule sort_key_map_values [OF d, of "\<lambda>v. read_back (normal_js v)"])
  moreover have "sort_key fst ?ks = ?ks" by (rule sort_key_same) (use JObj.prems in \<open>simp_all add: distinct_map\<close>)
  moreover have "normal_js (read_back (normal_js v)) = normal_js v" if "(k, v) \<in> set kvs" for k v
    using JObj.IH [OF that, of v] plain [OF that] by (simp add: snds.intros)
  ultimately show ?case by (auto simp: case_prod_unfold)
qed simp_all

text \<open>The canonical text determines the value up to the order of properties.\<close>

lemma canonicalJson_inj:
  assumes "canonicalJson v = Inr t" "canonicalJson w = Inr t" and "distinct_names v" "distinct_names w"
  shows "normal_js v = normal_js w"
proof -
  have "stringify (normal_js v) = stringify (normal_js w)" using canonicalJson_stringify assms(1,2) by metis
  then have "read_back (normal_js v) = read_back (normal_js w)" using json_parse_read_back by (metis option.inject)
  then show ?thesis using normal_js_idem canonicalJson_plain assms by metis
qed

end
