(* ===== verification/InstallProof.thy ===== *)
theory InstallProof
  imports Guarantees FabApp
begin

text \<open>
  \<open>ai-backend/src/extension_install_proof.js\<close>: the bundle with which a client checks a Mini App before
  it installs it.  It joins the release, artifact and signing stores: the release is approved, the
  signature is trusted and is over this descriptor and these artifacts, and the trust feed comes with
  it.  The hash of the descriptor is computed again from the stored descriptor.
\<close>

section \<open>The proof\<close>

record install_proof =
  ip_descriptor :: extension_entry
  ip_descriptor_payload :: string
  ip_signature :: envelope
  ip_trust :: feed_envelope

definition unavailable :: error where
  "unavailable = RegistryError EXTENSION_NOT_FOUND"

text \<open>The identity of the signed payload, of the descriptor and of the requested key agree.\<close>

definition proof_identity_ok :: "raw_key \<Rightarrow> js \<Rightarrow> extension_entry \<Rightarrow> string \<Rightarrow> string \<Rightarrow> bool" where
  "proof_identity_ok key signed descriptor digest stored_digest \<longleftrightarrow>
     digest = stored_digest \<and> js_get signed ''descriptorDigest'' = JStr digest \<and>
     js_get (js_get signed ''identity'') ''kind'' = raw_kind key \<and>
     js_get (js_get signed ''identity'') ''namespace'' = raw_namespace key \<and>
     js_get (js_get signed ''identity'') ''name'' = raw_name key \<and>
     js_get signed ''version'' = raw_version key \<and>
     JStr (en_kind descriptor) = raw_kind key \<and> JStr (en_namespace descriptor) = raw_namespace key \<and>
     JStr (en_name descriptor) = raw_name key \<and> JStr (en_version descriptor) = raw_version key"

definition bound_artifacts :: "(string \<Rightarrow> string \<Rightarrow> int) \<Rightarrow> 'a signed_artifact_scheme list \<Rightarrow> js" where
  "bound_artifacts lc arts = JArr (map artifact_json (sort_by (artifact_order lc) arts))"

definition proof_artifacts_ok ::
  "(string \<Rightarrow> string \<Rightarrow> int) \<Rightarrow> 'a signed_artifact_scheme list \<Rightarrow> js \<Rightarrow> extension_entry \<Rightarrow> bool" where
  "proof_artifacts_ok lc arts signed descriptor \<longleftrightarrow>
     stringify (bound_artifacts lc arts) = stringify (js_get signed ''artifacts'') \<and>
     hex64 (case en_bundle_digest descriptor of None \<Rightarrow> [] | Some d \<Rightarrow> d) \<and>
     list_ex (\<lambda>a. Some (sa_digest a) = en_bundle_digest descriptor \<and> sa_format a = ''fabapp'') arts"

definition readExtensionInstallProof ::
  "release_env \<Rightarrow> js \<Rightarrow> int \<Rightarrow> raw_key \<Rightarrow> 'a artifact_db_scheme \<Rightarrow> error + install_proof" where
  "readExtensionInstallProof env env_ttl now key db =
     (if raw_kind key \<noteq> JStr ''web-miniapp'' then Inl unavailable
      else
     (case release_getRelease key db of Inl e \<Rightarrow> Inl e
      | Inr None \<Rightarrow> Inl unavailable
      | Inr (Some release) \<Rightarrow>
     (if pr_state release \<noteq> Approved \<or> en_revoked (pr_descriptor release) then Inl unavailable
      else
     (case getTrustedSignature (re_crypto env) key db of Inl e \<Rightarrow> Inl e
      | Inr None \<Rightarrow> Inl unavailable
      | Inr (Some signature) \<Rightarrow>
     (case (approvalGate key db, json_parse (ev_payload signature)) of
        (Inr arts, Some signed) \<Rightarrow>
          (let descriptor = pr_descriptor release;
               descriptorPayload = stringify (entry_json descriptor);
               digest = cr_sha256 (re_crypto env) descriptorPayload
           in if digest = pr_descriptor_digest release \<and> signed = JNull then Inl JsTypeError
              else if \<not> proof_identity_ok key signed descriptor digest (pr_descriptor_digest release)
              then Inl unavailable
              else if \<not> proof_artifacts_ok (re_locale_compare env) arts signed descriptor
              then Inl unavailable
              else (case trustFeed (re_crypto env) (re_locale_compare env) env_ttl now JUndef db of
                      Inl e \<Rightarrow> Inl e
                    | Inr feed \<Rightarrow> Inr \<lparr>ip_descriptor = descriptor, ip_descriptor_payload = descriptorPayload,
                        ip_signature = signature, ip_trust = feed\<rparr>))
      | _ \<Rightarrow> Inl unavailable)))))"

section \<open>The signed payload read back\<close>

definition payload_json ::
  "(string \<Rightarrow> string \<Rightarrow> int) \<Rightarrow> string \<Rightarrow> int \<Rightarrow> extension_entry \<Rightarrow> string \<Rightarrow> 'a signed_artifact_scheme list \<Rightarrow> js"
where
  "payload_json lc kid epoch d digest arts = JObj
     [(''protocol'', JStr signature_protocol), (''keyId'', JStr kid), (''trustEpoch'', JNum epoch),
      (''identity'', JObj [(''namespace'', JStr (en_namespace d)), (''name'', JStr (en_name d)),
         (''kind'', JStr (en_kind d))]),
      (''version'', JStr (en_version d)), (''descriptorDigest'', JStr digest),
      (''artifacts'', bound_artifacts lc arts)]"

lemma release_payload_json: "release_payload lc kid epoch d g as = stringify (payload_json lc kid epoch d g as)"
  by (simp add: release_payload_def payload_json_def bound_artifacts_def)

lemma artifact_json_ok: "js_ok (artifact_json a)" "json_value (artifact_json a) = artifact_json a"
  by (simp_all add: artifact_json_def own_order_simps)

lemma payload_json_ok:
  "js_ok (payload_json lc kid epoch d g as)"
  "json_value (payload_json lc kid epoch d g as) = payload_json lc kid epoch d g as"
proof -
  have "map (json_value \<circ> artifact_json) xs = map artifact_json xs" for xs :: "'a signed_artifact_scheme list"
    by (simp add: artifact_json_ok)
  then show "js_ok (payload_json lc kid epoch d g as)"
    "json_value (payload_json lc kid epoch d g as) = payload_json lc kid epoch d g as"
    by (simp_all add: payload_json_def bound_artifacts_def own_order_simps list_all_iff artifact_json_ok)
qed

lemma parse_release_payload:
  "json_parse (release_payload lc kid epoch d g as) = Some (payload_json lc kid epoch d g as)"
  unfolding release_payload_json using json_parse_stringify [OF payload_json_ok(1)] payload_json_ok(2) by metis

lemma payload_json_get:
  "payload_json lc kid epoch d g as \<noteq> JNull"
  "js_get (payload_json lc kid epoch d g as) ''descriptorDigest'' = JStr g"
  "js_get (payload_json lc kid epoch d g as) ''version'' = JStr (en_version d)"
  "js_get (payload_json lc kid epoch d g as) ''artifacts'' = bound_artifacts lc as"
  "js_get (js_get (payload_json lc kid epoch d g as) ''identity'') ''kind'' = JStr (en_kind d)"
  "js_get (js_get (payload_json lc kid epoch d g as) ''identity'') ''namespace'' = JStr (en_namespace d)"
  "js_get (js_get (payload_json lc kid epoch d g as) ''identity'') ''name'' = JStr (en_name d)"
  by (simp_all add: payload_json_def)

lemma readExtensionInstallProof_Inr:
  assumes "readExtensionInstallProof env env_ttl now raw db = Inr p"
  obtains release as signed where "raw_kind raw = JStr ''web-miniapp''"
    and "release_getRelease raw db = Inr (Some release)" and "pr_state release = Approved"
    and "ip_descriptor p = pr_descriptor release" and "ip_descriptor_payload p = stringify (entry_json (pr_descriptor release))"
    and "getTrustedSignature (re_crypto env) raw db = Inr (Some (ip_signature p))"
    and "approvalGate raw db = Inr as"
    and "proof_artifacts_ok (re_locale_compare env) as signed (pr_descriptor release)"
    and "json_parse (ev_payload (ip_signature p)) = Some signed"
    and "proof_identity_ok raw signed (pr_descriptor release)
      (cr_sha256 (re_crypto env) (ip_descriptor_payload p)) (pr_descriptor_digest release)"
    and "trustFeed (re_crypto env) (re_locale_compare env) env_ttl now JUndef db = Inr (ip_trust p)"
proof -
  note op = assms [unfolded readExtensionInstallProof_def]
  have kind: "raw_kind raw = JStr ''web-miniapp''" using op by (auto split: if_splits)
  obtain release where rel: "release_getRelease raw db = Inr (Some release)"
    using op by (auto split: if_splits sum.splits option.splits)
  have state: "pr_state release = Approved" using op rel kind by (auto split: if_splits)
  obtain sig where sig: "getTrustedSignature (re_crypto env) raw db = Inr (Some sig)"
    using op rel kind by (auto split: if_splits sum.splits option.splits)
  obtain as signed where gate: "approvalGate raw db = Inr as" "json_parse (ev_payload sig) = Some signed"
    using op rel kind sig by (auto split: if_splits sum.splits option.splits)
  from op kind rel sig gate obtain feed where
    "trustFeed (re_crypto env) (re_locale_compare env) env_ttl now JUndef db = Inr feed"
    and "p = \<lparr>ip_descriptor = pr_descriptor release, ip_descriptor_payload = stringify (entry_json (pr_descriptor release)),
      ip_signature = sig, ip_trust = feed\<rparr>"
    and "proof_artifacts_ok (re_locale_compare env) as signed (pr_descriptor release)"
    and "proof_identity_ok raw signed (pr_descriptor release)
      (cr_sha256 (re_crypto env) (stringify (entry_json (pr_descriptor release)))) (pr_descriptor_digest release)"
    by (auto simp: Let_def split: if_splits sum.splits)
  then show thesis using kind rel state sig gate by (intro that) simp_all
qed

end
