(* ===== verification/FeedGuarantees.thy ===== *)
theory FeedGuarantees
  imports InstallProof
begin

text \<open>
  What clients can rely on: the trust feed verifies exactly in its window and reports revocations,
  an install proof is made for an approved Mini App and for nothing else, and a signed fabapp
  manifest verifies and is identified by its canonical text.  The examples continue those of
  Guarantees with a Mini App release.
\<close>

section \<open>The trust feed\<close>

lemma reachable_trust_table:
  assumes "reachable env cfg db" and "\<forall>t\<in>set (trust_keys db). trust_id_ok (tk_id t)"
  shows "trust_table_ok (trust_keys db)"
  using governed_parts(4) [OF reachable_parts(1) [OF assms(1)]] assms(2) by (simp add: trust_table_ok_def)

lemma reachable_signer_row:
  assumes "reachable env cfg db" and "configured_signer db = Some sg"
  obtains t where "t \<in> set (trust_keys db)" and "signer_row sg t"
  using governed_parts(8) [OF reachable_parts(1) [OF assms(1)]] assms(2)
  by (auto simp: active_signer_def signer_row_def)

text \<open>with a stored key pair as signer and valid key ids, a reachable service issues a trust feed, whose life
  time is positive and at most seven days, and a client accepts it at exactly the times from five
  minutes before its issue to its expiry (afterwards only when expired feeds are allowed).\<close>

theorem trust_feed_is_valid:
  assumes "reachable env cfg db" and "\<forall>t\<in>set (trust_keys db). trust_id_ok (tk_id t)"
    and "configured_signer db = Some sg" and "key_pair cr sg"
    and "trustFeedTtlMs (or_else ttlMs env_ttl) = Inr ttl" and "safe_integer now" and "safe_integer (now + ttl)"
  shows "0 < ttl \<and> ttl \<le> 604800000 \<and>
    (\<exists>feed. trustFeed cr lc env_ttl now ttlMs db = Inr feed \<and>
      (\<forall>t allow. verifyTrustFeedEnvelope cr t allow feed \<longleftrightarrow>
        safe_integer t \<and> now - 300000 \<le> t \<and> (allow \<or> t \<le> now + ttl)))"
proof -
  obtain r where r: "r \<in> set (trust_keys db)" "signer_row sg r" by (rule reachable_signer_row [OF assms(1,3)])
  note tab = reachable_trust_table [OF assms(1,2)]
  have ttl: "0 < ttl" "ttl \<le> 604800000"
    using assms(5) by (simp_all add: trustFeedTtlMs_Inr max_trust_feed_ttl_ms_def)
  have list: "trust_table_ok (listTrustKeys db)" "r \<in> set (listTrustKeys db)"
    using tab r(1) trust_table_tables [of db] by (simp_all add: listTrustKeys_def)
  have "trustFeed cr lc env_ttl now ttlMs db = Inr (made_feed cr lc sg (listTrustKeys db) now (now + ttl))"
    by (rule trustFeed_ok [OF assms(3,4) tab r assms(5-7)])
  then show ?thesis
    using made_feed_verifies [OF assms(4) list r(2) assms(6,7)] ttl
    by (auto simp: trust_feed_max_future_skew_ms_def)
qed

text \<open>C8: once a trust key is revoked, every trust feed that is issued in a later state lists that key id and
  epoch as revoked, with its public key, in the text a client parses, and is not signed by it.\<close>

theorem revocation_reaches_clients:
  assumes "reachable env cfg db" and "(platform_step env cfg)\<^sup>*\<^sup>* db db'"
    and "trust_get kid epoch db = Some t" and "tk_status t = Trust_Revoked"
    and "\<forall>t\<in>set (trust_keys db'). trust_id_ok (tk_id t)"
    and "trustFeed cr lc env_ttl now ttlMs db' = Inr feed"
  shows "(fe_key_id feed, fe_trust_epoch feed) \<noteq> (kid, epoch) \<and>
    (\<exists>payload item. json_parse (fe_payload feed) = Some payload \<and>
      find_feed_key kid epoch (elements (js_get payload ''keys'')) = Some item \<and>
      js_get item ''status'' = JStr ''revoked'' \<and> js_get item ''publicKey'' = JStr (tk_public_key t))"
proof -
  note later = reachable_run [OF assms(1,2)]
  have t: "t \<in> set (trust_keys db')" "tk_id t = (kid, epoch)"
    using trust_table.lookup_Some [of "(kid, epoch)" db' t] revoked_key_later [OF assms(1-4)] by auto
  note tab = reachable_trust_table [OF later assms(5)]
  obtain sg ttl where feed: "configured_signer db' = Some sg"
    "feed = made_feed cr lc sg (listTrustKeys db') now (now + ttl)"
    by (rule trustFeed_Inr [OF assms(6) tab])
  obtain r where "r \<in> set (trust_keys db')" "signer_row sg r" by (rule reachable_signer_row [OF later feed(1)])
  then have "(sg_key_id sg, sg_trust_epoch sg) \<noteq> (kid, epoch)"
    using distinct_key_unique [of tk_id "trust_keys db'" r t] tab t assms(4)
    by (auto simp: trust_table_ok_def signer_row_def)
  then show ?thesis
    using made_feed_entry [OF tab t(1), of cr lc sg now "now + ttl"] t(2) assms(4)
    by (auto simp: feed(2) made_feed_def Let_def feed_key_json_def trust_status_text_def)
qed

section \<open>Installation\<close>

lemma release_key_entry:
  assumes "reachable env cfg db" and "release_get key db = Some r"
  shows "key = entry_key (rel_descriptor r)" and "key_ok key" and "release_ok env r"
proof -
  have r: "r \<in> set (releases db)" "rel_key r = key" using rel_table.lookup_Some [OF assms(2)] by auto
  show ok: "release_ok env r" by (rule governed_parts(5) [OF reachable_parts(1) [OF assms(1)] r(1)])
  then show "key = entry_key (rel_descriptor r)" using r(2) by (simp add: release_ok_def)
  then show "key_ok key" using ok entry_key_ok by (simp add: release_ok_def)
qed

lemma approved_covered:
  assumes "reachable env cfg db" and "release_get key db = Some r" and "rel_state r = Approved"
  obtains s where "signature_get key db = Some s"
    and "sr_payload s = payload_of env r s (release_artifacts key db)"
    and "release_artifacts key db \<noteq> []" and "\<forall>a\<in>set (release_artifacts key db). ar_scan_state a = Scan_Passed"
proof -
  note gov = reachable_parts(1) [OF assms(1)]
  have r: "r \<in> set (releases db)" "rel_key r = key" using rel_table.lookup_Some [OF assms(2)] by auto
  have c: "covered env (signatures db) (release_artifacts key db) r"
    using governed_parts(7) [OF gov r(1)] assms(3) r(2) by (simp add: decided_def)
  then obtain s where "s \<in> set (signatures db)" "sr_key s = key"
    "sr_payload s = payload_of env r s (release_artifacts key db)" by (auto simp: covered_def r(2))
  then show thesis using that governed_get(2) [OF gov, of s] c by (auto simp: covered_def)
qed

lemma readExtensionInstallProof_ok:
  assumes "reachable env cfg db" and "release_get key db = Some r" and "rel_state r = Approved"
    and "rk_kind key = ''web-miniapp''" and "getTrustedSignature (re_crypto env) (as_raw key) db = Inr (Some ev)"
    and "en_bundle_digest (rel_descriptor r) = Some digest" and "hex64 digest"
    and "a \<in> set (release_artifacts key db)" and "ar_digest a = digest" and "ar_format a = ''fabapp''"
    and "trustFeed (re_crypto env) (re_locale_compare env) env_ttl now JUndef db = Inr feed"
  shows "readExtensionInstallProof env env_ttl now (as_raw key) db =
    Inr \<lparr>ip_descriptor = rel_descriptor r, ip_descriptor_payload = stringify (entry_json (rel_descriptor r)),
      ip_signature = ev, ip_trust = feed\<rparr>"
proof -
  note ok = release_key_entry [OF assms(1,2)]
  obtain s where s: "signature_get key db = Some s" "sr_payload s = payload_of env r s (release_artifacts key db)"
    "release_artifacts key db \<noteq> []" "\<forall>a\<in>set (release_artifacts key db). ar_scan_state a = Scan_Passed"
    by (rule approved_covered [OF assms(1-3)])
  have ev: "ev = publicEnvelope s"
    using assms(5) s(1) ok(2) by (auto simp: getTrustedSignature_def split: if_splits)
  let ?as = "map publicArtifact (release_artifacts key db)"
  let ?signed = "payload_json (re_locale_compare env) (sr_key_id s) (sr_trust_epoch s) (rel_descriptor r)
      (rel_descriptor_digest r) ?as"
  have rel: "release_getRelease (as_raw key) db = Inr (Some (publicRelease r))"
    using ok(2) assms(2) by (simp add: release_getRelease_def)
  have gate: "approvalGate (as_raw key) db = Inr ?as"
    using s(3,4) by (simp add: approvalGate_Inr [OF ok(2)])
  have signed: "json_parse (ev_payload ev) = Some ?signed"
    by (simp add: ev publicEnvelope_def s(2) payload_of_def parse_release_payload)
  have digest: "cr_sha256 (re_crypto env) (stringify (entry_json (rel_descriptor r))) = rel_descriptor_digest r"
    using ok(3) by (simp add: release_ok_def digestDescriptor_def)
  have id: "proof_identity_ok (as_raw key) ?signed (rel_descriptor r) (rel_descriptor_digest r) (rel_descriptor_digest r)"
    using ok(1) by (simp add: proof_identity_ok_def payload_json_get as_raw_def entry_key_def)
  have arts: "proof_artifacts_ok (re_locale_compare env) ?as ?signed (rel_descriptor r)"
    using assms(6-10) by (auto simp: proof_artifacts_ok_def payload_json_get list_ex_iff publicArtifact_def)
  have "raw_kind (as_raw key) = JStr ''web-miniapp''" using assms(4) by (simp add: as_raw_def)
  moreover have "pr_state (publicRelease r) = Approved" "pr_descriptor (publicRelease r) = rel_descriptor r"
    "pr_descriptor_digest (publicRelease r) = rel_descriptor_digest r" "\<not> en_revoked (rel_descriptor r)"
    using assms(3) ok(3) by (simp_all add: publicRelease_def release_ok_def)
  ultimately show ?thesis
    using id arts by (simp add: readExtensionInstallProof_def rel assms(5,11) gate signed digest payload_json_get(1) Let_def)
qed

text \<open>C10: an install proof exists only for an approved release: in a reachable state its descriptor hashes to the
  stored digest, its signature is the stored one, trusted and over that digest and the present
  artifacts, a passed fabapp artifact has the bundle digest, and its trust feed verifies.\<close>

theorem install_proof_is_covered:
  assumes "reachable env cfg db" and "readExtensionInstallProof env env_ttl now raw db = Inr p"
  shows "\<exists>key r s a. releaseKey raw = Inr key \<and> release_get key db = Some r \<and> rel_state r = Approved \<and>
    ip_descriptor_payload p = stringify (entry_json (rel_descriptor r)) \<and>
    cr_sha256 (re_crypto env) (ip_descriptor_payload p) = rel_descriptor_digest r \<and>
    signature_get key db = Some s \<and> ip_signature p = publicEnvelope s \<and> trusts (re_crypto env) (ip_signature p) db \<and>
    sr_payload s = release_payload (re_locale_compare env) (sr_key_id s) (sr_trust_epoch s) (rel_descriptor r)
      (rel_descriptor_digest r) (map publicArtifact (release_artifacts key db)) \<and>
    a \<in> set (release_artifacts key db) \<and> Some (ar_digest a) = en_bundle_digest (rel_descriptor r) \<and>
    ar_format a = ''fabapp'' \<and> ar_scan_state a = Scan_Passed \<and>
    verifyTrustFeedEnvelope (re_crypto env) now False (ip_trust p)"
proof -
  from assms(2) obtain release as signed where parts: "release_getRelease raw db = Inr (Some release)"
    "pr_state release = Approved" "ip_descriptor_payload p = stringify (entry_json (pr_descriptor release))"
    "getTrustedSignature (re_crypto env) raw db = Inr (Some (ip_signature p))" "approvalGate raw db = Inr as"
    "proof_artifacts_ok (re_locale_compare env) as signed (pr_descriptor release)"
    "proof_identity_ok raw signed (pr_descriptor release)
      (cr_sha256 (re_crypto env) (ip_descriptor_payload p)) (pr_descriptor_digest release)"
    "trustFeed (re_crypto env) (re_locale_compare env) env_ttl now JUndef db = Inr (ip_trust p)"
    by (rule readExtensionInstallProof_Inr)
  then obtain key r where key: "releaseKey raw = Inr key" "release_get key db = Some r" "release = publicRelease r"
    by (auto simp: release_getRelease_def split: sum.splits)
  then have r: "rel_state r = Approved" "pr_descriptor release = rel_descriptor r"
    "pr_descriptor_digest release = rel_descriptor_digest r"
    using parts(2) by (simp_all add: publicRelease_def)
  note ok = release_key_entry [OF assms(1) key(2)]
  obtain s where s: "signature_get key db = Some s" "sr_payload s = payload_of env r s (release_artifacts key db)"
    "\<forall>a\<in>set (release_artifacts key db). ar_scan_state a = Scan_Passed"
    by (rule approved_covered [OF assms(1) key(2) r(1)])
  have raw: "raw = as_raw key"
    using parts(7) ok(1) by (cases raw) (simp add: proof_identity_ok_def r(2) as_raw_def entry_key_def)
  have sig: "ip_signature p = publicEnvelope s" "trusts (re_crypto env) (ip_signature p) db"
    using parts(4) s(1) ok(2) by (auto simp: getTrustedSignature_def raw split: if_splits)
  have as: "as = map publicArtifact (release_artifacts key db)"
    using parts(5) by (simp add: raw approvalGate_Inr [OF ok(2)])
  then obtain a where a: "a \<in> set (release_artifacts key db)" "Some (ar_digest a) = en_bundle_digest (rel_descriptor r)"
    "ar_format a = ''fabapp''"
    using parts(6) by (auto simp: proof_artifacts_ok_def list_ex_iff publicArtifact_def r(2))
  moreover have "verifyTrustFeedEnvelope (re_crypto env) now False (ip_trust p)"
    using parts(8) by (auto simp: trustFeed_def Let_def split: option.splits sum.splits if_splits)
  moreover have "cr_sha256 (re_crypto env) (ip_descriptor_payload p) = rel_descriptor_digest r"
    using parts(7) r(3) by (simp add: proof_identity_ok_def)
  ultimately show ?thesis using key(1,2) r s sig parts(3) unfolding payload_of_def by metis
qed


section \<open>Fabapp manifests\<close>

lemma validate_Inr: "validateFabAppManifest raw = Inr m \<longleftrightarrow> manifest_ok raw \<and> m = read_back raw"
  by (auto simp: validateFabAppManifest_def json_parse_read_back)

lemma canonical_payload_Inr:
  "canonicalFabAppSigningPayload raw = Inr p \<longleftrightarrow>
     manifest_ok raw \<and> (\<exists>t. canonicalJson (read_back raw) = Inr t \<and> p = fabapp_domain_separator @ t)"
  by (auto simp: canonicalFabAppSigningPayload_def validateFabAppManifest_def json_parse_read_back split: sum.splits)

text \<open>C19: the text a fabapp manifest is signed over is, behind the domain separator, the ordinary JSON text of the
  manifest with the properties of every object in order of their names; two accepted manifests
  have the same text if and only if they agree up to the order of properties.\<close>

theorem canonical_payload_identifies_manifest:
  assumes "canonicalFabAppSigningPayload m = Inr p" and "canonicalFabAppSigningPayload m' = Inr p'"
    and "json_parse (stringify m) = Some v" and "json_parse (stringify m') = Some v'"
  shows "(p = p' \<longleftrightarrow> normal_js v = normal_js v') \<and> p = fabapp_domain_separator @ stringify (normal_js v)"
proof -
  have v: "v = read_back m" "v' = read_back m'" using assms(3,4) by (simp_all add: json_parse_read_back)
  obtain t t' where t: "canonicalJson v = Inr t" "p = fabapp_domain_separator @ t"
    and t': "canonicalJson v' = Inr t'" "p' = fabapp_domain_separator @ t'"
    using assms(1,2) by (auto simp: canonical_payload_Inr v)
  have "p = p' \<longleftrightarrow> normal_js v = normal_js v'"
    using canonicalJson_inj [of v t v'] canonicalJson_stringify [OF t(1)] canonicalJson_stringify [OF t'(1)]
      t t' read_back_distinct [of m] read_back_distinct [of m'] by (auto simp: v)
  then show ?thesis using canonicalJson_stringify [OF t(1)] t(2) by simp
qed

lemma key_before_name: "\<not> index_key k \<Longrightarrow> key_before a k"
  by (simp add: key_before_def)

lemma put_property_last:
  "k \<notin> set (map fst kvs) \<Longrightarrow> \<not> index_key k \<Longrightarrow> put_property k v kvs = kvs @ [(k, v)]"
proof -
  assume k: "k \<notin> set (map fst kvs)" "\<not> index_key k"
  then have "takeWhile (\<lambda>p. key_before (fst p) k) kvs = kvs" "dropWhile (\<lambda>p. key_before (fst p) k) kvs = []"
    by (simp_all add: key_before_name)
  then show ?thesis using k(1) by (simp add: put_property_def)
qed

lemma manifest_ok_object:
  assumes "manifest_ok m"
  obtains kvs where "m = JObj kvs" and "''signature'' \<notin> set (map fst kvs)"
proof (cases m)
  case (JObj kvs)
  have "set (map fst kvs) \<subseteq> set fabapp_fields"
    using assms by (auto simp: manifest_ok_def JObj list_all_iff)
  moreover have "''signature'' \<notin> set fabapp_fields" by (simp add: fabapp_fields_def)
  ultimately show thesis using that JObj by blast
qed (use assms in \<open>simp_all add: manifest_ok_def\<close>)

definition unsigned :: "js \<Rightarrow> js" where
  "unsigned m = JObj (filter (\<lambda>kv. fst kv \<noteq> ''signature'') (own_properties m))"

lemma unsigned_put:
  "''signature'' \<notin> set (map fst kvs) \<Longrightarrow> unsigned (JObj (put_property ''signature'' v kvs)) = JObj kvs"
  "''signature'' \<notin> set (map fst kvs) \<Longrightarrow> js_get (JObj (put_property ''signature'' v kvs)) ''signature'' = v"
proof -
  have name: "\<not> index_key ''signature''" by (simp add: index_key_def is_digit_def)
  assume k: "''signature'' \<notin> set (map fst kvs)"
  then have "filter (\<lambda>kv. fst kv \<noteq> ''signature'') kvs = kvs" by (intro filter_True) force
  then show "unsigned (JObj (put_property ''signature'' v kvs)) = JObj kvs"
    by (simp add: unsigned_def put_property_last [OF k name])
  show "js_get (JObj (put_property ''signature'' v kvs)) ''signature'' = v"
    using k by (simp add: put_property_last [OF k name] map_add_def map_of_eq_None_iff [THEN iffD2])
qed

text \<open>C20: a signed manifest verifies as a host checks it: taking the signature off gives the submitted manifest,
  which is valid, and its canonical payload verifies under the signer's public key with the
  attached signature.\<close>

theorem signed_fabapp_verifies:
  assumes "signFabAppManifestWithSigner cr jwk_of (Some sg) raw = Inr s" and "json_parse (stringify raw) = Some m"
  shows "unsigned (sf_manifest s) = m \<and> manifest_ok m \<and>
    (\<exists>p signature. canonicalFabAppSigningPayload (unsigned (sf_manifest s)) = Inr p \<and>
      cr_verify cr (sg_public_key sg) p signature \<and>
      js_get (js_get (sf_manifest s) ''signature'') ''value'' = JStr (base64url_of signature) \<and>
      js_get (js_get (sf_manifest s) ''signature'') ''keyId'' = JStr (sg_key_id sg))"
proof -
  note op = assms(1) [unfolded signFabAppManifestWithSigner_def]
  have m: "validateFabAppManifest raw = Inr m"
    using op assms(2) by (auto simp: json_parse_read_back validateFabAppManifest_def split: if_splits)
  obtain p where p: "canonicalFabAppSigningPayload m = Inr p" using op m by (auto split: sum.splits)
  then have ok: "manifest_ok m" by (simp add: canonical_payload_Inr)
  then obtain kvs where kvs: "m = JObj kvs" "''signature'' \<notin> set (map fst kvs)" by (rule manifest_ok_object)
  have s: "cr_verify cr (sg_public_key sg) p (cr_sign cr (sg_private_key sg) p)"
    "sf_manifest s = JObj (put_property ''signature''
       (JObj [(''algorithm'', JStr ''Ed25519''), (''keyId'', JStr (sg_key_id sg)),
         (''value'', JStr (base64url_of (cr_sign cr (sg_private_key sg) p)))]) kvs)"
    using op m p kvs(1) by (auto simp: Let_def split: if_splits)
  then have "unsigned (sf_manifest s) = m" using unsigned_put(1) [OF kvs(2)] kvs(1) by simp
  then show ?thesis using ok p s unsigned_put(2) [OF kvs(2)] by auto
qed

lemma ex_ids: "\<forall>t\<in>set (trust_keys ex_trusted). trust_id_ok (tk_id t)"
    "\<forall>t\<in>set (trust_keys ex_key_revoked). trust_id_ok (tk_id t)"
proof -
  have "list_all (\<lambda>t. trust_id_ok (tk_id t)) (trust_keys ex_trusted)"
    unfolding ex_trusted_def ex_submitted_eq by code_simp
  then show "\<forall>t\<in>set (trust_keys ex_trusted). trust_id_ok (tk_id t)" by (simp add: list_all_iff)
  have "list_all (\<lambda>t. trust_id_ok (tk_id t)) (trust_keys ex_key_revoked)"
    unfolding ex_key_revoked_def ex_rotated_def ex_trusted_def ex_submitted_eq by code_simp
  then show "\<forall>t\<in>set (trust_keys ex_key_revoked). trust_id_ok (tk_id t)" by (simp add: list_all_iff)
qed

lemma ex_ttl: "trustFeedTtlMs (or_else JUndef (JNum 1000)) = Inr 1000" "safe_integer 50" "safe_integer (50 + 1000)"
  by code_simp+

lemma trust_feed_is_valid_witness:
  "\<exists>feed. trustFeed ex_crypto (re_locale_compare ex_env) (JNum 1000) 50 JUndef ex_trusted = Inr feed \<and>
     verifyTrustFeedEnvelope ex_crypto 1050 False feed \<and> \<not> verifyTrustFeedEnvelope ex_crypto 1051 False feed"
proof -
  obtain feed where "trustFeed ex_crypto (re_locale_compare ex_env) (JNum 1000) 50 JUndef ex_trusted = Inr feed"
    and "\<forall>t allow. verifyTrustFeedEnvelope ex_crypto t allow feed \<longleftrightarrow>
        safe_integer t \<and> 50 - 300000 \<le> t \<and> (allow \<or> t \<le> 50 + 1000)"
    using trust_feed_is_valid [OF ex_reachable_trusted ex_ids(1) ex_tables(3) ex_pair ex_ttl] by blast
  moreover have "safe_integer 1050" by (simp add: safe_integer_def)
  ultimately show ?thesis by (intro exI [of _ feed]) simp
qed

lemma ex_rotated_signer: "configured_signer ex_key_revoked = Some (ex_signer\<lparr>sg_key_id := ''key-2''\<rparr>)"
  unfolding ex_key_revoked_def ex_rotated_def ex_trusted_def ex_submitted_eq by code_simp

lemma ex_rotated_pair: "key_pair ex_crypto (ex_signer\<lparr>sg_key_id := ''key-2''\<rparr>)"
  by (simp add: key_pair_def ex_crypto_def ex_signer_def)

lemma revocation_reaches_clients_witness:
  "\<exists>feed payload item. trustFeed ex_crypto (re_locale_compare ex_env) (JNum 1000) 50 JUndef ex_key_revoked = Inr feed \<and>
     json_parse (fe_payload feed) = Some payload \<and>
     find_feed_key ''key-1'' 1 (elements (js_get payload ''keys'')) = Some item \<and>
     js_get item ''status'' = JStr ''revoked''"
proof -
  have "map_option tk_status (trust_get ''key-1'' 1 ex_key_revoked) = Some Trust_Revoked"
    unfolding ex_key_revoked_def ex_rotated_def ex_trusted_def ex_submitted_eq by code_simp
  then obtain t where t: "trust_get ''key-1'' 1 ex_key_revoked = Some t" "tk_status t = Trust_Revoked" by auto
  obtain r where r: "r \<in> set (trust_keys ex_key_revoked)" "signer_row (ex_signer\<lparr>sg_key_id := ''key-2''\<rparr>) r"
    by (rule reachable_signer_row [OF ex_key_revoked_reachable ex_rotated_signer])
  have "trustFeed ex_crypto (re_locale_compare ex_env) (JNum 1000) 50 JUndef ex_key_revoked =
      Inr (made_feed ex_crypto (re_locale_compare ex_env) (ex_signer\<lparr>sg_key_id := ''key-2''\<rparr>)
        (listTrustKeys ex_key_revoked) 50 (50 + 1000))"
    by (rule trustFeed_ok [OF ex_rotated_signer ex_rotated_pair
          reachable_trust_table [OF ex_key_revoked_reachable ex_ids(2)] r ex_ttl])
  with revocation_reaches_clients [OF ex_key_revoked_reachable rtranclp.rtrancl_refl t ex_ids(2) this] show ?thesis
    by blast
qed

definition ex_manifest :: js where
  "ex_manifest = JObj
     [(''manifestVersion'', JNum 1), (''packageClass'', JStr ''catalog''), (''appId'', JStr ''demo''),
      (''publisherId'', JStr ''acme''), (''version'', JStr ''1.0.0''), (''displayName'', JStr ''Demo''),
      (''entrypoint'', JStr ''app/index.html''), (''runtime'', JStr ''web''), (''minHostApi'', JNum 1),
      (''offlineCore'', JBool True), (''requestedCapabilities'', JArr [JStr ''storage'']),
      (''networkPolicy'', JObj [(''mode'', JStr ''deny''), (''allowedOrigins'', JArr [])]),
      (''files'', JObj [(''app/index.html'', JObj [(''sha256'', JStr (replicate 64 CHR ''a'')), (''bytes'', JNum 3),
        (''mime'', JStr ''text/html'')])])]"

definition ex_manifest_sorted :: js where
  "ex_manifest_sorted = JObj (rev (own_properties ex_manifest))"

lemma ex_manifest_ok: "manifest_ok ex_manifest" "manifest_ok ex_manifest_sorted"
  "read_back ex_manifest = ex_manifest" "read_back ex_manifest_sorted = ex_manifest_sorted"
  "normal_js ex_manifest = normal_js ex_manifest_sorted"
  by code_simp+

lemma ex_manifest_canonical:
  "\<exists>p. canonicalFabAppSigningPayload ex_manifest = Inr p"
  "\<exists>p. canonicalFabAppSigningPayload ex_manifest_sorted = Inr p"
proof -
  have "\<exists>t. canonicalJson ex_manifest = Inr t" "\<exists>t. canonicalJson ex_manifest_sorted = Inr t"
  proof -
    have "(case canonicalJson ex_manifest of Inr t \<Rightarrow> True | _ \<Rightarrow> False)" by code_simp
    then show "\<exists>t. canonicalJson ex_manifest = Inr t" by (auto split: sum.splits)
    have "(case canonicalJson ex_manifest_sorted of Inr t \<Rightarrow> True | _ \<Rightarrow> False)" by code_simp
    then show "\<exists>t. canonicalJson ex_manifest_sorted = Inr t" by (auto split: sum.splits)
  qed
  then show "\<exists>p. canonicalFabAppSigningPayload ex_manifest = Inr p"
    "\<exists>p. canonicalFabAppSigningPayload ex_manifest_sorted = Inr p"
    using ex_manifest_ok by (auto simp: canonical_payload_Inr)
qed

lemma canonical_payload_identifies_manifest_witness:
  "\<exists>p. canonicalFabAppSigningPayload ex_manifest = Inr p \<and> canonicalFabAppSigningPayload ex_manifest_sorted = Inr p \<and>
     ex_manifest \<noteq> ex_manifest_sorted"
proof -
  obtain p p' where p: "canonicalFabAppSigningPayload ex_manifest = Inr p"
    "canonicalFabAppSigningPayload ex_manifest_sorted = Inr p'"
    using ex_manifest_canonical by blast
  have "json_parse (stringify ex_manifest) = Some ex_manifest"
    "json_parse (stringify ex_manifest_sorted) = Some ex_manifest_sorted"
    by (simp_all add: json_parse_read_back ex_manifest_ok)
  from canonical_payload_identifies_manifest [OF p this] have "p = p'" using ex_manifest_ok by blast
  moreover have "ex_manifest \<noteq> ex_manifest_sorted" by code_simp
  ultimately show ?thesis using p by blast
qed

definition ex_jwk :: "string \<Rightarrow> js" where
  "ex_jwk k = JObj [(''kty'', JStr ''OKP''), (''crv'', JStr ''Ed25519''), (''x'', JStr k)]"

lemma signed_fabapp_verifies_witness:
  "\<exists>s p signature. signFabAppManifestWithSigner ex_crypto ex_jwk (Some ex_signer) ex_manifest = Inr s \<and>
     unsigned (sf_manifest s) = ex_manifest \<and> canonicalFabAppSigningPayload (unsigned (sf_manifest s)) = Inr p \<and>
     cr_verify ex_crypto (sg_public_key ex_signer) p signature"
proof -
  have parse: "json_parse (stringify ex_manifest) = Some ex_manifest"
    by (simp add: json_parse_read_back ex_manifest_ok)
  have "validateFabAppManifest ex_manifest = Inr ex_manifest" by (simp add: validate_Inr ex_manifest_ok)
  moreover obtain p where "canonicalFabAppSigningPayload ex_manifest = Inr p" using ex_manifest_canonical by blast
  ultimately obtain s where s: "signFabAppManifestWithSigner ex_crypto ex_jwk (Some ex_signer) ex_manifest = Inr s"
    using ex_pair by (simp add: signFabAppManifestWithSigner_def Let_def key_pair_def ex_jwk_def)
  with signed_fabapp_verifies [OF s parse] show ?thesis by blast
qed

text \<open>A Mini App release with its bundle, from the claim of the namespace to the approval.\<close>

definition ex_app_digest :: string where "ex_app_digest = replicate 64 CHR ''c''"

definition ex_app_descriptor :: js where
  "ex_app_descriptor = JObj
     [(''identity'', JObj [(''namespace'', JStr ''acme''), (''name'', JStr ''demo''), (''kind'', JStr ''web-miniapp'')]),
      (''release'', JObj [(''version'', JStr ''1.0.0''), (''platforms'', JArr [JStr ''web'']),
        (''bundleDigest'', JStr ex_app_digest)])]"

definition ex_app_key :: release_key where "ex_app_key = ex_key\<lparr>rk_kind := ''web-miniapp''\<rparr>"

definition ex_app_drafted :: moderation_db where
  "ex_app_drafted = snd (createDraft ex_env 2 (JStr ''alice'') ex_app_descriptor ex_claimed)"

definition ex_app_bound :: moderation_db where
  "ex_app_bound = snd (registerExternal ex_cfg 3 4 (JStr ''alice'') (as_raw ex_app_key) (JStr ''main'')
     (ex_meta\<lparr>am_format := JStr ''fabapp''\<rparr>) (JStr ex_app_digest) (JNum 100)
     (JStr ''https://github.com/acme/demo.zip'') ex_app_drafted)"

definition ex_app_submitted :: moderation_db where
  "ex_app_submitted = snd (release_submit 5 (JStr ''alice'') (as_raw ex_app_key) ex_app_bound)"

definition ex_app_scanned :: moderation_db where
  "ex_app_scanned = snd (recordScan 6 7 (JStr ''scan'') (as_raw ex_app_key) (JStr ''main'') (JStr ''passed'')
     (JStr ''clamav'') (JStr ''1.0'') JUndef JUndef JUndef ex_app_submitted)"

definition ex_app_trusted :: moderation_db where
  "ex_app_trusted = snd (signing_open 8 (Some ex_signer) ex_app_scanned)"

definition ex_app_approved :: moderation_db where
  "ex_app_approved = snd (release_review ex_env 9 10 (JBool True) (JStr ''rev'') JUndef (as_raw ex_app_key) ex_app_trusted)"

lemma ex_app_reachable: "reachable ex_env ex_cfg ex_app_approved"
proof -
  have "(platform_step ex_env ex_cfg)\<^sup>*\<^sup>* ex_empty ex_app_bound"
  proof -
    have "platform_step ex_env ex_cfg ex_empty ex_claimed"
      unfolding ex_claimed_def by (intro platform_step.publisher) (metis publisher_step.create prod.collapse)
    moreover have "platform_step ex_env ex_cfg ex_claimed ex_app_drafted"
      unfolding ex_app_drafted_def by (rule step_snd) (rule platform_step.draft)
    moreover have "platform_step ex_env ex_cfg ex_app_drafted ex_app_bound"
      unfolding ex_app_bound_def by (rule step_snd) (rule platform_step.external)
    ultimately show ?thesis by (meson rtranclp.intros)
  qed
  moreover have "(platform_step ex_env ex_cfg)\<^sup>*\<^sup>* ex_app_bound ex_app_trusted"
  proof -
    have "platform_step ex_env ex_cfg ex_app_bound ex_app_submitted"
      unfolding ex_app_submitted_def by (rule step_snd) (rule platform_step.submit)
    moreover have "platform_step ex_env ex_cfg ex_app_submitted ex_app_scanned"
      unfolding ex_app_scanned_def by (rule step_snd) (rule platform_step.scan)
    moreover have "platform_step ex_env ex_cfg ex_app_scanned ex_app_trusted"
      unfolding ex_app_trusted_def by (rule step_snd) (rule platform_step.start_signer)
    ultimately show ?thesis by (meson rtranclp.intros)
  qed
  moreover have "platform_step ex_env ex_cfg ex_app_trusted ex_app_approved"
    unfolding ex_app_approved_def by (rule step_snd) (rule platform_step.review)
  ultimately have "(platform_step ex_env ex_cfg)\<^sup>*\<^sup>* ex_empty ex_app_approved"
    by (meson rtranclp_trans rtranclp.rtrancl_into_rtrancl)
  then show ?thesis using ex_attached ex_fresh unfolding reachable_def by blast
qed

definition ex_app_entry :: extension_entry where
  "ex_app_entry = ex_entry\<lparr>en_kind := ''web-miniapp'', en_bundle_digest := Some ex_app_digest\<rparr>"

definition ex_app_row :: release_row where
  "ex_app_row = set_submitted 5 (draft_row ex_app_key ex_app_entry (replicate 64 CHR ''a'') ''alice'' 2)"

definition ex_app_unscanned :: artifact_row where
  "ex_app_unscanned = new_artifact_row (ex_app_key, ''main'') ex_app_digest 100 ''all'' ''any'' ''fabapp''
     ''https://github.com/acme/demo.zip'' 3"

definition ex_app_pending :: moderation_db where
  "ex_app_pending = ex_pending\<lparr>releases := [ex_app_row],
     release_audit :=
       [\<lparr>ra_sequence = 1, ra_key = ex_app_key, ra_action = ''release.created'', ra_actor = ''alice'',
         ra_payload = JObj (digest_json (replicate 64 CHR ''a'')), ra_occurred_at_ms = 2\<rparr>,
        \<lparr>ra_sequence = 2, ra_key = ex_app_key, ra_action = ''release.submitted'', ra_actor = ''alice'',
         ra_payload = JObj (digest_json (replicate 64 CHR ''a'')), ra_occurred_at_ms = 5\<rparr>],
     artifacts := [ex_app_unscanned],
     artifact_audit :=
       [\<lparr>aa_sequence = 1, aa_digest = ex_app_digest, aa_action = ''artifact.registered'',
         aa_actor = ''alice'',
         aa_payload = JObj (artifact_key_json ex_app_key ''main'' @
           [(''sizeBytes'', JNum 100), (''url'', JStr ''https://github.com/acme/demo.zip'')]),
         aa_occurred_at_ms = 4\<rparr>]\<rparr>"

lemma ex_app_submitted_eq: "ex_app_submitted = ex_app_pending"
  by code_simp

definition ex_app_view ::
  "moderation_db \<Rightarrow> release_row option \<times> artifact_row list \<times> envelope option \<times> signer option \<times> bool" where
  "ex_app_view db = (release_get ex_app_key db, release_artifacts ex_app_key db,
     (case getTrustedSignature (re_crypto ex_env) (as_raw ex_app_key) db of Inr ev \<Rightarrow> ev | _ \<Rightarrow> None),
     configured_signer db, list_all (\<lambda>t. trust_id_ok (tk_id t)) (trust_keys db))"

definition ex_app_check :: bool where
  "ex_app_check = (case ex_app_view ex_app_approved of
     (Some r, [a], Some ev, Some sg, ids) \<Rightarrow>
        rel_state r = Approved \<and> en_bundle_digest (rel_descriptor r) = Some ex_app_digest \<and>
        ar_digest a = ex_app_digest \<and> ar_format a = ''fabapp'' \<and> sg = ex_signer \<and> ids
   | _ \<Rightarrow> False)"

lemma ex_app_checked: "ex_app_check"
  unfolding ex_app_check_def ex_app_approved_def ex_app_trusted_def ex_app_scanned_def ex_app_submitted_eq
  by code_simp

lemma ex_app_facts:
  obtains r a ev where "release_get ex_app_key ex_app_approved = Some r" and "rel_state r = Approved"
    and "getTrustedSignature (re_crypto ex_env) (as_raw ex_app_key) ex_app_approved = Inr (Some ev)"
    and "en_bundle_digest (rel_descriptor r) = Some ex_app_digest"
    and "a \<in> set (release_artifacts ex_app_key ex_app_approved)" and "ar_digest a = ex_app_digest"
    and "ar_format a = ''fabapp''" and "configured_signer ex_app_approved = Some ex_signer"
    and "\<forall>t\<in>set (trust_keys ex_app_approved). trust_id_ok (tk_id t)"
  using ex_app_checked unfolding ex_app_check_def ex_app_view_def
  by (force split: option.splits list.splits sum.splits simp: list_all_iff)

lemma ex_app_pair: "key_pair (re_crypto ex_env) ex_signer"
  using ex_pair by (simp add: ex_env_def)

lemma ex_app_kind: "rk_kind ex_app_key = ''web-miniapp''" "hex64 ex_app_digest"
  by code_simp+


lemma install_proof_is_covered_witness:
  "\<exists>p key r. readExtensionInstallProof ex_env (JNum 1000) 50 (as_raw ex_app_key) ex_app_approved = Inr p \<and>
     release_get key ex_app_approved = Some r \<and> rel_state r = Approved \<and>
     cr_sha256 (re_crypto ex_env) (ip_descriptor_payload p) = rel_descriptor_digest r"
proof -
  obtain r a ev where e: "release_get ex_app_key ex_app_approved = Some r" "rel_state r = Approved"
    "getTrustedSignature (re_crypto ex_env) (as_raw ex_app_key) ex_app_approved = Inr (Some ev)"
    "en_bundle_digest (rel_descriptor r) = Some ex_app_digest"
    "a \<in> set (release_artifacts ex_app_key ex_app_approved)" "ar_digest a = ex_app_digest" "ar_format a = ''fabapp''"
    "configured_signer ex_app_approved = Some ex_signer"
    "\<forall>t\<in>set (trust_keys ex_app_approved). trust_id_ok (tk_id t)"
    by (rule ex_app_facts)
  obtain t where t: "t \<in> set (trust_keys ex_app_approved)" "signer_row ex_signer t"
    by (rule reachable_signer_row [OF ex_app_reachable e(8)])
  note feed = trustFeed_ok [OF e(8) ex_app_pair reachable_trust_table [OF ex_app_reachable e(9)] t ex_ttl]
  note found = readExtensionInstallProof_ok [OF ex_app_reachable e(1,2) ex_app_kind(1) e(3,4) ex_app_kind(2) e(5-7) feed]
  from install_proof_is_covered [OF ex_app_reachable found] found show ?thesis by blast
qed

end
