(* ===== verification/Registry.thy ===== *)
theory Registry
  imports ReleaseStore JsonText
begin

text \<open>
  The public catalogue of \<open>ai-backend/src/extension_registry.js\<close>: Mini App manifests and the official MCP
  apps are projected to registry entries, approved releases take precedence over them, and the
  result is browsed in pages with an opaque cursor.  The manifests of the marketplace and the list
  of official apps are data of other modules, so they are fields of \<open>catalog_env\<close>; so are the
  Unicode tables behind \<open>normalize('NFKC')\<close> and \<open>localeCompare\<close>.
\<close>

section \<open>Base64url\<close>

text \<open>\<open>Buffer.from(s, 'utf8').toString('base64url')\<close> and back.  Characters outside the alphabet are
  skipped when reading, and a rest of one character is dropped.\<close>

definition base64_char :: "nat \<Rightarrow> char" where
  "base64_char n =
     (if n < 26 then char_of (65 + n) else if n < 52 then char_of (71 + n)
      else if n < 62 then char_of (n - 4) else if n = 62 then CHR ''-'' else CHR ''_'')"

definition base64_value :: "char \<Rightarrow> nat option" where
  "base64_value c =
     (if is_upper c then Some (code c - 65) else if is_lower c then Some (code c - 71)
      else if is_digit c then Some (code c + 4)
      else if c = CHR ''-'' \<or> c = CHR ''+'' then Some 62
      else if c = CHR ''_'' \<or> c = CHR ''/'' then Some 63 else None)"

fun base64url :: "nat list \<Rightarrow> string" where
  "base64url [] = []"
| "base64url [a] = [base64_char (a div 4), base64_char (a mod 4 * 16)]"
| "base64url [a, b] = [base64_char (a div 4), base64_char (a mod 4 * 16 + b div 16), base64_char (b mod 16 * 4)]"
| "base64url (a # b # c # rest) =
     base64_char (a div 4) # base64_char (a mod 4 * 16 + b div 16) #
     base64_char (b mod 16 * 4 + c div 64) # base64_char (c mod 64) # base64url rest"

fun base64_bytes :: "nat list \<Rightarrow> nat list" where
  "base64_bytes (p # q # r # s # rest) =
     (p * 4 + q div 16) # (q mod 16 * 16 + r div 4) # (r mod 4 * 64 + s) # base64_bytes rest"
| "base64_bytes [p, q, r] = [p * 4 + q div 16, q mod 16 * 16 + r div 4]"
| "base64_bytes [p, q] = [p * 4 + q div 16]"
| "base64_bytes _ = []"

definition from_base64url :: "string \<Rightarrow> nat list" where
  "from_base64url s = base64_bytes (map the (filter (\<lambda>v. v \<noteq> None) (map base64_value s)))"

definition utf8_bytes :: "string \<Rightarrow> nat list" where
  "utf8_bytes s = concat (map (\<lambda>c. if code c < 128 then [code c] else [192 + code c div 64, 128 + code c mod 64]) s)"

text \<open>The text of UTF-8 bytes, \<open>None\<close> when it is not in the character range of JsText.\<close>

fun utf8_text :: "nat list \<Rightarrow> string option" where
  "utf8_text [] = Some []"
| "utf8_text (b # bs) =
     (if b < 128 then map_option ((#) (char_of b)) (utf8_text bs)
      else case bs of [] \<Rightarrow> None
        | d # ds \<Rightarrow> if (b = 194 \<or> b = 195) \<and> 128 \<le> d \<and> d < 192
                   then map_option ((#) (char_of ((b - 192) * 64 + (d - 128)))) (utf8_text ds) else None)"

section \<open>Projections\<close>

definition list_or_empty :: "js \<Rightarrow> js" where "list_or_empty v = or_else v (JArr [])"

text \<open>\<open>xs.flatMap(f)\<close> adds the elements of an array result and any other result itself.\<close>

definition flat :: "js \<Rightarrow> js list" where
  "flat v = (case v of JArr xs \<Rightarrow> xs | _ \<Rightarrow> [v])"

definition surface_list :: "js \<Rightarrow> error + js list" where
  "surface_list manifest =
     (case list_or_empty (js_get manifest ''surfaces'') of
        JArr xs \<Rightarrow> if list_ex (\<lambda>x. x = JNull \<or> x = JUndef) xs then Inl JsTypeError else Inr xs
      | _ \<Rightarrow> Inl JsTypeError)"

definition miniAppPlatforms :: "js list \<Rightarrow> string list" where
  "miniAppPlatforms surfaces =
     normalizedPlatforms (JArr (concat (map (\<lambda>s. flat (list_or_empty (js_get s ''platforms''))) surfaces)))"

definition mini_app_entry_value :: "js \<Rightarrow> string \<Rightarrow> js list \<Rightarrow> js" where
  "mini_app_entry_value manifest publisherId surfaces = JObj
     [(''identity'', JObj
        [(''namespace'', JStr publisherId), (''name'', js_get manifest ''id''), (''kind'', JStr ''web-miniapp'')]),
      (''origin'', JStr ''public''),
      (''trustDomain'', JStr ''catalog-authorized''),
      (''displayName'', js_get manifest ''title''),
      (''description'', js_get manifest ''description''),
      (''publisher'', JObj
        [(''id'', JStr publisherId),
         (''displayName'', or_else (js_get (js_get manifest ''publisher'') ''displayName'') (JStr publisherId)),
         (''verified'', JBool False), (''verificationEvidence'', JArr [])]),
      (''release'', JObj
        [(''version'', js_get manifest ''version''), (''channel'', JStr ''stable''),
         (''platforms'', strings_json (miniAppPlatforms surfaces)),
         (''requestedCapabilities'', list_or_empty (js_get manifest ''permissions'')),
         (''manifestDigest'', js_get manifest ''digest''),
         (''revoked'', JBool (js_get (js_get manifest ''review'') ''state'' = JStr ''yanked''))]),
      (''categories'', list_or_empty (js_get manifest ''categories'')),
      (''tags'', list_or_empty (js_get manifest ''tags'')),
      (''legacy'', JObj [(''pluginId'', js_get manifest ''id''), (''protocol'', js_get manifest ''protocol'')]),
      (''runtime'', JObj
        [(''owner'', JStr ''miniapp-marketplace''),
         (''installMode'', js_get (js_get manifest ''distribution'') ''installMode''),
         (''surfaces'', JArr (map (\<lambda>s. JObj
            [(''id'', js_get s ''id''), (''kind'', js_get s ''kind''),
             (''platforms'', strings_json (normalizedPlatforms (js_get s ''platforms'')))]) surfaces))])]"

definition projectMiniAppExtension :: "js \<Rightarrow> error + extension_entry" where
  "projectMiniAppExtension manifest =
     (if \<not> truthy manifest \<or> js_get (js_get manifest ''review'') ''state'' \<noteq> JStr ''approved''
      then Inl (RegistryError EXTENSION_NOT_PUBLISHED)
      else
     (case requiredComponent (or_else (js_get (js_get manifest ''publisher'') ''id'') (JStr ''unknown-publisher'')) of
        Inl e \<Rightarrow> Inl e
      | Inr publisherId \<Rightarrow>
     (case surface_list manifest of Inl e \<Rightarrow> Inl e
      | Inr surfaces \<Rightarrow> normalizeExtensionEntry (mini_app_entry_value manifest publisherId surfaces))))"

definition official_entry_value :: "js \<Rightarrow> js" where
  "official_entry_value app = JObj
     [(''identity'', JObj
        [(''namespace'', JStr ''fabushi''), (''name'', js_get app ''id''), (''kind'', JStr ''mcp-connector'')]),
      (''origin'', JStr ''public''),
      (''trustDomain'', JStr ''catalog-authorized''),
      (''displayName'', js_get app ''title''),
      (''description'', js_get app ''description''),
      (''publisher'', JObj
        [(''id'', JStr ''fabushi''), (''displayName'', JStr ''Fabushi''),
         (''verified'', JBool False), (''verificationEvidence'', JArr [])]),
      (''release'', JObj
        [(''version'', js_get app ''version''), (''channel'', JStr ''stable''),
         (''platforms'', strings_json (normalizedPlatforms (js_get app ''platforms''))),
         (''requestedCapabilities'', JArr [])]),
      (''categories'', JArr [JStr ''productivity'']),
      (''tags'', JArr [JStr ''mcp'']),
      (''legacy'', JObj [(''pluginId'', js_get app ''pluginId''), (''serverId'', js_get app ''mcpServer'')]),
      (''runtime'', JObj
        [(''owner'', JStr ''official-mcp-apps''), (''transport'', JStr ''streamable-http''),
         (''endpoint'', js_get app ''endpoint'')])]"

definition projectOfficialMcpExtension :: "js \<Rightarrow> error + extension_entry" where
  "projectOfficialMcpExtension app = normalizeExtensionEntry (official_entry_value app)"

section \<open>The catalogue\<close>

record catalog_env =
  ca_release_env :: release_env
  ca_manifests :: "js list"
  ca_official :: "js list"
  ca_nfkc :: "string \<Rightarrow> string"
  ca_release_store :: bool

text \<open>An entry of the catalogue: a projection, or the latest approved release of its identity.\<close>

record catalog_item =
  ci_entry :: extension_entry
  ci_release :: "latest_entry option"

abbreviation ci_id :: "catalog_item \<Rightarrow> string" where
  "ci_id item \<equiv> en_id (ci_entry item)"

definition projected :: "extension_entry \<Rightarrow> catalog_item" where
  "projected e = \<lparr>ci_entry = e, ci_release = None\<rparr>"

definition released :: "latest_entry \<Rightarrow> catalog_item" where
  "released l = \<lparr>ci_entry = le_descriptor l, ci_release = Some l\<rparr>"

text \<open>\<open>entries.set(entry.id, entry)\<close>\<close>

fun set_item :: "catalog_item \<Rightarrow> catalog_item list \<Rightarrow> catalog_item list" where
  "set_item x [] = [x]"
| "set_item x (y # ys) = (if ci_id y = ci_id x then x # ys else y # set_item x ys)"

definition item_order :: "catalog_env \<Rightarrow> catalog_item \<Rightarrow> catalog_item \<Rightarrow> int" where
  "item_order env l r = re_locale_compare (ca_release_env env) (ci_id l) (ci_id r)"

definition allExtensionEntries :: "catalog_env \<Rightarrow> 'a artifact_db_scheme \<Rightarrow> error + catalog_item list" where
  "allExtensionEntries env db =
     (case map_results projectMiniAppExtension (ca_manifests env) of Inl e \<Rightarrow> Inl e
      | Inr apps \<Rightarrow>
     (case map_results projectOfficialMcpExtension (ca_official env) of Inl e \<Rightarrow> Inl e
      | Inr officials \<Rightarrow>
     (case (if ca_release_store env then listApprovedLatest (ca_release_env env) db else Inr []) of Inl e \<Rightarrow> Inl e
      | Inr latest \<Rightarrow>
          Inr (sort_by (item_order env)
            (fold set_item (map projected apps @ map projected officials @ map released latest) [])))))"

definition ext_encodeCursor :: "string \<Rightarrow> string" where
  "ext_encodeCursor i = base64url (utf8_bytes (stringify (JObj [(''v'', JNum 1), (''after'', JStr i)])))"

definition ext_decodeCursor :: "js \<Rightarrow> error + string option" where
  "ext_decodeCursor cursor =
     (if \<not> truthy cursor then Inr None
      else
     (case Option.bind (utf8_text (from_base64url (js_text cursor))) json_parse of
        None \<Rightarrow> Inl (RegistryError INVALID_EXTENSION_CURSOR)
      | Some parsed \<Rightarrow>
          (case js_get parsed ''after'' of
             JStr a \<Rightarrow> if js_get parsed ''v'' \<noteq> JNum 1 \<or> a = [] then Inl (RegistryError INVALID_EXTENSION_CURSOR)
                      else Inr (Some a)
           | _ \<Rightarrow> Inl (RegistryError INVALID_EXTENSION_CURSOR))))"

definition queryDocument :: "catalog_env \<Rightarrow> extension_entry \<Rightarrow> string" where
  "queryDocument env e = lower (ca_nfkc env (join '' ''
     ([en_id e, en_namespace e, en_name e, en_kind e, en_display_name e, en_description e,
       en_publisher_id e, en_publisher_display_name e] @ en_categories e @ en_tags e)))"

record browse_options =
  bo_query :: js
  bo_kind :: js
  bo_origin :: js
  bo_platform :: js
  bo_limit :: js
  bo_cursor :: js

definition optional_enum :: "js \<Rightarrow> string list \<Rightarrow> error + string option" where
  "optional_enum v allowed =
     (if truthy v then (case requiredEnum v allowed of Inl e \<Rightarrow> Inl e | Inr s \<Rightarrow> Inr (Some s)) else Inr None)"

definition infinite_text :: "js \<Rightarrow> int option" where
  "infinite_text v = (case v of
     JStr s \<Rightarrow> if trim s = ''Infinity'' \<or> trim s = ''+Infinity'' then Some 100
              else if trim s = ''-Infinity'' then Some 1 else None
   | _ \<Rightarrow> None)"

text \<open>\<open>Math.max(1, Math.min(100, Number(v) || 50))\<close>, its fraction dropped as \<open>slice\<close> does.\<close>

definition browse_limit :: "js \<Rightarrow> nat" where
  "browse_limit v =
     (if js_number v = Some 0 then 50
      else case infinite_text v of Some n \<Rightarrow> nat n
        | None \<Rightarrow> (case js_floor v of None \<Rightarrow> 50 | Some n \<Rightarrow> nat (max 1 (min 100 n))))"

definition matches ::
  "catalog_env \<Rightarrow> string \<Rightarrow> string option \<Rightarrow> string option \<Rightarrow> string option \<Rightarrow> catalog_item \<Rightarrow> bool" where
  "matches env query kind origin platform item \<longleftrightarrow>
     (case kind of None \<Rightarrow> True | Some k \<Rightarrow> en_kind (ci_entry item) = k) \<and>
     (case origin of None \<Rightarrow> True | Some a \<Rightarrow> en_origin (ci_entry item) = a) \<and>
     (case platform of None \<Rightarrow> True | Some p \<Rightarrow> p \<in> set (en_platforms (ci_entry item))) \<and>
     (query = [] \<or> contains_text query (queryDocument env (ci_entry item)))"

text \<open>The filtered catalogue, before paging.\<close>

definition filtered_entries ::
  "catalog_env \<Rightarrow> browse_options \<Rightarrow> 'a artifact_db_scheme \<Rightarrow> error + catalog_item list" where
  "filtered_entries env opts db =
     (let query = lower (trim (ca_nfkc env (text_of (bo_query opts)))) in
     (case optional_enum (bo_kind opts) kinds of Inl e \<Rightarrow> Inl e
      | Inr kind \<Rightarrow>
     (case optional_enum (bo_origin opts) origins of Inl e \<Rightarrow> Inl e
      | Inr origin \<Rightarrow>
     (case optional_enum (bo_platform opts) supported_platforms of Inl e \<Rightarrow> Inl e
      | Inr platform \<Rightarrow>
     (case allExtensionEntries env db of Inl e \<Rightarrow> Inl e
      | Inr entries \<Rightarrow> Inr (filter (matches env query kind origin platform) entries))))))"

record browse_page =
  bp_entries :: "catalog_item list"
  bp_next_cursor :: "string option"

text \<open>\<open>entries.findIndex(...)\<close> and \<open>entries.slice(index + 1)\<close>\<close>

fun entries_after :: "string \<Rightarrow> catalog_item list \<Rightarrow> catalog_item list option" where
  "entries_after a [] = None"
| "entries_after a (x # xs) = (if ci_id x = a then Some xs else entries_after a xs)"

definition page_of :: "nat \<Rightarrow> catalog_item list \<Rightarrow> browse_page" where
  "page_of limit entries =
     (let page = take limit entries; hasMore = length page < length entries
      in \<lparr>bp_entries = page,
          bp_next_cursor = (if hasMore \<and> page \<noteq> [] then Some (ext_encodeCursor (ci_id (last page))) else None)\<rparr>)"

definition browseExtensions ::
  "catalog_env \<Rightarrow> browse_options \<Rightarrow> 'a artifact_db_scheme \<Rightarrow> error + browse_page" where
  "browseExtensions env opts db =
     (case filtered_entries env opts db of Inl e \<Rightarrow> Inl e
      | Inr entries \<Rightarrow>
     (case ext_decodeCursor (bo_cursor opts) of Inl e \<Rightarrow> Inl e
      | Inr None \<Rightarrow> Inr (page_of (browse_limit (bo_limit opts)) entries)
      | Inr (Some a) \<Rightarrow>
          (case entries_after a entries of
             None \<Rightarrow> Inl (RegistryError STALE_EXTENSION_CURSOR)
           | Some rest \<Rightarrow> Inr (page_of (browse_limit (bo_limit opts)) rest))))"

definition readExtension ::
  "catalog_env \<Rightarrow> js \<Rightarrow> js \<Rightarrow> js \<Rightarrow> 'a artifact_db_scheme \<Rightarrow> error + catalog_item" where
  "readExtension env kind namespace name db =
     (case stableIdentity namespace name kind of Inl e \<Rightarrow> Inl e
      | Inr (ns, n, k) \<Rightarrow>
     (case allExtensionEntries env db of Inl e \<Rightarrow> Inl e
      | Inr entries \<Rightarrow>
     (case row_where (\<lambda>item. ci_id item = extension_id ns n k) entries of
        None \<Rightarrow> Inl (RegistryError EXTENSION_NOT_FOUND)
      | Some item \<Rightarrow> Inr item)))"


section \<open>Cursors\<close>

lemma base64_value_char: "n < 64 \<Longrightarrow> base64_value (base64_char n) = Some n"
proof -
  assume n: "n < 64"
  consider "n < 26" | "26 \<le> n" "n < 52" | "52 \<le> n" "n < 62" | "n = 62" | "n = 63" using n by linarith
  then show ?thesis
    by cases (auto simp: base64_char_def base64_value_def is_upper_def is_lower_def is_digit_def of_char_of)
qed

fun sextets :: "nat list \<Rightarrow> nat list" where
  "sextets [] = []"
| "sextets [a] = [a div 4, a mod 4 * 16]"
| "sextets [a, b] = [a div 4, a mod 4 * 16 + b div 16, b mod 16 * 4]"
| "sextets (a # b # c # rest) =
     a div 4 # (a mod 4 * 16 + b div 16) # (b mod 16 * 4 + c div 64) # c mod 64 # sextets rest"

lemma base64url_sextets: "base64url bs = map base64_char (sextets bs)"
  by (induction bs rule: base64url.induct) simp_all

lemma octet_parts:
  assumes "a < (256::nat)"
  shows "a div 4 < 64" "a div 16 < 16" "a div 64 < 4" "a mod 4 < 4" "a mod 16 < 16" "a mod 64 < 64"
  using assms by (simp_all add: less_mult_imp_div_less)

lemma sextet_lt:
  assumes "a < 256" "b < 256" "c < 256"
  shows "a div 4 < (64::nat)" "a mod 4 * 16 < (64::nat)" "a mod 4 * 16 + b div 16 < (64::nat)"
    "b mod 16 * 4 < (64::nat)" "b mod 16 * 4 + c div 64 < (64::nat)" "c mod 64 < (64::nat)"
  using octet_parts [OF assms(1)] octet_parts [OF assms(2)] octet_parts [OF assms(3)] by linarith+

lemma join_bits: "y < k \<Longrightarrow> (x * k + y) div k = x" "y < k \<Longrightarrow> (x * k + y) mod k = (y::nat)"
  by simp_all

lemma sextets_lt: "list_all (\<lambda>b. b < 256) bs \<Longrightarrow> list_all (\<lambda>n. n < 64) (sextets bs)"
proof (induction bs rule: sextets.induct)
  case (4 a b c rest)
  then show ?case using sextet_lt [of a b c] by simp
next
  case (3 a b)
  then show ?case using sextet_lt [of a b 0] by simp
next
  case (2 a)
  then show ?case using sextet_lt [of a 0 0] by simp
qed simp

lemma octets:
  assumes "b < 256" "c < 256"
  shows "a div 4 * 4 + (a mod 4 * 16) div 16 = (a::nat)" "a div 4 * 4 + (a mod 4 * 16 + b div 16) div 16 = (a::nat)"
    "(a mod 4 * 16 + b div 16) mod 16 * 16 + (b mod 16 * 4) div 4 = (b::nat)"
    "(a mod 4 * 16 + b div 16) mod 16 * 16 + (b mod 16 * 4 + c div 64) div 4 = (b::nat)"
    "(b mod 16 * 4 + c div 64) mod 4 * 64 + c mod 64 + 0 * a = (c::nat)"
  using octet_parts(2) [OF assms(1)] octet_parts(3) [OF assms(2)] by (simp_all only: join_bits) simp_all

lemma base64_bytes_sextets: "list_all (\<lambda>b. b < 256) bs \<Longrightarrow> base64_bytes (sextets bs) = bs"
proof (induction bs rule: sextets.induct)
  case (4 a b c rest)
  then show ?case using octets [of b c a] by simp
next
  case (3 a b)
  then show ?case using octets [of b 0 a] by simp
next
  case (2 a)
  then show ?case using octets [of 0 0 a] by simp
qed simp

lemma from_base64url_inverse: "list_all (\<lambda>b. b < 256) bs \<Longrightarrow> from_base64url (base64url bs) = bs"
proof -
  assume bs: "list_all (\<lambda>b. b < 256) bs"
  have "map base64_value (map base64_char ns) = map Some ns" if "list_all (\<lambda>n. n < 64) ns" for ns
    using that by (induction ns) (simp_all add: base64_value_char)
  then have "map base64_value (base64url bs) = map Some (sextets bs)"
    using sextets_lt [OF bs] by (simp add: base64url_sextets)
  moreover have "map the (filter (\<lambda>v. v \<noteq> None) (map Some ns)) = ns" for ns :: "nat list"
    by (induction ns) simp_all
  ultimately show ?thesis using base64_bytes_sextets [OF bs] by (simp add: from_base64url_def)
qed

lemma utf8_round_trip: "utf8_text (utf8_bytes s) = Some s" "list_all (\<lambda>b. b < 256) (utf8_bytes s)"
proof -
  show "list_all (\<lambda>b. b < 256) (utf8_bytes s)"
  proof (induction s)
    case (Cons c s)
    have "code c div 64 < 4" using code_lt [of c] by (simp add: less_mult_imp_div_less)
    moreover have "code c mod 64 < 64" by simp
    ultimately show ?case using Cons by (auto simp: utf8_bytes_def)
  qed (simp add: utf8_bytes_def)
  show "utf8_text (utf8_bytes s) = Some s"
  proof (induction s)
    case (Cons c s)
    show ?case
    proof (cases "code c < 128")
      case True
      then show ?thesis using Cons by (simp add: utf8_bytes_def)
    next
      case False
      then have "2 \<le> code c div 64" "code c div 64 < 4" using code_lt [of c] by (simp_all add: less_mult_imp_div_less)
      then have d: "code c div 64 = 2 \<or> code c div 64 = 3" by linarith
      have "code c div 64 * 64 + code c mod 64 = code c" by simp
      then have "char_of (code c div 64 * 64 + code c mod 64) = c" by simp
      then show ?thesis using Cons False d by (auto simp: utf8_bytes_def)
    qed
  qed (simp add: utf8_bytes_def)
qed

lemma ext_decode_encode:
  assumes "i \<noteq> []"
  shows "ext_decodeCursor (JStr (ext_encodeCursor i)) = Inr (Some i)"
proof -
  let ?v = "JObj [(''v'', JNum 1), (''after'', JStr i)]"
  have "js_ok ?v" by (simp add: own_order_def key_before_def index_key_def is_digit_def)
  then have parse: "json_parse (stringify ?v) = Some ?v" by (simp add: json_parse_stringify del: stringify.simps)
  have bytes: "utf8_text (from_base64url (ext_encodeCursor i)) = Some (stringify ?v)"
    by (simp add: ext_encodeCursor_def from_base64url_inverse utf8_round_trip del: stringify.simps)
  then have "ext_encodeCursor i \<noteq> []" by (auto simp: from_base64url_def)
  then show ?thesis using assms bytes parse by (simp add: ext_decodeCursor_def del: stringify.simps)
qed

end
