(* ===== verification/RegistryGuarantees.thy ===== *)
theory RegistryGuarantees
  imports Registry Guarantees
begin

text \<open>
  What the catalogue promises: an entry that is shown is a published one, an approved release takes the
  place of a projection with the same identity, and following the cursors from the first page
  shows every matching entry once.
\<close>

section \<open>The entries\<close>

lemma set_item_ids: "ci_id ` set (set_item x xs) = insert (ci_id x) (ci_id ` set xs)"
  by (induction xs) auto

lemma set_item_set: "set (set_item x xs) \<subseteq> insert x (set xs)"
  by (induction xs) auto

lemma set_item_distinct: "distinct (map ci_id xs) \<Longrightarrow> distinct (map ci_id (set_item x xs))"
proof (induction xs)
  case (Cons y ys)
  then have "ci_id y \<notin> ci_id ` set ys" by simp
  with Cons show ?case using set_item_ids [of x ys] by (auto simp: image_iff)
qed simp

lemma set_item_mem: "y \<in> set (set_item x xs) \<Longrightarrow> distinct (map ci_id xs) \<Longrightarrow> y = x \<or> ci_id y \<noteq> ci_id x \<and> y \<in> set xs"
proof (induction xs)
  case (Cons z zs)
  show ?case
  proof (cases "ci_id z = ci_id x")
    case True
    then show ?thesis using Cons.prems by (auto simp: image_iff)
  next
    case False
    then show ?thesis using Cons by auto
  qed
qed simp

lemma fold_set_item_distinct: "distinct (map ci_id acc) \<Longrightarrow> distinct (map ci_id (fold set_item xs acc))"
  by (induction xs arbitrary: acc) (simp_all add: set_item_distinct)

text \<open>The last of the items with an identity is the one that stays.\<close>

lemma fold_set_item_mem:
  assumes "y \<in> set (fold set_item (xs @ zs) [])"
  shows "y \<in> set zs \<or> y \<in> set xs \<and> ci_id y \<notin> ci_id ` set zs"
proof -
  have "y \<in> set (fold set_item zs acc) \<Longrightarrow> distinct (map ci_id acc) \<Longrightarrow>
      y \<in> set zs \<or> y \<in> set acc \<and> ci_id y \<notin> ci_id ` set zs" for acc zs
  proof (induction zs arbitrary: acc)
    case (Cons z zs)
    have "y \<in> set zs \<or> y \<in> set (set_item z acc) \<and> ci_id y \<notin> ci_id ` set zs"
      by (rule Cons.IH) (use Cons.prems set_item_distinct in simp_all)
    then show ?case using set_item_mem [of y z acc] Cons.prems(2) by auto
  qed simp
  moreover have "set (fold set_item xs []) \<subseteq> set xs"
  proof -
    have "set (fold set_item xs acc) \<subseteq> set xs \<union> set acc" for acc
    proof (induction xs arbitrary: acc)
      case (Cons x xs)
      then show ?case using set_item_set [of x acc] by fastforce
    qed simp
    from this [of "[]"] show ?thesis by simp
  qed
  moreover have "distinct (map ci_id (fold set_item xs []))" by (rule fold_set_item_distinct) simp
  ultimately show ?thesis using assms by fastforce
qed

lemma fold_set_item_ids: "ci_id ` set (fold set_item xs acc) = ci_id ` set xs \<union> ci_id ` set acc"
  by (induction xs arbitrary: acc) (auto simp: set_item_ids)

lemma allExtensionEntries_Inr:
  assumes "allExtensionEntries env db = Inr entries"
  obtains apps officials latest where "map_results projectMiniAppExtension (ca_manifests env) = Inr apps"
    and "map_results projectOfficialMcpExtension (ca_official env) = Inr officials"
    and "(if ca_release_store env then listApprovedLatest (ca_release_env env) db else Inr []) = Inr latest"
    and "entries = sort_by (item_order env)
      (fold set_item (map projected apps @ map projected officials @ map released latest) [])"
  using assms unfolding allExtensionEntries_def by (auto split: sum.splits)

lemma entries_distinct: "allExtensionEntries env db = Inr entries \<Longrightarrow> distinct (map ci_id entries)"
proof -
  assume "allExtensionEntries env db = Inr entries"
  then obtain xs where "entries = sort_by (item_order env) (fold set_item xs [])"
    by (rule allExtensionEntries_Inr) blast
  moreover have "item_order env = (\<lambda>x y. re_locale_compare (ca_release_env env) (ci_id x) (ci_id y))"
    by (simp add: item_order_def fun_eq_iff)
  ultimately show ?thesis
    using map_sort_by [of ci_id "re_locale_compare (ca_release_env env)" "fold set_item xs []"]
      fold_set_item_distinct [of "[]" xs] by simp
qed

section \<open>The latest releases\<close>

lemma keep_latest_set: "set (keep_latest lc row rows) \<subseteq> insert row (set rows)"
  by (induction rows) auto

text \<open>Each row seen is beaten by no other version of its identity than the one kept.\<close>

definition on_top :: "(string \<Rightarrow> string \<Rightarrow> int) \<Rightarrow> release_row set \<Rightarrow> release_row list \<Rightarrow> bool" where
  "on_top lc seen kept \<longleftrightarrow> set kept \<subseteq> seen \<and> distinct (map (en_id \<circ> rel_descriptor) kept) \<and>
     (\<forall>x\<in>seen. \<exists>k\<in>set kept. en_id (rel_descriptor k) = en_id (rel_descriptor x) \<and>
       compareVersions lc (rk_version (rel_key x)) (rk_version (rel_key k)) \<le> 0)"

lemma keep_latest_distinct:
  assumes "distinct (map (en_id \<circ> rel_descriptor) kept)"
  shows "distinct (map (en_id \<circ> rel_descriptor) (keep_latest lc row kept))"
proof -
  have ids: "(\<lambda>x. en_id (rel_descriptor x)) ` set (keep_latest lc row kept) =
      insert (en_id (rel_descriptor row)) ((\<lambda>x. en_id (rel_descriptor x)) ` set kept)" for kept
    by (induction kept) auto
  show ?thesis using assms by (induction kept) (simp_all add: ids, metis)
qed

lemma keep_latest_cases:
  assumes "k \<in> set kept"
  shows "k \<in> set (keep_latest lc row kept) \<or>
     (row \<in> set (keep_latest lc row kept) \<and> en_id (rel_descriptor k) = en_id (rel_descriptor row) \<and>
      0 < compareVersions lc (rk_version (rel_key row)) (rk_version (rel_key k)))"
  using assms by (induction kept) auto

lemma keep_latest_new:
  "row \<in> set (keep_latest lc row kept) \<or> (\<exists>k\<in>set (keep_latest lc row kept). en_id (rel_descriptor k) = en_id (rel_descriptor row) \<and>
      compareVersions lc (rk_version (rel_key row)) (rk_version (rel_key k)) \<le> 0)"
  by (induction kept) auto

lemma keep_latest_top:
  assumes lc: "collation lc" and versions: "\<forall>x\<in>insert row seen. parseSemver (rk_version (rel_key x)) \<noteq> None"
    and top: "on_top lc seen kept"
  shows "on_top lc (insert row seen) (keep_latest lc row kept)"
proof -
  let ?beats = "\<lambda>x k. en_id (rel_descriptor k) = en_id (rel_descriptor x) \<and>
       compareVersions lc (rk_version (rel_key x)) (rk_version (rel_key k)) \<le> 0"
  have "\<exists>k\<in>set (keep_latest lc row kept). ?beats x k" if x: "x \<in> insert row seen" for x
  proof (cases "x = row")
    case True
    then show ?thesis using keep_latest_new [of row lc kept] compareVersions_refl [OF lc] by fastforce
  next
    case False
    with x top obtain k where k: "k \<in> set kept" "?beats x k" by (auto simp: on_top_def)
    with top have "k \<in> seen" by (auto simp: on_top_def)
    then have keep: "0 < compareVersions lc (rk_version (rel_key row)) (rk_version (rel_key k)) \<Longrightarrow>
        compareVersions lc (rk_version (rel_key x)) (rk_version (rel_key row)) \<le> 0"
      using compareVersions_keep [OF lc _ _ _ conjunct2 [OF k(2)]] versions x by blast
    show ?thesis using keep_latest_cases [OF k(1), of lc row] k(2) keep by auto
  qed
  moreover have "set (keep_latest lc row kept) \<subseteq> insert row seen"
    using keep_latest_set [of lc row kept] top by (auto simp: on_top_def)
  ultimately show ?thesis using top by (simp add: on_top_def keep_latest_distinct del: map_map)
qed

lemma fold_on_top:
  "collation lc \<Longrightarrow> \<forall>x\<in>set rows \<union> seen. parseSemver (rk_version (rel_key x)) \<noteq> None \<Longrightarrow> on_top lc seen kept \<Longrightarrow>
   on_top lc (seen \<union> set rows) (fold (keep_latest lc) rows kept)"
proof (induction rows arbitrary: seen kept)
  case (Cons row rows)
  from Cons.IH [of "insert row seen" "keep_latest lc row kept"] keep_latest_top [of lc row seen kept] Cons.prems
  show ?case by simp
qed simp

lemma latest_rows_top:
  assumes "collation (re_locale_compare env)" and "\<forall>x\<in>set (releases db). semantic_version (rk_version (rel_key x))"
    and "r \<in> set (latest_rows env db)" and "x \<in> set (releases db)" and "rel_state x = Approved"
    and "en_id (rel_descriptor x) = en_id (rel_descriptor r)"
  shows "compareVersions (re_locale_compare env) (rk_version (rel_key x)) (rk_version (rel_key r)) \<le> 0"
proof -
  have "on_top (re_locale_compare env) {} []" by (simp add: on_top_def)
  moreover have "\<forall>x\<in>set (listApproved db) \<union> {}. parseSemver (rk_version (rel_key x)) \<noteq> None"
    using assms(2) semantic_version_parsed by (auto simp: listApproved_def)
  ultimately have top: "on_top (re_locale_compare env) (set (listApproved db)) (latest_rows env db)"
    using fold_on_top [OF assms(1), of "listApproved db" "{}" "[]"] by (simp add: latest_rows_def)
  have "x \<in> set (listApproved db)" using assms(4,5) by (simp add: listApproved_def)
  with top obtain k where k: "k \<in> set (latest_rows env db)" "en_id (rel_descriptor k) = en_id (rel_descriptor x)"
    "compareVersions (re_locale_compare env) (rk_version (rel_key x)) (rk_version (rel_key k)) \<le> 0"
    by (auto simp: on_top_def)
  moreover have "k = r"
  proof (rule inj_onD [of "en_id \<circ> rel_descriptor" "set (latest_rows env db)"])
    show "inj_on (en_id \<circ> rel_descriptor) (set (latest_rows env db))" using top by (simp add: on_top_def distinct_map)
  qed (use k assms(3,6) in simp_all)
  ultimately show ?thesis by simp
qed

lemma latest_rows_approved: "set (latest_rows env db) \<subseteq> set (listApproved db)"
proof -
  have "set (fold (keep_latest lc) xs acc) \<subseteq> set xs \<union> set acc" for lc xs acc
  proof (induction xs arbitrary: acc)
    case (Cons x xs)
    then show ?case using keep_latest_set [of lc x acc] by fastforce
  qed simp
  then show ?thesis by (fastforce simp: latest_rows_def)
qed

lemma collect_mem: "collect f xs = Inr ys \<Longrightarrow> y \<in> set ys \<Longrightarrow> \<exists>x\<in>set xs. f x = Inr (Some y)"
proof (induction xs arbitrary: ys)
  case (Cons x xs)
  then show ?case by (fastforce split: sum.splits option.splits)
qed simp

lemma listApproved_row: "r \<in> set (listApproved db) \<Longrightarrow> r \<in> set (releases db) \<and> rel_state r = Approved"
  by (auto simp: listApproved_def)

lemma latest_entry_approved:
  assumes "listApprovedLatest env db = Inr latest" and "l \<in> set latest"
  obtains r where "r \<in> set (latest_rows env db)" and "r \<in> set (releases db)" and "rel_state r = Approved"
    and "le_descriptor l = rel_descriptor r" and "re_signing_store env \<longrightarrow> (\<exists>ev. getTrustedSignature (re_crypto env) (latest_key r) db = Inr (Some ev) \<and>
      le_signature l = Some ev)"
proof -
  from assms obtain es where es: "collect (\<lambda>row. latest_entry_of env row db) (latest_rows env db) = Inr es" "l \<in> set es"
    by (auto simp: listApprovedLatest_def split: sum.splits)
  then obtain r where r: "r \<in> set (latest_rows env db)" "latest_entry_of env r db = Inr (Some l)"
    by (meson collect_mem)
  then have "r \<in> set (releases db)" "rel_state r = Approved"
    using latest_rows_approved listApproved_row by blast+
  moreover from r(2) have "le_descriptor l = rel_descriptor r" "re_signing_store env \<longrightarrow>
      (\<exists>ev. getTrustedSignature (re_crypto env) (latest_key r) db = Inr (Some ev) \<and> le_signature l = Some ev)"
    by (auto simp: latest_entry_of_def split: sum.splits if_splits)
  ultimately show thesis using that r(1) by blast
qed

lemma browse_entries:
  assumes "browseExtensions env opts db = Inr page" and "item \<in> set (bp_entries page)"
  obtains entries where "allExtensionEntries env db = Inr entries" and "item \<in> set entries"
proof -
  from assms(1) obtain xs where xs: "filtered_entries env opts db = Inr xs"
    by (auto simp: browseExtensions_def split: sum.splits)
  have after: "entries_after a ys = Some zs \<Longrightarrow> set zs \<subseteq> set ys" for a ys zs
    by (induction ys) (auto split: if_splits)
  have "set (bp_entries (page_of n ys)) \<subseteq> set ys" for n ys
    by (auto simp: page_of_def Let_def dest: in_set_takeD)
  then have "item \<in> set xs"
    using assms xs after by (fastforce simp: browseExtensions_def split: sum.splits option.splits)
  moreover obtain entries where "allExtensionEntries env db = Inr entries" "set xs \<subseteq> set entries"
    using xs by (auto simp: filtered_entries_def Let_def split: sum.splits)
  ultimately show thesis using that by blast
qed

lemma map_results_mem: "map_results f xs = Inr ys \<Longrightarrow> y \<in> set ys \<Longrightarrow> \<exists>x\<in>set xs. f x = Inr y"
proof (induction xs arbitrary: ys)
  case (Cons x xs)
  then show ?case by (auto split: sum.splits)
qed simp

lemma projected_approved: "projectMiniAppExtension m = Inr e \<Longrightarrow> js_get (js_get m ''review'') ''state'' = JStr ''approved''"
  by (auto simp: projectMiniAppExtension_def split: if_splits)

text \<open>C21: whatever a page of the catalogue shows is published: an item either is the latest release of its
  identity, which is approved and has a trusted signature, and no approved release of that identity
  has a higher version, or, only when no such release exists, the projection of an approved Mini App
  manifest or of an official app. Versions are compared as \<open>compareVersions\<close> does; of \<open>localeCompare\<close> it
  is assumed that it is a consistent comparison.\<close>

theorem shown_entries_are_published:
  assumes "reachable (ca_release_env env) cfg db" and "browseExtensions env opts db = Inr page"
    and "item \<in> set (bp_entries page)" and "ca_release_store env"
    and "listApprovedLatest (ca_release_env env) db = Inr latest"
    and "collation (re_locale_compare (ca_release_env env))"
  shows "(\<exists>l r ev. l \<in> set latest \<and> item = released l \<and> release_get (entry_key (ci_entry item)) db = Some r \<and>
      rel_state r = Approved \<and> rel_descriptor r = ci_entry item \<and>
      getTrustedSignature (re_crypto (ca_release_env env)) (as_raw (entry_key (ci_entry item))) db = Inr (Some ev) \<and>
      (\<forall>x\<in>set (releases db). rel_state x = Approved \<longrightarrow> en_id (rel_descriptor x) = ci_id item \<longrightarrow>
         compareVersions (re_locale_compare (ca_release_env env)) (rk_version (rel_key x)) (rk_version (rel_key r)) \<le> 0)) \<or>
    (ci_release item = None \<and> ci_id item \<notin> set (map (en_id \<circ> le_descriptor) latest) \<and>
      ((\<exists>m. m \<in> set (ca_manifests env) \<and> js_get (js_get m ''review'') ''state'' = JStr ''approved'' \<and>
          projectMiniAppExtension m = Inr (ci_entry item)) \<or>
       (\<exists>a. a \<in> set (ca_official env) \<and> projectOfficialMcpExtension a = Inr (ci_entry item))))"
proof -
  obtain entries where entries: "allExtensionEntries env db = Inr entries" "item \<in> set entries"
    by (rule browse_entries [OF assms(2,3)])
  obtain apps officials where parts: "map_results projectMiniAppExtension (ca_manifests env) = Inr apps"
    "map_results projectOfficialMcpExtension (ca_official env) = Inr officials"
    "entries = sort_by (item_order env)
      (fold set_item ((map projected apps @ map projected officials) @ map released latest) [])"
    using allExtensionEntries_Inr [OF entries(1)] assms(4,5) by (metis append.assoc sum.inject(2))
  from fold_set_item_mem [of item "map projected apps @ map projected officials" "map released latest"]
  consider (released) l where "l \<in> set latest" "item = released l"
    | (projected) e where "e \<in> set apps \<union> set officials" "item = projected e"
        "ci_id item \<notin> ci_id ` set (map released latest)"
    using entries(2) parts(3) by auto
  then show ?thesis
  proof cases
    case (released l)
    obtain r where shown: "r \<in> set (latest_rows (ca_release_env env) db)"
      and r: "r \<in> set (releases db)" "rel_state r = Approved" "le_descriptor l = rel_descriptor r"
      "re_signing_store (ca_release_env env) \<longrightarrow> (\<exists>ev. getTrustedSignature (re_crypto (ca_release_env env))
        (latest_key r) db = Inr (Some ev) \<and> le_signature l = Some ev)"
      by (rule latest_entry_approved [OF assms(5) released(1)])
    note gov = reachable_parts(1) [OF assms(1)]
    have ok: "release_ok (ca_release_env env) r" by (rule governed_parts(5) [OF gov r(1)])
    then have key: "rel_key r = entry_key (ci_entry item)" "latest_key r = as_raw (entry_key (ci_entry item))"
      by (simp_all add: release_ok_def released(2) released_def r(3) latest_key_def entry_raw_key_as_raw
          as_raw_def entry_key_def)
    have get: "release_get (entry_key (ci_entry item)) db = Some r"
      using governed_get(1) [OF gov r(1)] key(1) by simp
    have descriptor: "rel_descriptor r = ci_entry item" using r(3) by (simp add: released(2) released_def)
    have versions: "\<forall>x\<in>set (releases db). semantic_version (rk_version (rel_key x))"
      using governed_parts(5) [OF gov] by (simp add: release_ok_def entry_ok_def entry_key_def)
    have highest: "compareVersions (re_locale_compare (ca_release_env env)) (rk_version (rel_key x)) (rk_version (rel_key r)) \<le> 0"
      if "x \<in> set (releases db)" "rel_state x = Approved" "en_id (rel_descriptor x) = ci_id item" for x
      using latest_rows_top [OF assms(6) versions shown that(1,2)] that(3) descriptor by simp
    from r(4) reachable_attached [OF assms(1)] obtain ev where ev: "getTrustedSignature (re_crypto (ca_release_env env))
        (as_raw (entry_key (ci_entry item))) db = Inr (Some ev)"
      by (auto simp: attached_def key(2))
    show ?thesis
      by (intro disjI1 exI [of _ l] exI [of _ r] exI [of _ ev] conjI ballI impI released get r(2) descriptor ev highest)
  next
    case (projected e)
    have "\<exists>m\<in>set (ca_manifests env). projectMiniAppExtension m = Inr e" if "e \<in> set apps"
      by (rule map_results_mem [OF parts(1) that])
    moreover have "\<exists>a\<in>set (ca_official env). projectOfficialMcpExtension a = Inr e" if "e \<in> set officials"
      by (rule map_results_mem [OF parts(2) that])
    moreover have "ci_id item \<notin> set (map (en_id \<circ> le_descriptor) latest)"
      using projected(3) by (auto simp: released_def image_iff)
    moreover have "ci_release item = None" "ci_entry item = e" by (simp_all add: projected(2) projected_def)
    ultimately show ?thesis using projected(1) projected_approved by blast
  qed
qed

section \<open>Paging\<close>

text \<open>A client that follows the cursors from a first request, for at most \<open>n\<close> pages.\<close>

fun browse_all :: "nat \<Rightarrow> catalog_env \<Rightarrow> browse_options \<Rightarrow> 'a artifact_db_scheme \<Rightarrow> catalog_item list list option" where
  "browse_all 0 env opts db = None"
| "browse_all (Suc n) env opts db =
     (case browseExtensions env opts db of Inl e \<Rightarrow> None
      | Inr page \<Rightarrow>
     (case bp_next_cursor page of None \<Rightarrow> Some [bp_entries page]
      | Some c \<Rightarrow> map_option ((#) (bp_entries page)) (browse_all n env (opts\<lparr>bo_cursor := JStr c\<rparr>) db)))"

lemma filtered_cursor: "filtered_entries env (opts\<lparr>bo_cursor := c\<rparr>) db = filtered_entries env opts db"
  by (simp add: filtered_entries_def cong: sum.case_cong)

lemma browse_limit_bounds: "1 \<le> browse_limit v" "browse_limit v \<le> 100"
  by (auto simp: browse_limit_def infinite_text_def split: option.splits js.splits if_splits)

lemma entries_after_mid: "ci_id x \<notin> ci_id ` set xs \<Longrightarrow> entries_after (ci_id x) (xs @ x # ys) = Some ys"
  by (induction xs) auto

lemma ci_id_nonempty: "ci_id x \<noteq> []"
  by (simp add: en_id_def extension_id_def)

lemma filtered_distinct: "filtered_entries env opts db = Inr xs \<Longrightarrow> distinct (map ci_id xs)"
proof -
  assume "filtered_entries env opts db = Inr xs"
  then obtain entries P where "allExtensionEntries env db = Inr entries" "xs = filter P entries"
    by (auto simp: filtered_entries_def Let_def split: sum.splits)
  then show ?thesis using entries_distinct by (auto intro: distinct_map_filter)
qed

text \<open>The answer to a request whose cursor stands after the entries already shown.\<close>

lemma browse_next:
  assumes "filtered_entries env opts db = Inr (shown @ rest)"
    and "ext_decodeCursor (bo_cursor opts) = Inr (if shown = [] then None else Some (ci_id (last shown)))"
  shows "browseExtensions env opts db = Inr (page_of (browse_limit (bo_limit opts)) rest)"
proof (cases "shown = []")
  case True
  then show ?thesis using assms by (simp add: browseExtensions_def)
next
  case False
  then obtain ys y where shown: "shown = ys @ [y]" by (cases shown rule: rev_cases) simp_all
  then have "ci_id y \<notin> ci_id ` set ys" using filtered_distinct [OF assms(1)] by simp
  then have "entries_after (ci_id y) (ys @ y # rest) = Some rest" by (rule entries_after_mid)
  then show ?thesis using assms by (simp add: browseExtensions_def shown)
qed

lemma browse_rest:
  assumes "filtered_entries env opts db = Inr (shown @ rest)" and "length rest \<le> n"
    and "ext_decodeCursor (bo_cursor opts) = Inr (if shown = [] then None else Some (ci_id (last shown)))"
  shows "\<exists>pages. browse_all (Suc n) env opts db = Some pages \<and> pages \<noteq> [] \<and> concat pages = rest \<and>
    list_all (\<lambda>p. length p = browse_limit (bo_limit opts)) (butlast pages) \<and>
    length (last pages) \<le> browse_limit (bo_limit opts)"
  using assms
proof (induction n arbitrary: shown rest opts)
  case 0
  then show ?case using browse_next [OF 0(1,3)] by (simp add: page_of_def)
next
  case (Suc n)
  let ?L = "browse_limit (bo_limit opts)"
  note answer = browse_next [OF Suc.prems(1,3)]
  have L: "1 \<le> ?L" by (rule browse_limit_bounds)
  show ?case
  proof (cases "length rest \<le> ?L")
    case True
    then have "page_of ?L rest = \<lparr>bp_entries = rest, bp_next_cursor = None\<rparr>" by (simp add: page_of_def)
    then show ?thesis using answer True by (subst browse_all.simps) simp
  next
    case False
    let ?page = "take ?L rest"
    let ?cursor = "ext_encodeCursor (ci_id (last ?page))"
    have ne: "?page \<noteq> []" using False L by auto
    then have page: "page_of ?L rest = \<lparr>bp_entries = ?page, bp_next_cursor = Some ?cursor\<rparr>"
      using False by (simp add: page_of_def Let_def)
    have "ext_decodeCursor (bo_cursor (opts\<lparr>bo_cursor := JStr ?cursor\<rparr>)) =
        Inr (if shown @ ?page = [] then None else Some (ci_id (last (shown @ ?page))))"
      using ext_decode_encode [OF ci_id_nonempty, of "last ?page"] ne by simp
    moreover have "filtered_entries env (opts\<lparr>bo_cursor := JStr ?cursor\<rparr>) db = Inr ((shown @ ?page) @ drop ?L rest)"
      using Suc.prems(1) by (simp add: filtered_cursor)
    moreover have "length (drop ?L rest) \<le> n" using Suc.prems(2) L False by simp
    ultimately obtain pages where pages: "browse_all (Suc n) env (opts\<lparr>bo_cursor := JStr ?cursor\<rparr>) db = Some pages"
      "pages \<noteq> []" "concat pages = drop ?L rest" "list_all (\<lambda>p. length p = ?L) (butlast pages)" "length (last pages) \<le> ?L"
      using Suc.IH [of "opts\<lparr>bo_cursor := JStr ?cursor\<rparr>" "shown @ ?page" "drop ?L rest"] by auto
    have "browse_all (Suc (Suc n)) env opts db = Some (?page # pages)"
      using answer page pages(1) by (subst browse_all.simps) simp
    then show ?thesis using pages(2-5) False by auto
  qed
qed

text \<open>C22: a client that follows the cursors from the first page gets every entry that matches its filters exactly
  once and in order, after at most one request more than there are entries, with every page but
  the last full and none longer than 100.\<close>

theorem cursors_reach_every_entry:
  assumes "filtered_entries env opts db = Inr xs" and "\<not> truthy (bo_cursor opts)"
  shows "distinct (map ci_id xs) \<and> (\<exists>pages. browse_all (Suc (length xs)) env opts db = Some pages \<and> concat pages = xs \<and>
    list_all (\<lambda>p. length p = browse_limit (bo_limit opts)) (butlast pages) \<and>
    length (last pages) \<le> browse_limit (bo_limit opts)) \<and> browse_limit (bo_limit opts) \<le> 100"
proof -
  have "ext_decodeCursor (bo_cursor opts) = Inr (if ([] :: catalog_item list) = [] then None else
      Some (ci_id (last [])))" using assms(2) by (simp add: ext_decodeCursor_def)
  then show ?thesis
    using browse_rest [of env opts db "[]" xs "length xs"] filtered_distinct [OF assms(1)] assms(1)
      browse_limit_bounds(2) by auto
qed


definition ex_app_manifest :: js where
  "ex_app_manifest = JObj
     [(''id'', JStr ''chess''), (''title'', JStr ''Chess''), (''version'', JStr ''1.0.0''),
      (''publisher'', JObj [(''id'', JStr ''acme'')]), (''review'', JObj [(''state'', JStr ''approved'')]),
      (''surfaces'', JArr [JObj [(''id'', JStr ''main''), (''kind'', JStr ''web''), (''platforms'', JArr [JStr ''web''])]])]"

definition ex_official_app :: js where
  "ex_official_app = JObj
     [(''id'', JStr ''notes''), (''title'', JStr ''Notes''), (''version'', JStr ''1.0.0''),
      (''platforms'', JArr [JStr ''all''])]"

definition ex_catalog :: catalog_env where
  "ex_catalog = \<lparr>ca_release_env = ex_env, ca_manifests = [ex_app_manifest], ca_official = [ex_official_app],
     ca_nfkc = (\<lambda>s. s), ca_release_store = True\<rparr>"

definition ex_browse :: browse_options where
  "ex_browse = \<lparr>bo_query = JUndef, bo_kind = JUndef, bo_origin = JStr ''public'', bo_platform = JStr ''web'',
     bo_limit = JUndef, bo_cursor = JUndef\<rparr>"

definition shown_on_web :: "extension_entry \<Rightarrow> string \<times> bool" where
  "shown_on_web e = (en_id e, en_origin e = ''public'' \<and> ''web'' \<in> set (en_platforms e))"

lemma ex_projections:
  "(case map_results projectMiniAppExtension [ex_app_manifest] of Inr xs \<Rightarrow> map shown_on_web xs | _ \<Rightarrow> []) =
     [(''acme/chess:web-miniapp'', True)]"
  "(case map_results projectOfficialMcpExtension [ex_official_app] of Inr xs \<Rightarrow> map shown_on_web xs | _ \<Rightarrow> []) =
     [(''fabushi/notes:mcp-connector'', True)]"
  by code_simp+

definition ex_latest :: "moderation_db \<Rightarrow> (string \<times> bool) list" where
  "ex_latest db = (case listApprovedLatest ex_env db of Inr l \<Rightarrow> map (shown_on_web \<circ> le_descriptor) l | _ \<Rightarrow> [])"

lemma ex_latest_ids: "ex_latest ex_approved = [(''acme/demo:skill'', True)]"
  unfolding ex_approved_def ex_trusted_def ex_submitted_eq by code_simp

lemma ex_matching_entries:
  obtains xs l where "filtered_entries ex_catalog ex_browse ex_approved = Inr xs" and "length xs = 3"
    and "listApprovedLatest ex_env ex_approved = Inr [l]" and "released l \<in> set xs" and "ci_id (released l) = ''acme/demo:skill''"
proof -
  obtain a where a: "map_results projectMiniAppExtension [ex_app_manifest] = Inr [a]"
    "shown_on_web a = (''acme/chess:web-miniapp'', True)"
    using ex_projections(1) by (auto split: sum.splits simp del: map_results.simps)
  obtain b where b: "map_results projectOfficialMcpExtension [ex_official_app] = Inr [b]"
    "shown_on_web b = (''fabushi/notes:mcp-connector'', True)"
    using ex_projections(2) by (auto split: sum.splits simp del: map_results.simps)
  obtain l where l: "listApprovedLatest ex_env ex_approved = Inr [l]"
    "shown_on_web (le_descriptor l) = (''acme/demo:skill'', True)"
    using ex_latest_ids by (auto simp: ex_latest_def split: sum.splits)
  let ?xs = "sort_by (item_order ex_catalog) (fold set_item [projected a, projected b, released l] [])"
  have ids: "ci_id (projected a) = ''acme/chess:web-miniapp''" "ci_id (projected b) = ''fabushi/notes:mcp-connector''"
    "ci_id (released l) = ''acme/demo:skill''"
    using a(2) b(2) l(2) by (simp_all add: shown_on_web_def projected_def released_def)
  have fold: "fold set_item [projected a, projected b, released l] [] = [projected a, projected b, released l]"
    by (simp add: ids)
  have all: "allExtensionEntries ex_catalog ex_approved = Inr ?xs"
    using a(1) b(1) l(1) by (simp add: allExtensionEntries_def ex_catalog_def del: map_results.simps)
  have opts: "optional_enum (bo_kind ex_browse) kinds = Inr None"
    "optional_enum (bo_origin ex_browse) origins = Inr (Some ''public'')"
    "optional_enum (bo_platform ex_browse) supported_platforms = Inr (Some ''web'')"
    "lower (trim (ca_nfkc ex_catalog (text_of (bo_query ex_browse)))) = []"
    by code_simp+
  have "filter (matches ex_catalog [] None (Some ''public'') (Some ''web'')) ?xs = ?xs"
    using a(2) b(2) l(2) unfolding fold
    by (intro filter_True) (auto simp: matches_def shown_on_web_def projected_def released_def)
  then have "filtered_entries ex_catalog ex_browse ex_approved = Inr ?xs"
    by (simp add: filtered_entries_def opts all)
  moreover have "length ?xs = 3" unfolding fold by simp
  moreover have "released l \<in> set ?xs" unfolding fold set_sort_by by simp
  ultimately show thesis using l(1) ids(3) by (intro that)
qed

lemma ex_collation: "collation (re_locale_compare (ca_release_env ex_catalog))"
  by (auto simp: collation_def ex_catalog_def ex_env_def)

lemma shown_entries_are_published_witness:
  "\<exists>page item r. browseExtensions ex_catalog ex_browse ex_approved = Inr page \<and> item \<in> set (bp_entries page) \<and>
     ci_id item = ''acme/demo:skill'' \<and> release_get (entry_key (ci_entry item)) ex_approved = Some r \<and>
     rel_state r = Approved"
proof -
  obtain xs l where xs: "filtered_entries ex_catalog ex_browse ex_approved = Inr xs" "length xs = 3"
    and latest: "listApprovedLatest ex_env ex_approved = Inr [l]"
    and item: "released l \<in> set xs" "ci_id (released l) = ''acme/demo:skill''"
    by (rule ex_matching_entries)
  have "ext_decodeCursor (bo_cursor ex_browse) = Inr None" "browse_limit (bo_limit ex_browse) = 50"
    by code_simp+
  then have page: "browseExtensions ex_catalog ex_browse ex_approved = Inr \<lparr>bp_entries = xs, bp_next_cursor = None\<rparr>"
    using xs by (simp add: browseExtensions_def page_of_def)
  have env: "reachable (ca_release_env ex_catalog) ex_cfg ex_approved" "ca_release_store ex_catalog"
    "listApprovedLatest (ca_release_env ex_catalog) ex_approved = Inr [l]"
    using ex_reachable latest by (simp_all add: ex_catalog_def)
  have "released l \<in> set (bp_entries \<lparr>bp_entries = xs, bp_next_cursor = None\<rparr>)" using item(1) by simp
  note shown = shown_entries_are_published [OF env(1) page this env(2,3) ex_collation]
  have "ci_release (released l) \<noteq> None" by (simp add: released_def)
  with shown obtain r where "release_get (entry_key (ci_entry (released l))) ex_approved = Some r" "rel_state r = Approved"
    by blast
  then show ?thesis using page item by fastforce
qed

lemma cursors_reach_every_entry_witness:
  "\<exists>xs pages. filtered_entries ex_catalog (ex_browse\<lparr>bo_limit := JStr ''2''\<rparr>) ex_approved = Inr xs \<and>
     browse_all (Suc 3) ex_catalog (ex_browse\<lparr>bo_limit := JStr ''2''\<rparr>) ex_approved = Some pages \<and> concat pages = xs \<and>
     length xs = 3 \<and> list_all (\<lambda>p. length p = 2) (butlast pages) \<and> length (last pages) \<le> 2"
proof -
  have same: "filtered_entries ex_catalog (ex_browse\<lparr>bo_limit := JStr ''2''\<rparr>) ex_approved =
      filtered_entries ex_catalog ex_browse ex_approved"
    by (simp add: filtered_entries_def cong: sum.case_cong)
  obtain xs l where "filtered_entries ex_catalog ex_browse ex_approved = Inr xs" and n: "length xs = 3"
    by (rule ex_matching_entries)
  then have xs: "filtered_entries ex_catalog (ex_browse\<lparr>bo_limit := JStr ''2''\<rparr>) ex_approved = Inr xs"
    by (simp add: same)
  have cursor: "\<not> truthy (bo_cursor (ex_browse\<lparr>bo_limit := JStr ''2''\<rparr>))" by (simp add: ex_browse_def)
  have limit: "browse_limit (bo_limit (ex_browse\<lparr>bo_limit := JStr ''2''\<rparr>)) = 2" by code_simp
  from cursors_reach_every_entry [OF xs cursor] n xs show ?thesis unfolding limit by metis
qed

end
