(* ===== verification/Monetization.thy ===== *)
theory Monetization
  imports JsonText
begin

text \<open>
  The monetization service of \<open>fabushi/web/src/services/monetization-platform.js\<close>: amounts and splits, ad
  revenue with its double-entry journal, revenue events of payments, subscriptions and payouts.
  The tables of the D1 database are lists of rows.  Their schema lives in another repository, so
  the constraints that can refuse a statement, the conflicts that \<open>INSERT OR IGNORE\<close> ignores and
  the balance views are the fields of \<open>mon_schema\<close>, an argument of the operations.  A batch is a
  transaction: when it is refused the database is unchanged and the call fails.  Clock readings,
  UUIDs and SHA-256 are arguments.  A column that is bound to a number that may be NaN, which D1
  stores as NULL, is an \<open>option\<close>.  Products of an amount and basis points are exact, as they are in
  JavaScript below \<open>2 ^ 53\<close>.
\<close>

datatype mon_error =
    INVALID_IDENTIFIER | INVALID_MINOR_AMOUNT | INVALID_CURRENCY
  | SPLIT_NOT_INTEGER | SPLIT_OUT_OF_RANGE | SPLIT_TOTAL | INVALID_RULE_JSON
  | UNSUPPORTED_AD_EVENT | INVALID_AD_QUANTITY | UNSUPPORTED_BILLING_MODEL
  | CAMPAIGN_NOT_FOUND | CAMPAIGN_NOT_ACTIVE | OUTSIDE_DELIVERY_WINDOW | NOT_BILLABLE | BUDGET_EXHAUSTED
  | INVALID_SUBSCRIPTION_STATUS | EVENT_ID_REUSED | SUBSCRIPTION_PAYMENT_NOT_FOUND | INVALID_PERIOD
  | DISPLAY_NAME_REQUIRED | PROFILE_NOT_FOUND | PAYOUT_NOT_ENABLED | PAYOUT_ACCOUNT_INACTIVE
  | INSUFFICIENT_BALANCE | STATEMENT_REFUSED | NULL_INPUT
  | INVALID_SCOPE | INVALID_SOURCE | INVALID_EFFECTIVE_FROM | INVALID_BILLING_MODEL | INVALID_STATUS
  | INVALID_WINDOW | INVALID_FORMAT | INVALID_COMPLIANCE_STATE
  | PAYOUT_REQUEST_NOT_FOUND | PAYOUT_NOT_READY | COMPLIANCE_REVOKED | MALFORMED_RESPONSE | PAYOUT_ID_MISSING | INVALID_RESERVE

section \<open>Values\<close>

text \<open>\<open>String(v || '')\<close> and \<open>v || d\<close>\<close>

definition or_value :: "js \<Rightarrow> js \<Rightarrow> js" where
  "or_value v d = (if truthy v then v else d)"

definition text_or_empty :: "js \<Rightarrow> string" where
  "text_or_empty v = js_text (or_value v (JStr []))"

definition identifier_pattern :: "string \<Rightarrow> bool" where
  "identifier_pattern s \<longleftrightarrow>
     s \<noteq> [] \<and> int (length s) \<le> 160 \<and> is_alnum (hd s) \<and> list_all (\<lambda>c. is_alnum c \<or> c \<in> set ''._:@/-'') (tl s)"

definition assertIdentifier :: "js \<Rightarrow> mon_error + string" where
  "assertIdentifier v =
     (let t = trim (text_or_empty v) in if \<not> identifier_pattern t then Inl INVALID_IDENTIFIER else Inr t)"

definition assertMinorAmount :: "js \<Rightarrow> mon_error + int" where
  "assertMinorAmount v =
     (case js_number v of None \<Rightarrow> Inl INVALID_MINOR_AMOUNT
      | Some n \<Rightarrow> if \<not> safe_integer n \<or> n \<le> 0 then Inl INVALID_MINOR_AMOUNT else Inr n)"

text \<open>\<open>toUpperCase\<close>; the two characters whose upper case is outside the character range stay.\<close>

definition upper_text :: "string \<Rightarrow> string" where
  "upper_text s = concat (map (\<lambda>c.
     if is_lower c \<or> 224 \<le> code c \<and> code c \<le> 254 \<and> code c \<noteq> 247 then [char_of (code c - 32)]
     else if code c = 223 then ''SS'' else [c]) s)"

definition normalizeCurrency :: "js \<Rightarrow> mon_error + string" where
  "normalizeCurrency v =
     (let c = upper_text (trim (text_or_empty v))
      in if length c = 3 \<and> list_all is_upper c then Inr c else Inl INVALID_CURRENCY)"

record split =
  platform_bps :: int
  developer_bps :: int

definition check_split :: "int option \<Rightarrow> int option \<Rightarrow> mon_error + split" where
  "check_split platform developer =
     (case (platform, developer) of
        (Some p, Some d) \<Rightarrow>
          (if p < 0 \<or> d < 0 \<or> 10000 < p \<or> 10000 < d then Inl SPLIT_OUT_OF_RANGE
           else if p + d \<noteq> 10000 then Inl SPLIT_TOTAL
           else Inr \<lparr>platform_bps = p, developer_bps = d\<rparr>)
      | _ \<Rightarrow> Inl SPLIT_NOT_INTEGER)"

definition validateTwoPartySplit :: "js \<Rightarrow> mon_error + split" where
  "validateTwoPartySplit rule =
     check_split (js_number (js_get rule ''platformBps'')) (js_number (js_get rule ''developerBps''))"

record allocation =
  al_gross :: int
  al_platform :: int
  al_developer :: int
  al_split :: split

text \<open>\<open>Math.floor((amount * bps) / 10000)\<close>\<close>

definition bps_share :: "int \<Rightarrow> int \<Rightarrow> int" where
  "bps_share amount bps = (amount * bps) div 10000"

definition allocateTwoPartySplit :: "int \<Rightarrow> int \<Rightarrow> int \<Rightarrow> mon_error + allocation" where
  "allocateTwoPartySplit grossAmount platformBps developerBps =
     (case assertMinorAmount (JNum grossAmount) of Inl e \<Rightarrow> Inl e
      | Inr gross \<Rightarrow>
     (case check_split (Some platformBps) (Some developerBps) of Inl e \<Rightarrow> Inl e
      | Inr sp \<Rightarrow>
          (let platformAmount = bps_share gross (platform_bps sp)
           in Inr \<lparr>al_gross = gross, al_platform = platformAmount, al_developer = gross - platformAmount,
                   al_split = sp\<rparr>)))"

section \<open>Tables\<close>

record campaign_row =
  cg_id :: string
  cg_advertiser :: string
  cg_billing_model :: string
  cg_currency :: string
  cg_bid :: int
  cg_daily_budget :: int
  cg_total_budget :: int
  cg_spent :: int
  cg_status :: string
  cg_starts :: int
  cg_ends :: "int option"
  cg_created :: int
  cg_updated :: int

record placement_row =
  pl_id :: string
  pl_mini_app :: string
  pl_developer :: string
  pl_display_name :: string
  pl_format :: string
  pl_share_bps :: int
  pl_status :: string
  pl_created :: int
  pl_updated :: int

record rule_row =
  ru_id :: string
  ru_scope_type :: string
  ru_scope_id :: string
  ru_source :: string
  ru_version :: int
  ru_from :: int
  ru_to :: "int option"
  ru_status :: string
  ru_json :: string
  ru_created_by :: string
  ru_created :: int

record ad_event_row =
  ae_id :: string
  ae_idempotency_key :: string
  ae_campaign :: string
  ae_placement :: string
  ae_mini_app :: string
  ae_developer :: string
  ae_type :: string
  ae_quantity :: int
  ae_billable :: int
  ae_currency :: string
  ae_session_hash :: "string option"
  ae_actor_hash :: "string option"
  ae_verification :: string
  ae_reason :: string
  ae_occurred :: "int option"
  ae_verified :: int
  ae_created :: int

record account_row =
  wa_id :: string
  wa_owner_type :: string
  wa_owner_id :: string
  wa_currency :: string
  wa_created :: int

record entry_row =
  je_id :: string
  je_reference_type :: string
  je_reference_id :: string
  je_state :: string
  je_created :: int
  je_posted :: int

record line_row =
  jl_id :: string
  jl_entry :: string
  jl_account :: string
  jl_currency :: string
  jl_amount :: int
  jl_created :: int

record revenue_row =
  rv_id :: string
  rv_source_kind :: string
  rv_source_id :: string
  rv_payment :: "string option"
  rv_mini_app :: string
  rv_developer :: string
  rv_customer :: "string option"
  rv_gross :: int
  rv_platform :: int
  rv_developer_amount :: int
  rv_currency :: string
  rv_rule :: "string option"
  rv_status :: string
  rv_metadata :: js
  rv_occurred :: "int option"
  rv_created :: int

record payment_row =
  pm_id :: string
  pm_user :: string
  pm_mini_app :: string
  pm_developer :: string
  pm_product :: string
  pm_price :: string
  pm_capability :: string
  pm_rail :: string
  pm_provider_reference :: string
  pm_kind :: string
  pm_currency :: string
  pm_amount :: int
  pm_fee_bps :: int
  pm_status :: string
  pm_created :: int

record subscription_row =
  sb_id :: string
  sb_user :: string
  sb_mini_app :: string
  sb_developer :: string
  sb_product :: string
  sb_price :: string
  sb_payment :: string
  sb_provider :: string
  sb_reference :: string
  sb_capability :: string
  sb_status :: string
  sb_period_start :: "int option"
  sb_period_end :: "int option"
  sb_cancel_at_end :: bool
  sb_created :: int
  sb_updated :: int

record provider_event_row =
  pe_key :: "string \<times> string"
  pe_payload_hash :: string
  pe_state :: string
  pe_subject :: string
  pe_occurred :: "int option"
  pe_processed :: int

record entitlement_row =
  et_user :: string
  et_product :: string
  et_capability :: string
  et_status :: string
  et_expires :: "int option"
  et_revoked :: "int option"

record profile_row =
  dp_developer :: string
  dp_owner :: string
  dp_display_name :: string
  dp_compliance :: string
  dp_payout_enabled :: int
  dp_kyc_reference :: js
  dp_tax_reference :: js
  dp_created :: int
  dp_updated :: int

record payout_account_row =
  pc_id :: string
  pc_developer :: string
  pc_state :: string

record payout_request_row =
  pq_id :: string
  pq_developer :: string
  pq_requester :: string
  pq_account :: string
  pq_currency :: string
  pq_amount :: int
  pq_idempotency_key :: string
  pq_status :: string
  pq_canonical :: js
  pq_created :: int
  pq_updated :: int

record canonical_payout_row =
  cp_id :: js
  cp_status :: string

record refund_row =
  rf_refund :: string
  rf_payment :: string
  rf_amount :: int
  rf_currency :: string
  rf_status :: string
  rf_created :: int

record mon_db =
  campaigns :: "campaign_row list"
  placements :: "placement_row list"
  split_rules :: "rule_row list"
  ad_events :: "ad_event_row list"
  wallet_accounts :: "account_row list"
  journal_entries :: "entry_row list"
  journal_lines :: "line_row list"
  revenue_events :: "revenue_row list"
  payments :: "payment_row list"
  subscriptions :: "subscription_row list"
  provider_events :: "provider_event_row list"
  entitlements :: "entitlement_row list"
  profiles :: "profile_row list"
  payout_accounts :: "payout_account_row list"
  payout_requests :: "payout_request_row list"
  developer_payouts :: "canonical_payout_row list"
  payment_refunds :: "refund_row list"

record mon_schema =
  sc_accepts :: "mon_db \<Rightarrow> bool"
  sc_account_known :: "account_row \<Rightarrow> account_row list \<Rightarrow> bool"
  sc_revenue_known :: "revenue_row \<Rightarrow> revenue_row list \<Rightarrow> bool"
  sc_balance :: "string \<Rightarrow> mon_db \<Rightarrow> int option"
  sc_developer_balances :: "string \<Rightarrow> mon_db \<Rightarrow> js list"

text \<open>\<open>db.batch(statements)\<close> and \<open>run()\<close>: the constraints of the schema decide on the outcome.\<close>

definition mon_commit :: "mon_schema \<Rightarrow> mon_db \<Rightarrow> mon_error + mon_db" where
  "mon_commit sc db = (if sc_accepts sc db then Inr db else Inl STATEMENT_REFUSED)"

definition or_ignore :: "('r \<Rightarrow> 'r list \<Rightarrow> bool) \<Rightarrow> 'r \<Rightarrow> 'r list \<Rightarrow> 'r list" where
  "or_ignore known r rows = (if known r rows then rows else rows @ [r])"

section \<open>Splits\<close>

definition applicable_rules :: "string \<Rightarrow> string \<Rightarrow> string \<Rightarrow> int option \<Rightarrow> mon_db \<Rightarrow> rule_row list" where
  "applicable_rules scopeType scopeId source occurredAt db =
     (case occurredAt of None \<Rightarrow> []
      | Some t \<Rightarrow> filter (\<lambda>r. ru_scope_type r = scopeType \<and> ru_scope_id r = scopeId \<and> ru_source r = source \<and>
          ru_status r = ''active'' \<and> ru_from r \<le> t \<and> (case ru_to r of None \<Rightarrow> True | Some u \<Rightarrow> t < u)) (split_rules db))"

text \<open>\<open>ORDER BY version DESC LIMIT 1\<close>\<close>

definition newest_rule :: "rule_row list \<Rightarrow> rule_row option" where
  "newest_rule rows = (case sort_key (\<lambda>r. - ru_version r) rows of [] \<Rightarrow> None | r # _ \<Rightarrow> Some r)"

record split_rule =
  sp_rule :: "string option"
  sp_platform :: int
  sp_developer :: int

definition resolveSplitRule ::
  "string \<Rightarrow> string \<Rightarrow> string \<Rightarrow> int option \<Rightarrow> mon_db \<Rightarrow> mon_error + split_rule option" where
  "resolveSplitRule scopeType scopeId source occurredAt db =
     (case newest_rule (applicable_rules scopeType scopeId source occurredAt db) of
        None \<Rightarrow> Inr None
      | Some row \<Rightarrow>
     (case json_parse (ru_json row) of None \<Rightarrow> Inl INVALID_RULE_JSON
      | Some parsed \<Rightarrow>
     (case validateTwoPartySplit parsed of Inl e \<Rightarrow> Inl e
      | Inr s \<Rightarrow> Inr (Some \<lparr>sp_rule = Some (ru_id row), sp_platform = platform_bps s,
          sp_developer = developer_bps s\<rparr>))))"

definition resolveRevenueSplit ::
  "placement_row \<Rightarrow> string \<Rightarrow> int option \<Rightarrow> mon_db \<Rightarrow> mon_error + split_rule" where
  "resolveRevenueSplit placement source occurredAt db =
     (case resolveSplitRule ''ad_placement'' (pl_id placement) source occurredAt db of Inl e \<Rightarrow> Inl e
      | Inr (Some r) \<Rightarrow> Inr r
      | Inr None \<Rightarrow>
     (case resolveSplitRule ''miniapp'' (pl_mini_app placement) source occurredAt db of Inl e \<Rightarrow> Inl e
      | Inr (Some r) \<Rightarrow> Inr r
      | Inr None \<Rightarrow> Inr \<lparr>sp_rule = None, sp_platform = 10000 - pl_share_bps placement,
          sp_developer = pl_share_bps placement\<rparr>))"

section \<open>Ad revenue\<close>

definition ad_event_types :: "string list" where
  "ad_event_types = [''impression'', ''click'', ''conversion'', ''rewarded'']"

definition adBillableAmount :: "campaign_row \<Rightarrow> string \<Rightarrow> int \<Rightarrow> mon_error + int" where
  "adBillableAmount campaign eventType count =
     (if eventType \<notin> set ad_event_types then Inl UNSUPPORTED_AD_EVENT
      else
     (case assertMinorAmount (JNum (cg_bid campaign)) of Inl e \<Rightarrow> Inl e
      | Inr amount \<Rightarrow>
     (if count \<le> 0 \<or> 1000 < count then Inl INVALID_AD_QUANTITY
      else if cg_billing_model campaign = ''cpm''
      then Inr (if eventType = ''impression'' then (amount * count) div 1000 else 0)
      else if cg_billing_model campaign = ''cpc'' then Inr (if eventType = ''click'' then amount * count else 0)
      else if cg_billing_model campaign = ''cpa'' then Inr (if eventType = ''conversion'' then amount * count else 0)
      else if cg_billing_model campaign = ''rewarded'' then Inr (if eventType = ''rewarded'' then amount * count else 0)
      else Inl UNSUPPORTED_BILLING_MODEL)))"

definition campaign_get :: "string \<Rightarrow> mon_db \<Rightarrow> campaign_row option" where
  "campaign_get i db = row_where (\<lambda>r. cg_id r = i) (campaigns db)"

definition placement_get :: "string \<Rightarrow> mon_db \<Rightarrow> placement_row option" where
  "placement_get i db = row_where (\<lambda>r. pl_id r = i) (placements db)"

definition ad_event_get :: "string \<Rightarrow> mon_db \<Rightarrow> ad_event_row option" where
  "ad_event_get key db = row_where (\<lambda>r. ae_idempotency_key r = key) (ad_events db)"

definition number_or :: "js \<Rightarrow> int \<Rightarrow> int option" where
  "number_or v d = js_number (or_value v (JNum d))"

definition optional_hash :: "(string \<Rightarrow> string) \<Rightarrow> js \<Rightarrow> string option" where
  "optional_hash sha v = (if truthy v then Some (sha (js_text v)) else None)"

text \<open>What a call has read and decided before it writes; the calls of several requests interleave here.\<close>

record ad_plan =
  ap_campaign :: campaign_row
  ap_placement :: placement_row
  ap_key :: string
  ap_type :: string
  ap_quantity :: int
  ap_billable :: int
  ap_rule :: "string option"
  ap_allocation :: allocation
  ap_event_currency :: string
  ap_occurred :: "int option"
  ap_session :: "string option"
  ap_actor :: "string option"

datatype ad_decision = Duplicate ad_event_row | Planned ad_plan

definition delivery_window :: "int \<Rightarrow> campaign_row \<Rightarrow> bool" where
  "delivery_window now c \<longleftrightarrow> cg_starts c \<le> now \<and> (case cg_ends c of None \<Rightarrow> True | Some t \<Rightarrow> now < t)"

definition price_ad ::
  "(string \<Rightarrow> string) \<Rightarrow> js \<Rightarrow> int \<Rightarrow> string \<Rightarrow> string \<Rightarrow> int \<Rightarrow> campaign_row \<Rightarrow> placement_row \<Rightarrow> mon_db \<Rightarrow>
   mon_error + ad_plan" where
  "price_ad sha input now key eventType quantity campaign placement db =
     (case adBillableAmount campaign eventType quantity of Inl e \<Rightarrow> Inl e
      | Inr billable \<Rightarrow>
     (if billable \<le> 0 then Inl NOT_BILLABLE
      else if cg_total_budget campaign < cg_spent campaign + billable then Inl BUDGET_EXHAUSTED
      else
     (case resolveRevenueSplit placement (''ad_'' @ eventType) (number_or (js_get input ''occurredAt'') now) db of
        Inl e \<Rightarrow> Inl e
      | Inr rule \<Rightarrow>
     (case allocateTwoPartySplit billable (sp_platform rule) (sp_developer rule) of Inl e \<Rightarrow> Inl e
      | Inr allocated \<Rightarrow>
     (case normalizeCurrency (JStr (cg_currency campaign)) of Inl e \<Rightarrow> Inl e
      | Inr currency \<Rightarrow>
          Inr \<lparr>ap_campaign = campaign, ap_placement = placement, ap_key = key, ap_type = eventType,
               ap_quantity = quantity, ap_billable = billable, ap_rule = (case sp_rule rule of Some [] \<Rightarrow> None | r \<Rightarrow> r),
               ap_allocation = allocated, ap_event_currency = currency,
               ap_occurred = number_or (js_get input ''occurredAt'') now,
               ap_session = optional_hash sha (js_get input ''sessionId''),
               ap_actor = optional_hash sha (js_get input ''actorId'')\<rparr>)))))"

definition plan_ad :: "(string \<Rightarrow> string) \<Rightarrow> js \<Rightarrow> int \<Rightarrow> mon_db \<Rightarrow> mon_error + ad_decision" where
  "plan_ad sha input now db =
     (case assertIdentifier (js_get input ''campaignId'') of Inl e \<Rightarrow> Inl e
      | Inr campaignId \<Rightarrow>
     (case assertIdentifier (js_get input ''placementId'') of Inl e \<Rightarrow> Inl e
      | Inr placementId \<Rightarrow>
     (case assertIdentifier (js_get input ''idempotencyKey'') of Inl e \<Rightarrow> Inl e
      | Inr key \<Rightarrow>
     (let eventType = trim (text_or_empty (js_get input ''eventType'')) in
     (if eventType \<notin> set ad_event_types then Inl UNSUPPORTED_AD_EVENT
      else
     (case js_number (or_else (js_get input ''quantity'') (JNum 1)) of None \<Rightarrow> Inl INVALID_AD_QUANTITY
      | Some quantity \<Rightarrow>
     (if quantity \<le> 0 \<or> 1000 < quantity then Inl INVALID_AD_QUANTITY
      else
     (case ad_event_get key db of Some existing \<Rightarrow> Inr (Duplicate existing)
      | None \<Rightarrow>
     (case (campaign_get campaignId db, placement_get placementId db) of
        (Some campaign, Some placement) \<Rightarrow>
          (if cg_status campaign \<noteq> ''active'' \<or> pl_status placement \<noteq> ''active'' then Inl CAMPAIGN_NOT_ACTIVE
           else if \<not> delivery_window now campaign then Inl OUTSIDE_DELIVERY_WINDOW
           else map_sum id Planned (price_ad sha input now key eventType quantity campaign placement db))
      | _ \<Rightarrow> Inl CAMPAIGN_NOT_FOUND)))))))))"

text \<open>
  The batch of \<open>recordVerifiedAdRevenue\<close>.  The update of the campaign is guarded by its status and
  its budget; when the guard fails it touches no row, and the other statements stand.
\<close>

definition ad_event_id :: "string \<Rightarrow> string" where
  "ad_event_id uuid = ''ad:'' @ uuid"

definition ad_entry_id :: "string \<Rightarrow> string" where
  "ad_entry_id uuid = ''ad-revenue:'' @ ad_event_id uuid"

definition ad_accounts :: "ad_plan \<Rightarrow> int \<Rightarrow> account_row \<times> account_row \<times> account_row" where
  "ad_accounts p now =
     (let cur = ap_event_currency p; adv = cg_advertiser (ap_campaign p); dev = pl_developer (ap_placement p)
      in (\<lparr>wa_id = ''advertiser-clearing:'' @ adv @ '':'' @ cur, wa_owner_type = ''platform'',
            wa_owner_id = ''advertiser-clearing:'' @ adv, wa_currency = cur, wa_created = now\<rparr>,
          \<lparr>wa_id = ''developer-pending:'' @ dev @ '':'' @ cur, wa_owner_type = ''developer'',
            wa_owner_id = dev @ '':pending'', wa_currency = cur, wa_created = now\<rparr>,
          \<lparr>wa_id = ''platform:ad-revenue:'' @ cur, wa_owner_type = ''platform'',
            wa_owner_id = ''ad-revenue'', wa_currency = cur, wa_created = now\<rparr>))"

definition ad_event_of :: "ad_plan \<Rightarrow> string \<Rightarrow> int \<Rightarrow> ad_event_row" where
  "ad_event_of p uuid now =
     \<lparr>ae_id = ad_event_id uuid, ae_idempotency_key = ap_key p, ae_campaign = cg_id (ap_campaign p),
      ae_placement = pl_id (ap_placement p), ae_mini_app = pl_mini_app (ap_placement p),
      ae_developer = pl_developer (ap_placement p), ae_type = ap_type p, ae_quantity = ap_quantity p,
      ae_billable = ap_billable p, ae_currency = ap_event_currency p, ae_session_hash = ap_session p,
      ae_actor_hash = ap_actor p, ae_verification = ''verified'', ae_reason = ''trusted_server_event'',
      ae_occurred = ap_occurred p, ae_verified = now, ae_created = now\<rparr>"

definition may_charge :: "ad_plan \<Rightarrow> campaign_row \<Rightarrow> bool" where
  "may_charge p c \<longleftrightarrow>
     cg_id c = cg_id (ap_campaign p) \<and> cg_status c = ''active'' \<and> cg_spent c + ap_billable p \<le> cg_total_budget c"

definition charge :: "ad_plan \<Rightarrow> int \<Rightarrow> campaign_row \<Rightarrow> campaign_row" where
  "charge p now c = c\<lparr>cg_spent := cg_spent c + ap_billable p, cg_updated := now\<rparr>"

definition ad_lines :: "ad_plan \<Rightarrow> string \<Rightarrow> int \<Rightarrow> line_row list" where
  "ad_lines p uuid now =
     (case ad_accounts p now of (source, developer, platform) \<Rightarrow>
       (let entry = ad_entry_id uuid; cur = ap_event_currency p
        in [\<lparr>jl_id = entry @ '':source'', jl_entry = entry, jl_account = wa_id source, jl_currency = cur,
              jl_amount = - ap_billable p, jl_created = now\<rparr>,
            \<lparr>jl_id = entry @ '':developer'', jl_entry = entry, jl_account = wa_id developer, jl_currency = cur,
              jl_amount = al_developer (ap_allocation p), jl_created = now\<rparr>,
            \<lparr>jl_id = entry @ '':platform'', jl_entry = entry, jl_account = wa_id platform, jl_currency = cur,
              jl_amount = al_platform (ap_allocation p), jl_created = now\<rparr>]))"

definition ad_entry_of :: "string \<Rightarrow> int \<Rightarrow> entry_row" where
  "ad_entry_of uuid now =
     \<lparr>je_id = ad_entry_id uuid, je_reference_type = ''ad_revenue'', je_reference_id = ad_event_id uuid,
      je_state = ''posted'', je_created = now, je_posted = now\<rparr>"

definition ad_revenue_of :: "ad_plan \<Rightarrow> string \<Rightarrow> int \<Rightarrow> revenue_row" where
  "ad_revenue_of p uuid now =
     \<lparr>rv_id = ''revenue:'' @ ad_event_id uuid, rv_source_kind = ''advertising'', rv_source_id = ad_event_id uuid,
      rv_payment = None, rv_mini_app = pl_mini_app (ap_placement p), rv_developer = pl_developer (ap_placement p),
      rv_customer = None, rv_gross = ap_billable p, rv_platform = al_platform (ap_allocation p),
      rv_developer_amount = al_developer (ap_allocation p), rv_currency = ap_event_currency p,
      rv_rule = ap_rule p, rv_status = ''posted'',
      rv_metadata = JObj [(''eventType'', JStr (ap_type p)), (''campaignId'', JStr (cg_id (ap_campaign p))),
        (''placementId'', JStr (pl_id (ap_placement p))), (''quantity'', JNum (ap_quantity p))],
      rv_occurred = ap_occurred p, rv_created = now\<rparr>"

definition ad_writes :: "mon_schema \<Rightarrow> ad_plan \<Rightarrow> string \<Rightarrow> int \<Rightarrow> mon_db \<Rightarrow> mon_db" where
  "ad_writes sc p uuid now db =
     (case ad_accounts p now of (source, developer, platform) \<Rightarrow>
       db\<lparr>wallet_accounts := or_ignore (sc_account_known sc) platform
             (or_ignore (sc_account_known sc) developer
               (or_ignore (sc_account_known sc) source (wallet_accounts db))),
          ad_events := ad_events db @ [ad_event_of p uuid now],
          campaigns := update_where (may_charge p) (charge p now) (campaigns db),
          journal_entries := journal_entries db @ [ad_entry_of uuid now],
          journal_lines := journal_lines db @ ad_lines p uuid now,
          revenue_events := revenue_events db @ [ad_revenue_of p uuid now]\<rparr>)"

datatype ad_outcome = AlreadyRecorded ad_event_row | Recorded string ad_plan

definition commit_as :: "mon_schema \<Rightarrow> 'a \<Rightarrow> mon_db \<Rightarrow> mon_db \<Rightarrow> (mon_error + 'a) \<times> mon_db" where
  "commit_as sc x new db = (case mon_commit sc new of Inl e \<Rightarrow> (Inl e, db) | Inr db' \<Rightarrow> (Inr x, db'))"

definition ad_commit ::
  "mon_schema \<Rightarrow> string \<Rightarrow> int \<Rightarrow> ad_plan \<Rightarrow> mon_db \<Rightarrow> (mon_error + ad_outcome) \<times> mon_db" where
  "ad_commit sc uuid now p db = commit_as sc (Recorded (ad_event_id uuid) p) (ad_writes sc p uuid now db) db"

definition recordVerifiedAdRevenue ::
  "mon_schema \<Rightarrow> (string \<Rightarrow> string) \<Rightarrow> string \<Rightarrow> js \<Rightarrow> int \<Rightarrow> mon_db \<Rightarrow> (mon_error + ad_outcome) \<times> mon_db" where
  "recordVerifiedAdRevenue sc sha uuid input now db =
     (case plan_ad sha input now db of Inl e \<Rightarrow> (Inl e, db)
      | Inr (Duplicate existing) \<Rightarrow> (Inr (AlreadyRecorded existing), db)
      | Inr (Planned p) \<Rightarrow> ad_commit sc uuid now p db)"

end
