(* ===== verification/MonetizationOps.thy ===== *)
theory MonetizationOps
  imports Monetization
begin

text \<open>
  The operations of the monetization service that follow a payment, a subscription or a payout, the
  bodies of the administration handlers of \<open>fabushi/web/src/handlers/monetization-platform.js\<close> behind
  their authentication, and the reconciliation of
  \<open>fabushi/web/src/handlers/monetization-reconciliation.js\<close>.  The response of the payment service is
  an argument of the operations that call it.
\<close>

section \<open>Payments and subscriptions\<close>

definition settled :: "string list" where
  "settled = [''succeeded'', ''partially_refunded'', ''refunded'']"

definition payment_get :: "string \<Rightarrow> mon_db \<Rightarrow> payment_row option" where
  "payment_get i db = row_where (\<lambda>r. pm_id r = i) (payments db)"

definition int_or :: "int \<Rightarrow> int \<Rightarrow> int" where
  "int_or n d = (if n = 0 then d else n)"

definition subscription_provider :: "string \<Rightarrow> string" where
  "subscription_provider rail =
     (if rail = ''apple_in_app_purchase'' then ''apple''
      else if rail = ''google_play_billing'' then ''google''
      else if rail = ''credits'' then ''credits'' else ''web'')"

definition subscription_id :: "string \<Rightarrow> string \<Rightarrow> string" where
  "subscription_id provider reference = ''subscription:'' @ provider @ '':'' @ reference"

definition subscription_of_payment :: "payment_row \<Rightarrow> int \<Rightarrow> subscription_row" where
  "subscription_of_payment full now =
     (let provider = subscription_provider (pm_rail full);
          reference = (if pm_provider_reference full \<noteq> [] then pm_provider_reference full else pm_id full)
      in \<lparr>sb_id = subscription_id provider reference, sb_user = pm_user full, sb_mini_app = pm_mini_app full,
          sb_developer = pm_developer full, sb_product = pm_product full, sb_price = pm_price full,
          sb_payment = pm_id full, sb_provider = provider, sb_reference = reference,
          sb_capability = pm_capability full, sb_status = ''active'',
          sb_period_start = Some (int_or (pm_created full) now), sb_period_end = None,
          sb_cancel_at_end = False, sb_created = now, sb_updated = now\<rparr>)"

definition closed_subscription :: "string \<Rightarrow> bool" where
  "closed_subscription st \<longleftrightarrow> st \<in> set [''cancelled'', ''expired'', ''refunded'']"

definition renewed :: "subscription_row \<Rightarrow> subscription_row \<Rightarrow> subscription_row" where
  "renewed new old = old\<lparr>sb_payment := sb_payment new,
     sb_status := (if closed_subscription (sb_status old) then sb_status old else ''active''),
     sb_updated := sb_updated new\<rparr>"

definition full_payment :: "payment_row \<Rightarrow> mon_db \<Rightarrow> payment_row option" where
  "full_payment payment db = (if pm_product payment \<noteq> [] then Some payment else payment_get (pm_id payment) db)"

definition syncSubscriptionFromPayment ::
  "mon_schema \<Rightarrow> payment_row \<Rightarrow> int \<Rightarrow> mon_db \<Rightarrow> (mon_error + string option) \<times> mon_db" where
  "syncSubscriptionFromPayment sc payment now db =
     (case full_payment payment db of None \<Rightarrow> (Inr None, db)
      | Some full \<Rightarrow>
          (if pm_kind full \<noteq> ''subscription'' \<or> pm_status full \<notin> set [''succeeded'', ''partially_refunded'']
           then (Inr None, db)
           else (let row = subscription_of_payment full now
                 in commit_as sc (Some (sb_id row))
                      (db\<lparr>subscriptions := upsert_row sb_id row (renewed row) (subscriptions db)\<rparr>) db)))"

definition revenue_of_payment :: "payment_row \<Rightarrow> int \<Rightarrow> revenue_row" where
  "revenue_of_payment payment now =
     (let gross = pm_amount payment; platformAmount = bps_share gross (pm_fee_bps payment);
          subscribed = (pm_kind payment = ''subscription'')
      in \<lparr>rv_id = ''revenue:'' @ pm_id payment,
          rv_source_kind = (if subscribed then ''subscription'' else ''payment''),
          rv_source_id = ''payment:'' @ pm_id payment, rv_payment = Some (pm_id payment),
          rv_mini_app = pm_mini_app payment, rv_developer = pm_developer payment,
          rv_customer = Some (pm_user payment), rv_gross = gross, rv_platform = platformAmount,
          rv_developer_amount = gross - platformAmount, rv_currency = pm_currency payment, rv_rule = None,
          rv_status = ''posted'',
          rv_metadata = JObj [(''revenueSource'', JStr (if subscribed then ''subscription'' else ''purchase'')),
            (''platformFeeBps'', JNum (pm_fee_bps payment))],
          rv_occurred = Some (int_or (pm_created payment) now), rv_created = now\<rparr>)"

definition post_revenue :: "mon_schema \<Rightarrow> revenue_row \<Rightarrow> mon_db \<Rightarrow> mon_db" where
  "post_revenue sc r db = db\<lparr>revenue_events := or_ignore (sc_revenue_known sc) r (revenue_events db)\<rparr>"

definition syncPaymentRevenueEvent ::
  "mon_schema \<Rightarrow> js \<Rightarrow> int \<Rightarrow> mon_db \<Rightarrow> (mon_error + revenue_row option) \<times> mon_db" where
  "syncPaymentRevenueEvent sc paymentId now db =
     (case assertIdentifier paymentId of Inl e \<Rightarrow> (Inl e, db)
      | Inr i \<Rightarrow>
     (case payment_get i db of None \<Rightarrow> (Inr None, db)
      | Some payment \<Rightarrow>
          (if pm_status payment \<notin> set settled then (Inr None, db)
           else (let r = revenue_of_payment payment now
                 in and_then (commit_as sc () (post_revenue sc r db) db) (\<lambda>_ db1.
                    and_then (if pm_kind payment = ''subscription''
                              then syncSubscriptionFromPayment sc payment now db1 else (Inr None, db1)) (\<lambda>_ db2.
                    (Inr (Some r), db2)))))))"

definition subscription_states :: "string list" where
  "subscription_states =
     [''trialing'', ''active'', ''past_due'', ''paused'', ''cancelled'', ''expired'', ''refunded'']"

definition entitlement_state :: "string \<Rightarrow> string" where
  "entitlement_state st =
     (if st \<in> set [''active'', ''trialing'', ''past_due''] then ''active''
      else if st = ''expired'' then ''expired'' else ''revoked'')"

definition provider_event_get :: "string \<times> string \<Rightarrow> mon_db \<Rightarrow> provider_event_row option" where
  "provider_event_get k db = row_where (\<lambda>r. pe_key r = k) (provider_events db)"

text \<open>\<open>v == null ? null : Number(v)\<close> and its range check\<close>

definition period :: "js \<Rightarrow> mon_error + int option" where
  "period v =
     (if v = JUndef \<or> v = JNull then Inr None
      else case js_number v of None \<Rightarrow> Inl INVALID_PERIOD
        | Some n \<Rightarrow> if \<not> safe_integer n \<or> n \<le> 0 then Inl INVALID_PERIOD else Inr (Some n))"

definition subscription_of_event ::
  "payment_row \<Rightarrow> string \<Rightarrow> string \<Rightarrow> string \<Rightarrow> int option \<Rightarrow> int option \<Rightarrow> bool \<Rightarrow> int \<Rightarrow> subscription_row" where
  "subscription_of_event payment provider reference status start finish cancel now =
     \<lparr>sb_id = subscription_id provider reference, sb_user = pm_user payment, sb_mini_app = pm_mini_app payment,
      sb_developer = pm_developer payment, sb_product = pm_product payment, sb_price = pm_price payment,
      sb_payment = pm_id payment, sb_provider = provider, sb_reference = reference,
      sb_capability = pm_capability payment, sb_status = status, sb_period_start = start,
      sb_period_end = finish, sb_cancel_at_end = cancel, sb_created = now, sb_updated = now\<rparr>"

definition reported :: "subscription_row \<Rightarrow> subscription_row \<Rightarrow> subscription_row" where
  "reported new old = old\<lparr>sb_payment := sb_payment new, sb_status := sb_status new,
     sb_period_start := sb_period_start new, sb_period_end := sb_period_end new,
     sb_cancel_at_end := sb_cancel_at_end new, sb_updated := sb_updated new\<rparr>"

definition entitlement_for :: "string \<Rightarrow> string \<Rightarrow> string \<Rightarrow> entitlement_row \<Rightarrow> bool" where
  "entitlement_for user product capability r \<longleftrightarrow>
     et_user r = user \<and> et_product r = product \<and> et_capability r = capability"

definition event_writes :: "payment_row \<Rightarrow> provider_event_row \<Rightarrow> subscription_row \<Rightarrow> int \<Rightarrow> mon_db \<Rightarrow> mon_db" where
  "event_writes payment ev sub now db =
     (let st = entitlement_state (sb_status sub)
      in db\<lparr>provider_events := provider_events db @ [ev],
            subscriptions := upsert_row sb_id sub (reported sub) (subscriptions db),
            entitlements := update_where
              (entitlement_for (pm_user payment) (pm_product payment) (pm_capability payment))
              (\<lambda>r. r\<lparr>et_status := st, et_expires := sb_period_end sub,
                     et_revoked := (if st = ''revoked'' then Some now else et_revoked r)\<rparr>)
              (entitlements db)\<rparr>)"

record event_reading =
  ev_provider :: string
  ev_event :: string
  ev_payment :: string
  ev_reference :: string
  ev_status :: string

definition read_event :: "js \<Rightarrow> mon_error + event_reading" where
  "read_event input =
     (case assertIdentifier (js_get input ''provider'') of Inl e \<Rightarrow> Inl e
      | Inr provider \<Rightarrow>
     (case assertIdentifier (js_get input ''eventId'') of Inl e \<Rightarrow> Inl e
      | Inr eventId \<Rightarrow>
     (case assertIdentifier (js_get input ''paymentId'') of Inl e \<Rightarrow> Inl e
      | Inr paymentId \<Rightarrow>
     (case assertIdentifier (or_value (js_get input ''providerSubscriptionReference'') (JStr paymentId)) of
        Inl e \<Rightarrow> Inl e
      | Inr reference \<Rightarrow>
     (let status = trim (text_or_empty (js_get input ''status''))
      in if status \<notin> set subscription_states then Inl INVALID_SUBSCRIPTION_STATUS
         else Inr \<lparr>ev_provider = lower provider, ev_event = eventId, ev_payment = paymentId,
           ev_reference = reference, ev_status = status\<rparr>)))))"

datatype event_outcome = AlreadyApplied | Applied string string

definition applySubscriptionEvent ::
  "mon_schema \<Rightarrow> (string \<Rightarrow> string) \<Rightarrow> js \<Rightarrow> int \<Rightarrow> mon_db \<Rightarrow> (mon_error + event_outcome) \<times> mon_db" where
  "applySubscriptionEvent sc sha input now db =
     (case read_event input of Inl e \<Rightarrow> (Inl e, db)
      | Inr ev \<Rightarrow>
     (let payloadHash = sha (stringify input) in
     (case provider_event_get (ev_provider ev, ev_event ev) db of
        Some existing \<Rightarrow>
          (if pe_payload_hash existing \<noteq> payloadHash then (Inl EVENT_ID_REUSED, db) else (Inr AlreadyApplied, db))
      | None \<Rightarrow>
     (case payment_get (ev_payment ev) db of None \<Rightarrow> (Inl SUBSCRIPTION_PAYMENT_NOT_FOUND, db)
      | Some payment \<Rightarrow>
     (if pm_kind payment \<noteq> ''subscription'' then (Inl SUBSCRIPTION_PAYMENT_NOT_FOUND, db)
      else
     (case period (js_get input ''currentPeriodStart'') of Inl e \<Rightarrow> (Inl e, db)
      | Inr start \<Rightarrow>
     (case period (js_get input ''currentPeriodEnd'') of Inl e \<Rightarrow> (Inl e, db)
      | Inr finish \<Rightarrow>
          (let sub = subscription_of_event payment (ev_provider ev) (ev_reference ev) (ev_status ev) start finish
                 (truthy (js_get input ''cancelAtPeriodEnd'')) now;
               row = \<lparr>pe_key = (ev_provider ev, ev_event ev), pe_payload_hash = payloadHash,
                 pe_state = ''processed'', pe_subject = sb_id sub,
                 pe_occurred = number_or (js_get input ''occurredAt'') now, pe_processed = now\<rparr>
           in commit_as sc (Applied (sb_id sub) (ev_status ev)) (event_writes payment row sub now db) db))))))))"

section \<open>Developers\<close>

definition profile_of_owner :: "string \<Rightarrow> mon_db \<Rightarrow> profile_row option" where
  "profile_of_owner user db = row_where (\<lambda>r. dp_owner r = user) (profiles db)"

definition registerDeveloper ::
  "mon_schema \<Rightarrow> js \<Rightarrow> js \<Rightarrow> int \<Rightarrow> mon_db \<Rightarrow> (mon_error + profile_row option) \<times> mon_db" where
  "registerDeveloper sc userId input now db =
     (case assertIdentifier userId of Inl e \<Rightarrow> (Inl e, db)
      | Inr owner \<Rightarrow>
     (case assertIdentifier (or_value (js_get input ''developerId'') (JStr (''developer:'' @ owner))) of
        Inl e \<Rightarrow> (Inl e, db)
      | Inr developerId \<Rightarrow>
     (let displayName = slice_to 120 (trim (js_text (or_value (js_get input ''displayName'') (JStr developerId))))
      in if displayName = [] then (Inl DISPLAY_NAME_REQUIRED, db)
         else (let row = \<lparr>dp_developer = developerId, dp_owner = owner, dp_display_name = displayName,
                     dp_compliance = ''pending'', dp_payout_enabled = 0, dp_kyc_reference = JNull,
                     dp_tax_reference = JNull, dp_created = now, dp_updated = now\<rparr>;
                   db' = db\<lparr>profiles := upsert_row dp_owner row
                     (\<lambda>old. old\<lparr>dp_display_name := displayName, dp_updated := now\<rparr>) (profiles db)\<rparr>
               in commit_as sc (profile_of_owner owner db') db' db))))"

definition available_account :: "string \<Rightarrow> string \<Rightarrow> string" where
  "available_account developer currency = ''developer-available:'' @ developer @ '':'' @ currency"

definition available_balance :: "mon_schema \<Rightarrow> string \<Rightarrow> string \<Rightarrow> mon_db \<Rightarrow> int" where
  "available_balance sc developer currency db =
     (case sc_balance sc (available_account developer currency) db of None \<Rightarrow> 0 | Some b \<Rightarrow> b)"

definition payout_allowed :: "profile_row \<Rightarrow> bool" where
  "payout_allowed p \<longleftrightarrow> dp_compliance p = ''verified'' \<and> dp_payout_enabled p = 1"

definition payout_account_get :: "string \<Rightarrow> string \<Rightarrow> mon_db \<Rightarrow> payout_account_row option" where
  "payout_account_get i developer db =
     row_where (\<lambda>r. pc_id r = i \<and> pc_developer r = developer \<and> pc_state r = ''active'') (payout_accounts db)"

datatype payout_outcome = AlreadyRequested payout_request_row | Requested payout_request_row

definition file_payout ::
  "mon_schema \<Rightarrow> string \<Rightarrow> string \<Rightarrow> string \<Rightarrow> string \<Rightarrow> string \<Rightarrow> int \<Rightarrow> int \<Rightarrow> mon_db \<Rightarrow>
   (mon_error + payout_outcome) \<times> mon_db" where
  "file_payout sc uuid owner accountId key currency amount now db =
     (case profile_of_owner owner db of None \<Rightarrow> (Inl PROFILE_NOT_FOUND, db)
      | Some profile \<Rightarrow>
     (if \<not> payout_allowed profile then (Inl PAYOUT_NOT_ENABLED, db)
      else
     (case payout_account_get accountId (dp_developer profile) db of None \<Rightarrow> (Inl PAYOUT_ACCOUNT_INACTIVE, db)
      | Some account \<Rightarrow>
     (if available_balance sc (dp_developer profile) currency db < amount then (Inl INSUFFICIENT_BALANCE, db)
      else
     (case row_where (\<lambda>r. pq_idempotency_key r = key) (payout_requests db) of
        Some existing \<Rightarrow> (Inr (AlreadyRequested existing), db)
      | None \<Rightarrow>
          (let row = \<lparr>pq_id = ''payout-request:'' @ uuid, pq_developer = dp_developer profile, pq_requester = owner,
                 pq_account = accountId, pq_currency = currency, pq_amount = amount, pq_idempotency_key = key,
                 pq_status = ''requested'', pq_canonical = JNull, pq_created = now, pq_updated = now\<rparr>
           in commit_as sc (Requested row) (db\<lparr>payout_requests := payout_requests db @ [row]\<rparr>) db))))))"

definition requestDeveloperPayout ::
  "mon_schema \<Rightarrow> string \<Rightarrow> js \<Rightarrow> js \<Rightarrow> int \<Rightarrow> mon_db \<Rightarrow> (mon_error + payout_outcome) \<times> mon_db" where
  "requestDeveloperPayout sc uuid userId input now db =
     (case assertIdentifier userId of Inl e \<Rightarrow> (Inl e, db)
      | Inr owner \<Rightarrow>
     (case assertIdentifier (js_get input ''payoutAccountId'') of Inl e \<Rightarrow> (Inl e, db)
      | Inr accountId \<Rightarrow>
     (case assertIdentifier (js_get input ''idempotencyKey'') of Inl e \<Rightarrow> (Inl e, db)
      | Inr key \<Rightarrow>
     (case normalizeCurrency (js_get input ''currency'') of Inl e \<Rightarrow> (Inl e, db)
      | Inr currency \<Rightarrow>
     (case assertMinorAmount (js_get input ''amount'') of Inl e \<Rightarrow> (Inl e, db)
      | Inr amount \<Rightarrow> file_payout sc uuid owner accountId key currency amount now db)))))"

text \<open>\<open>ORDER BY t DESC LIMIT 100\<close>, NULL last, and the totals per currency in the order of appearance\<close>

definition latest :: "('r \<Rightarrow> int option) \<Rightarrow> 'r list \<Rightarrow> 'r list" where
  "latest at rows = take 100
     (sort_key (\<lambda>r. case at r of None \<Rightarrow> 0 | Some t \<Rightarrow> - t) (filter (\<lambda>r. at r \<noteq> None) rows) @
      filter (\<lambda>r. at r = None) rows)"

record totals =
  to_gross :: int
  to_developer :: int
  to_platform :: int

definition add_totals :: "revenue_row \<Rightarrow> totals \<Rightarrow> totals" where
  "add_totals r t = \<lparr>to_gross = to_gross t + rv_gross r, to_developer = to_developer t + rv_developer_amount r,
     to_platform = to_platform t + rv_platform r\<rparr>"

fun add_revenue :: "(string \<times> totals) list \<Rightarrow> revenue_row \<Rightarrow> (string \<times> totals) list" where
  "add_revenue [] r = [(rv_currency r, add_totals r \<lparr>to_gross = 0, to_developer = 0, to_platform = 0\<rparr>)]"
| "add_revenue ((c, t) # acc) r =
     (if c = rv_currency r then (c, add_totals r t) # acc else (c, t) # add_revenue acc r)"

definition revenue_totals :: "revenue_row list \<Rightarrow> (string \<times> totals) list" where
  "revenue_totals rows = foldl add_revenue [] rows"

record developer_summary =
  ds_profile :: "profile_row option"
  ds_balances :: "js list"
  ds_revenue :: "revenue_row list"
  ds_totals :: "(string \<times> totals) list"
  ds_subscriptions :: "subscription_row list"
  ds_payouts :: "payout_request_row list"

definition developerSummary :: "mon_schema \<Rightarrow> js \<Rightarrow> mon_db \<Rightarrow> mon_error + developer_summary" where
  "developerSummary sc userId db =
     (case assertIdentifier userId of Inl e \<Rightarrow> Inl e
      | Inr owner \<Rightarrow>
     (case profile_of_owner owner db of
        None \<Rightarrow> Inr \<lparr>ds_profile = None, ds_balances = [], ds_revenue = [], ds_totals = [],
          ds_subscriptions = [], ds_payouts = []\<rparr>
      | Some p \<Rightarrow>
          (let mine = latest rv_occurred (filter (\<lambda>r. rv_developer r = dp_developer p) (revenue_events db))
           in Inr \<lparr>ds_profile = Some p, ds_balances = sc_developer_balances sc (dp_developer p) db,
                ds_revenue = mine, ds_totals = revenue_totals mine,
                ds_subscriptions = latest (\<lambda>r. Some (sb_updated r))
                  (filter (\<lambda>r. sb_developer r = dp_developer p) (subscriptions db)),
                ds_payouts = latest (\<lambda>r. Some (pq_created r))
                  (filter (\<lambda>r. pq_developer r = dp_developer p) (payout_requests db))\<rparr>)))"

end
