(* ===== verification/MonetizationAdmin.thy ===== *)
theory MonetizationAdmin
  imports MonetizationOps Registry "HOL-Library.Word"
begin

text \<open>
  The bodies of the handlers of \<open>fabushi/web/src/handlers/monetization-platform.js\<close> behind their
  authentication, the check of the internal secrets, and the reconciliation of
  \<open>fabushi/web/src/handlers/monetization-reconciliation.js\<close>.  The response of the payment service to
  a request is an argument: its status and its body.
\<close>

section \<open>Internal secrets\<close>

text \<open>\<open>constantTimeEqual\<close> on the bytes of the two texts; a byte out of range reads as 0.\<close>

unbundle bit_operations_syntax

definition byte_at :: "nat list \<Rightarrow> nat \<Rightarrow> nat" where
  "byte_at bs i = (if i < length bs then bs ! i else 0)"

definition constantTimeEqual :: "nat list \<Rightarrow> nat list \<Rightarrow> bool" where
  "constantTimeEqual a b =
     (foldl (\<lambda>diff i. diff OR (byte_at a i XOR byte_at b i)) (length a XOR length b)
        [0..<max (length a) (length b)] = 0)"

datatype secret_check = SecretUnconfigured | SecretRejected | SecretAccepted

definition bearer_token :: "string \<Rightarrow> string" where
  "bearer_token header = (if prefix ''Bearer '' header then drop 7 header else [])"

definition requireInternalSecret :: "js \<Rightarrow> string \<Rightarrow> secret_check" where
  "requireInternalSecret secret header =
     (let expected = text_or_empty secret; provided = bearer_token header
      in if expected = [] then SecretUnconfigured
         else if provided = [] \<or> \<not> constantTimeEqual (utf8_bytes provided) (utf8_bytes expected) then SecretRejected
         else SecretAccepted)"

section \<open>Administration\<close>

definition max_version :: "rule_row list \<Rightarrow> int" where
  "max_version rows = (case map ru_version rows of [] \<Rightarrow> 0 | v # vs \<Rightarrow> foldl max v vs)"

definition rule_id :: "string \<Rightarrow> string \<Rightarrow> string \<Rightarrow> int \<Rightarrow> string" where
  "rule_id scopeType scopeId source version =
     ''split:'' @ scopeType @ '':'' @ scopeId @ '':'' @ source @ '':v'' @ int_text version"

definition split_json :: "split \<Rightarrow> js" where
  "split_json s = JObj [(''platformBps'', JNum (platform_bps s)), (''developerBps'', JNum (developer_bps s))]"

definition next_rule :: "string \<Rightarrow> string \<Rightarrow> string \<Rightarrow> split \<Rightarrow> int \<Rightarrow> string \<Rightarrow> int \<Rightarrow> mon_db \<Rightarrow> rule_row" where
  "next_rule scopeType scopeId source s from actor now db =
     (let version = max_version (filter (\<lambda>r. ru_scope_type r = scopeType \<and> ru_scope_id r = scopeId \<and>
            ru_source r = source) (split_rules db)) + 1
      in \<lparr>ru_id = rule_id scopeType scopeId source version, ru_scope_type = scopeType, ru_scope_id = scopeId,
          ru_source = source, ru_version = version, ru_from = from, ru_to = None, ru_status = ''active'',
          ru_json = stringify (split_json s), ru_created_by = actor, ru_created = now\<rparr>)"

definition adminSplitRule ::
  "mon_schema \<Rightarrow> string \<Rightarrow> js \<Rightarrow> int \<Rightarrow> mon_db \<Rightarrow> (mon_error + rule_row) \<times> mon_db" where
  "adminSplitRule sc actor input now db =
     (if input = JNull then (Inl NULL_INPUT, db)
      else
     (let scopeType = trim (text_or_empty (js_get input ''scopeType'')) in
     (if scopeType \<notin> set [''platform'', ''miniapp'', ''product'', ''ad_placement''] then (Inl INVALID_SCOPE, db)
      else
     (case assertIdentifier (js_get input ''scopeId'') of Inl e \<Rightarrow> (Inl e, db)
      | Inr scopeId \<Rightarrow>
     (let source = trim (text_or_empty (js_get input ''revenueSource'')) in
     (if source \<notin> set [''purchase'', ''subscription'', ''ad_impression'', ''ad_click'', ''ad_conversion'',
           ''ad_rewarded'', ''tip'', ''api_usage'', ''adjustment''] then (Inl INVALID_SOURCE, db)
      else
     (case validateTwoPartySplit (js_get input ''rule'') of Inl e \<Rightarrow> (Inl e, db)
      | Inr s \<Rightarrow>
     (case number_or (js_get input ''effectiveFrom'') now of None \<Rightarrow> (Inl INVALID_EFFECTIVE_FROM, db)
      | Some from \<Rightarrow>
          (if \<not> safe_integer from \<or> from \<le> 0 then (Inl INVALID_EFFECTIVE_FROM, db)
           else (let row = next_rule scopeType scopeId source s from actor now db
                 in commit_as sc row (db\<lparr>split_rules := split_rules db @ [row]\<rparr>) db))))))))))"

definition campaign_of_input :: "js \<Rightarrow> int \<Rightarrow> mon_error + campaign_row" where
  "campaign_of_input input now =
     (case assertIdentifier (js_get input ''campaignId'') of Inl e \<Rightarrow> Inl e
      | Inr campaignId \<Rightarrow>
     (case assertIdentifier (js_get input ''advertiserId'') of Inl e \<Rightarrow> Inl e
      | Inr advertiserId \<Rightarrow>
     (let billingModel = trim (text_or_empty (js_get input ''billingModel'')) in
     (if billingModel \<notin> set [''cpm'', ''cpc'', ''cpa'', ''rewarded''] then Inl INVALID_BILLING_MODEL
      else
     (case normalizeCurrency (js_get input ''currency'') of Inl e \<Rightarrow> Inl e
      | Inr currency \<Rightarrow>
     (case assertMinorAmount (js_get input ''bidAmount'') of Inl e \<Rightarrow> Inl e
      | Inr bid \<Rightarrow>
     (case assertMinorAmount (js_get input ''dailyBudget'') of Inl e \<Rightarrow> Inl e
      | Inr daily \<Rightarrow>
     (case assertMinorAmount (js_get input ''totalBudget'') of Inl e \<Rightarrow> Inl e
      | Inr budget \<Rightarrow>
     (let status = js_text (or_value (js_get input ''status'') (JStr ''draft'')) in
     (if status \<notin> set [''draft'', ''active'', ''paused'', ''ended''] then Inl INVALID_STATUS
      else
     (case number_or (js_get input ''startsAt'') now of None \<Rightarrow> Inl INVALID_WINDOW
      | Some opening \<Rightarrow>
          (let row = \<lparr>cg_id = campaignId, cg_advertiser = advertiserId, cg_billing_model = billingModel,
                 cg_currency = currency, cg_bid = bid, cg_daily_budget = daily, cg_total_budget = budget,
                 cg_spent = 0, cg_status = status, cg_starts = opening, cg_ends = None, cg_created = now,
                 cg_updated = now\<rparr>;
               v = js_get input ''endsAt''
           in if \<not> safe_integer opening then Inl INVALID_WINDOW
              else if v = JUndef \<or> v = JNull then Inr row
              else case js_number v of None \<Rightarrow> Inl INVALID_WINDOW
                | Some finish \<Rightarrow> if \<not> safe_integer finish \<or> finish \<le> opening then Inl INVALID_WINDOW
                    else Inr (row\<lparr>cg_ends := Some finish\<rparr>)))))))))))))"

text \<open>The conflict keeps what was spent and when the row was created.\<close>

definition edited_campaign :: "campaign_row \<Rightarrow> campaign_row \<Rightarrow> campaign_row" where
  "edited_campaign new old = new\<lparr>cg_spent := cg_spent old, cg_created := cg_created old\<rparr>"

definition adminAdCampaign :: "mon_schema \<Rightarrow> js \<Rightarrow> int \<Rightarrow> mon_db \<Rightarrow> (mon_error + campaign_row) \<times> mon_db" where
  "adminAdCampaign sc input now db =
     (if input = JNull then (Inl NULL_INPUT, db)
      else
     (case campaign_of_input input now of Inl e \<Rightarrow> (Inl e, db)
      | Inr row \<Rightarrow>
          commit_as sc row (db\<lparr>campaigns := upsert_row cg_id row (edited_campaign row) (campaigns db)\<rparr>) db))"

definition placement_of_input :: "js \<Rightarrow> int \<Rightarrow> mon_error + placement_row" where
  "placement_of_input input now =
     (case assertIdentifier (js_get input ''placementId'') of Inl e \<Rightarrow> Inl e
      | Inr placementId \<Rightarrow>
     (case assertIdentifier (js_get input ''miniAppId'') of Inl e \<Rightarrow> Inl e
      | Inr miniAppId \<Rightarrow>
     (case assertIdentifier (js_get input ''developerId'') of Inl e \<Rightarrow> Inl e
      | Inr developerId \<Rightarrow>
     (let displayName = slice_to 120 (trim (js_text (or_value (js_get input ''displayName'') (JStr placementId))));
          format = trim (js_text (or_value (js_get input ''format'') (JStr ''native''))) in
     (if format \<notin> set [''banner'', ''native'', ''interstitial'', ''rewarded''] then Inl INVALID_FORMAT
      else
     (case js_number (or_else (js_get input ''developerShareBps'') (JNum 7000)) of None \<Rightarrow> Inl SPLIT_NOT_INTEGER
      | Some share \<Rightarrow>
     (case check_split (Some (10000 - share)) (Some share) of Inl e \<Rightarrow> Inl e
      | Inr s \<Rightarrow>
     (let status = js_text (or_value (js_get input ''status'') (JStr ''active'')) in
     (if status \<notin> set [''active'', ''paused'', ''disabled''] then Inl INVALID_STATUS
      else Inr \<lparr>pl_id = placementId, pl_mini_app = miniAppId, pl_developer = developerId,
        pl_display_name = displayName, pl_format = format, pl_share_bps = share, pl_status = status,
        pl_created = now, pl_updated = now\<rparr>)))))))))"

definition adminAdPlacement :: "mon_schema \<Rightarrow> js \<Rightarrow> int \<Rightarrow> mon_db \<Rightarrow> (mon_error + placement_row) \<times> mon_db" where
  "adminAdPlacement sc input now db =
     (if input = JNull then (Inl NULL_INPUT, db)
      else
     (case placement_of_input input now of Inl e \<Rightarrow> (Inl e, db)
      | Inr row \<Rightarrow>
          commit_as sc row (db\<lparr>placements := upsert_row pl_id row (\<lambda>old. row\<lparr>pl_created := pl_created old\<rparr>)
            (placements db)\<rparr>) db))"

definition adminDeveloperCompliance :: "mon_schema \<Rightarrow> js \<Rightarrow> int \<Rightarrow> mon_db \<Rightarrow> (mon_error + int) \<times> mon_db" where
  "adminDeveloperCompliance sc input now db =
     (if input = JNull then (Inl NULL_INPUT, db)
      else
     (case assertIdentifier (js_get input ''developerId'') of Inl e \<Rightarrow> (Inl e, db)
      | Inr developerId \<Rightarrow>
     (let state = trim (text_or_empty (js_get input ''complianceState'')) in
     (if state \<notin> set [''pending'', ''reviewing'', ''verified'', ''restricted'', ''rejected'']
      then (Inl INVALID_COMPLIANCE_STATE, db)
      else (let enabled = (if state = ''verified'' \<and> truthy (js_get input ''payoutEnabled'') then 1 else 0)
            in commit_as sc enabled (db\<lparr>profiles := update_where (\<lambda>r. dp_developer r = developerId)
                 (\<lambda>r. r\<lparr>dp_compliance := state, dp_payout_enabled := enabled,
                        dp_kyc_reference := or_value (js_get input ''externalKycReference'') JNull,
                        dp_tax_reference := or_value (js_get input ''taxProfileReference'') JNull,
                        dp_updated := now\<rparr>) (profiles db)\<rparr>) db)))))"

definition payout_call :: "payout_request_row \<Rightarrow> js" where
  "payout_call r = JObj [(''idempotencyKey'', JStr (''monetization:'' @ pq_idempotency_key r)),
     (''developerId'', JStr (pq_developer r)), (''payoutAccountId'', JStr (pq_account r)),
     (''currency'', JStr (pq_currency r)), (''amount'', JNum (pq_amount r))]"

definition profile_of_developer :: "string \<Rightarrow> mon_db \<Rightarrow> profile_row option" where
  "profile_of_developer developer db = row_where (\<lambda>r. dp_developer r = developer) (profiles db)"

datatype submit_outcome = PayRefused int string | Submitted string js

text \<open>\<open>response?.payout?.payoutId || response?.payoutId\<close>\<close>

definition returned_payout :: "js \<Rightarrow> js" where
  "returned_payout response =
     or_value (js_get (js_get response ''payout'') ''payoutId'') (js_get response ''payoutId'')"

definition adminSubmitPayout ::
  "mon_schema \<Rightarrow> (js \<Rightarrow> int \<times> string) \<Rightarrow> js \<Rightarrow> int \<Rightarrow> mon_db \<Rightarrow> (mon_error + submit_outcome) \<times> mon_db" where
  "adminSubmitPayout sc pay input now db =
     (if input = JNull then (Inl NULL_INPUT, db)
      else
     (case assertIdentifier (js_get input ''requestId'') of Inl e \<Rightarrow> (Inl e, db)
      | Inr requestId \<Rightarrow>
     (case row_where (\<lambda>r. pq_id r = requestId) (payout_requests db) of None \<Rightarrow> (Inl PAYOUT_REQUEST_NOT_FOUND, db)
      | Some row \<Rightarrow>
     (case profile_of_developer (pq_developer row) db of None \<Rightarrow> (Inl PAYOUT_REQUEST_NOT_FOUND, db)
      | Some p \<Rightarrow>
     (if pq_status row \<notin> set [''requested'', ''reviewing'', ''approved''] then (Inl PAYOUT_NOT_READY, db)
      else if \<not> payout_allowed p then (Inl COMPLIANCE_REVOKED, db)
      else
     (case pay (payout_call row) of (status, body) \<Rightarrow>
     (if status < 200 \<or> 300 \<le> status then (Inr (PayRefused status body), db)
      else
     (case json_parse (if body = [] then ''{}'' else body) of None \<Rightarrow> (Inl MALFORMED_RESPONSE, db)
      | Some response \<Rightarrow>
          (let payoutId = returned_payout response
           in if \<not> truthy payoutId then (Inl PAYOUT_ID_MISSING, db)
              else commit_as sc (Submitted requestId payoutId)
                (db\<lparr>payout_requests := update_where (\<lambda>r. pq_id r = requestId)
                   (\<lambda>r. r\<lparr>pq_status := ''submitted'', pq_canonical := payoutId, pq_updated := now\<rparr>)
                   (payout_requests db)\<rparr>) db)))))))))"

text \<open>The release of a settlement: the payment service does it, and on its success the payment is booked.\<close>

definition settlement_call :: "string \<Rightarrow> string \<Rightarrow> int \<Rightarrow> int option \<Rightarrow> js" where
  "settlement_call paymentId key reserveBps hold =
     JObj [(''paymentId'', JStr paymentId), (''idempotencyKey'', JStr key), (''reserveBps'', JNum reserveBps),
       (''holdPeriodSeconds'', (case hold of None \<Rightarrow> JNull | Some n \<Rightarrow> JNum n))]"

definition adminReleaseSettlement ::
  "mon_schema \<Rightarrow> (js \<Rightarrow> int \<times> string) \<Rightarrow> js \<Rightarrow> int \<Rightarrow> mon_db \<Rightarrow> (mon_error + int \<times> string) \<times> mon_db" where
  "adminReleaseSettlement sc pay input now db =
     (if input = JNull then (Inl NULL_INPUT, db)
      else
     (case assertIdentifier (js_get input ''paymentId'') of Inl e \<Rightarrow> (Inl e, db)
      | Inr paymentId \<Rightarrow>
     (case assertIdentifier (js_get input ''idempotencyKey'') of Inl e \<Rightarrow> (Inl e, db)
      | Inr key \<Rightarrow>
     (case js_number (or_else (js_get input ''reserveBps'') (JNum 0)) of None \<Rightarrow> (Inl INVALID_RESERVE, db)
      | Some reserveBps \<Rightarrow>
     (if reserveBps < 0 \<or> 10000 < reserveBps then (Inl INVALID_RESERVE, db)
      else
     (case pay (settlement_call paymentId key reserveBps
         (js_number (or_else (js_get input ''holdPeriodSeconds'') (JNum 604800)))) of (status, body) \<Rightarrow>
        (if 200 \<le> status \<and> status < 300
         then and_then (syncPaymentRevenueEvent sc (JStr paymentId) now db) (\<lambda>_ db1. (Inr (status, body), db1))
         else (Inr (status, body), db))))))))"

section \<open>Reconciliation\<close>

definition platformFee :: "int \<Rightarrow> int \<Rightarrow> int" where
  "platformFee amount basisPoints = (amount * basisPoints) div 10000"

definition refund_join :: "mon_db \<Rightarrow> (refund_row \<times> payment_row) list" where
  "refund_join db =
     concat (map (\<lambda>r. map (\<lambda>p. (r, p)) (filter (\<lambda>p. pm_id p = rf_payment r) (payments db)))
       (sort_key rf_payment (sort_key rf_created (sort_key rf_refund
         (filter (\<lambda>r. rf_status r = ''succeeded'') (payment_refunds db))))))"

definition revenue_of_refund :: "refund_row \<Rightarrow> payment_row \<Rightarrow> int \<Rightarrow> int \<Rightarrow> revenue_row" where
  "revenue_of_refund r p before now =
     (let after = before + rf_amount r;
          platformAmount = platformFee after (pm_fee_bps p) - platformFee before (pm_fee_bps p)
      in \<lparr>rv_id = ''revenue:refund:'' @ rf_refund r, rv_source_kind = ''refund'',
          rv_source_id = ''refund:'' @ rf_refund r, rv_payment = Some (rf_payment r),
          rv_mini_app = pm_mini_app p, rv_developer = pm_developer p, rv_customer = Some (pm_user p),
          rv_gross = rf_amount r, rv_platform = platformAmount, rv_developer_amount = rf_amount r - platformAmount,
          rv_currency = rf_currency r, rv_rule = None, rv_status = ''posted'',
          rv_metadata = JObj [(''direction'', JStr ''reversal''), (''refundId'', JStr (rf_refund r))],
          rv_occurred = Some (int_or (rf_created r) now), rv_created = now\<rparr>)"

definition reverse_payment :: "string \<Rightarrow> mon_db \<Rightarrow> mon_db" where
  "reverse_payment payment db =
     db\<lparr>revenue_events := update_where
       (\<lambda>r. rv_source_id r = ''payment:'' @ payment \<and> rv_source_kind r \<in> set [''payment'', ''subscription''])
       (\<lambda>r. r\<lparr>rv_status := ''reversed''\<rparr>) (revenue_events db)\<rparr>"

text \<open>The walk over the refunds: \<open>cumulative\<close> is the map of what was refunded of a payment so far.\<close>

fun sync_refunds ::
  "mon_schema \<Rightarrow> int \<Rightarrow> (refund_row \<times> payment_row) list \<Rightarrow> (string \<Rightarrow> int) \<Rightarrow> nat \<Rightarrow> mon_db \<Rightarrow>
   (mon_error + nat) \<times> mon_db" where
  "sync_refunds sc now [] cumulative inserted db = (Inr inserted, db)"
| "sync_refunds sc now ((r, p) # rows) cumulative inserted db =
     (let before = cumulative (rf_payment r);
          row = revenue_of_refund r p before now;
          fresh = \<not> sc_revenue_known sc row (revenue_events db)
      in and_then (commit_as sc () (post_revenue sc row db) db) (\<lambda>_ db1.
         and_then (if pm_status p = ''refunded'' then commit_as sc () (reverse_payment (rf_payment r) db1) db1
                   else (Inr (), db1)) (\<lambda>_ db2.
         sync_refunds sc now rows (cumulative(rf_payment r := before + rf_amount r))
           (if fresh then inserted + 1 else inserted) db2)))"

definition syncRefundRevenueEvents :: "mon_schema \<Rightarrow> int \<Rightarrow> mon_db \<Rightarrow> (mon_error + nat \<times> nat) \<times> mon_db" where
  "syncRefundRevenueEvents sc now db =
     and_then (sync_refunds sc now (refund_join db) (\<lambda>_. 0) 0 db)
       (\<lambda>inserted db'. (Inr (length (refund_join db), inserted), db'))"

definition lapsed :: "int \<Rightarrow> subscription_row \<Rightarrow> bool" where
  "lapsed now r \<longleftrightarrow> sb_status r \<in> set [''trialing'', ''active'', ''past_due''] \<and>
     (case sb_period_end r of None \<Rightarrow> False | Some t \<Rightarrow> t \<le> now)"

definition expire_writes :: "int \<Rightarrow> subscription_row \<Rightarrow> mon_db \<Rightarrow> mon_db" where
  "expire_writes now row db =
     db\<lparr>subscriptions := update_where (\<lambda>r. sb_id r = sb_id row)
          (\<lambda>r. r\<lparr>sb_status := ''expired'', sb_updated := now\<rparr>) (subscriptions db),
        entitlements := update_where
          (\<lambda>r. entitlement_for (sb_user row) (sb_product row) (sb_capability row) r \<and> et_status r = ''active'')
          (\<lambda>r. r\<lparr>et_status := ''expired'',
                 et_expires := (case et_expires r of None \<Rightarrow> Some now | Some t \<Rightarrow> Some t)\<rparr>) (entitlements db)\<rparr>"

fun expire_all :: "mon_schema \<Rightarrow> int \<Rightarrow> subscription_row list \<Rightarrow> mon_db \<Rightarrow> (mon_error + unit) \<times> mon_db" where
  "expire_all sc now [] db = (Inr (), db)"
| "expire_all sc now (r # rows) db =
     and_then (commit_as sc () (expire_writes now r db) db) (\<lambda>_ db1. expire_all sc now rows db1)"

definition reconcileSubscriptions :: "mon_schema \<Rightarrow> int \<Rightarrow> mon_db \<Rightarrow> (mon_error + nat) \<times> mon_db" where
  "reconcileSubscriptions sc now db =
     (let expired = filter (lapsed now) (subscriptions db)
      in and_then (expire_all sc now expired db) (\<lambda>_ db'. (Inr (length expired), db')))"

definition reconciled_status :: "string \<Rightarrow> string" where
  "reconciled_status st =
     (if st = ''paid'' then ''paid'' else if st = ''failed'' then ''failed''
      else if st = ''cancelled'' then ''cancelled'' else ''submitted'')"

definition payout_join :: "mon_db \<Rightarrow> (payout_request_row \<times> canonical_payout_row) list" where
  "payout_join db =
     concat (map (\<lambda>r. map (\<lambda>p. (r, p)) (filter (\<lambda>p. cp_id p = pq_canonical r \<and> cp_id p \<noteq> JNull) (developer_payouts db)))
       (filter (\<lambda>r. pq_status r \<in> set [''approved'', ''submitted'']) (payout_requests db)))"

fun update_payouts ::
  "mon_schema \<Rightarrow> int \<Rightarrow> (payout_request_row \<times> canonical_payout_row) list \<Rightarrow> nat \<Rightarrow> mon_db \<Rightarrow>
   (mon_error + nat) \<times> mon_db" where
  "update_payouts sc now [] updated db = (Inr updated, db)"
| "update_payouts sc now ((r, p) # rows) updated db =
     (let status = reconciled_status (cp_status p)
      in if status = pq_status r then update_payouts sc now rows updated db
         else and_then (commit_as sc () (db\<lparr>payout_requests := update_where (\<lambda>x. pq_id x = pq_id r)
                (\<lambda>x. x\<lparr>pq_status := status, pq_updated := now\<rparr>) (payout_requests db)\<rparr>) db) (\<lambda>_ db1.
              update_payouts sc now rows
                (updated + changes (\<lambda>x. pq_id x = pq_id r) (payout_requests db)) db1))"

definition reconcilePayoutRequests :: "mon_schema \<Rightarrow> int \<Rightarrow> mon_db \<Rightarrow> (mon_error + nat \<times> nat) \<times> mon_db" where
  "reconcilePayoutRequests sc now db =
     and_then (update_payouts sc now (payout_join db) 0 db)
       (\<lambda>updated db'. (Inr (length (payout_join db), updated), db'))"

text \<open>The four counts of the report.  An unbalanced group is an entry and a currency.\<close>

record anomalies =
  an_payments_without_journal :: nat
  an_revenue_without_payment :: nat
  an_ads_without_journal :: nat
  an_unbalanced :: nat

definition posted_for :: "string \<Rightarrow> string \<Rightarrow> mon_db \<Rightarrow> bool" where
  "posted_for kind reference db \<longleftrightarrow>
     (\<exists>j \<in> set (journal_entries db). je_reference_type j = kind \<and> je_reference_id j = reference \<and>
        je_state j = ''posted'')"

definition posted_lines :: "mon_db \<Rightarrow> (string \<times> line_row) list" where
  "posted_lines db =
     concat (map (\<lambda>j. map (\<lambda>l. (je_id j, l)) (filter (\<lambda>l. jl_entry l = je_id j) (journal_lines db)))
       (filter (\<lambda>j. je_state j = ''posted'') (journal_entries db)))"

definition group_sum :: "string \<Rightarrow> string \<Rightarrow> (string \<times> line_row) list \<Rightarrow> int" where
  "group_sum entry currency rows =
     sum_list (map (\<lambda>(i, l). jl_amount l) (filter (\<lambda>(i, l). i = entry \<and> jl_currency l = currency) rows))"

definition unbalanced_groups :: "mon_db \<Rightarrow> (string \<times> string) list" where
  "unbalanced_groups db =
     (let rows = posted_lines db
      in filter (\<lambda>(entry, currency). group_sum entry currency rows \<noteq> 0)
           (remdups (map (\<lambda>(i, l). (i, jl_currency l)) rows)))"

definition anomalyReport :: "mon_db \<Rightarrow> anomalies" where
  "anomalyReport db =
     \<lparr>an_payments_without_journal =
        length (filter (\<lambda>p. pm_status p \<in> set settled \<and> \<not> posted_for ''payment'' (pm_id p) db) (payments db)),
      an_revenue_without_payment =
        length (filter (\<lambda>r. case rv_payment r of None \<Rightarrow> False | Some i \<Rightarrow> payment_get i db = None) (revenue_events db)),
      an_ads_without_journal =
        length (filter (\<lambda>r. rv_source_kind r = ''advertising'' \<and> \<not> posted_for ''ad_revenue'' (rv_source_id r) db)
          (revenue_events db)),
      an_unbalanced = length (unbalanced_groups db)\<rparr>"

fun sync_payments ::
  "mon_schema \<Rightarrow> int \<Rightarrow> payment_row list \<Rightarrow> nat \<Rightarrow> mon_db \<Rightarrow> (mon_error + nat) \<times> mon_db" where
  "sync_payments sc now [] n db = (Inr n, db)"
| "sync_payments sc now (p # ps) n db =
     and_then (syncPaymentRevenueEvent sc (JStr (pm_id p)) now db) (\<lambda>r db1.
       sync_payments sc now ps (if r = None then n else n + 1) db1)"

definition unsynced :: "mon_db \<Rightarrow> payment_row list" where
  "unsynced db = take 500 (sort_key pm_created (filter (\<lambda>p. pm_status p \<in> set settled \<and>
     (\<forall>r \<in> set (revenue_events db). rv_source_id r \<noteq> ''payment:'' @ pm_id p)) (payments db)))"

record reconciliation =
  rc_payments :: "nat \<times> nat"
  rc_refunds :: "nat \<times> nat"
  rc_expired :: nat
  rc_payouts :: "nat \<times> nat"
  rc_anomalies :: anomalies

definition healthy :: "anomalies \<Rightarrow> bool" where
  "healthy a \<longleftrightarrow> an_payments_without_journal a = 0 \<and> an_revenue_without_payment a = 0 \<and>
     an_ads_without_journal a = 0 \<and> an_unbalanced a = 0"

text \<open>The report, its \<open>ok\<close> flag (the status is 200 with it and 409 without) and the database after it.\<close>

definition monetizationReconcile :: "mon_schema \<Rightarrow> int \<Rightarrow> mon_db \<Rightarrow> (mon_error + bool \<times> reconciliation) \<times> mon_db" where
  "monetizationReconcile sc now db =
     (let pending = unsynced db
      in and_then (sync_payments sc now pending 0 db) (\<lambda>n db1.
         and_then (syncRefundRevenueEvents sc now db1) (\<lambda>refunds db2.
         and_then (reconcileSubscriptions sc now db2) (\<lambda>expired db3.
         and_then (reconcilePayoutRequests sc now db3) (\<lambda>payouts db4.
           (Inr (healthy (anomalyReport db4),
             \<lparr>rc_payments = (length pending, n), rc_refunds = refunds, rc_expired = expired,
              rc_payouts = payouts, rc_anomalies = anomalyReport db4\<rparr>), db4))))))"

section \<open>Handlers that bring a view up to date before they show it\<close>

fun sync_subscriptions :: "mon_schema \<Rightarrow> int \<Rightarrow> payment_row list \<Rightarrow> mon_db \<Rightarrow> (mon_error + unit) \<times> mon_db" where
  "sync_subscriptions sc now [] db = (Inr (), db)"
| "sync_subscriptions sc now (p # ps) db =
     and_then (syncSubscriptionFromPayment sc p now db) (\<lambda>_ db1. sync_subscriptions sc now ps db1)"

definition monetizationSubscriptions ::
  "mon_schema \<Rightarrow> string \<Rightarrow> int \<Rightarrow> mon_db \<Rightarrow> (mon_error + subscription_row list) \<times> mon_db" where
  "monetizationSubscriptions sc user now db =
     and_then (sync_subscriptions sc now (latest (\<lambda>r. Some (pm_created r))
        (filter (\<lambda>p. pm_user p = user \<and> pm_kind p = ''subscription'' \<and>
          pm_status p \<in> set [''succeeded'', ''partially_refunded'']) (payments db))) db) (\<lambda>_ db1.
       (Inr (latest (\<lambda>r. Some (sb_updated r)) (filter (\<lambda>r. sb_user r = user) (subscriptions db1))), db1))"

definition developerSummaryView ::
  "mon_schema \<Rightarrow> string \<Rightarrow> int \<Rightarrow> mon_db \<Rightarrow> (mon_error + developer_summary) \<times> mon_db" where
  "developerSummaryView sc user now db =
     and_then
       (case profile_of_owner user db of None \<Rightarrow> (Inr 0, db)
        | Some p \<Rightarrow>
            (if dp_developer p = [] then (Inr 0, db)
             else sync_payments sc now (latest (\<lambda>r. Some (pm_created r))
               (filter (\<lambda>r. pm_developer r = dp_developer p \<and> pm_status r \<in> set settled) (payments db))) 0 db))
       (\<lambda>_ db1. (developerSummary sc (JStr user) db1, db1))"

text \<open>The answer of the payment service to the status request decides whether the payment is booked.\<close>

definition monetizationPayment ::
  "mon_schema \<Rightarrow> int \<times> string \<Rightarrow> js \<Rightarrow> int \<Rightarrow> mon_db \<Rightarrow> (mon_error + int \<times> string) \<times> mon_db" where
  "monetizationPayment sc answer paymentId now db =
     (case assertIdentifier paymentId of Inl e \<Rightarrow> (Inl e, db)
      | Inr i \<Rightarrow>
     (case answer of (status, body) \<Rightarrow>
     (if status < 200 \<or> 300 \<le> status then (Inr (status, body), db)
      else
     (case json_parse (if body = [] then ''{}'' else body) of None \<Rightarrow> (Inl MALFORMED_RESPONSE, db)
      | Some parsed \<Rightarrow>
          (let payment = js_get parsed ''payment'';
               booked = or_value (js_get payment ''paymentId'') (or_value (js_get parsed ''paymentId'') paymentId);
               st = or_value (js_get payment ''status'') (js_get parsed ''status'')
           in if st \<in> set (map JStr settled)
              then and_then (syncPaymentRevenueEvent sc booked now db) (\<lambda>_ db1. (Inr (status, body), db1))
              else (Inr (status, body), db))))))"

end
