(* ===== verification/MonetizationLedger.thy ===== *)
theory MonetizationLedger
  imports MonetizationAdmin
begin

text \<open>
  What holds of the monetization tables whatever the order of the calls, where a call that books ad
  revenue may commit a decision it took on an older database: the journal stays balanced.
\<close>

section \<open>Effects\<close>

lemma commit_as_Inr: "commit_as sc x new db = (Inr y, db') \<longleftrightarrow> sc_accepts sc new \<and> y = x \<and> db' = new"
  by (auto simp: commit_as_def mon_commit_def)

lemma commit_as_Inl: "commit_as sc x new db = (Inl e, db') \<longleftrightarrow> \<not> sc_accepts sc new \<and> e = STATEMENT_REFUSED \<and> db' = db"
  by (auto simp: commit_as_def mon_commit_def)

lemma commit_as_cases:
  "commit_as sc x new db = (r, db') \<Longrightarrow> db' = db \<or> sc_accepts sc new \<and> db' = new"
  by (auto simp: commit_as_def mon_commit_def split: if_splits)

text \<open>
  The steps.  \<open>service_step\<close> is an operation of the service or its administration other than a booking
  of ad revenue.  \<open>mon_step\<close> adds the bookings: a decision on a database that was \<open>seen\<close> and its batch
  on the database as it is by then.  In \<open>serial_step\<close> a booking runs with nothing in between.
\<close>

inductive service_step :: "mon_schema \<Rightarrow> (string \<Rightarrow> string) \<Rightarrow> mon_db \<Rightarrow> mon_db \<Rightarrow> bool"
  for sc :: mon_schema and sha :: "string \<Rightarrow> string"
where
  payment: "syncPaymentRevenueEvent sc i now db = (r, db') \<Longrightarrow> service_step sc sha db db'"
| subscription: "syncSubscriptionFromPayment sc p now db = (r, db') \<Longrightarrow> service_step sc sha db db'"
| subscription_event: "applySubscriptionEvent sc sha input now db = (r, db') \<Longrightarrow> service_step sc sha db db'"
| register: "registerDeveloper sc u input now db = (r, db') \<Longrightarrow> service_step sc sha db db'"
| payout: "requestDeveloperPayout sc uuid u input now db = (r, db') \<Longrightarrow> service_step sc sha db db'"
| split_rule: "adminSplitRule sc actor input now db = (r, db') \<Longrightarrow> service_step sc sha db db'"
| campaign: "adminAdCampaign sc input now db = (r, db') \<Longrightarrow> service_step sc sha db db'"
| placement: "adminAdPlacement sc input now db = (r, db') \<Longrightarrow> service_step sc sha db db'"
| compliance: "adminDeveloperCompliance sc input now db = (r, db') \<Longrightarrow> service_step sc sha db db'"
| submit: "adminSubmitPayout sc pay input now db = (r, db') \<Longrightarrow> service_step sc sha db db'"
| settlement: "adminReleaseSettlement sc pay input now db = (r, db') \<Longrightarrow> service_step sc sha db db'"
| reconcile: "monetizationReconcile sc now db = (r, db') \<Longrightarrow> service_step sc sha db db'"
| subscriptions_view: "monetizationSubscriptions sc user now db = (r, db') \<Longrightarrow> service_step sc sha db db'"
| developer_view: "developerSummaryView sc user now db = (r, db') \<Longrightarrow> service_step sc sha db db'"
| payment_view: "monetizationPayment sc answer i now db = (r, db') \<Longrightarrow> service_step sc sha db db'"

inductive mon_step :: "mon_schema \<Rightarrow> (string \<Rightarrow> string) \<Rightarrow> mon_db \<Rightarrow> mon_db \<Rightarrow> bool"
  for sc :: mon_schema and sha :: "string \<Rightarrow> string"
where
  service: "service_step sc sha db db' \<Longrightarrow> mon_step sc sha db db'"
| ad_revenue: "plan_ad sha input now seen = Inr (Planned p) \<Longrightarrow> ad_commit sc uuid now p db = (r, db') \<Longrightarrow>
     mon_step sc sha db db'"

inductive serial_step :: "mon_schema \<Rightarrow> (string \<Rightarrow> string) \<Rightarrow> mon_db \<Rightarrow> mon_db \<Rightarrow> bool"
  for sc :: mon_schema and sha :: "string \<Rightarrow> string"
where
  serial_service: "service_step sc sha db db' \<Longrightarrow> serial_step sc sha db db'"
| booking: "recordVerifiedAdRevenue sc sha uuid input now db = (r, db') \<Longrightarrow> serial_step sc sha db db'"

inductive_cases service_stepE: "service_step sc sha db db'"
inductive_cases mon_stepE: "mon_step sc sha db db'"
inductive_cases serial_stepE: "serial_step sc sha db db'"

text \<open>What every operation but a booking leaves alone, and what may happen to the revenue events.\<close>

definition ad_revenue_rows :: "mon_db \<Rightarrow> string list" where
  "ad_revenue_rows db = map rv_source_id (filter (\<lambda>r. rv_source_kind r = ''advertising'') (revenue_events db))"

definition books ::
  "mon_db \<Rightarrow> entry_row list \<times> line_row list \<times> string list \<times> ad_event_row list \<times> campaign_row list" where
  "books db = (journal_entries db, journal_lines db, ad_revenue_rows db, ad_events db, campaigns db)"

lemma books_frame:
  "journal_entries db' = journal_entries db \<Longrightarrow> journal_lines db' = journal_lines db \<Longrightarrow>
   ad_events db' = ad_events db \<Longrightarrow> campaigns db' = campaigns db \<Longrightarrow> revenue_events db' = revenue_events db \<Longrightarrow> books db' = books db"
  by (simp add: books_def ad_revenue_rows_def)

lemma and_then_keeps:
  assumes "and_then res k = (r, db')"
    and "\<And>x d. res = (x, d) \<Longrightarrow> f d = c" and "\<And>x d. res = (Inr x, d) \<Longrightarrow> k x d = (r, db') \<Longrightarrow> f d = c \<Longrightarrow> f db' = c"
  shows "f db' = c"
  using assms by (cases "res" rule: prod.exhaust, cases "fst res") (fastforce simp: and_then_def)+

lemma books_post_revenue:
  "rv_source_kind row \<noteq> ''advertising'' \<Longrightarrow> books (post_revenue sc row db) = books db"
  by (simp add: books_def ad_revenue_rows_def post_revenue_def or_ignore_def)

lemma books_reverse_payment: "books (reverse_payment i db) = books db"
proof -
  have "map rv_source_id (filter (\<lambda>r. rv_source_kind r = ''advertising'') (update_where p (\<lambda>r. r\<lparr>rv_status := s\<rparr>) rows)) =
      map rv_source_id (filter (\<lambda>r. rv_source_kind r = ''advertising'') rows)" for p s and rows :: "revenue_row list"
    by (induction rows) auto
  then show ?thesis by (simp add: books_def ad_revenue_rows_def reverse_payment_def)
qed

lemma books_commit:
  "commit_as sc x new db = (r, db') \<Longrightarrow> books new = books db \<Longrightarrow> books db' = books db"
  by (auto dest: commit_as_cases)

lemma books_syncSubscription:
  "syncSubscriptionFromPayment sc p now db = (r, db') \<Longrightarrow> books db' = books db"
  by (auto simp: syncSubscriptionFromPayment_def Let_def split: option.splits if_splits
      elim!: books_commit intro!: books_frame)

lemma books_syncPayment:
  "syncPaymentRevenueEvent sc i now db = (r, db') \<Longrightarrow> books db' = books db"
proof -
  assume run: "syncPaymentRevenueEvent sc i now db = (r, db')"
  have kind: "rv_source_kind (revenue_of_payment p now) \<noteq> ''advertising''" for p
    by (simp add: revenue_of_payment_def Let_def)
  show ?thesis
  proof (cases "db' = db")
    case False
    with run obtain p where
      "and_then (commit_as sc () (post_revenue sc (revenue_of_payment p now) db) db) (\<lambda>_ db1.
        and_then (if pm_kind p = ''subscription'' then syncSubscriptionFromPayment sc p now db1 else (Inr None, db1))
          (\<lambda>_ db2. (Inr (Some (revenue_of_payment p now)), db2))) = (r, db')"
      by (auto simp: syncPaymentRevenueEvent_def Let_def split: sum.splits option.splits if_splits)
    then show ?thesis
      by (auto simp: and_then_def kind books_post_revenue split: prod.splits sum.splits if_splits
          dest!: books_syncSubscription books_commit)
  qed simp
qed

lemma books_applySubscriptionEvent:
  "applySubscriptionEvent sc sha input now db = (r, db') \<Longrightarrow> books db' = books db"
  by (auto simp: applySubscriptionEvent_def Let_def event_writes_def split: sum.splits option.splits if_splits
      elim!: books_commit intro!: books_frame)

lemma books_registerDeveloper:
  "registerDeveloper sc u input now db = (r, db') \<Longrightarrow> books db' = books db"
  by (auto simp: registerDeveloper_def Let_def split: sum.splits if_splits elim!: books_commit intro!: books_frame)

lemma books_requestPayout:
  "requestDeveloperPayout sc uuid u input now db = (r, db') \<Longrightarrow> books db' = books db"
  by (auto simp: requestDeveloperPayout_def file_payout_def Let_def split: sum.splits option.splits if_splits
      elim!: books_commit intro!: books_frame)

lemma books_adminSplitRule:
  "adminSplitRule sc actor input now db = (r, db') \<Longrightarrow> books db' = books db"
  by (auto simp: adminSplitRule_def Let_def split: sum.splits option.splits if_splits
      elim!: books_commit intro!: books_frame)

lemma adminAdCampaign_effect:
  assumes "adminAdCampaign sc input now db = (r, db')"
  shows "db' = db \<or> (\<exists>row. campaign_of_input input now = Inr row \<and>
    db' = db\<lparr>campaigns := upsert_row cg_id row (edited_campaign row) (campaigns db)\<rparr>)"
  using assms by (auto simp: adminAdCampaign_def split: sum.splits if_splits dest!: commit_as_cases)

lemma books_adminAdPlacement: "adminAdPlacement sc input now db = (r, db') \<Longrightarrow> books db' = books db"
  by (auto simp: adminAdPlacement_def split: sum.splits if_splits elim!: books_commit intro!: books_frame)

lemma books_adminCompliance: "adminDeveloperCompliance sc input now db = (r, db') \<Longrightarrow> books db' = books db"
  by (auto simp: adminDeveloperCompliance_def Let_def split: sum.splits if_splits
      elim!: books_commit intro!: books_frame)

lemma books_adminSubmitPayout: "adminSubmitPayout sc pay input now db = (r, db') \<Longrightarrow> books db' = books db"
  by (auto simp: adminSubmitPayout_def Let_def split: sum.splits option.splits prod.splits if_splits
      elim!: books_commit intro!: books_frame)

lemma books_sync_payments: "sync_payments sc now ps n db = (r, db') \<Longrightarrow> books db' = books db"
proof (induction ps arbitrary: n db)
  case (Cons p ps)
  then show ?case
    by (auto simp: and_then_def split: prod.splits sum.splits dest!: books_syncPayment)
qed simp

lemma books_sync_refunds: "sync_refunds sc now rows cum n db = (r, db') \<Longrightarrow> books db' = books db"
proof (induction rows arbitrary: cum n db)
  case (Cons rp rows)
  obtain rf p where rp: "rp = (rf, p)" by (cases rp)
  have kind: "rv_source_kind (revenue_of_refund rf p b now) \<noteq> ''advertising''" for b
    by (simp add: revenue_of_refund_def Let_def)
  from Cons.prems show ?case
    by (auto simp: rp and_then_def Let_def kind books_post_revenue books_reverse_payment
        split: prod.splits sum.splits if_splits dest!: books_commit Cons.IH)
qed simp

lemma books_expire_all: "expire_all sc now rows db = (r, db') \<Longrightarrow> books db' = books db"
proof (induction rows arbitrary: db)
  case (Cons x rows)
  have "books (expire_writes now x d) = books d" for d by (rule books_frame) (simp_all add: expire_writes_def)
  with Cons show ?case by (auto simp: and_then_def split: prod.splits sum.splits dest!: books_commit)
qed simp

lemma books_update_payouts: "update_payouts sc now rows n db = (r, db') \<Longrightarrow> books db' = books db"
proof (induction rows arbitrary: n db)
  case (Cons rp rows)
  obtain rq p where rp: "rp = (rq, p)" by (cases rp)
  have "books (d\<lparr>payout_requests := x\<rparr>) = books d" for d x by (rule books_frame) simp_all
  with Cons show ?case
    by (auto simp: rp and_then_def Let_def split: prod.splits sum.splits if_splits dest!: books_commit)
qed simp

lemma books_reconcile: "monetizationReconcile sc now db = (r, db') \<Longrightarrow> books db' = books db"
  by (auto simp: monetizationReconcile_def Let_def and_then_def syncRefundRevenueEvents_def
      reconcileSubscriptions_def reconcilePayoutRequests_def split: prod.splits sum.splits
      dest!: books_sync_payments books_sync_refunds books_expire_all books_update_payouts)

lemma books_sync_subscriptions: "sync_subscriptions sc now ps db = (r, db') \<Longrightarrow> books db' = books db"
proof (induction ps arbitrary: db)
  case (Cons p ps)
  then show ?case by (auto simp: and_then_def split: prod.splits sum.splits dest!: books_syncSubscription)
qed simp

lemma books_views:
  "monetizationSubscriptions sc user now db = (r1, db') \<Longrightarrow> books db' = books db"
  "developerSummaryView sc user now db = (r2, db') \<Longrightarrow> books db' = books db"
  "monetizationPayment sc answer i now db = (r3, db') \<Longrightarrow> books db' = books db"
  "adminReleaseSettlement sc pay input now db = (r4, db') \<Longrightarrow> books db' = books db"
  by (auto simp: monetizationSubscriptions_def developerSummaryView_def monetizationPayment_def
      adminReleaseSettlement_def and_then_def Let_def split: prod.splits sum.splits option.splits if_splits
      dest!: books_sync_subscriptions books_sync_payments books_syncPayment)

lemmas books_keepers = books_syncPayment books_syncSubscription books_applySubscriptionEvent
  books_registerDeveloper books_requestPayout books_adminSplitRule
  books_adminAdPlacement books_adminCompliance books_adminSubmitPayout books_reconcile books_views

lemma service_step_books:
  assumes "service_step sc sha db db'"
  shows "books db' = books db \<or> (\<exists>input now row. campaign_of_input input now = Inr row \<and>
    db' = db\<lparr>campaigns := upsert_row cg_id row (edited_campaign row) (campaigns db)\<rparr>)"
  using assms
proof (cases rule: service_step.cases)
  case (campaign input now r)
  then show ?thesis using adminAdCampaign_effect by blast
qed (auto dest!: books_keepers)

section \<open>A booking\<close>

lemma allocate_Inr:
  "allocateTwoPartySplit g a b = Inr al \<Longrightarrow>
     al_gross al = g \<and> al_platform al + al_developer al = g \<and> 0 < g \<and> al_platform al = bps_share g a \<and>
     0 \<le> a \<and> a \<le> 10000 \<and> b = 10000 - a"
  by (auto simp: allocateTwoPartySplit_def assertMinorAmount_def check_split_def Let_def
      split: sum.splits if_splits)

lemma price_ad_Inr:
  assumes "price_ad sha input now key ty q campaign placement db = Inr p"
  shows "al_platform (ap_allocation p) + al_developer (ap_allocation p) = ap_billable p \<and> 0 < ap_billable p \<and>
    ap_campaign p = campaign \<and> ap_placement p = placement \<and> ap_key p = key \<and>
    cg_spent campaign + ap_billable p \<le> cg_total_budget campaign"
  using assms by (auto simp: price_ad_def split: sum.splits if_splits dest!: allocate_Inr)

lemma plan_ad_Planned:
  assumes "plan_ad sha input now db = Inr (Planned p)"
  obtains "campaign_get (cg_id (ap_campaign p)) db = Some (ap_campaign p)" "cg_status (ap_campaign p) = ''active''"
    "placement_get (pl_id (ap_placement p)) db = Some (ap_placement p)" "pl_status (ap_placement p) = ''active''"
    "al_platform (ap_allocation p) + al_developer (ap_allocation p) = ap_billable p" "0 < ap_billable p"
    "cg_spent (ap_campaign p) + ap_billable p \<le> cg_total_budget (ap_campaign p)"
    "ad_event_get (ap_key p) db = None"
proof -
  have ids: "campaign_get i d = Some c \<Longrightarrow> cg_id c = i" "placement_get i d = Some pl \<Longrightarrow> pl_id pl = i"
    for i d c pl by (auto simp: campaign_get_def placement_get_def dest: row_where_SomeD)
  have planned: "map_sum id Planned x = Inr (Planned p) \<longleftrightarrow> x = Inr p" for x :: "mon_error + ad_plan"
    by (cases x) auto
  from assms obtain c q campaign placement ty key where
    read: "campaign_get c db = Some campaign" "placement_get q db = Some placement" "cg_status campaign = ''active''"
      "pl_status placement = ''active''" "ad_event_get key db = None"
    and priced: "\<exists>n. price_ad sha input now key ty n campaign placement db = Inr p"
    by (auto simp: plan_ad_def Let_def planned split: sum.splits option.splits if_splits; blast)
  from priced price_ad_Inr have
    p: "al_platform (ap_allocation p) + al_developer (ap_allocation p) = ap_billable p" "0 < ap_billable p"
      "ap_campaign p = campaign" "ap_placement p = placement" "ap_key p = key"
      "cg_spent campaign + ap_billable p \<le> cg_total_budget campaign"
    by blast+
  show ?thesis by (rule that) (use read p ids in auto)
qed

section \<open>The ledger\<close>

text \<open>Primary keys, which the schema enforces: what a committed database satisfies.\<close>

definition journal_keyed :: "mon_schema \<Rightarrow> bool" where
  "journal_keyed sc \<longleftrightarrow> (\<forall>db. sc_accepts sc db \<longrightarrow> distinct (map je_id (journal_entries db)))"

definition lines_known :: "mon_db \<Rightarrow> bool" where
  "lines_known db \<longleftrightarrow> jl_entry ` set (journal_lines db) \<subseteq> je_id ` set (journal_entries db)"

definition ledger_ok :: "mon_db \<Rightarrow> bool" where
  "ledger_ok db \<longleftrightarrow> lines_known db \<and> an_unbalanced (anomalyReport db) = 0 \<and> an_ads_without_journal (anomalyReport db) = 0"

lemma unbalanced_iff:
  "an_unbalanced (anomalyReport db) = 0 \<longleftrightarrow>
     (\<forall>(i, l) \<in> set (posted_lines db). group_sum i (jl_currency l) (posted_lines db) = 0)"
  by (force simp: anomalyReport_def unbalanced_groups_def Let_def filter_empty_conv)

lemma ads_journal_iff:
  "an_ads_without_journal (anomalyReport db) = 0 \<longleftrightarrow> (\<forall>i \<in> set (ad_revenue_rows db). posted_for ''ad_revenue'' i db)"
  by (auto simp: anomalyReport_def filter_empty_conv ad_revenue_rows_def)

lemma ledger_ok_books:
  assumes "books db' = books db"
  shows "ledger_ok db' = ledger_ok db"
  using assms
  by (auto simp: ledger_ok_def unbalanced_iff ads_journal_iff books_def lines_known_def posted_lines_def
      posted_for_def)

lemma group_sum_append: "group_sum i c (xs @ ys) = group_sum i c xs + group_sum i c ys"
  by (simp add: group_sum_def)

lemma group_sum_absent: "(\<And>j l. (j, l) \<in> set xs \<Longrightarrow> j \<noteq> i) \<Longrightarrow> group_sum i c xs = 0"
  by (induction xs) (auto simp: group_sum_def)

lemma ad_lines_facts:
  "\<forall>l \<in> set (ad_lines p uuid now). jl_entry l = ad_entry_id uuid \<and> jl_currency l = ap_event_currency p"
  by (auto simp: ad_lines_def Let_def split: prod.splits)

lemma ad_lines_sum:
  "al_platform (ap_allocation p) + al_developer (ap_allocation p) = ap_billable p \<Longrightarrow>
   group_sum i c (map (Pair i) (ad_lines p uuid now)) = 0"
  by (auto simp: ad_lines_def group_sum_def Let_def split: prod.splits)

lemma ad_writes_books:
  "journal_entries (ad_writes sc p uuid now db) = journal_entries db @ [ad_entry_of uuid now]"
  "journal_lines (ad_writes sc p uuid now db) = journal_lines db @ ad_lines p uuid now"
  "ad_events (ad_writes sc p uuid now db) = ad_events db @ [ad_event_of p uuid now]"
  "campaigns (ad_writes sc p uuid now db) = update_where (may_charge p) (charge p now) (campaigns db)"
  "ad_revenue_rows (ad_writes sc p uuid now db) = ad_revenue_rows db @ [ad_event_id uuid]"
  by (simp_all add: ad_writes_def ad_revenue_rows_def ad_revenue_of_def split: prod.splits)

lemma posted_lines_booking:
  assumes known: "lines_known db" and fresh: "ad_entry_id uuid \<notin> je_id ` set (journal_entries db)"
  shows "posted_lines (ad_writes sc p uuid now db) =
    posted_lines db @ map (Pair (ad_entry_id uuid)) (ad_lines p uuid now)"
proof -
  let ?new = "ad_lines p uuid now"
  have old: "filter (\<lambda>l. jl_entry l = je_id j) ?new = []" if "j \<in> set (journal_entries db)" for j
    by (rule filter_False) (use that fresh ad_lines_facts in force)
  have "filter (\<lambda>l. jl_entry l = ad_entry_id uuid) (journal_lines db) = []"
    by (rule filter_False) (use known fresh in \<open>metis image_subset_iff lines_known_def\<close>)
  moreover have "filter (\<lambda>l. jl_entry l = ad_entry_id uuid) ?new = ?new"
    using ad_lines_facts [of p uuid now] by (simp add: filter_id_conv)
  ultimately show ?thesis
    by (simp add: posted_lines_def ad_writes_books ad_entry_of_def)
      (rule arg_cong [where f = concat], auto intro!: map_cong simp: old)
qed

lemma posted_lines_entry: "(i, l) \<in> set (posted_lines db) \<Longrightarrow> i \<in> je_id ` set (journal_entries db)"
  by (auto simp: posted_lines_def)

lemma booking_ledger_ok:
  assumes ok: "ledger_ok db" and fresh: "ad_entry_id uuid \<notin> je_id ` set (journal_entries db)"
    and sums: "al_platform (ap_allocation p) + al_developer (ap_allocation p) = ap_billable p"
  shows "ledger_ok (ad_writes sc p uuid now db)"
proof -
  let ?db' = "ad_writes sc p uuid now db" and ?i = "ad_entry_id uuid"
  let ?new = "map (Pair ?i) (ad_lines p uuid now)"
  from ok have known: "lines_known db"
    and balanced: "\<forall>(i, l) \<in> set (posted_lines db). group_sum i (jl_currency l) (posted_lines db) = 0"
    and posted: "\<forall>i \<in> set (ad_revenue_rows db). posted_for ''ad_revenue'' i db"
    by (simp_all add: ledger_ok_def unbalanced_iff ads_journal_iff)
  note lines' = posted_lines_booking [OF known fresh, of sc p now]
  have "group_sum i (jl_currency l) (posted_lines ?db') = 0" if "(i, l) \<in> set (posted_lines ?db')" for i l
  proof (cases "i = ?i")
    case True
    have "group_sum i (jl_currency l) (posted_lines db) = 0"
      by (rule group_sum_absent) (use True fresh posted_lines_entry in blast)
    with True ad_lines_sum [OF sums] show ?thesis by (simp add: lines' group_sum_append)
  next
    case False
    have "group_sum i (jl_currency l) ?new = 0" by (rule group_sum_absent) (use False in auto)
    moreover from that False have "(i, l) \<in> set (posted_lines db)" by (auto simp: lines')
    ultimately show ?thesis using balanced by (auto simp: lines' group_sum_append)
  qed
  moreover have "lines_known ?db'"
    using known ad_lines_facts [of p uuid now]
    by (auto simp: lines_known_def ad_writes_books ad_entry_of_def)
  moreover have "posted_for ''ad_revenue'' i ?db'" if "i \<in> set (ad_revenue_rows ?db')" for i
    using that posted by (auto simp: posted_for_def ad_writes_books ad_entry_of_def)
  ultimately show ?thesis by (auto simp: ledger_ok_def unbalanced_iff ads_journal_iff)
qed

lemma booking_step_ledger_ok:
  assumes keyed: "journal_keyed sc" and ok: "ledger_ok db" and plan: "plan_ad sha input now seen = Inr (Planned p)"
    and run: "ad_commit sc uuid now p db = (r, db')"
  shows "ledger_ok db'"
proof (cases "db' = db")
  case True
  with ok show ?thesis by simp
next
  case False
  with run have "sc_accepts sc db'" and db': "db' = ad_writes sc p uuid now db"
    by (auto simp: ad_commit_def dest!: commit_as_cases)
  with keyed have "distinct (map je_id (journal_entries db'))" by (simp add: journal_keyed_def)
  then have "ad_entry_id uuid \<notin> je_id ` set (journal_entries db)" by (simp add: db' ad_writes_books ad_entry_of_def)
  with ok plan show ?thesis unfolding db' by (auto elim!: plan_ad_Planned intro: booking_ledger_ok)
qed

lemma ledger_ok_campaigns: "ledger_ok (db\<lparr>campaigns := cs\<rparr>) = ledger_ok db"
  by (simp add: ledger_ok_def unbalanced_iff ads_journal_iff lines_known_def posted_lines_def
      posted_for_def ad_revenue_rows_def)

lemma ledger_step:
  assumes "journal_keyed sc" "ledger_ok db" "mon_step sc sha db db'"
  shows "ledger_ok db'"
  using assms(3)
proof (cases rule: mon_step.cases)
  case service
  from service_step_books [OF this] assms(2) show ?thesis
    by (elim disjE exE conjE) (use ledger_ok_books in blast, simp add: ledger_ok_campaigns)
next
  case (ad_revenue input now seen p uuid r)
  with assms booking_step_ledger_ok show ?thesis by blast
qed

interpretation ledger: invariant_system "mon_step sc sha" "\<lambda>db. journal_keyed sc \<and> ledger_ok db"
  by unfold_locales (use ledger_step in blast)

section \<open>Spending\<close>

definition booked :: "string \<Rightarrow> mon_db \<Rightarrow> int" where
  "booked i db = sum_list (map ae_billable (filter (\<lambda>e. ae_campaign e = i) (ad_events db)))"

definition spend_ok :: "mon_db \<Rightarrow> bool" where
  "spend_ok db \<longleftrightarrow> distinct (map cg_id (campaigns db)) \<and> ae_campaign ` set (ad_events db) \<subseteq> cg_id ` set (campaigns db) \<and>
     (\<forall>c \<in> set (campaigns db). cg_spent c = booked (cg_id c) db)"

interpretation campaign_table: keyed_table campaign_get campaigns cg_id
  by unfold_locales (simp add: campaign_get_def)

lemma campaign_of_input_spent: "campaign_of_input input now = Inr row \<Longrightarrow> cg_spent row = 0"
  by (auto simp: campaign_of_input_def Let_def split: sum.splits option.splits if_splits)

lemma spend_campaign_edit:
  assumes ok: "spend_ok db" and new: "cg_spent row = 0"
  shows "spend_ok (db\<lparr>campaigns := upsert_row cg_id row (edited_campaign row) (campaigns db)\<rparr>)"
proof -
  let ?cs = "upsert_row cg_id row (edited_campaign row) (campaigns db)"
  have keys: "map cg_id ?cs = (if cg_id row \<in> set (map cg_id (campaigns db)) then map cg_id (campaigns db)
      else map cg_id (campaigns db) @ [cg_id row])"
    by (rule upsert_row_keys) (simp add: edited_campaign_def)
  have "cg_spent c = booked (cg_id c) db" if "c \<in> set ?cs" for c
  proof (cases "cg_id row \<in> set (map cg_id (campaigns db))")
    case True
    with that ok show ?thesis
      by (auto simp: upsert_row_def set_update_where edited_campaign_def spend_ok_def split: if_splits)
  next
    case False
    then have "filter (\<lambda>e. ae_campaign e = cg_id row) (ad_events db) = []"
      using ok by (intro filter_False) (metis image_subset_iff list.set_map spend_ok_def)
    with False that ok new show ?thesis by (auto simp: upsert_row_def booked_def spend_ok_def)
  qed
  moreover have "distinct (map cg_id ?cs)" using keys ok by (simp add: spend_ok_def)
  moreover have "set (map cg_id (campaigns db)) \<subseteq> set (map cg_id ?cs)" using keys by auto
  ultimately show ?thesis using ok by (simp add: spend_ok_def booked_def) blast
qed

lemma spend_booking:
  assumes ok: "spend_ok db" and plan: "plan_ad sha input now db = Inr (Planned p)"
  shows "spend_ok (ad_writes sc p uuid now db)"
  using plan
proof (rule plan_ad_Planned)
  let ?c = "ap_campaign p"
  assume read: "campaign_get (cg_id ?c) db = Some ?c" and active: "cg_status ?c = ''active''"
    and budget: "cg_spent ?c + ap_billable p \<le> cg_total_budget ?c"
  from ok have dist: "distinct (map cg_id (campaigns db))" by (simp add: spend_ok_def)
  from read have member: "?c \<in> set (campaigns db)" using campaign_table.lookup_Some by blast
  have guard: "may_charge p c \<longleftrightarrow> cg_id c = cg_id ?c" if "c \<in> set (campaigns db)" for c
    using distinct_key_unique [OF dist that member] active budget by (auto simp: may_charge_def)
  have keys: "map cg_id (update_where (may_charge p) (charge p now) (campaigns db)) = map cg_id (campaigns db)"
    by (rule map_update_where) (simp add: charge_def)
  have booked': "booked i (ad_writes sc p uuid now db) = booked i db + (if i = cg_id ?c then ap_billable p else 0)" for i
    by (simp add: booked_def ad_writes_books ad_event_of_def)
  have spent: "cg_spent c = booked (cg_id c) db" if "c \<in> set (campaigns db)" for c
    using ok that by (simp add: spend_ok_def)
  have "cg_spent c = booked (cg_id c) (ad_writes sc p uuid now db)"
    if "c \<in> set (update_where (may_charge p) (charge p now) (campaigns db))" for c
  proof -
    from that obtain c0 where "c0 \<in> set (campaigns db)" and c: "c = (if may_charge p c0 then charge p now c0 else c0)"
      by (auto simp: set_update_where)
    then show ?thesis using guard [of c0] spent [of c0] by (simp add: booked' charge_def)
  qed
  moreover have "cg_id ` set (update_where (may_charge p) (charge p now) (campaigns db)) = cg_id ` set (campaigns db)"
    using arg_cong [OF keys, of set] by simp
  moreover have "ae_campaign ` set (ad_events db) \<subseteq> cg_id ` set (campaigns db)"
    using ok by (simp add: spend_ok_def)
  ultimately show ?thesis
    using dist keys member by (simp add: spend_ok_def ad_writes_books ad_event_of_def)
qed

lemma spend_step:
  assumes "spend_ok db" "serial_step sc sha db db'"
  shows "spend_ok db'"
  using assms(2)
proof (cases rule: serial_step.cases)
  case serial_service
  from service_step_books [OF this] show ?thesis
  proof (elim disjE exE conjE)
    assume "books db' = books db"
    with assms(1) show ?thesis by (auto simp: spend_ok_def books_def booked_def)
  qed (use assms(1) spend_campaign_edit campaign_of_input_spent in blast)
next
  case (booking uuid input now r)
  then show ?thesis using assms(1)
    by (auto simp: recordVerifiedAdRevenue_def ad_commit_def split: sum.splits ad_decision.splits
        dest!: commit_as_cases intro: spend_booking)
qed

interpretation spending: invariant_system "serial_step sc sha" spend_ok
  by unfold_locales (rule spend_step)

section \<open>Events and retries\<close>

text \<open>The provider's events are only ever appended, and so are the bookings.\<close>

lemma provider_events_post [simp]: "provider_events (post_revenue sc r db) = provider_events db"
  by (simp add: post_revenue_def)

lemma commit_keeps: "commit_as sc x new db = (r, db') \<Longrightarrow> f new = f db \<Longrightarrow> f db' = f db"
  by (auto dest: commit_as_cases)

lemma events_syncSubscription:
  "syncSubscriptionFromPayment sc p now db = (r, db') \<Longrightarrow> provider_events db' = provider_events db"
  by (auto simp: syncSubscriptionFromPayment_def Let_def split: option.splits if_splits
      dest!: commit_keeps [where f = provider_events])

lemma events_syncPayment:
  "syncPaymentRevenueEvent sc i now db = (r, db') \<Longrightarrow> provider_events db' = provider_events db"
  by (auto simp: syncPaymentRevenueEvent_def and_then_def Let_def
      split: sum.splits option.splits if_splits prod.splits
      dest!: commit_keeps [where f = provider_events] events_syncSubscription)

lemma events_sync_payments:
  "sync_payments sc now ps n db = (r, db') \<Longrightarrow> provider_events db' = provider_events db"
  by (induction ps arbitrary: n db)
    (auto simp: and_then_def split: prod.splits sum.splits dest!: events_syncPayment)

lemma events_sync_refunds:
  "sync_refunds sc now rows cum n db = (r, db') \<Longrightarrow> provider_events db' = provider_events db"
proof (induction rows arbitrary: cum n db)
  case (Cons rp rows)
  obtain rf p where rp: "rp = (rf, p)" by (cases rp)
  from Cons.prems show ?case
    by (auto simp: rp and_then_def Let_def reverse_payment_def split: prod.splits sum.splits if_splits
        dest!: commit_keeps [where f = provider_events] Cons.IH)
qed simp

lemma events_expire_all:
  "expire_all sc now rows db = (r, db') \<Longrightarrow> provider_events db' = provider_events db"
  by (induction rows arbitrary: db)
    (auto simp: and_then_def expire_writes_def split: prod.splits sum.splits
      dest!: commit_keeps [where f = provider_events])

lemma events_update_payouts:
  "update_payouts sc now rows n db = (r, db') \<Longrightarrow> provider_events db' = provider_events db"
proof (induction rows arbitrary: n db)
  case (Cons rp rows)
  obtain rq p where rp: "rp = (rq, p)" by (cases rp)
  from Cons show ?case
    by (auto simp: rp and_then_def Let_def split: prod.splits sum.splits if_splits
        dest!: commit_keeps [where f = provider_events])
qed simp

lemma events_reconcile:
  "monetizationReconcile sc now db = (r, db') \<Longrightarrow> provider_events db' = provider_events db"
  by (auto simp: monetizationReconcile_def Let_def and_then_def syncRefundRevenueEvents_def
      reconcileSubscriptions_def reconcilePayoutRequests_def split: prod.splits sum.splits
      dest!: events_sync_payments events_sync_refunds events_expire_all events_update_payouts)

lemma events_sync_subscriptions: "sync_subscriptions sc now ps db = (r, db') \<Longrightarrow> provider_events db' = provider_events db"
proof (induction ps arbitrary: db)
  case (Cons p ps)
  then show ?case by (auto simp: and_then_def split: prod.splits sum.splits dest!: events_syncSubscription)
qed simp

lemma events_views:
  "monetizationSubscriptions sc user now db = (r1, db') \<Longrightarrow> provider_events db' = provider_events db"
  "developerSummaryView sc user now db = (r2, db') \<Longrightarrow> provider_events db' = provider_events db"
  "monetizationPayment sc answer i now db = (r3, db') \<Longrightarrow> provider_events db' = provider_events db"
  "adminReleaseSettlement sc pay input now db = (r4, db') \<Longrightarrow> provider_events db' = provider_events db"
  by (auto simp: monetizationSubscriptions_def developerSummaryView_def monetizationPayment_def
      adminReleaseSettlement_def and_then_def Let_def split: prod.splits sum.splits option.splits if_splits
      dest!: events_sync_subscriptions events_sync_payments events_syncPayment)

lemma applySubscriptionEvent_Applied:
  assumes "applySubscriptionEvent sc sha input now db = (Inr (Applied s st), db')"
  obtains ev row where "read_event input = Inr ev" "provider_events db' = provider_events db @ [row]"
    "pe_key row = (ev_provider ev, ev_event ev)" "pe_payload_hash row = sha (stringify input)"
    "provider_event_get (ev_provider ev, ev_event ev) db = None"
proof -
  from assms obtain ev where ev: "read_event input = Inr ev"
    by (auto simp: applySubscriptionEvent_def split: sum.splits)
  with assms obtain payment start finish where new:
    "provider_event_get (ev_provider ev, ev_event ev) db = None"
    "db' = event_writes payment \<lparr>pe_key = (ev_provider ev, ev_event ev), pe_payload_hash = sha (stringify input),
        pe_state = ''processed'', pe_subject = subscription_id (ev_provider ev) (ev_reference ev),
        pe_occurred = number_or (js_get input ''occurredAt'') now, pe_processed = now\<rparr>
      (subscription_of_event payment (ev_provider ev) (ev_reference ev) (ev_status ev) start finish
        (truthy (js_get input ''cancelAtPeriodEnd'')) now) now db"
    by (auto simp: applySubscriptionEvent_def Let_def commit_as_Inr subscription_of_event_def
        split: sum.splits option.splits if_splits)
  have "\<exists>row. provider_events db' = provider_events db @ [row] \<and>
      pe_key row = (ev_provider ev, ev_event ev) \<and> pe_payload_hash row = sha (stringify input)"
    by (simp add: new event_writes_def Let_def)
  with that ev new(1) show ?thesis by blast
qed

lemma applySubscriptionEvent_effect:
  "applySubscriptionEvent sc sha input now db = (r, db') \<Longrightarrow> \<exists>rows. provider_events db' = provider_events db @ rows"
  by (auto simp: applySubscriptionEvent_def Let_def event_writes_def split: sum.splits option.splits if_splits
      dest!: commit_as_cases)

lemma service_step_events:
  assumes "service_step sc sha db db'"
  shows "\<exists>rows. provider_events db' = provider_events db @ rows"
  using assms
proof (cases rule: service_step.cases)
  case (payment i now r)
  then show ?thesis by (auto dest!: events_syncPayment)
next
  case (subscription p now r)
  then show ?thesis by (auto dest!: events_syncSubscription)
next
  case (subscription_event input now r)
  then show ?thesis by (rule applySubscriptionEvent_effect)
next
  case (reconcile now r)
  then show ?thesis by (auto dest!: events_reconcile)
next
  case (settlement pay input now r)
  then show ?thesis by (auto dest!: events_views)
next
  case (subscriptions_view user now r)
  then show ?thesis by (auto dest!: events_views)
next
  case (developer_view user now r)
  then show ?thesis by (auto dest!: events_views)
next
  case (payment_view answer i now r)
  then show ?thesis by (auto dest!: events_views)
qed (auto simp: registerDeveloper_def requestDeveloperPayout_def file_payout_def adminSplitRule_def
    adminAdCampaign_def adminAdPlacement_def adminDeveloperCompliance_def adminSubmitPayout_def Let_def
    split: sum.splits option.splits prod.splits if_splits dest!: commit_as_cases)

lemma mon_step_events:
  assumes "mon_step sc sha db db'"
  shows "\<exists>rows. provider_events db' = provider_events db @ rows"
  using assms
proof (cases rule: mon_step.cases)
  case (ad_revenue input now seen p uuid r)
  then show ?thesis by (auto simp: ad_commit_def ad_writes_def split: prod.splits dest!: commit_as_cases)
qed (rule service_step_events)

interpretation event_table: keyed_table provider_event_get provider_events pe_key
  by unfold_locales (simp add: provider_event_get_def)

interpretation seen_event: stable_fact "mon_step sc sha" "\<lambda>_. True" "\<lambda>db. provider_event_get k db = Some row"
proof unfold_locales
  fix db db'
  assume "provider_event_get k db = Some row" "mon_step sc sha db db'"
  with mon_step_events [of sc sha db db'] show "provider_event_get k db' = Some row"
    by (auto simp: provider_event_get_def row_where_append)
qed simp

end
