(* ===== verification/MonetizationGuarantees.thy ===== *)
theory MonetizationGuarantees
  imports MonetizationLedger "HOL-Library.Multiset"
begin

text \<open>
  The guarantees of the monetization service: a full refund reverses exactly the split of its payment,
  payouts are backed, internal secrets are compared exactly, and the properties of the ledger
  and of the event log with the concrete databases they are applied to.
\<close>

section \<open>Internal secrets\<close>

unbundle bit_operations_syntax

lemma or_zero_iff: "(a::nat) OR b = 0 \<longleftrightarrow> a = 0 \<and> b = 0"
  by (auto simp: bit_eq_iff bit_or_iff)

lemma xor_zero_iff: "(a::nat) XOR b = 0 \<longleftrightarrow> a = b"
  by (auto simp: bit_eq_iff bit_xor_iff)

lemma foldl_or_zero:
  fixes f :: "'a \<Rightarrow> nat" and d :: nat
  shows "foldl (\<lambda>d i. d OR f i) d xs = 0 \<longleftrightarrow> d = 0 \<and> (\<forall>i \<in> set xs. f i = 0)"
  by (induction xs arbitrary: d) (auto simp: or_zero_iff)

lemma constantTimeEqual_iff: "constantTimeEqual a b \<longleftrightarrow> a = b"
proof
  assume "constantTimeEqual a b"
  then have len: "length a = length b" and bytes: "\<forall>i < length a. byte_at a i = byte_at b i"
    by (auto simp: constantTimeEqual_def foldl_or_zero xor_zero_iff)
  then show "a = b" by (auto simp: byte_at_def intro: nth_equalityI)
qed (simp only: constantTimeEqual_def foldl_or_zero xor_zero_iff, simp)

lemma utf8_bytes_eq: "utf8_bytes s = utf8_bytes t \<longleftrightarrow> s = t"
  by (metis option.sel utf8_round_trip(1))

text \<open>A request to an internal endpoint passes the check exactly when a secret is configured and
  the header is the bearer of that secret, although the comparison looks at every byte.\<close>

theorem internal_secret_is_compared_exactly:
  "requireInternalSecret secret header = SecretAccepted \<longleftrightarrow>
     text_or_empty secret \<noteq> [] \<and> header = ''Bearer '' @ text_or_empty secret"
  by (auto simp: requireInternalSecret_def Let_def constantTimeEqual_iff utf8_bytes_eq bearer_token_def prefix_def)

section \<open>Refunds\<close>

fun refund_rows :: "int \<Rightarrow> (refund_row \<times> payment_row) list \<Rightarrow> (string \<Rightarrow> int) \<Rightarrow> revenue_row list" where
  "refund_rows now [] cumulative = []"
| "refund_rows now ((r, p) # rows) cumulative =
     revenue_of_refund r p (cumulative (rf_payment r)) now #
       refund_rows now rows (cumulative(rf_payment r := cumulative (rf_payment r) + rf_amount r))"

definition figures :: "revenue_row \<Rightarrow> string \<times> string \<times> string \<times> string option \<times> int \<times> int \<times> int" where
  "figures r = (rv_id r, rv_source_kind r, rv_source_id r, rv_payment r, rv_gross r, rv_platform r,
     rv_developer_amount r)"

text \<open>\<open>INSERT OR IGNORE\<close> ignores a revenue event whose key is in the table, and none but for its key or its
  source.\<close>

definition revenue_keyed :: "mon_schema \<Rightarrow> bool" where
  "revenue_keyed sc \<longleftrightarrow> (\<forall>r rows.
     (rv_id r \<in> rv_id ` set rows \<longrightarrow> sc_revenue_known sc r rows) \<and>
     (sc_revenue_known sc r rows \<longrightarrow> rv_id r \<in> rv_id ` set rows \<or> rv_source_id r \<in> rv_source_id ` set rows))"

definition unbooked :: "string list \<Rightarrow> mon_db \<Rightarrow> bool" where
  "unbooked is db \<longleftrightarrow> (\<forall>x \<in> set (revenue_events db). \<forall>i \<in> set is.
     rv_id x \<noteq> ''revenue:refund:'' @ i \<and> rv_source_id x \<noteq> ''refund:'' @ i)"

lemma figures_reverse: "map figures (revenue_events (reverse_payment i db)) = map figures (revenue_events db)"
  by (simp add: reverse_payment_def update_where_def figures_def)

lemma unbooked_figures:
  assumes "map figures (revenue_events db') = map figures (revenue_events db)"
  shows "unbooked is db' = unbooked is db"
proof -
  have pair: "(\<lambda>x. (rv_id x, rv_source_id x)) = (\<lambda>(i, _, s, _). (i, s)) \<circ> figures" by (simp add: fun_eq_iff figures_def)
  have image: "(\<lambda>x. (rv_id x, rv_source_id x)) ` set (revenue_events d) = (\<lambda>(i, _, s, _). (i, s)) ` set (map figures (revenue_events d))" for d
    by (simp only: pair image_comp set_map)
  with assms have same: "(\<lambda>x. (rv_id x, rv_source_id x)) ` set (revenue_events db') = (\<lambda>x. (rv_id x, rv_source_id x)) ` set (revenue_events db)"
    by (simp only: image)
  have split: "unbooked is d \<longleftrightarrow> (\<forall>(a, b) \<in> (\<lambda>x. (rv_id x, rv_source_id x)) ` set (revenue_events d).
      \<forall>i \<in> set is. a \<noteq> ''revenue:refund:'' @ i \<and> b \<noteq> ''refund:'' @ i)" for d
    by (auto simp: unbooked_def)
  show ?thesis by (simp only: split same)
qed

text \<open>The refund events of a payment: those in the table, and those that a reconciliation books when it
  sees the present refunds for the first time, in the order of their creation.\<close>

definition refund_of :: "string \<Rightarrow> revenue_row \<Rightarrow> bool" where
  "refund_of i r \<longleftrightarrow> rv_source_kind r = ''refund'' \<and> rv_payment r = Some i"

definition of_payment :: "string \<Rightarrow> (revenue_row \<Rightarrow> int) \<Rightarrow> revenue_row list \<Rightarrow> int" where
  "of_payment i f rows = sum_list (map f (filter (refund_of i) rows))"

definition own_refunds :: "string \<Rightarrow> (refund_row \<times> payment_row) list \<Rightarrow> string list" where
  "own_refunds i rows = map (rf_refund \<circ> fst) (filter (\<lambda>rp. rf_payment (fst rp) = i) rows)"

definition booked_refunds :: "string \<Rightarrow> mon_db \<Rightarrow> (string \<times> string \<times> string \<times> string option \<times> int \<times> int \<times> int) list" where
  "booked_refunds i db = map figures (filter (refund_of i) (revenue_events db))"

definition due_refunds :: "string \<Rightarrow> mon_db \<Rightarrow> (string \<times> string \<times> string \<times> string option \<times> int \<times> int \<times> int) list" where
  "due_refunds i db = map figures (filter (refund_of i) (refund_rows 0 (refund_join db) (\<lambda>_. 0)))"

text \<open>The events booked for a payment are those of its first refunds; the keys of the others are free.\<close>

definition booked_in_order :: "string \<Rightarrow> mon_db \<Rightarrow> bool" where
  "booked_in_order i db \<longleftrightarrow> list_ex (\<lambda>k. booked_refunds i db = take k (due_refunds i db) \<and>
     unbooked (drop k (own_refunds i (refund_join db))) db) [0..<Suc (length (due_refunds i db))]"

lemma booked_in_order_iff:
  "booked_in_order i db \<longleftrightarrow> (\<exists>k \<le> length (due_refunds i db). booked_refunds i db = take k (due_refunds i db) \<and>
     unbooked (drop k (own_refunds i (refund_join db))) db)"
  unfolding booked_in_order_def list_ex_iff by (auto simp: less_Suc_eq_le simp del: upt_Suc)

lemma own_refunds_simps [simp]:
  "own_refunds i [] = []"
  "own_refunds i ((r, p) # rows) = (if rf_payment r = i then rf_refund r # own_refunds i rows else own_refunds i rows)"
  by (simp_all add: own_refunds_def)

lemma own_refunds_subset: "set (own_refunds i rows) \<subseteq> set (map (rf_refund \<circ> fst) rows)"
  by (auto simp: own_refunds_def)

lemma refund_of_row [simp]: "refund_of i (revenue_of_refund r p b now) \<longleftrightarrow> rf_payment r = i"
  by (simp add: refund_of_def revenue_of_refund_def Let_def)

lemma length_own_refunds: "length (filter (refund_of i) (refund_rows now rows cum)) = length (own_refunds i rows)"
  by (induction rows arbitrary: cum) auto

lemma refund_row_figures:
  "figures (revenue_of_refund r p b now) = (''revenue:refund:'' @ rf_refund r, ''refund'', ''refund:'' @ rf_refund r,
     Some (rf_payment r), rf_amount r, platformFee (b + rf_amount r) (pm_fee_bps p) - platformFee b (pm_fee_bps p),
     rf_amount r - (platformFee (b + rf_amount r) (pm_fee_bps p) - platformFee b (pm_fee_bps p)))"
  by (simp add: figures_def revenue_of_refund_def Let_def)

lemma own_events_now:
  "map figures (filter (refund_of i) (refund_rows now rows cum)) =
   map figures (filter (refund_of i) (refund_rows now' rows cum))"
  by (induction rows arbitrary: cum) (auto simp: refund_row_figures)

lemma own_event_ids:
  "map fst (map figures (filter (refund_of i) (refund_rows now rows cum))) =
   map ((@) ''revenue:refund:'') (own_refunds i rows)"
  by (induction rows arbitrary: cum) (auto simp: refund_row_figures)

lemma booked_figures: "booked_refunds i db = filter (\<lambda>(_, k, _, p, _). k = ''refund'' \<and> p = Some i) (map figures (revenue_events db))"
  by (simp add: booked_refunds_def filter_map comp_def figures_def refund_of_def [abs_def])

lemma rv_ids_figures: "rv_id ` set (revenue_events db) = fst ` set (map figures (revenue_events db))"
  by (simp add: image_image figures_def)

lemma post_refund:
  assumes keyed: "revenue_keyed sc" and db1: "db1 = post_revenue sc row db \<or> db1 = reverse_payment j (post_revenue sc row db)"
    and row: "row = revenue_of_refund r p b now"
  shows "rv_id ` set (revenue_events db) \<subseteq> rv_id ` set (revenue_events db1)"
    and "rf_refund r \<notin> set js \<Longrightarrow> unbooked js db \<Longrightarrow> unbooked js db1"
    and "rf_payment r \<noteq> i \<Longrightarrow> booked_refunds i db1 = booked_refunds i db"
    and "unbooked [rf_refund r] db \<Longrightarrow> rf_payment r = i \<Longrightarrow> booked_refunds i db1 = booked_refunds i db @ [figures row]"
    and "''revenue:refund:'' @ rf_refund r \<in> rv_id ` set (revenue_events db) \<Longrightarrow> booked_refunds i db1 = booked_refunds i db"
proof -
  have ids: "rv_id row = ''revenue:refund:'' @ rf_refund r" "rv_source_id row = ''refund:'' @ rf_refund r"
    by (simp_all add: row revenue_of_refund_def Let_def)
  have figs: "map figures (revenue_events db1) = map figures (revenue_events (post_revenue sc row db))"
    using db1 figures_reverse by metis
  then have posted: "map figures (revenue_events db1) =
      map figures (revenue_events db) @ (if sc_revenue_known sc row (revenue_events db) then [] else [figures row])"
    by (simp add: post_revenue_def or_ignore_def)
  show "rv_id ` set (revenue_events db) \<subseteq> rv_id ` set (revenue_events db1)"
    by (simp only: rv_ids_figures posted) auto
  show "unbooked js db1" if "rf_refund r \<notin> set js" "unbooked js db"
  proof -
    have "unbooked js (post_revenue sc row db)"
      using that by (auto simp: unbooked_def post_revenue_def or_ignore_def ids)
    then show ?thesis using unbooked_figures [OF figs] by simp
  qed
  have own: "(case figures row of (_, k, _, p, _) \<Rightarrow> k = ''refund'' \<and> p = Some i) \<longleftrightarrow> rf_payment r = i"
    by (simp add: row figures_def revenue_of_refund_def Let_def)
  show "booked_refunds i db1 = booked_refunds i db" if "rf_payment r \<noteq> i"
    using that own by (simp add: booked_figures posted)
  show "booked_refunds i db1 = booked_refunds i db @ [figures row]" if "unbooked [rf_refund r] db" "rf_payment r = i"
  proof -
    have "\<not> sc_revenue_known sc row (revenue_events db)"
      using keyed that(1) ids by (fastforce simp: revenue_keyed_def unbooked_def)
    with that(2) own show ?thesis by (simp add: booked_figures posted)
  qed
  show "booked_refunds i db1 = booked_refunds i db" if "''revenue:refund:'' @ rf_refund r \<in> rv_id ` set (revenue_events db)"
    using keyed that ids by (simp add: booked_figures posted revenue_keyed_def)
qed

lemma sync_refunds_books:
  assumes "revenue_keyed sc"
  shows "distinct (map (rf_refund \<circ> fst) rows) \<Longrightarrow>
    \<forall>j\<in>set (take k (own_refunds i rows)). ''revenue:refund:'' @ j \<in> rv_id ` set (revenue_events db) \<Longrightarrow>
    unbooked (drop k (own_refunds i rows)) db \<Longrightarrow> sync_refunds sc now rows cum n db = (Inr m, db') \<Longrightarrow>
    booked_refunds i db' = booked_refunds i db @ drop k (map figures (filter (refund_of i) (refund_rows now rows cum)))"
proof (induction rows arbitrary: k cum n db)
  case (Cons rp rows)
  obtain r p where rp: "rp = (r, p)" by (cases rp)
  let ?row = "revenue_of_refund r p (cum (rf_payment r)) now"
  let ?cum = "cum(rf_payment r := cum (rf_payment r) + rf_amount r)"
  from Cons.prems(4) obtain db1 n' where rest: "sync_refunds sc now rows ?cum n' db1 = (Inr m, db')"
    and db1: "db1 = post_revenue sc ?row db \<or> db1 = reverse_payment (rf_payment r) (post_revenue sc ?row db)"
    by (auto simp: rp Let_def and_then_Inr commit_as_Inr split: if_splits)
  note post = post_refund [OF assms db1 refl]
  have new: "rf_refund r \<notin> set (own_refunds i rows)" and ids: "distinct (map (rf_refund \<circ> fst) rows)"
    using Cons.prems(1) own_refunds_subset [of i rows] by (auto simp: rp comp_def)
  then have free: "rf_refund r \<notin> set (drop l (own_refunds i rows))" for l by (meson in_set_dropD)
  show ?case
  proof (cases "rf_payment r = i")
    case False
    with Cons.prems(2,3) post(1) post(2) [OF free, of k] have
      "\<forall>j\<in>set (take k (own_refunds i rows)). ''revenue:refund:'' @ j \<in> rv_id ` set (revenue_events db1)"
      "unbooked (drop k (own_refunds i rows)) db1"
      by (auto simp: rp)
    from Cons.IH [OF ids this rest] post(3) [OF False] False show ?thesis by (simp add: rp fun_upd_def)
  next
    case True
    show ?thesis
    proof (cases k)
      case 0
      with Cons.prems(3) True have "unbooked [rf_refund r] db" "unbooked (own_refunds i rows) db"
        by (simp_all add: rp unbooked_def)
      with Cons.IH [OF ids _ _ rest, of 0] post(2) [OF new] post(4) [OF _ True] show ?thesis by (simp add: rp True 0 fun_upd_def)
    next
      case (Suc l)
      with Cons.prems(2,3) True have booked: "''revenue:refund:'' @ rf_refund r \<in> rv_id ` set (revenue_events db)"
        and "\<forall>j\<in>set (take l (own_refunds i rows)). ''revenue:refund:'' @ j \<in> rv_id ` set (revenue_events db)"
        and "unbooked (drop l (own_refunds i rows)) db"
        by (simp_all add: rp)
      with post(1) post(2) [OF free] have "\<forall>j\<in>set (take l (own_refunds i rows)). ''revenue:refund:'' @ j \<in> rv_id ` set (revenue_events db1)"
        "unbooked (drop l (own_refunds i rows)) db1" by auto
      from Cons.IH [OF ids this rest] post(5) [OF booked] True show ?thesis by (simp add: rp Suc fun_upd_def)
    qed
  qed
qed simp

lemma sync_refunds_sources:
  "sync_refunds sc now rows cum n db = (Inr m, db') \<Longrightarrow>
   payments db' = payments db \<and> payment_refunds db' = payment_refunds db"
proof (induction rows arbitrary: cum n db)
  case (Cons rp rows)
  then show ?case
    by (cases rp) (fastforce simp: Let_def and_then_Inr commit_as_Inr post_revenue_def reverse_payment_def split: if_splits)
qed simp

definition amounts :: "string \<Rightarrow> (refund_row \<times> payment_row) list \<Rightarrow> int" where
  "amounts i rows = sum_list (map (rf_amount \<circ> fst) (filter (\<lambda>rp. rf_payment (fst rp) = i) rows))"

lemma of_payment_Cons:
  "of_payment i f (revenue_of_refund r p b now # rows) =
     (if rf_payment r = i then f (revenue_of_refund r p b now) else 0) + of_payment i f rows"
  by (simp add: of_payment_def)

lemma amounts_Cons: "amounts i ((r, p) # rows) = (if rf_payment r = i then rf_amount r else 0) + amounts i rows"
  by (simp add: amounts_def)

lemma revenue_of_refund_figures:
  "rv_platform (revenue_of_refund r p b now) = platformFee (b + rf_amount r) (pm_fee_bps p) - platformFee b (pm_fee_bps p)"
  "rv_gross (revenue_of_refund r p b now) = rf_amount r"
  "rv_developer_amount (revenue_of_refund r p b now) =
     rf_amount r - (platformFee (b + rf_amount r) (pm_fee_bps p) - platformFee b (pm_fee_bps p))"
  by (simp_all add: revenue_of_refund_def Let_def)

lemma refund_rows_telescope:
  "\<forall>(r, p) \<in> set rows. rf_payment r = i \<longrightarrow> pm_fee_bps p = bps \<Longrightarrow>
   of_payment i rv_platform (refund_rows now rows cum) = platformFee (cum i + amounts i rows) bps - platformFee (cum i) bps \<and>
   of_payment i rv_gross (refund_rows now rows cum) = amounts i rows \<and>
   of_payment i rv_developer_amount (refund_rows now rows cum) =
     amounts i rows - (platformFee (cum i + amounts i rows) bps - platformFee (cum i) bps)"
proof (induction rows arbitrary: cum)
  case Nil
  then show ?case by (simp add: of_payment_def amounts_def)
next
  case (Cons rp rows)
  obtain r p where rp: "rp = (r, p)" by (cases rp)
  let ?cum = "cum(rf_payment r := cum (rf_payment r) + rf_amount r)"
  have fees: "\<forall>(r, p) \<in> set rows. rf_payment r = i \<longrightarrow> pm_fee_bps p = bps" using Cons.prems by auto
  have cum: "?cum i = cum i + (if rf_payment r = i then rf_amount r else 0)" by simp
  note IH = Cons.IH [OF fees, of ?cum, unfolded cum]
  from Cons.prems have fee: "rf_payment r = i \<Longrightarrow> pm_fee_bps p = bps" by (simp add: rp)
  have c: "rf_payment r = i \<Longrightarrow> cum (rf_payment r) = cum i" by simp
  show ?case
    by (simp only: rp refund_rows.simps of_payment_Cons amounts_Cons revenue_of_refund_figures IH)
      (simp add: fee c add.assoc)
qed

definition refunded :: "string \<Rightarrow> mon_db \<Rightarrow> int" where
  "refunded i db = sum_list (map rf_amount
     (filter (\<lambda>r. rf_payment r = i \<and> rf_status r = ''succeeded'') (payment_refunds db)))"

lemma concat_map_filter:
  "(\<And>x. x \<in> set xs \<Longrightarrow> filter P (f x) = (if Q x then f x else [])) \<Longrightarrow>
   filter P (concat (map f xs)) = concat (map f (filter Q xs))"
  by (induction xs) auto

lemma payments_with_id:
  assumes "distinct (map pm_id (payments db))" and "payment_get i db = Some p"
  shows "filter (\<lambda>p. pm_id p = i) (payments db) = [p]"
proof -
  have "distinct (map pm_id ps) \<Longrightarrow> row_where (\<lambda>r. pm_id r = i) ps = Some p \<Longrightarrow> filter (\<lambda>p. pm_id p = i) ps = [p]" for ps
    by (induction ps) (auto split: if_splits simp: image_iff intro!: filter_False)
  with assms show ?thesis by (simp add: payment_get_def)
qed

lemma sum_sort_key: "sum_list (map f (filter P (sort_key k xs))) = sum_list (map f (filter P xs))"
  for f :: "'a \<Rightarrow> int"
  by (metis mset_filter mset_map mset_sort sum_mset_sum_list)

lemma amounts_join:
  assumes "distinct (map pm_id (payments db))" and "payment_get i db = Some p"
  shows "amounts i (refund_join db) = refunded i db"
proof -
  let ?rows = "sort_key rf_payment (sort_key rf_created (sort_key rf_refund
    (filter (\<lambda>r. rf_status r = ''succeeded'') (payment_refunds db))))"
  have "filter (\<lambda>rp. rf_payment (fst rp) = i) (refund_join db) =
      concat (map (\<lambda>r. map (Pair r) (filter (\<lambda>p. pm_id p = rf_payment r) (payments db))) (filter (\<lambda>r. rf_payment r = i) ?rows))"
    unfolding refund_join_def by (rule concat_map_filter) (auto simp: filter_empty_conv)
  also have "\<dots> = concat (map (\<lambda>r. [(r, p)]) (filter (\<lambda>r. rf_payment r = i) ?rows))"
    by (intro arg_cong [where f = concat] map_cong) (use payments_with_id [OF assms] in auto)
  also have "\<dots> = map (\<lambda>r. (r, p)) (filter (\<lambda>r. rf_payment r = i) ?rows)"
    by (induction "filter (\<lambda>r. rf_payment r = i) ?rows") simp_all
  finally have "amounts i (refund_join db) = sum_list (map rf_amount (filter (\<lambda>r. rf_payment r = i) ?rows))"
    by (simp add: amounts_def comp_def)
  then show ?thesis by (simp add: sum_sort_key refunded_def conj_commute)
qed

lemma join_members:
  assumes "(r, q) \<in> set (refund_join db)"
  shows "r \<in> set (payment_refunds db)" "q \<in> set (payments db)" "pm_id q = rf_payment r"
  using assms by (auto simp: refund_join_def)

lemma join_distinct:
  assumes refunds: "distinct (map rf_refund (payment_refunds db))" and ids: "distinct (map pm_id (payments db))"
  shows "distinct (map (rf_refund \<circ> fst) (refund_join db))"
proof -
  let ?rows = "sort_key rf_payment (sort_key rf_created (sort_key rf_refund
    (filter (\<lambda>r. rf_status r = ''succeeded'') (payment_refunds db))))"
  have "distinct (map pm_id ps) \<Longrightarrow> length (filter (\<lambda>p. pm_id p = i) ps) \<le> 1" for ps i
    by (induction ps) (auto simp: filter_empty_conv image_iff)
  with ids have at_most: "length (filter (\<lambda>p. pm_id p = i) (payments db)) \<le> 1" for i by blast
  have step: "distinct (map rf_refund rs) \<Longrightarrow> distinct (map (rf_refund \<circ> fst)
      (concat (map (\<lambda>r. map (\<lambda>p. (r, p)) (filter (\<lambda>p. pm_id p = rf_payment r) (payments db))) rs)))" for rs
  proof (induction rs)
    case (Cons r rs)
    have "filter (\<lambda>p. pm_id p = rf_payment r) (payments db) = [] \<or>
        (\<exists>q. filter (\<lambda>p. pm_id p = rf_payment r) (payments db) = [q])"
      using at_most [of "rf_payment r"] by (cases "filter (\<lambda>p. pm_id p = rf_payment r) (payments db)") auto
    with Cons show ?case by auto
  qed simp
  have "mset (map rf_refund ?rows) = mset (map rf_refund (filter (\<lambda>r. rf_status r = ''succeeded'') (payment_refunds db)))"
    by simp
  moreover have "distinct (map rf_refund (filter (\<lambda>r. rf_status r = ''succeeded'') (payment_refunds db)))"
    using refunds by (simp add: distinct_map_filter)
  ultimately have "distinct (map rf_refund ?rows)" by (metis mset_eq_imp_distinct_iff)
  from step [OF this] show ?thesis by (simp add: refund_join_def)
qed

lemma of_payment_figures:
  assumes "map figures (filter (refund_of i) xs) = map figures (filter (refund_of i) ys)"
  shows "of_payment i rv_platform xs = of_payment i rv_platform ys"
    "of_payment i rv_gross xs = of_payment i rv_gross ys"
    "of_payment i rv_developer_amount xs = of_payment i rv_developer_amount ys"
proof -
  have "map rv_platform as = map rv_platform bs \<and> map rv_gross as = map rv_gross bs \<and>
      map rv_developer_amount as = map rv_developer_amount bs" if "map figures as = map figures bs" for as bs
    using that by (induction as bs rule: list_induct2') (auto simp: figures_def)
  from this [OF assms] show "of_payment i rv_platform xs = of_payment i rv_platform ys"
    "of_payment i rv_gross xs = of_payment i rv_gross ys"
    "of_payment i rv_developer_amount xs = of_payment i rv_developer_amount ys"
    by (simp_all add: of_payment_def)
qed

text \<open>A reconciliation leaves exactly the events that are due, so a later one starts in order.\<close>

lemma refunds_are_booked:
  assumes keyed: "revenue_keyed sc" and ids: "distinct (map pm_id (payments db))"
    and refunds: "distinct (map rf_refund (payment_refunds db))" and order: "booked_in_order i db"
    and run: "syncRefundRevenueEvents sc now db = (Inr k, db')"
  shows "booked_refunds i db' = due_refunds i db" and "due_refunds i db' = due_refunds i db"
    and "booked_in_order i db'"
proof -
  let ?rows = "refund_join db"
  from run obtain n where sync: "sync_refunds sc now ?rows (\<lambda>_. 0) 0 db = (Inr n, db')"
    by (auto simp: syncRefundRevenueEvents_def and_then_Inr)
  from order obtain l where l: "booked_refunds i db = take l (due_refunds i db)" "unbooked (drop l (own_refunds i ?rows)) db"
    by (auto simp: booked_in_order_iff)
  have "map ((@) ''revenue:refund:'') (take l (own_refunds i ?rows)) = map fst (booked_refunds i db)"
    by (simp only: l(1) due_refunds_def take_map [symmetric] own_event_ids)
  then have "(@) ''revenue:refund:'' ` set (take l (own_refunds i ?rows)) = fst ` set (booked_refunds i db)"
    by (metis set_map)
  also have "\<dots> \<subseteq> rv_id ` set (revenue_events db)" by (auto simp: booked_refunds_def figures_def)
  finally have "\<forall>j\<in>set (take l (own_refunds i ?rows)). ''revenue:refund:'' @ j \<in> rv_id ` set (revenue_events db)"
    by blast
  from sync_refunds_books [OF keyed join_distinct [OF refunds ids] this l(2) sync]
  show booked: "booked_refunds i db' = due_refunds i db"
    by (simp add: l(1) due_refunds_def own_events_now [where now = now and now' = 0])
  have rows: "refund_join db' = ?rows" using sync_refunds_sources [OF sync] by (simp add: refund_join_def)
  then show due: "due_refunds i db' = due_refunds i db" by (simp add: due_refunds_def)
  have "length (due_refunds i db) = length (own_refunds i ?rows)" by (simp add: due_refunds_def length_own_refunds)
  then show "booked_in_order i db'"
    unfolding booked_in_order_iff
    by (intro exI [of _ "length (due_refunds i db)"]) (simp add: booked due rows unbooked_def)
qed

text \<open>A refund that is created after the others of its payment, or belongs to another payment, keeps the order.\<close>

lemma first_reconciliation_in_order:
  "booked_refunds i db = [] \<Longrightarrow> unbooked (own_refunds i (refund_join db)) db \<Longrightarrow> booked_in_order i db"
  unfolding booked_in_order_iff by (intro exI [of _ 0]) simp

lemma refund_rows_cong:
  "\<forall>rp\<in>set rows. rf_payment (fst rp) = i \<Longrightarrow> cum i = cum' i \<Longrightarrow> refund_rows now rows cum = refund_rows now rows cum'"
proof (induction rows arbitrary: cum cum')
  case (Cons rp rows)
  obtain r p where rp: "rp = (r, p)" by (cases rp)
  with Cons.prems have r: "rf_payment r = i" by simp
  have "refund_rows now rows (cum(i := c)) = refund_rows now rows (cum'(i := c))" for c
    by (rule Cons.IH) (use Cons.prems(1) in simp_all)
  then show ?case by (simp only: rp refund_rows.simps r Cons.prems(2))
qed simp

lemma own_rows:
  "filter (refund_of i) (refund_rows now rows cum) = refund_rows now (filter (\<lambda>rp. rf_payment (fst rp) = i) rows) cum"
proof (induction rows arbitrary: cum)
  case (Cons rp rows)
  obtain r p where rp: "rp = (r, p)" by (cases rp)
  have "refund_rows now (filter (\<lambda>rp. rf_payment (fst rp) = i) rows) (cum(rf_payment r := c)) =
      refund_rows now (filter (\<lambda>rp. rf_payment (fst rp) = i) rows) cum" if "rf_payment r \<noteq> i" for c
    by (rule refund_rows_cong [of _ i]) (use that in auto)
  then show ?case by (cases "rf_payment r = i") (simp_all add: rp Cons.IH fun_upd_def)
qed simp

lemma refund_rows_append: "\<exists>cum'. refund_rows now (xs @ ys) cum = refund_rows now xs cum @ refund_rows now ys cum'"
proof (induction xs arbitrary: cum)
  case (Cons rp xs)
  then show ?case by (cases rp) simp
qed auto

lemma own_join:
  "filter (\<lambda>rp. rf_payment (fst rp) = i) (refund_join db) =
   concat (map (\<lambda>r. map (Pair r) (filter (\<lambda>p. pm_id p = i) (payments db)))
     (sort_key rf_created (sort_key rf_refund
       (filter (\<lambda>r. rf_status r = ''succeeded'' \<and> rf_payment r = i) (payment_refunds db)))))"
proof -
  let ?good = "filter (\<lambda>r. rf_status r = ''succeeded'') (payment_refunds db)"
  have "filter (\<lambda>rp. rf_payment (fst rp) = i) (refund_join db) =
      concat (map (\<lambda>r. map (Pair r) (filter (\<lambda>p. pm_id p = rf_payment r) (payments db)))
        (filter (\<lambda>r. rf_payment r = i) (sort_key rf_payment (sort_key rf_created (sort_key rf_refund ?good)))))"
    unfolding refund_join_def by (rule concat_map_filter) (auto simp: filter_empty_conv)
  also have "filter (\<lambda>r. rf_payment r = i) (sort_key rf_payment (sort_key rf_created (sort_key rf_refund ?good))) =
      filter (\<lambda>r. rf_payment r = i) (sort_key rf_created (sort_key rf_refund ?good))"
    by (rule sort_key_stable)
  also have "\<dots> = sort_key rf_created (sort_key rf_refund (filter (\<lambda>r. rf_payment r = i) ?good))"
    by (simp only: filter_sort)
  also have "filter (\<lambda>r. rf_payment r = i) ?good =
      filter (\<lambda>r. rf_status r = ''succeeded'' \<and> rf_payment r = i) (payment_refunds db)"
    by (simp add: conj_commute)
  also have "map (\<lambda>r. map (Pair r) (filter (\<lambda>p. pm_id p = rf_payment r) (payments db))) (sort_key rf_created (sort_key rf_refund
        (filter (\<lambda>r. rf_status r = ''succeeded'' \<and> rf_payment r = i) (payment_refunds db)))) =
      map (\<lambda>r. map (Pair r) (filter (\<lambda>p. pm_id p = i) (payments db))) (sort_key rf_created (sort_key rf_refund
        (filter (\<lambda>r. rf_status r = ''succeeded'' \<and> rf_payment r = i) (payment_refunds db))))"
    by (rule map_cong) auto
  finally show ?thesis .
qed

lemma sort_key_last:
  fixes f :: "'a \<Rightarrow> 'b::linorder" and g :: "'a \<Rightarrow> 'c::linorder"
  assumes "\<forall>y\<in>set xs. f y < f x"
  shows "sort_key f (sort_key g (xs @ [x])) = sort_key f (sort_key g xs) @ [x]"
proof (rule properties_for_sort_key)
  show "mset (sort_key f (sort_key g xs) @ [x]) = mset (sort_key g (xs @ [x]))" by simp
  show "sorted (map f (sort_key f (sort_key g xs) @ [x]))"
    using assms by (auto simp: sorted_append less_imp_le)
  fix k
  have none: "filter (\<lambda>y. f x = f y) (sort_key g xs) = []" "filter (\<lambda>y. f x = f y) xs = []"
    using assms by (auto simp: filter_empty_conv)
  have sorted_keys: "filter (\<lambda>y. f k = f y) (sort_key f ys) = filter (\<lambda>y. f k = f y) ys" for ys
    using sort_key_stable [of f "f k" ys] by (simp only: eq_commute [of "f k"])
  show "filter (\<lambda>y. f k = f y) (sort_key f (sort_key g xs) @ [x]) = filter (\<lambda>y. f k = f y) (sort_key g (xs @ [x]))"
    by (simp only: filter_append sorted_keys, cases "f k = f x") (simp_all add: filter_sort none)
qed

lemma later_refund_in_order:
  assumes order: "booked_in_order i db" and new: "unbooked [rf_refund r] db"
    and later: "\<forall>y\<in>set (payment_refunds db). rf_status y = ''succeeded'' \<and> rf_payment y = i \<and> rf_payment r = i \<longrightarrow>
      rf_created y < rf_created r"
  shows "booked_in_order i (db\<lparr>payment_refunds := payment_refunds db @ [r]\<rparr>)"
proof -
  let ?db = "db\<lparr>payment_refunds := payment_refunds db @ [r]\<rparr>"
  let ?own = "\<lambda>d. filter (\<lambda>rp. rf_payment (fst rp) = i) (refund_join d)"
  obtain rps where rps: "?own ?db = ?own db @ rps" "\<forall>rp\<in>set rps. fst rp = r"
  proof (cases "rf_status r = ''succeeded'' \<and> rf_payment r = i")
    case True
    then show thesis using later by (intro that) (auto simp: own_join sort_key_last)
  next
    case False
    then show thesis by (intro that [of "[]"]) (auto simp: own_join)
  qed
  obtain cum where cum: "refund_rows 0 (?own db @ rps) (\<lambda>_. 0) = refund_rows 0 (?own db) (\<lambda>_. 0) @ refund_rows 0 rps cum"
    using refund_rows_append by blast
  then have due: "due_refunds i ?db = due_refunds i db @ map figures (refund_rows 0 rps cum)"
    by (simp add: due_refunds_def own_rows rps(1))
  have own: "own_refunds i (refund_join ?db) = own_refunds i (refund_join db) @ map (rf_refund \<circ> fst) rps"
    by (simp add: own_refunds_def rps(1))
  from order obtain k where k: "k \<le> length (due_refunds i db)" "booked_refunds i db = take k (due_refunds i db)"
    "unbooked (drop k (own_refunds i (refund_join db))) db"
    by (auto simp: booked_in_order_iff)
  have "k \<le> length (own_refunds i (refund_join db))"
    using k(1) by (simp add: due_refunds_def length_own_refunds)
  moreover have "unbooked (map (rf_refund \<circ> fst) rps) db" using new rps(2) by (auto simp: unbooked_def)
  ultimately have "unbooked (drop k (own_refunds i (refund_join ?db))) ?db"
    using k(3) by (auto simp: own unbooked_def)
  then show ?thesis
    using k(1,2) unfolding booked_in_order_iff by (intro exI [of _ k]) (simp add: due booked_refunds_def)
qed

text \<open>C30: When the succeeded refunds of a payment add up to its amount, the reconciliation that books the
  last of them reverses the split of the payment exactly: the platform shares of the refund events,
  each the difference of two rounded fees, add up to the platform share of the payment, the
  developer shares to the developer share. Assumed is that the refund events of this payment that
  earlier reconciliations booked are those of its first refunds by creation time and id (none at the
  first one; this holds again afterwards), that payment ids and refund ids are unique, and that an
  INSERT OR IGNORE of a revenue event goes by its keys. A refund that is booked before an older one of
  its payment can break the sum: late_refund_breaks_the_split.\<close>

theorem full_refund_reverses_the_split:
  assumes "revenue_keyed sc" and ids: "distinct (map pm_id (payments db))"
    and "distinct (map rf_refund (payment_refunds db))" and "booked_in_order i db"
    and p: "payment_get i db = Some p" and whole: "refunded i db = pm_amount p"
    and run: "syncRefundRevenueEvents sc now db = (Inr k, db')"
  shows "of_payment i rv_platform (revenue_events db') = rv_platform (revenue_of_payment p now) \<and>
    of_payment i rv_developer_amount (revenue_events db') = rv_developer_amount (revenue_of_payment p now) \<and>
    of_payment i rv_gross (revenue_events db') = pm_amount p \<and> booked_in_order i db'"
proof -
  let ?rows = "refund_join db"
  note after = refunds_are_booked [OF assms(1-4) run]
  from after(1) have figs: "map figures (filter (refund_of i) (revenue_events db')) =
      map figures (filter (refund_of i) (refund_rows 0 ?rows (\<lambda>_. 0)))"
    by (simp add: booked_refunds_def due_refunds_def)
  have "\<forall>(r, q) \<in> set ?rows. rf_payment r = i \<longrightarrow> pm_fee_bps q = pm_fee_bps p"
  proof clarify
    fix r q
    assume "(r, q) \<in> set ?rows" and "i = rf_payment r"
    then have "q \<in> set (filter (\<lambda>p. pm_id p = i) (payments db))" using join_members by simp
    then show "pm_fee_bps q = pm_fee_bps p" using payments_with_id [OF ids p] by simp
  qed
  from refund_rows_telescope [OF this, of 0 "\<lambda>_. 0"] amounts_join [OF ids p] whole after(3) show ?thesis
    by (simp add: of_payment_figures [OF figs] platformFee_def revenue_of_payment_def bps_share_def Let_def)
qed

section \<open>Payouts\<close>

text \<open>A payout request is filed only for a developer whose compliance is verified and whose payouts
  are enabled, to an active account of that developer, for an amount that the available balance
  covers and with an idempotency key that no earlier request has; the request is the one row added.\<close>

theorem payout_requests_are_backed:
  assumes "requestDeveloperPayout sc uuid u input now db = (Inr (Requested r), db')"
  shows "\<exists>profile account. profile_of_owner (pq_requester r) db = Some profile \<and> payout_allowed profile \<and>
    payout_account_get (pq_account r) (dp_developer profile) db = Some account \<and> pq_developer r = dp_developer profile \<and>
    0 < pq_amount r \<and> pq_amount r \<le> available_balance sc (pq_developer r) (pq_currency r) db \<and>
    pq_idempotency_key r \<notin> pq_idempotency_key ` set (payout_requests db) \<and>
    db' = db\<lparr>payout_requests := payout_requests db @ [r]\<rparr> \<and> pq_status r = ''requested''"
proof -
  from assms obtain owner account key currency amount where
    amount: "assertMinorAmount (js_get input ''amount'') = Inr amount"
    and filed: "file_payout sc uuid owner account key currency amount now db = (Inr (Requested r), db')"
    by (auto simp: requestDeveloperPayout_def split: sum.splits)
  from amount have "0 < amount" by (auto simp: assertMinorAmount_def split: option.splits if_splits)
  moreover have "row_where (\<lambda>r. pq_idempotency_key r = key) (payout_requests db) = None \<Longrightarrow>
      key \<notin> pq_idempotency_key ` set (payout_requests db)" by auto
  ultimately show ?thesis using filed
    by (auto simp: file_payout_def commit_as_Inr Let_def simp del: row_where_None
        split: option.splits if_splits)
qed

section \<open>The ledger, spending and events in every run\<close>

text \<open>C11: However the operations interleave, also when bookings of ad revenue commit decisions they
  took on older databases, every posted journal entry stays balanced in each currency and every
  ad revenue event has its posted entry: the two counts of the anomaly report stay zero.\<close>

theorem ledger_stays_balanced:
  assumes "journal_keyed sc" and "ledger_ok db" and "(mon_step sc sha)\<^sup>*\<^sup>* db db'"
  shows "an_unbalanced (anomalyReport db') = 0 \<and> an_ads_without_journal (anomalyReport db') = 0"
  using ledger.reachable_inv [OF assms(3)] assms(1,2) by (simp add: ledger_ok_def)

text \<open>C12: When each booking of ad revenue runs with nothing in between, what a campaign has spent is at
  any time the sum of the billable amounts of its recorded events.\<close>

theorem spend_matches_recorded_events:
  assumes "spend_ok db" and "(serial_step sc sha)\<^sup>*\<^sup>* db db'" and "campaign_get i db' = Some c"
  shows "cg_spent c = booked i db'"
  using spending.reachable_inv [OF assms(2,1)] campaign_table.lookup_Some [OF assms(3)]
  by (auto simp: spend_ok_def)

text \<open>C29: A provider event is applied once.  After it was applied, whatever ran since, delivering it
  again changes nothing, and another payload under the same event id is refused.\<close>

theorem provider_event_is_applied_once:
  assumes "applySubscriptionEvent sc sha input now db = (Inr (Applied s st), db1)"
    and "(mon_step sc sha)\<^sup>*\<^sup>* db1 db2"
  shows "applySubscriptionEvent sc sha input later db2 = (Inr AlreadyApplied, db2) \<and>
    (\<forall>other ev ev'. read_event input = Inr ev \<and> read_event other = Inr ev' \<and> ev_provider ev' = ev_provider ev \<and>
      ev_event ev' = ev_event ev \<and> sha (stringify other) \<noteq> sha (stringify input) \<longrightarrow>
      applySubscriptionEvent sc sha other later db2 = (Inl EVENT_ID_REUSED, db2))"
  using assms(1)
proof (rule applySubscriptionEvent_Applied)
  fix ev row
  assume ev: "read_event input = Inr ev" and logged: "provider_events db1 = provider_events db @ [row]"
    and row: "pe_key row = (ev_provider ev, ev_event ev)" "pe_payload_hash row = sha (stringify input)"
    and fresh: "provider_event_get (ev_provider ev, ev_event ev) db = None"
  from fresh row(1) have "provider_event_get (ev_provider ev, ev_event ev) db1 = Some row"
    by (simp add: provider_event_get_def logged row_where_append del: row_where_None)
  then have "provider_event_get (ev_provider ev, ev_event ev) db2 = Some row"
    using seen_event.reachable_fact [OF assms(2)] by blast
  then show ?thesis
    by (auto simp: applySubscriptionEvent_def Let_def ev row(2) split: sum.splits)
qed

section \<open>Concrete databases\<close>

text \<open>A schema that enforces the primary keys, and SHA-256 replaced by the identity.\<close>

definition ex_schema :: mon_schema where
  "ex_schema =
     \<lparr>sc_accepts = (\<lambda>db. distinct (map je_id (journal_entries db))),
      sc_account_known = (\<lambda>r rows. wa_id r \<in> set (map wa_id rows)),
      sc_revenue_known = (\<lambda>r rows. rv_id r \<in> set (map rv_id rows)),
      sc_balance = (\<lambda>_ _. Some 500), sc_developer_balances = (\<lambda>_ _. [])\<rparr>"

definition ex_campaign :: campaign_row where
  "ex_campaign = \<lparr>cg_id = ''c'', cg_advertiser = ''a'', cg_billing_model = ''cpc'', cg_currency = ''CNY'',
     cg_bid = 60, cg_daily_budget = 100, cg_total_budget = 100, cg_spent = 0, cg_status = ''active'',
     cg_starts = 1, cg_ends = None, cg_created = 1, cg_updated = 1\<rparr>"

definition ex_payment :: payment_row where
  "ex_payment = \<lparr>pm_id = ''m'', pm_user = ''u'', pm_mini_app = ''x'', pm_developer = ''d'', pm_product = ''s'',
     pm_price = ''r'', pm_capability = ''k'', pm_rail = ''credits'', pm_provider_reference = [],
     pm_kind = ''subscription'', pm_currency = ''CNY'', pm_amount = 999, pm_fee_bps = 1500,
     pm_status = ''refunded'', pm_created = 5\<rparr>"

definition ex_market :: mon_db where
  "ex_market = \<lparr>campaigns = [ex_campaign],
     placements = [\<lparr>pl_id = ''p'', pl_mini_app = ''x'', pl_developer = ''d'', pl_display_name = ''P'',
       pl_format = ''native'', pl_share_bps = 7000, pl_status = ''active'', pl_created = 1, pl_updated = 1\<rparr>],
     split_rules = [], ad_events = [], wallet_accounts = [], journal_entries = [], journal_lines = [],
     revenue_events = [], payments = [ex_payment], subscriptions = [], provider_events = [], entitlements = [],
     profiles = [\<lparr>dp_developer = ''d'', dp_owner = ''o'', dp_display_name = ''D'', dp_compliance = ''verified'',
       dp_payout_enabled = 1, dp_kyc_reference = JNull, dp_tax_reference = JNull, dp_created = 1, dp_updated = 1\<rparr>],
     payout_accounts = [\<lparr>pc_id = ''b'', pc_developer = ''d'', pc_state = ''active''\<rparr>],
     payout_requests = [], developer_payouts = [],
     payment_refunds =
       [\<lparr>rf_refund = ''2'', rf_payment = ''m'', rf_amount = 666, rf_currency = ''CNY'', rf_status = ''succeeded'', rf_created = 8\<rparr>,
        \<lparr>rf_refund = ''1'', rf_payment = ''m'', rf_amount = 333, rf_currency = ''CNY'', rf_status = ''succeeded'', rf_created = 7\<rparr>]\<rparr>"

definition ex_click :: "string \<Rightarrow> js" where
  "ex_click key = JObj [(''campaignId'', JStr ''c''), (''placementId'', JStr ''p''), (''idempotencyKey'', JStr key),
     (''eventType'', JStr ''click'')]"

definition ex_plan :: "string \<Rightarrow> ad_plan" where
  "ex_plan key = (case plan_ad (\<lambda>s. s) (ex_click key) 10 ex_market of Inr (Planned p) \<Rightarrow> p)"

definition ex_booked :: mon_db where
  "ex_booked = ad_writes ex_schema (ex_plan ''1'') ''1'' 10 ex_market"

lemma ex_schema_keyed: "journal_keyed ex_schema" "revenue_keyed ex_schema"
  by (simp_all add: journal_keyed_def revenue_keyed_def ex_schema_def)

lemma ex_planned: "\<And>key. key \<in> {''1'', ''2''} \<Longrightarrow> plan_ad (\<lambda>s. s) (ex_click key) 10 ex_market = Inr (Planned (ex_plan key))"
proof -
  have "case plan_ad (\<lambda>s. s) (ex_click k) 10 ex_market of Inr (Planned p) \<Rightarrow> True | _ \<Rightarrow> False" if "k = ''1'' \<or> k = ''2''" for k
    using that by (elim disjE) (hypsubst, code_simp)+
  then show "plan_ad (\<lambda>s. s) (ex_click key) 10 ex_market = Inr (Planned (ex_plan key))" if "key \<in> {''1'', ''2''}" for key
    using that by (fastforce simp: ex_plan_def split: sum.splits ad_decision.splits)
qed

definition ex_overspent :: mon_db where
  "ex_overspent = ad_writes ex_schema (ex_plan ''2'') ''2'' 10 ex_booked"

lemma ex_facts:
  "sc_accepts ex_schema ex_booked" "sc_accepts ex_schema ex_overspent" "ledger_ok ex_market" "spend_ok ex_market"
  by code_simp+

lemma ex_plans:
  "ap_billable (ex_plan ''1'') = 60" "ap_billable (ex_plan ''2'') = 60"
  "cg_id (ap_campaign (ex_plan ''1'')) = ''c''" "cg_id (ap_campaign (ex_plan ''2'')) = ''c''"
  by code_simp+

lemma ex_booking_steps:
  "mon_step ex_schema (\<lambda>s. s) ex_market ex_booked" "mon_step ex_schema (\<lambda>s. s) ex_booked ex_overspent"
proof -
  have step: "mon_step ex_schema (\<lambda>s. s) db (ad_writes ex_schema (ex_plan key) uuid 10 db)"
    if "key \<in> {''1'', ''2''}" "sc_accepts ex_schema (ad_writes ex_schema (ex_plan key) uuid 10 db)" for key uuid db
    by (rule mon_step.ad_revenue [OF ex_planned [OF that(1)], where uuid = uuid
          and r = "Inr (Recorded (ad_event_id uuid) (ex_plan key))"])
      (simp add: ad_commit_def commit_as_def mon_commit_def that(2))
  show "mon_step ex_schema (\<lambda>s. s) ex_market ex_booked"
    using step [of "''1''" "''1''" ex_market] ex_facts(1) by (simp add: ex_booked_def)
  show "mon_step ex_schema (\<lambda>s. s) ex_booked ex_overspent"
    using step [of "''2''" "''2''" ex_booked] ex_facts(2) by (simp add: ex_overspent_def)
qed

lemma ex_serial_step: "serial_step ex_schema (\<lambda>s. s) ex_market ex_booked"
  by (rule serial_step.booking [where input = "ex_click ''1''" and now = 10 and uuid = "''1''"])
    (simp add: recordVerifiedAdRevenue_def ex_planned ad_commit_def commit_as_def mon_commit_def
      ex_booked_def [symmetric] ex_facts)

lemma ledger_stays_balanced_witness:
  "\<exists>db'. (mon_step ex_schema (\<lambda>s. s))\<^sup>*\<^sup>* ex_market db' \<and> length (journal_lines db') = 6 \<and>
     an_unbalanced (anomalyReport db') = 0 \<and> an_ads_without_journal (anomalyReport db') = 0"
proof -
  have run: "(mon_step ex_schema (\<lambda>s. s))\<^sup>*\<^sup>* ex_market ex_overspent"
    using ex_booking_steps by (metis converse_rtranclp_into_rtranclp rtranclp.rtrancl_refl)
  have "length (journal_lines ex_overspent) = 6" by code_simp
  with run ledger_stays_balanced [OF ex_schema_keyed(1) ex_facts(3) run] show ?thesis by blast
qed

lemma spend_matches_recorded_events_witness:
  "\<exists>db' c. (serial_step ex_schema (\<lambda>s. s))\<^sup>*\<^sup>* ex_market db' \<and> campaign_get ''c'' db' = Some c \<and>
     cg_spent c = 60 \<and> booked ''c'' db' = 60"
proof -
  have run: "(serial_step ex_schema (\<lambda>s. s))\<^sup>*\<^sup>* ex_market ex_booked" using ex_serial_step by blast
  have "case campaign_get ''c'' ex_booked of None \<Rightarrow> False | Some c \<Rightarrow> cg_spent c = 60" by code_simp
  then obtain c where c: "campaign_get ''c'' ex_booked = Some c" "cg_spent c = 60" by (auto split: option.splits)
  from run c spend_matches_recorded_events [OF ex_facts(4) run c(1)] show ?thesis by auto
qed

text \<open>
  Two bookings that both read the campaign before either commits: the budget of 100 admits each, the
  guarded update of the second touches no row, and its event, its journal entry and its revenue
  stand all the same.  What the campaign has spent is no longer what its events add up to, which
  exceeds its budget.
\<close>

lemma interleaved_bookings_exceed_the_budget:
  "\<exists>db'. (mon_step ex_schema (\<lambda>s. s))\<^sup>*\<^sup>* ex_market db' \<and> spend_ok ex_market \<and> booked ''c'' db' = 120 \<and>
     map (\<lambda>c. (cg_id c, cg_spent c, cg_total_budget c)) (campaigns db') = [(''c'', 60, 100)] \<and>
     sum_list (map rv_gross (revenue_events db')) = 120"
proof -
  have run: "(mon_step ex_schema (\<lambda>s. s))\<^sup>*\<^sup>* ex_market ex_overspent"
    using ex_booking_steps by (metis converse_rtranclp_into_rtranclp rtranclp.rtrancl_refl)
  have "booked ''c'' ex_overspent = 120" by code_simp
  moreover have "sum_list (map rv_gross (revenue_events ex_overspent)) = 120" by code_simp
  moreover have "map (\<lambda>c. (cg_id c, cg_spent c, cg_total_budget c)) (campaigns ex_overspent) = [(''c'', 60, 100)]"
    by (simp add: ex_overspent_def ex_booked_def ad_writes_books ex_market_def ex_campaign_def may_charge_def
        charge_def ex_plans)
  ultimately show ?thesis by (intro exI [of _ ex_overspent] conjI run ex_facts(4))
qed

definition ex_refund :: "string \<Rightarrow> int \<Rightarrow> int \<Rightarrow> refund_row" where
  "ex_refund i amount at = \<lparr>rf_refund = i, rf_payment = ''m'', rf_amount = amount, rf_currency = ''CNY'',
     rf_status = ''succeeded'', rf_created = at\<rparr>"

text \<open>One refund has been reconciled when a second one is added.\<close>

definition ex_partly :: "refund_row \<Rightarrow> refund_row \<Rightarrow> mon_db" where
  "ex_partly r s = (snd (syncRefundRevenueEvents ex_schema 50 (ex_market\<lparr>payment_refunds := [r]\<rparr>)))\<lparr>payment_refunds := [r, s]\<rparr>"

definition ex_refund_run :: "refund_row \<Rightarrow> refund_row \<Rightarrow> (mon_error + nat \<times> nat) \<times> mon_db" where
  "ex_refund_run r s = syncRefundRevenueEvents ex_schema 60 (ex_partly r s)"

lemma full_refund_reverses_the_split_witness:
  "\<exists>db'. syncRefundRevenueEvents ex_schema 60 (ex_partly (ex_refund ''1'' 333 7) (ex_refund ''2'' 666 8)) = (Inr (2, 1), db') \<and>
     of_payment ''m'' rv_platform (revenue_events db') = 149 \<and>
     of_payment ''m'' rv_developer_amount (revenue_events db') = 850"
proof -
  let ?db = "ex_partly (ex_refund ''1'' 333 7) (ex_refund ''2'' 666 8)"
  have "fst (ex_refund_run (ex_refund ''1'' 333 7) (ex_refund ''2'' 666 8)) = Inr (2, 1)" by code_simp
  then have run: "syncRefundRevenueEvents ex_schema 60 ?db =
      (Inr (2, 1), snd (ex_refund_run (ex_refund ''1'' 333 7) (ex_refund ''2'' 666 8)))"
    by (simp add: ex_refund_run_def prod_eq_iff)
  have facts: "distinct (map pm_id (payments ?db))" "distinct (map rf_refund (payment_refunds ?db))"
      "booked_in_order ''m'' ?db" "payment_get ''m'' ?db = Some ex_payment" "refunded ''m'' ?db = pm_amount ex_payment"
    by code_simp+
  have "rv_platform (revenue_of_payment ex_payment 60) = 149" "rv_developer_amount (revenue_of_payment ex_payment 60) = 850"
    by code_simp+
  with run full_refund_reverses_the_split [OF ex_schema_keyed(2) facts run] show ?thesis by auto
qed

text \<open>The order matters: of a payment of 999 with a fee of 15 percent the refund of 666 is booked first, with
  a platform share of 99; an older refund of 333 that succeeds afterwards is booked with the share of
  the first 333, which is 49. The shares add up to 148, the fee of the payment is 149.\<close>

lemma late_refund_breaks_the_split:
  "\<not> booked_in_order ''m'' (ex_partly (ex_refund ''2'' 666 8) (ex_refund ''1'' 333 7))"
  "case ex_refund_run (ex_refund ''2'' 666 8) (ex_refund ''1'' 333 7) of (status, db') \<Rightarrow>
     status = Inr (2, 1) \<and> refunded ''m'' db' = 999 \<and> of_payment ''m'' rv_platform (revenue_events db') = 148 \<and>
     rv_platform (revenue_of_payment ex_payment 60) = 149"
  by code_simp+

definition ex_payout_input :: js where
  "ex_payout_input = JObj [(''payoutAccountId'', JStr ''b''), (''idempotencyKey'', JStr ''k''),
     (''currency'', JStr ''cny''), (''amount'', JNum 300)]"

definition ex_payout_run :: "(mon_error + payout_outcome) \<times> mon_db" where
  "ex_payout_run = requestDeveloperPayout ex_schema ''7'' (JStr ''o'') ex_payout_input 20 ex_market"

lemma payout_requests_are_backed_witness:
  "\<exists>r db'. requestDeveloperPayout ex_schema ''7'' (JStr ''o'') ex_payout_input 20 ex_market = (Inr (Requested r), db') \<and>
     pq_amount r \<le> available_balance ex_schema (pq_developer r) (pq_currency r) ex_market \<and>
     payout_requests db' = [r] \<and> pq_currency r = ''CNY''"
proof -
  have view: "case ex_payout_run of (Inr (Requested r), db') \<Rightarrow> pq_currency r = ''CNY'' | _ \<Rightarrow> False" by code_simp
  then obtain r db' where run: "ex_payout_run = (Inr (Requested r), db')" and "pq_currency r = ''CNY''"
    by (auto split: prod.splits sum.splits payout_outcome.splits)
  moreover have "payout_requests ex_market = []" by (simp add: ex_market_def)
  ultimately show ?thesis
    using payout_requests_are_backed [OF run [unfolded ex_payout_run_def]] by (auto simp: ex_payout_run_def)
qed

definition ex_event :: "string \<Rightarrow> js" where
  "ex_event st = JObj [(''provider'', JStr ''Apple''), (''eventId'', JStr ''e''), (''paymentId'', JStr ''m''),
     (''status'', JStr st)]"

definition ex_event_run :: "(mon_error + event_outcome) \<times> mon_db" where
  "ex_event_run = applySubscriptionEvent ex_schema (\<lambda>s. s) (ex_event ''active'') 20 ex_market"

lemma provider_event_is_applied_once_witness:
  "\<exists>db1. applySubscriptionEvent ex_schema (\<lambda>s. s) (ex_event ''active'') 20 ex_market =
       (Inr (Applied ''subscription:apple:m'' ''active''), db1) \<and>
     applySubscriptionEvent ex_schema (\<lambda>s. s) (ex_event ''active'') 30 db1 = (Inr AlreadyApplied, db1) \<and>
     applySubscriptionEvent ex_schema (\<lambda>s. s) (ex_event ''expired'') 30 db1 = (Inl EVENT_ID_REUSED, db1)"
proof -
  have "fst ex_event_run = Inr (Applied ''subscription:apple:m'' ''active'')" by code_simp
  then have run: "applySubscriptionEvent ex_schema (\<lambda>s. s) (ex_event ''active'') 20 ex_market =
      (Inr (Applied ''subscription:apple:m'' ''active''), snd ex_event_run)"
    by (simp add: ex_event_run_def prod_eq_iff)
  have "case (read_event (ex_event ''active''), read_event (ex_event ''expired'')) of
      (Inr a, Inr b) \<Rightarrow> ev_provider a = ev_provider b \<and> ev_event a = ev_event b | _ \<Rightarrow> False" by code_simp
  then obtain a b where read: "read_event (ex_event ''active'') = Inr a" "read_event (ex_event ''expired'') = Inr b"
      "ev_provider b = ev_provider a" "ev_event b = ev_event a"
    by (auto split: sum.splits)
  have "stringify (ex_event ''expired'') \<noteq> stringify (ex_event ''active'')" by code_simp
  with run read provider_event_is_applied_once [OF run rtranclp.rtrancl_refl, of 30] show ?thesis by blast
qed

end
