(* ===== verification/Contacts.thy ===== *)
theory Contacts
  imports SyncText
begin

text \<open>
  The social tables of \<open>fabushi/web/migrations\<close> and the contacts of \<open>fabushi/web/src/handlers/friends.js\<close>:
  users, friend requests and the search over them.  The caller of an operation is the identity that its
  token was verified to carry, an argument.  Operations of several requests interleave between their
  reads and their writes, so a handler that writes is its decision on the database it has seen and the
  statement or batch it then runs on the database as it is by then.
\<close>

datatype social_error =
    BAD_REQUEST_BODY | CONTACT_NOT_FOUND | CANNOT_ADD_SELF | INCOMING_REQUEST int
  | INVALID_REQUEST_ID | REQUEST_NOT_FOUND
  | MISSING_DEVICE | INVALID_CALL_ID | CANNOT_CALL_SELF | NOT_FRIENDS | CALL_ID_TAKEN | CALL_NOT_FOUND
  | INVALID_AFTER_SEQ | CALL_ENDED | INVALID_EVENT_ID | INVALID_GENERATION | INVALID_EVENT_KIND
  | INVALID_PAYLOAD | PAYLOAD_TOO_LARGE | EVENT_CONFLICT | INVALID_TRANSITION | STATE_MISMATCH
  | ONLY_CREATOR_RINGS | ONLY_PEER_ANSWERS | CLAIMED_BY_CREATOR_DEVICE | CLAIMED_BY_PEER_DEVICE
  | NOT_MEDIA_DEVICE | RECONNECT_GENERATION | STALE_GENERATION | EVENT_NOT_SAVED | CONCURRENT_EVENT
  | MESSAGE_TOO_LONG | INVALID_ATTACHMENTS | TOO_MANY_ATTACHMENTS | ATTACHMENT_NOT_OWNED | EMPTY_MESSAGE
  | REQUEST_ID_TOO_LONG | REPLY_OUTSIDE_PAIR | MESSAGE_UNCONFIRMED | MESSAGE_NOT_FOUND | NOT_THE_SENDER
  | INVALID_OPERATION_ID | INVALID_REVISION | OPERATION_REUSED | MESSAGE_DELETED | REVISION_CHANGED
  | MUTATION_REFUSED | INVALID_EMOJI | INVALID_HISTORY_CURSOR | SEARCH_TOO_LONG
  | INVALID_RESOURCE_SIZE | RESOURCE_NOT_FOUND | RESOURCE_FORBIDDEN

section \<open>Tables\<close>

record user_row =
  us_id :: int
  us_username :: string
  us_user_no :: "int option"
  us_nickname :: "string option"
  us_avatar :: "string option"
  us_alipay_avatar :: "string option"
  us_wechat_avatar :: "string option"

record friend_row =
  fr_id :: int
  fr_sender :: int
  fr_sender_name :: string
  fr_recipient :: int
  fr_recipient_name :: string
  fr_message :: string
  fr_status :: string
  fr_created :: string
  fr_updated :: string

record message_row =
  dm_id :: int
  dm_sender :: int
  dm_sender_name :: string
  dm_recipient :: int
  dm_recipient_name :: string
  dm_body :: string
  dm_client_request :: "string option"
  dm_created :: string
  dm_read :: "string option"
  dm_reply_to :: "int option"
  dm_attachments :: string
  dm_revision :: int
  dm_edited :: "string option"
  dm_deleted :: "string option"

record resource_row =
  rs_id :: string
  rs_owner :: int
  rs_object_key :: string
  rs_name :: string
  rs_content_type :: string
  rs_size :: int
  rs_created :: string

record reaction_row =
  rx_key :: "int \<times> int \<times> string"
  rx_created :: string

record mutation_row =
  mt_key :: "int \<times> string"
  mt_message :: int
  mt_kind :: string
  mt_expected :: int
  mt_result :: int
  mt_digest :: string
  mt_created :: string

record channel_row =
  ch_id :: string
  ch_creator :: int
  ch_peer :: int
  ch_creator_device :: "string option"
  ch_peer_device :: "string option"
  ch_state :: string
  ch_generation :: int
  ch_event_seq :: int
  ch_terminal :: "string option"
  ch_created :: string
  ch_updated :: string

record event_row =
  ce_call :: string
  ce_seq :: int
  ce_generation :: int
  ce_user :: int
  ce_device :: string
  ce_client_event :: string
  ce_kind :: string
  ce_payload :: string
  ce_created :: string

record social_db =
  users :: "user_row list"
  friend_requests :: "friend_row list"
  direct_messages :: "message_row list"
  message_resources :: "resource_row list"
  message_reactions :: "reaction_row list"
  message_mutations :: "mutation_row list"
  call_channels :: "channel_row list"
  call_events :: "event_row list"
  bucket :: "(string \<times> nat list) list"

record caller =
  au_user :: int
  au_username :: string

text \<open>\<open>INTEGER PRIMARY KEY AUTOINCREMENT\<close> of a table whose rows are never deleted\<close>

definition next_rowid :: "('r \<Rightarrow> int) \<Rightarrow> 'r list \<Rightarrow> int" where
  "next_rowid key rows = foldl max 0 (map key rows) + 1"

text \<open>\<open>String(v || '')\<close>\<close>

definition text_or_blank :: "js \<Rightarrow> string" where
  "text_or_blank v = js_text (if truthy v then v else JStr [])"

section \<open>Users\<close>

text \<open>SQLite's \<open>lower\<close> and its \<open>LIKE \<dots> ESCAPE '\'\<close> change and ignore the case of ASCII letters only.\<close>

definition sql_lower :: "string \<Rightarrow> string" where
  "sql_lower s = map (\<lambda>c. if is_upper c then char_of (code c + 32) else c) s"

function like :: "string \<Rightarrow> string \<Rightarrow> bool" where
  "like [] s = (s = [])"
| "like (c # p) s =
     (if c = CHR ''%'' then like p s \<or> (case s of [] \<Rightarrow> False | x # t \<Rightarrow> like (c # p) t)
      else if c = char_of (92::nat)
      then (case p of [] \<Rightarrow> False
            | d # q \<Rightarrow> (case s of [] \<Rightarrow> False | x # t \<Rightarrow> sql_lower [d] = sql_lower [x] \<and> like q t))
      else (case s of [] \<Rightarrow> False
            | x # t \<Rightarrow> (c = CHR ''_'' \<or> sql_lower [c] = sql_lower [x]) \<and> like p t))"
  by pat_completeness auto
termination by (relation "measure (\<lambda>(p, s). length p + length s)") auto

text \<open>\<open>`%${query.replaceAll('%', '\\%').replaceAll('_', '\\_')}%`\<close>\<close>

definition like_pattern :: "string \<Rightarrow> string" where
  "like_pattern query =
     ''%'' @ concat (map (\<lambda>c. if c = CHR ''%'' \<or> c = CHR ''_'' then [char_of (92::nat), c] else [c]) query) @ ''%''"

text \<open>\<open>a || b\<close> of a nullable text column\<close>

definition text_or :: "string option \<Rightarrow> string option \<Rightarrow> string option" where
  "text_or a b = (case a of None \<Rightarrow> b | Some s \<Rightarrow> if s = [] then b else Some s)"

record contact =
  ct_user :: int
  ct_username :: string
  ct_user_no :: "int option"
  ct_display_name :: string
  ct_nickname :: "string option"
  ct_avatar :: "string option"
  ct_status :: string

definition mapContact :: "user_row \<Rightarrow> string \<Rightarrow> contact" where
  "mapContact row status =
     \<lparr>ct_user = us_id row, ct_username = us_username row, ct_user_no = us_user_no row,
      ct_display_name = (case text_or (us_nickname row) None of None \<Rightarrow> us_username row | Some s \<Rightarrow> s),
      ct_nickname = text_or (us_nickname row) None,
      ct_avatar = text_or (us_avatar row) (text_or (us_alipay_avatar row) (text_or (us_wechat_avatar row) None)),
      ct_status = status\<rparr>"

text \<open>\<open>Number.parseInt(value || '', 10)\<close> of a query parameter: the digits it starts with\<close>

definition parse_int :: "string \<Rightarrow> int option" where
  "parse_int s =
     (let t = dropWhile is_space s;
          (sign, u) = (case t of [] \<Rightarrow> (1, []) | c # cs \<Rightarrow>
             if c = CHR ''-'' then (- 1, cs) else if c = CHR ''+'' then (1, cs) else (1, t));
          ds = takeWhile is_digit u
      in if ds = [] then None else Some (sign * digits_value 10 ds))"

definition clampLimit :: "string \<Rightarrow> int \<Rightarrow> int \<Rightarrow> int" where
  "clampLimit value fallback maximum =
     (case parse_int value of None \<Rightarrow> fallback | Some n \<Rightarrow> min (max n 1) maximum)"

definition user_by_number :: "int \<Rightarrow> social_db \<Rightarrow> user_row option" where
  "user_by_number n db = row_where (\<lambda>u. us_id u = n \<or> us_user_no u = Some n) (users db)"

definition user_by_name :: "string \<Rightarrow> social_db \<Rightarrow> user_row option" where
  "user_by_name name db = row_where (\<lambda>u. sql_lower (us_username u) = sql_lower name) (users db)"

definition findUser :: "social_db \<Rightarrow> js \<Rightarrow> user_row option" where
  "findUser db identifier =
     (let value = trimmed identifier in
      if value = [] then None
      else case (case js_number (JStr value) of None \<Rightarrow> None | Some n \<Rightarrow> user_by_number n db) of
          Some u \<Rightarrow> Some u
        | None \<Rightarrow> user_by_name value db)"

definition accepted_pair :: "int \<Rightarrow> int \<Rightarrow> friend_row \<Rightarrow> bool" where
  "accepted_pair a b r \<longleftrightarrow> fr_status r = ''accepted'' \<and>
     (fr_sender r = a \<and> fr_recipient r = b \<or> fr_sender r = b \<and> fr_recipient r = a)"

definition areFriends :: "social_db \<Rightarrow> int \<Rightarrow> int \<Rightarrow> bool" where
  "areFriends db a b \<longleftrightarrow> (\<exists>r \<in> set (friend_requests db). accepted_pair a b r)"

definition relationship :: "social_db \<Rightarrow> int \<Rightarrow> int \<Rightarrow> string" where
  "relationship db me other =
     (if areFriends db me other then ''friend''
      else if \<exists>r \<in> set (friend_requests db). fr_status r = ''pending'' \<and> fr_sender r = me \<and> fr_recipient r = other
      then ''pending'' else ''available'')"

definition search_matches :: "string \<Rightarrow> user_row \<Rightarrow> bool" where
  "search_matches query u \<longleftrightarrow>
     like (sql_lower (like_pattern query)) (sql_lower (us_username u)) \<or>
     like (sql_lower (like_pattern query)) (sql_lower (case us_nickname u of None \<Rightarrow> [] | Some s \<Rightarrow> s)) \<or>
     (case js_number (JStr query) of None \<Rightarrow> False | Some n \<Rightarrow> us_id u = n \<or> us_user_no u = Some n)"

definition searchFriendUsers :: "caller \<Rightarrow> string \<Rightarrow> string \<Rightarrow> social_db \<Rightarrow> contact list" where
  "searchFriendUsers me q limit db =
     (let query = trim q in
      if query = [] then []
      else map (\<lambda>u. mapContact u (relationship db (au_user me) (us_id u)))
        (take (nat (clampLimit limit 20 50))
          (sort_key (\<lambda>u. if sql_lower (us_username u) = sql_lower query then 0 else 1 :: int)
            (sort_key us_username
              (filter (\<lambda>u. us_id u \<noteq> au_user me \<and> search_matches query u) (users db))))))"

section \<open>Friend requests\<close>

definition other_end :: "int \<Rightarrow> friend_row \<Rightarrow> int" where
  "other_end me r = (if fr_sender r = me then fr_recipient r else fr_sender r)"

text \<open>\<open>ORDER BY updated_at DESC\<close> on the texts of the times\<close>

definition latest_first :: "('r \<Rightarrow> string) \<Rightarrow> 'r list \<Rightarrow> 'r list" where
  "latest_first at rows = rev (sort_key at (rev rows))"

definition listFriends :: "caller \<Rightarrow> social_db \<Rightarrow> contact list" where
  "listFriends me db =
     map (\<lambda>(t, u). mapContact u ''friend'')
       (latest_first fst
         (remdups (concat (map (\<lambda>r. map (Pair (fr_updated r)) (filter (\<lambda>u. us_id u = other_end (au_user me) r) (users db)))
           (filter (\<lambda>r. fr_status r = ''accepted'' \<and> (fr_sender r = au_user me \<or> fr_recipient r = au_user me))
             (friend_requests db))))))"

definition listIncomingFriendRequests :: "caller \<Rightarrow> social_db \<Rightarrow> (friend_row \<times> contact) list" where
  "listIncomingFriendRequests me db =
     concat (map (\<lambda>r. map (\<lambda>u. (r, mapContact u ''pending'')) (filter (\<lambda>u. us_id u = fr_sender r) (users db)))
       (latest_first fr_created
         (filter (\<lambda>r. fr_recipient r = au_user me \<and> fr_status r = ''pending'') (friend_requests db))))"

datatype friend_decision = AlreadyFriends contact | AskFriend friend_row contact

text \<open>What \<open>handleCreateFriendRequest\<close> decides on the database it reads; \<open>null\<close> has no properties.\<close>

definition decide_friend_request ::
  "caller \<Rightarrow> js \<Rightarrow> string \<Rightarrow> social_db \<Rightarrow> social_error + friend_decision" where
  "decide_friend_request me body now db =
     (if body = JNull then Inl BAD_REQUEST_BODY
      else
     (case findUser db (or_else (js_get body ''targetUserId'')
         (or_else (js_get body ''targetUsername'') (js_get body ''username''))) of
        None \<Rightarrow> Inl CONTACT_NOT_FOUND
      | Some target \<Rightarrow>
     (if us_id target = au_user me then Inl CANNOT_ADD_SELF
      else if areFriends db (au_user me) (us_id target) then Inr (AlreadyFriends (mapContact target ''friend''))
      else
     (case row_where (\<lambda>r. fr_status r = ''pending'' \<and> fr_sender r = us_id target \<and> fr_recipient r = au_user me)
         (friend_requests db) of
        Some reverse \<Rightarrow> Inl (INCOMING_REQUEST (fr_id reverse))
      | None \<Rightarrow>
          Inr (AskFriend
            \<lparr>fr_id = 0, fr_sender = au_user me, fr_sender_name = au_username me, fr_recipient = us_id target,
             fr_recipient_name = us_username target,
             fr_message = slice_to 300 (trim (text_or_blank (js_get body ''message''))),
             fr_status = ''pending'', fr_created = now, fr_updated = now\<rparr>
            (mapContact target ''pending''))))))"

definition pending_pair :: "friend_row \<Rightarrow> friend_row \<Rightarrow> bool" where
  "pending_pair r x \<longleftrightarrow> fr_status x = ''pending'' \<and> fr_sender x = fr_sender r \<and> fr_recipient x = fr_recipient r"

definition ask_friend :: "friend_row \<Rightarrow> social_db \<Rightarrow> social_db" where
  "ask_friend r db =
     db\<lparr>friend_requests :=
       (if \<exists>x \<in> set (friend_requests db). pending_pair r x
        then update_where (pending_pair r) (\<lambda>x. x\<lparr>fr_message := fr_message r, fr_updated := fr_updated r\<rparr>)
               (friend_requests db)
        else friend_requests db @ [r\<lparr>fr_id := next_rowid fr_id (friend_requests db)\<rparr>])\<rparr>"

definition createFriendRequest ::
  "caller \<Rightarrow> js \<Rightarrow> string \<Rightarrow> social_db \<Rightarrow> (social_error + contact) \<times> social_db" where
  "createFriendRequest me body now db =
     (case decide_friend_request me body now db of Inl e \<Rightarrow> (Inl e, db)
      | Inr (AlreadyFriends c) \<Rightarrow> (Inr c, db)
      | Inr (AskFriend r c) \<Rightarrow> (Inr c, ask_friend r db))"

text \<open>The pending request that \<open>handleAcceptFriendRequest\<close> finds, and the guarded update it then runs.\<close>

definition answerable :: "int \<Rightarrow> int \<Rightarrow> friend_row \<Rightarrow> bool" where
  "answerable i recipient r \<longleftrightarrow> fr_id r = i \<and> fr_recipient r = recipient \<and> fr_status r = ''pending''"

definition decide_accept :: "caller \<Rightarrow> js \<Rightarrow> social_db \<Rightarrow> social_error + int" where
  "decide_accept me requestId db =
     (case js_number requestId of None \<Rightarrow> Inl INVALID_REQUEST_ID
      | Some i \<Rightarrow>
     (case row_where (answerable i (au_user me)) (friend_requests db) of None \<Rightarrow> Inl REQUEST_NOT_FOUND
      | Some r \<Rightarrow> Inr i))"

definition accept_request :: "caller \<Rightarrow> int \<Rightarrow> string \<Rightarrow> social_db \<Rightarrow> social_db" where
  "accept_request me i now db =
     db\<lparr>friend_requests := update_where (answerable i (au_user me))
       (\<lambda>r. r\<lparr>fr_status := ''accepted'', fr_updated := now\<rparr>) (friend_requests db)\<rparr>"

definition acceptFriendRequest ::
  "caller \<Rightarrow> js \<Rightarrow> string \<Rightarrow> social_db \<Rightarrow> (social_error + int) \<times> social_db" where
  "acceptFriendRequest me requestId now db =
     (case decide_accept me requestId db of Inl e \<Rightarrow> (Inl e, db)
      | Inr i \<Rightarrow> (Inr i, accept_request me i now db))"

end
