(* ===== verification/DirectMessages.thy ===== *)
theory DirectMessages
  imports Contacts "HOL-Library.AList"
begin

text \<open>
  Direct messages between friends, of \<open>fabushi/web/src/handlers/friends.js\<close>: private resources, sending
  with a client request id, history, edits and deletions with revisions and an operation journal, and
  reactions.  SHA-256 and UUIDs are arguments; the object store is the association list \<open>bucket\<close>.
\<close>

section \<open>Resources\<close>

definition resource_get :: "string \<Rightarrow> social_db \<Rightarrow> resource_row option" where
  "resource_get i db = row_where (\<lambda>r. rs_id r = i) (message_resources db)"

definition resource_label :: "string \<Rightarrow> string \<Rightarrow> string" where
  "resource_label given fallback =
     (let t = slice_to 255 (trim (if given = [] then fallback else given)) in if t = [] then fallback else t)"

definition uploadResource ::
  "string \<Rightarrow> caller \<Rightarrow> int \<Rightarrow> string \<Rightarrow> string \<Rightarrow> nat list \<Rightarrow> string \<Rightarrow> social_db \<Rightarrow>
   (social_error + resource_row) \<times> social_db" where
  "uploadResource uuid me bytesGiven name contentType bytes now db =
     (if \<not> safe_integer bytesGiven \<or> bytesGiven \<le> 0 \<or> 26214400 < bytesGiven then (Inl INVALID_RESOURCE_SIZE, db)
      else
     (let row = \<lparr>rs_id = uuid, rs_owner = au_user me,
            rs_object_key = ''private/message-resources/'' @ int_text (au_user me) @ ''/'' @ uuid,
            rs_name = resource_label name ''attachment'',
            rs_content_type = resource_label contentType ''application/octet-stream'',
            rs_size = bytesGiven, rs_created = now\<rparr>;
          stored = AList.update (rs_object_key row) bytes (bucket db)
      in if uuid \<in> rs_id ` set (message_resources db) \<or> rs_object_key row \<in> rs_object_key ` set (message_resources db)
         then (Inl MUTATION_REFUSED, db\<lparr>bucket := AList.delete (rs_object_key row) stored\<rparr>)
         else (Inr row, db\<lparr>bucket := stored, message_resources := message_resources db @ [row]\<rparr>)))"

text \<open>\<open>parseAttachmentsJson\<close> of a stored column\<close>

definition attachments_of :: "string \<Rightarrow> js list" where
  "attachments_of raw =
     (if trim raw = [] then []
      else case json_parse raw of None \<Rightarrow> [] | Some v \<Rightarrow> elements v)"

definition between :: "int \<Rightarrow> int \<Rightarrow> message_row \<Rightarrow> bool" where
  "between a b m \<longleftrightarrow> dm_sender m = a \<and> dm_recipient m = b \<or> dm_sender m = b \<and> dm_recipient m = a"

definition participant :: "int \<Rightarrow> message_row \<Rightarrow> bool" where
  "participant u m \<longleftrightarrow> dm_sender m = u \<or> dm_recipient m = u"

definition links_resource :: "string \<Rightarrow> message_row \<Rightarrow> bool" where
  "links_resource i m \<longleftrightarrow> list_ex (\<lambda>a. js_get a ''resourceId'' = JStr i) (attachments_of (dm_attachments m))"

definition getResource :: "caller \<Rightarrow> string \<Rightarrow> social_db \<Rightarrow> social_error + resource_row \<times> nat list" where
  "getResource me i db =
     (case resource_get i db of None \<Rightarrow> Inl RESOURCE_NOT_FOUND
      | Some r \<Rightarrow>
     (if rs_owner r \<noteq> au_user me \<and>
         \<not> list_ex (\<lambda>m. links_resource i m \<and> participant (au_user me) m) (direct_messages db)
      then Inl RESOURCE_FORBIDDEN
      else case map_of (bucket db) (rs_object_key r) of None \<Rightarrow> Inl RESOURCE_NOT_FOUND
        | Some bytes \<Rightarrow> Inr (r, bytes)))"

definition resource_json :: "resource_row \<Rightarrow> js" where
  "resource_json r = JObj [(''resourceId'', JStr (rs_id r)), (''name'', JStr (rs_name r)),
     (''contentType'', JStr (rs_content_type r)), (''size'', JNum (rs_size r)), (''createdAt'', JStr (rs_created r))]"

fun canonical_resources :: "social_db \<Rightarrow> int \<Rightarrow> js list \<Rightarrow> string list \<Rightarrow> social_error + js list" where
  "canonical_resources db owner [] seen = Inr []"
| "canonical_resources db owner (item # items) seen =
     (let i = trimmed (or_else (js_get item ''resourceId'') (js_get item ''id'')) in
      if i = [] \<or> i \<in> set seen then canonical_resources db owner items seen
      else case row_where (\<lambda>r. rs_id r = i \<and> rs_owner r = owner) (message_resources db) of
          None \<Rightarrow> Inl ATTACHMENT_NOT_OWNED
        | Some r \<Rightarrow> map_sum id (\<lambda>rest. resource_json r # rest) (canonical_resources db owner items (i # seen)))"

definition canonicalizeMessageResources :: "social_db \<Rightarrow> int \<Rightarrow> js \<Rightarrow> social_error + js list" where
  "canonicalizeMessageResources db owner requested =
     (if requested = JUndef \<or> requested = JNull then Inr []
      else if \<not> is_array requested then Inl INVALID_ATTACHMENTS
      else if 10 < int (length (elements requested)) then Inl TOO_MANY_ATTACHMENTS
      else canonical_resources db owner (elements requested) [])"

section \<open>Views\<close>

text \<open>The reactions of a message: one item per emoji in the order in which the emojis first appear.\<close>

record reaction_view =
  rv_emoji :: string
  rv_count :: int
  rv_mine :: bool

fun count_reaction :: "int \<Rightarrow> reaction_view list \<Rightarrow> reaction_row \<Rightarrow> reaction_view list" where
  "count_reaction me [] r =
     [\<lparr>rv_emoji = snd (snd (rx_key r)), rv_count = 1, rv_mine = (fst (snd (rx_key r)) = me)\<rparr>]"
| "count_reaction me (v # vs) r =
     (if rv_emoji v = snd (snd (rx_key r))
      then v\<lparr>rv_count := rv_count v + 1, rv_mine := (rv_mine v \<or> fst (snd (rx_key r)) = me)\<rparr> # vs
      else v # count_reaction me vs r)"

definition reactions_of :: "social_db \<Rightarrow> int \<Rightarrow> int \<Rightarrow> reaction_view list" where
  "reactions_of db me i =
     foldl (count_reaction me) []
       (sort_key rx_created (sort_key (\<lambda>r. fst (snd (rx_key r)))
         (filter (\<lambda>r. fst (rx_key r) = i) (message_reactions db))))"

record message_view =
  mv_row :: message_row
  mv_outgoing :: bool
  mv_attachments :: "js list"
  mv_reactions :: "reaction_view list"
  mv_deleted :: bool

definition mapDirectMessage :: "social_db \<Rightarrow> int \<Rightarrow> message_row \<Rightarrow> message_view" where
  "mapDirectMessage db me m =
     \<lparr>mv_row = m, mv_outgoing = (dm_sender m = me), mv_attachments = attachments_of (dm_attachments m),
      mv_reactions = reactions_of db me (dm_id m), mv_deleted = (text_or (dm_deleted m) None \<noteq> None)\<rparr>"

definition message_get :: "int \<Rightarrow> social_db \<Rightarrow> message_row option" where
  "message_get i db = row_where (\<lambda>m. dm_id m = i) (direct_messages db)"

definition readCanonicalDirectMessage :: "social_db \<Rightarrow> int \<Rightarrow> int \<Rightarrow> message_view option" where
  "readCanonicalDirectMessage db i me = map_option (mapDirectMessage db me) (message_get i db)"

section \<open>Sending\<close>

definition message_id :: "js \<Rightarrow> int option" where
  "message_id v = (case js_number v of None \<Rightarrow> None | Some i \<Rightarrow> if safe_integer i \<and> 0 < i then Some i else None)"

definition requirePairMessage :: "social_db \<Rightarrow> js \<Rightarrow> int \<Rightarrow> int \<Rightarrow> message_row option" where
  "requirePairMessage db v a b =
     (case message_id v of None \<Rightarrow> None
      | Some i \<Rightarrow> row_where (\<lambda>m. dm_id m = i \<and> between a b m) (direct_messages db))"

definition reply_target :: "social_db \<Rightarrow> js \<Rightarrow> int \<Rightarrow> int \<Rightarrow> social_error + int option" where
  "reply_target db v a b =
     (if v = JUndef \<or> v = JNull \<or> trim (js_text v) = [] then Inr None
      else case requirePairMessage db v a b of None \<Rightarrow> Inl REPLY_OUTSIDE_PAIR | Some m \<Rightarrow> Inr (Some (dm_id m)))"

definition message_text :: "js \<Rightarrow> string" where
  "message_text body = trimmed (or_else (js_get body ''text'') (js_get body ''message''))"

definition decide_send :: "caller \<Rightarrow> js \<Rightarrow> string \<Rightarrow> social_db \<Rightarrow> social_error + message_row" where
  "decide_send me body now db =
     (if body = JNull then Inl BAD_REQUEST_BODY
      else
     (case findUser db (or_else (js_get body ''contactId'') (or_else (js_get body ''targetUserId'')
         (or_else (js_get body ''targetUsername'') (js_get body ''username'')))) of
        None \<Rightarrow> Inl CONTACT_NOT_FOUND
      | Some target \<Rightarrow>
     (if \<not> areFriends db (au_user me) (us_id target) then Inl NOT_FRIENDS
      else
     (let content = message_text body; clientRequestId = trim (text_or_blank (js_get body ''clientRequestId'')) in
     (if 4000 < int (length content) then Inl MESSAGE_TOO_LONG
      else
     (case canonicalizeMessageResources db (au_user me) (js_get body ''attachments'') of Inl e \<Rightarrow> Inl e
      | Inr attachments \<Rightarrow>
     (if content = [] \<and> attachments = [] then Inl EMPTY_MESSAGE
      else if 200 < int (length clientRequestId) then Inl REQUEST_ID_TOO_LONG
      else
     (case reply_target db (js_get body ''replyToMessageId'') (au_user me) (us_id target) of Inl e \<Rightarrow> Inl e
      | Inr reply \<Rightarrow>
          Inr \<lparr>dm_id = 0, dm_sender = au_user me, dm_sender_name = au_username me,
            dm_recipient = us_id target, dm_recipient_name = us_username target, dm_body = content,
            dm_client_request = (if clientRequestId = [] then None else Some clientRequestId),
            dm_created = now, dm_read = None, dm_reply_to = reply,
            dm_attachments = stringify (JArr attachments), dm_revision = 1, dm_edited = None,
            dm_deleted = None\<rparr>))))))))"

definition same_request :: "message_row \<Rightarrow> message_row \<Rightarrow> bool" where
  "same_request r x \<longleftrightarrow> dm_sender x = dm_sender r \<and> dm_client_request r \<noteq> None \<and>
     dm_client_request x = dm_client_request r"

text \<open>\<open>INSERT \<dots> ON CONFLICT(sender_user_id, client_request_id) DO NOTHING\<close> and the message it stands for\<close>

definition deliver :: "message_row \<Rightarrow> social_db \<Rightarrow> (int \<times> bool) \<times> social_db" where
  "deliver r db =
     (case row_where (same_request r) (direct_messages db) of
        Some existing \<Rightarrow> ((dm_id existing, True), db)
      | None \<Rightarrow> (let i = next_rowid dm_id (direct_messages db)
                in ((i, False), db\<lparr>direct_messages := direct_messages db @ [r\<lparr>dm_id := i\<rparr>]\<rparr>)))"

definition sendDirectMessage ::
  "caller \<Rightarrow> js \<Rightarrow> string \<Rightarrow> social_db \<Rightarrow> (social_error + bool \<times> message_view) \<times> social_db" where
  "sendDirectMessage me body now db =
     (case decide_send me body now db of Inl e \<Rightarrow> (Inl e, db)
      | Inr r \<Rightarrow>
     (case deliver r db of ((i, deduplicated), db') \<Rightarrow>
     (case readCanonicalDirectMessage db' i (au_user me) of None \<Rightarrow> (Inl MESSAGE_UNCONFIRMED, db')
      | Some v \<Rightarrow> (Inr (deduplicated, v), db'))))"

section \<open>History\<close>

definition history_matches :: "string \<Rightarrow> message_row \<Rightarrow> bool" where
  "history_matches query m \<longleftrightarrow> query = [] \<or> like (sql_lower (like_pattern query)) (sql_lower (dm_body m))"

definition history_rows :: "caller \<Rightarrow> int \<Rightarrow> string \<Rightarrow> string \<Rightarrow> int \<Rightarrow> string \<Rightarrow> int \<Rightarrow> social_db \<Rightarrow> message_row list" where
  "history_rows me other before afterRaw afterId query limit db =
     (let mine = filter (\<lambda>m. between (au_user me) other m \<and> history_matches query m) (direct_messages db)
      in if afterRaw \<noteq> []
         then take (nat limit) (sort_key dm_id (filter (\<lambda>m. afterId < dm_id m) mine))
         else rev (take (nat limit) (rev (sort_key dm_created (sort_key dm_id
                (filter (\<lambda>m. before = [] \<or> dm_created m < before) mine))))))"

record history_page =
  hp_contact :: contact
  hp_messages :: "message_view list"
  hp_next :: "int option"

definition listDirectMessages ::
  "caller \<Rightarrow> js \<Rightarrow> string \<Rightarrow> string \<Rightarrow> string \<Rightarrow> string \<Rightarrow> social_db \<Rightarrow> social_error + history_page" where
  "listDirectMessages me identifier limitText beforeText afterText q db =
     (case findUser db identifier of None \<Rightarrow> Inl CONTACT_NOT_FOUND
      | Some target \<Rightarrow>
     (if \<not> areFriends db (au_user me) (us_id target) then Inl NOT_FRIENDS
      else
     (let before = trim beforeText; afterRaw = trim afterText; query = trim q;
          after = (if afterRaw = [] then Some 0 else js_number (JStr afterRaw)) in
     (if before \<noteq> [] \<and> afterRaw \<noteq> [] then Inl INVALID_HISTORY_CURSOR
      else if afterRaw \<noteq> [] \<and> \<not> list_all is_digit afterRaw then Inl INVALID_HISTORY_CURSOR
      else
     (case after of None \<Rightarrow> Inl INVALID_HISTORY_CURSOR
      | Some afterId \<Rightarrow>
     (if \<not> safe_integer afterId then Inl INVALID_HISTORY_CURSOR
      else if 200 < int (length query) then Inl SEARCH_TOO_LONG
      else (let rows = history_rows me (us_id target) before afterRaw afterId query (clampLimit limitText 50 200) db
            in Inr \<lparr>hp_contact = mapContact target ''friend'',
                 hp_messages = map (mapDirectMessage db (au_user me)) rows,
                 hp_next = (if rows = [] then (if afterRaw = [] then None else Some afterId)
                            else Some (dm_id (last rows)))\<rparr>)))))))"

section \<open>Edits and deletions\<close>

text \<open>\<open>readMutationRequest\<close>: the body, and the operation id and revision with the query as a fallback\<close>

definition readMutationRequest :: "string \<Rightarrow> js \<Rightarrow> js \<Rightarrow> social_error + js \<times> js \<times> js" where
  "readMutationRequest raw queryOperation queryRevision =
     (case (if trim raw = [] then Some (JObj []) else json_parse raw) of None \<Rightarrow> Inl BAD_REQUEST_BODY
      | Some body \<Rightarrow>
          (if \<not> is_object body \<or> is_array body then Inl BAD_REQUEST_BODY
           else Inr (body, or_else (js_get body ''operationId'') queryOperation,
                     or_else (js_get body ''expectedRevision'') queryRevision)))"

definition parseMutationOperationId :: "js \<Rightarrow> string option" where
  "parseMutationOperationId v = (let t = trimmed v in if t = [] \<or> 200 < int (length t) then None else Some t)"

definition parseExpectedRevision :: "js \<Rightarrow> int option" where
  "parseExpectedRevision v =
     (case js_number v of None \<Rightarrow> None | Some n \<Rightarrow> if safe_integer n \<and> 1 \<le> n then Some n else None)"

definition readMutationTarget :: "social_db \<Rightarrow> js \<Rightarrow> int \<Rightarrow> message_row option" where
  "readMutationTarget db v me =
     (case message_id v of None \<Rightarrow> None
      | Some i \<Rightarrow> row_where (\<lambda>m. dm_id m = i \<and> participant me m) (direct_messages db))"

definition mutation_get :: "int \<times> string \<Rightarrow> social_db \<Rightarrow> mutation_row option" where
  "mutation_get k db = row_where (\<lambda>m. mt_key m = k) (message_mutations db)"

definition is_deleted :: "message_row \<Rightarrow> bool" where
  "is_deleted m \<longleftrightarrow> text_or (dm_deleted m) None \<noteq> None"

text \<open>What an edit or a deletion has settled on before its batch\<close>

record mutation_plan =
  mp_target :: int
  mp_operation :: string
  mp_expected :: int
  mp_digest :: string
  mp_text :: string

datatype mutation_decision = AlreadyMutated int | Mutate mutation_plan

definition same_mutation :: "string \<Rightarrow> mutation_plan \<Rightarrow> mutation_row \<Rightarrow> bool" where
  "same_mutation kind p m \<longleftrightarrow> mt_message m = mp_target p \<and> mt_kind m = kind \<and>
     mt_expected m = mp_expected p \<and> mt_digest m = mp_digest p"

definition settle_mutation :: "string \<Rightarrow> caller \<Rightarrow> message_row \<Rightarrow> mutation_plan \<Rightarrow> social_db \<Rightarrow>
   social_error + mutation_decision" where
  "settle_mutation kind me target p db =
     (case mutation_get (au_user me, mp_operation p) db of
        Some prior \<Rightarrow> if same_mutation kind p prior then Inr (AlreadyMutated (dm_id target)) else Inl OPERATION_REUSED
      | None \<Rightarrow>
          (if is_deleted target then Inl MESSAGE_DELETED
           else if dm_revision target \<noteq> mp_expected p then Inl REVISION_CHANGED
           else Inr (Mutate p)))"

definition edit_digest_text :: "int \<Rightarrow> int \<Rightarrow> string \<Rightarrow> string" where
  "edit_digest_text i expected content = stringify (JObj [(''kind'', JStr ''edit''), (''messageId'', JNum i),
     (''expectedRevision'', JNum expected), (''text'', JStr content)])"

definition delete_digest_text :: "int \<Rightarrow> int \<Rightarrow> string" where
  "delete_digest_text i expected = stringify (JObj [(''kind'', JStr ''delete''), (''messageId'', JNum i),
     (''expectedRevision'', JNum expected)])"

definition decide_edit ::
  "(string \<Rightarrow> string) \<Rightarrow> caller \<Rightarrow> js \<Rightarrow> string \<Rightarrow> js \<Rightarrow> js \<Rightarrow> social_db \<Rightarrow> social_error + mutation_decision" where
  "decide_edit sha me messageId raw queryOperation queryRevision db =
     (case readMutationTarget db messageId (au_user me) of None \<Rightarrow> Inl MESSAGE_NOT_FOUND
      | Some target \<Rightarrow>
     (if dm_sender target \<noteq> au_user me then Inl NOT_THE_SENDER
      else
     (case readMutationRequest raw queryOperation queryRevision of Inl e \<Rightarrow> Inl e
      | Inr (body, opValue, revValue) \<Rightarrow>
     (case parseMutationOperationId opValue of None \<Rightarrow> Inl INVALID_OPERATION_ID
      | Some operation \<Rightarrow>
     (case parseExpectedRevision revValue of None \<Rightarrow> Inl INVALID_REVISION
      | Some expected \<Rightarrow>
     (let content = message_text body in
     (if 4000 < int (length content) then Inl MESSAGE_TOO_LONG
      else if content = [] \<and> attachments_of (dm_attachments target) = [] then Inl EMPTY_MESSAGE
      else settle_mutation ''edit'' me target
        \<lparr>mp_target = dm_id target, mp_operation = operation, mp_expected = expected,
         mp_digest = sha (edit_digest_text (dm_id target) expected content), mp_text = content\<rparr> db)))))))"

definition decide_delete ::
  "(string \<Rightarrow> string) \<Rightarrow> caller \<Rightarrow> js \<Rightarrow> string \<Rightarrow> js \<Rightarrow> js \<Rightarrow> social_db \<Rightarrow> social_error + mutation_decision" where
  "decide_delete sha me messageId raw queryOperation queryRevision db =
     (case readMutationTarget db messageId (au_user me) of None \<Rightarrow> Inl MESSAGE_NOT_FOUND
      | Some target \<Rightarrow>
     (if dm_sender target \<noteq> au_user me then Inl NOT_THE_SENDER
      else
     (case readMutationRequest raw queryOperation queryRevision of Inl e \<Rightarrow> Inl e
      | Inr (body, opValue, revValue) \<Rightarrow>
     (case parseMutationOperationId opValue of None \<Rightarrow> Inl INVALID_OPERATION_ID
      | Some operation \<Rightarrow>
     (case parseExpectedRevision revValue of None \<Rightarrow> Inl INVALID_REVISION
      | Some expected \<Rightarrow>
          settle_mutation ''delete'' me target
            \<lparr>mp_target = dm_id target, mp_operation = operation, mp_expected = expected,
             mp_digest = sha (delete_digest_text (dm_id target) expected), mp_text = []\<rparr> db)))))"

text \<open>The guard both statements of a batch carry, and the journal row the first one inserts\<close>

definition mutable :: "caller \<Rightarrow> mutation_plan \<Rightarrow> message_row \<Rightarrow> bool" where
  "mutable me p m \<longleftrightarrow> dm_id m = mp_target p \<and> dm_sender m = au_user me \<and> dm_revision m = mp_expected p \<and>
     dm_deleted m = None"

definition journal_row :: "string \<Rightarrow> caller \<Rightarrow> mutation_plan \<Rightarrow> string \<Rightarrow> mutation_row" where
  "journal_row kind me p now =
     \<lparr>mt_key = (au_user me, mp_operation p), mt_message = mp_target p, mt_kind = kind,
      mt_expected = mp_expected p, mt_result = mp_expected p + 1, mt_digest = mp_digest p, mt_created = now\<rparr>"

definition edited :: "mutation_plan \<Rightarrow> string \<Rightarrow> message_row \<Rightarrow> message_row" where
  "edited p now m = m\<lparr>dm_body := mp_text p, dm_revision := mp_expected p + 1, dm_edited := Some now\<rparr>"

definition tombstoned :: "mutation_plan \<Rightarrow> string \<Rightarrow> message_row \<Rightarrow> message_row" where
  "tombstoned p now m = m\<lparr>dm_body := [], dm_attachments := ''[]'', dm_revision := mp_expected p + 1,
     dm_deleted := Some now\<rparr>"

definition drop_reactions :: "int \<Rightarrow> social_db \<Rightarrow> social_db" where
  "drop_reactions i db = db\<lparr>message_reactions := filter (\<lambda>r. fst (rx_key r) \<noteq> i) (message_reactions db)\<rparr>"

text \<open>The batch: the primary key of the journal refuses it as a whole, a failed guard leaves it without effect.\<close>

definition run_mutation ::
  "string \<Rightarrow> (message_row \<Rightarrow> message_row) \<Rightarrow> caller \<Rightarrow> mutation_plan \<Rightarrow> string \<Rightarrow> social_db \<Rightarrow>
   (social_error + unit) \<times> social_db" where
  "run_mutation kind f me p now db =
     (if \<not> list_ex (mutable me p) (direct_messages db) then (Inl REVISION_CHANGED, db)
      else if mutation_get (au_user me, mp_operation p) db \<noteq> None then (Inl MUTATION_REFUSED, db)
      else (Inr (), db\<lparr>message_mutations := message_mutations db @ [journal_row kind me p now],
                       direct_messages := update_where (mutable me p) f (direct_messages db)\<rparr>))"

definition commit_edit :: "caller \<Rightarrow> mutation_plan \<Rightarrow> string \<Rightarrow> social_db \<Rightarrow> (social_error + unit) \<times> social_db" where
  "commit_edit me p now db = run_mutation ''edit'' (edited p now) me p now db"

definition deleted_by :: "caller \<Rightarrow> int \<Rightarrow> message_row \<Rightarrow> bool" where
  "deleted_by me i m \<longleftrightarrow> dm_id m = i \<and> dm_sender m = au_user me \<and> dm_deleted m \<noteq> None"

definition commit_delete :: "caller \<Rightarrow> mutation_plan \<Rightarrow> string \<Rightarrow> social_db \<Rightarrow> (social_error + unit) \<times> social_db" where
  "commit_delete me p now db =
     (case run_mutation ''delete'' (tombstoned p now) me p now db of (r, db1) \<Rightarrow>
       (r, if r = Inl MUTATION_REFUSED then db1
           else if list_ex (\<lambda>m. dm_id m = mp_target p \<and> dm_sender m = au_user me \<and>
               dm_revision m = mp_expected p + 1 \<and> dm_deleted m = Some now) (direct_messages db1)
           then drop_reactions (mp_target p) db1 else db1))"

text \<open>A repeated deletion clears the reactions of a message that is deleted already.\<close>

definition repair_delete :: "caller \<Rightarrow> int \<Rightarrow> social_db \<Rightarrow> social_db" where
  "repair_delete me i db =
     (if list_ex (deleted_by me i) (direct_messages db) then drop_reactions i db else db)"

definition editDirectMessage ::
  "(string \<Rightarrow> string) \<Rightarrow> caller \<Rightarrow> js \<Rightarrow> string \<Rightarrow> js \<Rightarrow> js \<Rightarrow> string \<Rightarrow> social_db \<Rightarrow>
   (social_error + bool \<times> message_view option) \<times> social_db" where
  "editDirectMessage sha me messageId raw queryOperation queryRevision now db =
     (case decide_edit sha me messageId raw queryOperation queryRevision db of Inl e \<Rightarrow> (Inl e, db)
      | Inr (AlreadyMutated i) \<Rightarrow> (Inr (True, readCanonicalDirectMessage db i (au_user me)), db)
      | Inr (Mutate p) \<Rightarrow>
          and_then (commit_edit me p now db) (\<lambda>_ db'.
            (Inr (False, readCanonicalDirectMessage db' (mp_target p) (au_user me)), db')))"

definition deleteDirectMessage ::
  "(string \<Rightarrow> string) \<Rightarrow> caller \<Rightarrow> js \<Rightarrow> string \<Rightarrow> js \<Rightarrow> js \<Rightarrow> string \<Rightarrow> social_db \<Rightarrow>
   (social_error + bool \<times> message_view option) \<times> social_db" where
  "deleteDirectMessage sha me messageId raw queryOperation queryRevision now db =
     (case decide_delete sha me messageId raw queryOperation queryRevision db of Inl e \<Rightarrow> (Inl e, db)
      | Inr (AlreadyMutated i) \<Rightarrow>
          (let db' = repair_delete me i db in (Inr (True, readCanonicalDirectMessage db' i (au_user me)), db'))
      | Inr (Mutate p) \<Rightarrow>
          and_then (commit_delete me p now db) (\<lambda>_ db'.
            (Inr (False, readCanonicalDirectMessage db' (mp_target p) (au_user me)), db')))"

section \<open>Reactions\<close>

record reaction_plan =
  rp_message :: int
  rp_emoji :: string
  rp_active :: bool

definition decide_reaction :: "caller \<Rightarrow> js \<Rightarrow> js \<Rightarrow> social_db \<Rightarrow> social_error + reaction_plan" where
  "decide_reaction me messageId body db =
     (case (case js_number messageId of None \<Rightarrow> None
            | Some i \<Rightarrow> row_where (\<lambda>m. dm_id m = i \<and> participant (au_user me) m) (direct_messages db)) of
        None \<Rightarrow> Inl MESSAGE_NOT_FOUND
      | Some m \<Rightarrow>
     (if is_deleted m then Inl MESSAGE_DELETED
      else if body = JNull then Inl BAD_REQUEST_BODY
      else
     (let emoji = trim (text_or_blank (js_get body ''emoji'')) in
      if emoji = [] \<or> 32 < utf8_length emoji then Inl INVALID_EMOJI
      else Inr \<lparr>rp_message = dm_id m, rp_emoji = emoji, rp_active = (js_get body ''active'' \<noteq> JBool False)\<rparr>)))"

definition reactable :: "caller \<Rightarrow> int \<Rightarrow> message_row \<Rightarrow> bool" where
  "reactable me i m \<longleftrightarrow> dm_id m = i \<and> dm_deleted m = None \<and> participant (au_user me) m"

definition commit_reaction :: "caller \<Rightarrow> reaction_plan \<Rightarrow> string \<Rightarrow> social_db \<Rightarrow> social_db" where
  "commit_reaction me p now db =
     (let key = (rp_message p, au_user me, rp_emoji p) in
      if \<not> list_ex (reactable me (rp_message p)) (direct_messages db) then db
      else if rp_active p
      then (if key \<in> rx_key ` set (message_reactions db) then db
            else db\<lparr>message_reactions := message_reactions db @ [\<lparr>rx_key = key, rx_created = now\<rparr>]\<rparr>)
      else db\<lparr>message_reactions := filter (\<lambda>r. rx_key r \<noteq> key) (message_reactions db)\<rparr>)"

text \<open>The message is read again before the reaction is acknowledged.\<close>

definition acknowledge_reaction :: "caller \<Rightarrow> reaction_plan \<Rightarrow> social_db \<Rightarrow> social_error + reaction_view list" where
  "acknowledge_reaction me p db =
     (case readMutationTarget db (JNum (rp_message p)) (au_user me) of None \<Rightarrow> Inl MESSAGE_NOT_FOUND
      | Some m \<Rightarrow> if is_deleted m then Inl MESSAGE_DELETED else Inr (reactions_of db (au_user me) (rp_message p)))"

definition setDirectMessageReaction ::
  "caller \<Rightarrow> js \<Rightarrow> js \<Rightarrow> string \<Rightarrow> social_db \<Rightarrow> (social_error + reaction_view list) \<times> social_db" where
  "setDirectMessageReaction me messageId body now db =
     (case decide_reaction me messageId body db of Inl e \<Rightarrow> (Inl e, db)
      | Inr p \<Rightarrow> (let db' = commit_reaction me p now db in (acknowledge_reaction me p db', db')))"

end
