(* ===== verification/CallSignaling.thy ===== *)
theory CallSignaling
  imports Contacts
begin

text \<open>
  The signalling of calls between two friends, \<open>fabushi/web/src/handlers/call-signaling.js\<close>: channels
  with a state, a generation and an event log.  Appending an event is a decision on the channel that
  was read and a batch that is fenced by its state, generation and sequence number.
\<close>

section \<open>Arguments\<close>

definition call_id_char :: "char \<Rightarrow> bool" where
  "call_id_char c \<longleftrightarrow> is_alnum c \<or> c \<in> set ''._:-''"

definition opaque_id :: "int \<Rightarrow> string \<Rightarrow> bool" where
  "opaque_id shortest s \<longleftrightarrow> s \<noteq> [] \<and> is_alnum (hd s) \<and> list_all call_id_char (tl s) \<and>
     shortest \<le> int (length s) \<and> int (length s) \<le> 128"

definition validOpaqueId :: "js \<Rightarrow> int \<Rightarrow> string option" where
  "validOpaqueId v shortest = (let t = trimmed v in if opaque_id shortest t then Some t else None)"

abbreviation valid_call_id :: "js \<Rightarrow> string option" where "valid_call_id v \<equiv> validOpaqueId v 8"
abbreviation valid_event_id :: "js \<Rightarrow> string option" where "valid_event_id v \<equiv> validOpaqueId v 4"

definition parseGeneration :: "js \<Rightarrow> int option" where
  "parseGeneration v =
     (case js_number v of None \<Rightarrow> None | Some n \<Rightarrow> if safe_integer n \<and> 0 \<le> n then Some n else None)"

definition event_kinds :: "string list" where
  "event_kinds = [''transition'', ''signal'', ''media'', ''participant'']"

record call_caller = caller +
  au_device :: string

definition requireCallDevice :: "caller \<Rightarrow> string \<Rightarrow> social_error + call_caller" where
  "requireCallDevice me header =
     (let d = trim header in
      if d = [] \<or> 200 < int (length d) then Inl MISSING_DEVICE
      else Inr \<lparr>au_user = au_user me, au_username = au_username me, au_device = d\<rparr>)"

text \<open>Here a number has to be a positive safe integer before it is looked up.\<close>

definition findCallUser :: "social_db \<Rightarrow> js \<Rightarrow> user_row option" where
  "findCallUser db identifier =
     (let value = trimmed identifier in
      if value = [] then None
      else case (case js_number (JStr value) of None \<Rightarrow> None
             | Some n \<Rightarrow> if safe_integer n \<and> 0 < n then user_by_number n db else None) of
          Some u \<Rightarrow> Some u
        | None \<Rightarrow> user_by_name value db)"

section \<open>The state machine\<close>

definition transitionTarget :: "string \<Rightarrow> string \<Rightarrow> string option" where
  "transitionTarget state action =
     (if state = ''invited'' \<and> action = ''ring'' then Some ''ringing''
      else if state \<in> set [''invited'', ''ringing''] \<and> action = ''accept'' then Some ''negotiating''
      else if state \<in> set [''negotiating'', ''reconnecting''] \<and> action = ''connected'' then Some ''connected''
      else if state \<in> set [''invited'', ''ringing''] \<and> action = ''decline'' then Some ''ended''
      else if state \<in> set [''invited'', ''ringing'', ''negotiating'', ''connected'', ''reconnecting''] \<and>
              action = ''hangup'' then Some ''ended''
      else if state \<in> set [''invited'', ''ringing'', ''negotiating'', ''connected'', ''reconnecting''] \<and>
              action = ''fail'' then Some ''failed''
      else if state \<in> set [''negotiating'', ''connected'', ''reconnecting''] \<and> action = ''reconnect''
           then Some ''reconnecting''
      else if state = ''reconnecting'' \<and> action = ''resume'' then Some ''negotiating''
      else None)"

definition terminal :: "string \<Rightarrow> bool" where
  "terminal state \<longleftrightarrow> state \<in> set [''ended'', ''failed'']"

section \<open>Channels\<close>

definition channel_get :: "string \<Rightarrow> social_db \<Rightarrow> channel_row option" where
  "channel_get i db = row_where (\<lambda>c. ch_id c = i) (call_channels db)"

definition readAuthorizedChannel :: "social_db \<Rightarrow> string \<Rightarrow> int \<Rightarrow> channel_row option" where
  "readAuthorizedChannel db i me =
     row_where (\<lambda>c. ch_id c = i \<and> (ch_creator c = me \<or> ch_peer c = me)) (call_channels db)"

datatype create_decision = ExistingCall channel_row | NewCall channel_row

definition decide_call :: "call_caller \<Rightarrow> js \<Rightarrow> string \<Rightarrow> social_db \<Rightarrow> social_error + create_decision" where
  "decide_call me body now db =
     (if body = JNull then Inl BAD_REQUEST_BODY
      else
     (case valid_call_id (js_get body ''callId'') of None \<Rightarrow> Inl INVALID_CALL_ID
      | Some i \<Rightarrow>
     (case findCallUser db (or_else (js_get body ''targetUserId'') (js_get body ''targetUsername'')) of
        None \<Rightarrow> Inl CONTACT_NOT_FOUND
      | Some target \<Rightarrow>
     (if us_id target = au_user me then Inl CANNOT_CALL_SELF
      else if \<not> areFriends db (au_user me) (us_id target) then Inl NOT_FRIENDS
      else
     (case channel_get i db of
        Some existing \<Rightarrow>
          (if ch_creator existing = au_user me \<and> ch_peer existing = us_id target
           then Inr (ExistingCall existing) else Inl CALL_ID_TAKEN)
      | None \<Rightarrow>
          Inr (NewCall \<lparr>ch_id = i, ch_creator = au_user me, ch_peer = us_id target,
            ch_creator_device = Some (au_device me), ch_peer_device = None, ch_state = ''invited'',
            ch_generation = 0, ch_event_seq = 0, ch_terminal = None, ch_created = now, ch_updated = now\<rparr>))))))"

text \<open>The insert; when its primary key is taken by then, the channel is read once more.\<close>

definition commit_call :: "channel_row \<Rightarrow> social_db \<Rightarrow> (social_error + bool \<times> channel_row) \<times> social_db" where
  "commit_call c db =
     (case channel_get (ch_id c) db of
        Some raced \<Rightarrow>
          (if ch_creator raced = ch_creator c \<and> ch_peer raced = ch_peer c then (Inr (True, raced), db)
           else (Inl CALL_ID_TAKEN, db))
      | None \<Rightarrow> (Inr (False, c), db\<lparr>call_channels := call_channels db @ [c]\<rparr>))"

definition createHumanCall ::
  "call_caller \<Rightarrow> js \<Rightarrow> string \<Rightarrow> social_db \<Rightarrow> (social_error + bool \<times> channel_row) \<times> social_db" where
  "createHumanCall me body now db =
     (case decide_call me body now db of Inl e \<Rightarrow> (Inl e, db)
      | Inr (ExistingCall c) \<Rightarrow> (Inr (True, c), db)
      | Inr (NewCall c) \<Rightarrow> commit_call c db)"

definition listHumanCalls :: "call_caller \<Rightarrow> string \<Rightarrow> social_db \<Rightarrow> channel_row list" where
  "listHumanCalls me limit db =
     take (nat (clampLimit limit 100 200))
       (rev (sort_key ch_updated (sort_key ch_id
         (filter (\<lambda>c. ch_creator c = au_user me \<or> ch_peer c = au_user me) (call_channels db)))))"

definition getHumanCall ::
  "call_caller \<Rightarrow> js \<Rightarrow> string \<Rightarrow> string \<Rightarrow> social_db \<Rightarrow> social_error + channel_row \<times> event_row list \<times> int" where
  "getHumanCall me rawCallId after limit db =
     (case valid_call_id rawCallId of None \<Rightarrow> Inl INVALID_CALL_ID
      | Some i \<Rightarrow>
     (case readAuthorizedChannel db i (au_user me) of None \<Rightarrow> Inl CALL_NOT_FOUND
      | Some c \<Rightarrow>
     (case (if after = [] then Some 0 else js_number (JStr after)) of None \<Rightarrow> Inl INVALID_AFTER_SEQ
      | Some afterSeq \<Rightarrow>
          (if \<not> safe_integer afterSeq \<or> afterSeq < 0 then Inl INVALID_AFTER_SEQ
           else (let page = take (nat (clampLimit limit 100 200))
                   (sort_key ce_seq (filter (\<lambda>e. ce_call e = i \<and> afterSeq < ce_seq e) (call_events db)))
                 in Inr (c, page, (if page = [] then afterSeq else ce_seq (last page))))))))"

section \<open>Appending an event\<close>

record event_plan =
  ep_seen :: channel_row
  ep_state :: string
  ep_generation :: int
  ep_terminal :: "string option"
  ep_creator_device :: "string option"
  ep_peer_device :: "string option"
  ep_event :: event_row

datatype event_decision = DuplicateEvent event_row channel_row | AppendEvent event_plan

definition is_creator :: "call_caller \<Rightarrow> channel_row \<Rightarrow> bool" where
  "is_creator me c \<longleftrightarrow> ch_creator c = au_user me"

definition claimed_device :: "call_caller \<Rightarrow> channel_row \<Rightarrow> string option" where
  "claimed_device me c = (if is_creator me c then ch_creator_device c else ch_peer_device c)"

text \<open>The device that has the media transport of a participant after a transition, or why it may not act\<close>

definition claim_device ::
  "call_caller \<Rightarrow> channel_row \<Rightarrow> string \<Rightarrow> social_error + string option \<times> string option" where
  "claim_device me c action =
     (let claimed = claimed_device me c; mine = Some (au_device me) in
      if is_creator me c
      then (if claimed \<noteq> None \<and> claimed \<noteq> mine then Inl CLAIMED_BY_CREATOR_DEVICE
            else Inr (mine, ch_peer_device c))
      else if action = ''accept''
      then (if claimed \<noteq> None \<and> claimed \<noteq> mine then Inl CLAIMED_BY_PEER_DEVICE
            else Inr (ch_creator_device c, mine))
      else if action \<noteq> ''decline'' \<and> claimed \<noteq> mine then Inl NOT_MEDIA_DEVICE
      else Inr (ch_creator_device c, ch_peer_device c))"

definition plan_transition ::
  "call_caller \<Rightarrow> channel_row \<Rightarrow> js \<Rightarrow> int \<Rightarrow> event_row \<Rightarrow> social_error + event_plan" where
  "plan_transition me c payload generation ev =
     (let action = trim (text_or_blank (js_get payload ''action'')) in
     (case transitionTarget (ch_state c) action of None \<Rightarrow> Inl INVALID_TRANSITION
      | Some target \<Rightarrow>
     (if or_else (js_get payload ''state'') (JStr target) \<noteq> JStr target then Inl STATE_MISMATCH
      else if action = ''ring'' \<and> \<not> is_creator me c then Inl ONLY_CREATOR_RINGS
      else if action \<in> set [''accept'', ''decline''] \<and> ch_peer c \<noteq> au_user me then Inl ONLY_PEER_ANSWERS
      else
     (case claim_device me c action of Inl e \<Rightarrow> Inl e
      | Inr (creatorDevice, peerDevice) \<Rightarrow>
     (if action = ''reconnect'' \<and> generation \<noteq> ch_generation c + 1 then Inl RECONNECT_GENERATION
      else if action \<noteq> ''reconnect'' \<and> generation \<noteq> ch_generation c then Inl STALE_GENERATION
      else Inr \<lparr>ep_seen = c, ep_state = target,
             ep_generation = (if action = ''reconnect'' then generation else ch_generation c),
             ep_terminal = (if terminal target then Some target else None),
             ep_creator_device = creatorDevice, ep_peer_device = peerDevice, ep_event = ev\<rparr>)))))"

definition plan_media :: "call_caller \<Rightarrow> channel_row \<Rightarrow> int \<Rightarrow> event_row \<Rightarrow> social_error + event_plan" where
  "plan_media me c generation ev =
     (if generation \<noteq> ch_generation c then Inl STALE_GENERATION
      else if claimed_device me c \<noteq> Some (au_device me) then Inl NOT_MEDIA_DEVICE
      else Inr \<lparr>ep_seen = c, ep_state = ch_state c, ep_generation = ch_generation c, ep_terminal = None,
             ep_creator_device = ch_creator_device c, ep_peer_device = ch_peer_device c, ep_event = ev\<rparr>)"

definition event_get :: "string \<Rightarrow> int \<Rightarrow> string \<Rightarrow> string \<Rightarrow> social_db \<Rightarrow> event_row option" where
  "event_get i user device clientEvent db =
     row_where (\<lambda>e. ce_call e = i \<and> ce_user e = user \<and> ce_device e = device \<and> ce_client_event e = clientEvent)
       (call_events db)"

definition plan_event ::
  "call_caller \<Rightarrow> channel_row \<Rightarrow> string \<Rightarrow> int \<Rightarrow> string \<Rightarrow> js \<Rightarrow> string \<Rightarrow> social_error + event_plan" where
  "plan_event me c clientEvent generation kind payload now =
     (let ev = \<lparr>ce_call = ch_id c, ce_seq = ch_event_seq c + 1, ce_generation = generation, ce_user = au_user me,
            ce_device = au_device me, ce_client_event = clientEvent, ce_kind = kind,
            ce_payload = stringify payload, ce_created = now\<rparr>
      in if kind = ''transition'' then plan_transition me c payload generation ev
         else plan_media me c generation ev)"

definition decide_event ::
  "call_caller \<Rightarrow> channel_row \<Rightarrow> js \<Rightarrow> string \<Rightarrow> social_db \<Rightarrow> social_error + event_decision" where
  "decide_event me c body now db =
     (case valid_event_id (js_get body ''clientEventId'') of None \<Rightarrow> Inl INVALID_EVENT_ID
      | Some clientEvent \<Rightarrow>
     (case parseGeneration (js_get body ''generation'') of None \<Rightarrow> Inl INVALID_GENERATION
      | Some generation \<Rightarrow>
     (let kind = trim (text_or_blank (js_get body ''kind'')); payload = js_get body ''payload'' in
     (if kind \<notin> set event_kinds then Inl INVALID_EVENT_KIND
      else if \<not> is_object payload \<or> is_array payload then Inl INVALID_PAYLOAD
      else if 65536 < int (utf8_length (stringify payload)) then Inl PAYLOAD_TOO_LARGE
      else
     (case event_get (ch_id c) (au_user me) (au_device me) clientEvent db of
        Some duplicate \<Rightarrow>
          (if ce_generation duplicate \<noteq> generation \<or> ce_kind duplicate \<noteq> kind \<or>
              ce_payload duplicate \<noteq> stringify payload
           then Inl EVENT_CONFLICT else Inr (DuplicateEvent duplicate c))
      | None \<Rightarrow> map_sum id AppendEvent (plan_event me c clientEvent generation kind payload now))))))"

definition decide_append ::
  "call_caller \<Rightarrow> js \<Rightarrow> js \<Rightarrow> string \<Rightarrow> social_db \<Rightarrow> social_error + event_decision" where
  "decide_append me rawCallId body now db =
     (case valid_call_id rawCallId of None \<Rightarrow> Inl INVALID_CALL_ID
      | Some i \<Rightarrow>
     (case readAuthorizedChannel db i (au_user me) of None \<Rightarrow> Inl CALL_NOT_FOUND
      | Some c \<Rightarrow>
     (if text_or (ch_terminal c) None \<noteq> None then Inl CALL_ENDED
      else if body = JNull then Inl BAD_REQUEST_BODY
      else decide_event me c body now db)))"

text \<open>The fence of the update, what it sets, and the keys of the event table that can refuse the batch\<close>

definition fenced :: "event_plan \<Rightarrow> channel_row \<Rightarrow> bool" where
  "fenced p c \<longleftrightarrow> ch_id c = ch_id (ep_seen p) \<and> ch_state c = ch_state (ep_seen p) \<and>
     ch_generation c = ch_generation (ep_seen p) \<and> ch_event_seq c = ch_event_seq (ep_seen p) \<and> ch_terminal c = None"

definition coalesce :: "'a option \<Rightarrow> 'a option \<Rightarrow> 'a option" where
  "coalesce a b = (case a of None \<Rightarrow> b | Some x \<Rightarrow> Some x)"

definition advance :: "event_plan \<Rightarrow> channel_row \<Rightarrow> channel_row" where
  "advance p c = c\<lparr>ch_state := ep_state p, ch_generation := ep_generation p, ch_event_seq := ce_seq (ep_event p),
     ch_terminal := coalesce (ep_terminal p) (ch_terminal c),
     ch_creator_device := coalesce (ch_creator_device c) (ep_creator_device p),
     ch_peer_device := coalesce (ch_peer_device c) (ep_peer_device p), ch_updated := ce_created (ep_event p)\<rparr>"

definition event_key_taken :: "event_row \<Rightarrow> social_db \<Rightarrow> bool" where
  "event_key_taken e db \<longleftrightarrow> list_ex (\<lambda>x. ce_call x = ce_call e \<and> (ce_seq x = ce_seq e \<or>
     ce_user x = ce_user e \<and> ce_device x = ce_device e \<and> ce_client_event x = ce_client_event e)) (call_events db)"

definition commit_event :: "event_plan \<Rightarrow> social_db \<Rightarrow> (social_error + event_row) \<times> social_db" where
  "commit_event p db =
     (if changes (fenced p) (call_channels db) \<noteq> 1 then (Inl CONCURRENT_EVENT, db)
      else if event_key_taken (ep_event p) db then (Inl EVENT_NOT_SAVED, db)
      else (Inr (ep_event p), db\<lparr>call_channels := update_where (fenced p) (advance p) (call_channels db),
                              call_events := call_events db @ [ep_event p]\<rparr>))"

datatype append_outcome = Deduplicated event_row channel_row | Appended event_row "channel_row option"

definition appendHumanCallEvent ::
  "call_caller \<Rightarrow> js \<Rightarrow> js \<Rightarrow> string \<Rightarrow> social_db \<Rightarrow> (social_error + append_outcome) \<times> social_db" where
  "appendHumanCallEvent me rawCallId body now db =
     (case decide_append me rawCallId body now db of Inl e \<Rightarrow> (Inl e, db)
      | Inr (DuplicateEvent e c) \<Rightarrow> (Inr (Deduplicated e c), db)
      | Inr (AppendEvent p) \<Rightarrow>
          and_then (commit_event p db) (\<lambda>e db'.
            (Inr (Appended e (readAuthorizedChannel db' (ce_call e) (au_user me))), db')))"

section \<open>Relay credentials\<close>

text \<open>\<open>readTurnConfiguration\<close>, and the check of the relay service's answer\<close>

record turn_config =
  tc_key :: string
  tc_token :: string
  tc_ttl :: int

definition readTurnConfiguration :: "js \<Rightarrow> js \<Rightarrow> js \<Rightarrow> turn_config option" where
  "readTurnConfiguration key token ttl =
     (let k = trim (text_or_blank key); t = trim (text_or_blank token) in
      if \<not> (8 \<le> int (length k) \<and> int (length k) \<le> 128 \<and> list_all (\<lambda>c. is_alnum c \<or> c \<in> set ''_-'') k) \<or>
         int (length t) < 16 \<or> 512 < int (length t) then None
      else Some \<lparr>tc_key = k, tc_token = t,
             tc_ttl = (case parse_int (text_or_blank ttl) of None \<Rightarrow> 3600 | Some n \<Rightarrow> min (max n 300) 86400)\<rparr>)"

definition ice_url :: "js \<Rightarrow> bool" where
  "ice_url v =
     (case v of JStr s \<Rightarrow>
        list_ex (\<lambda>scheme. prefix scheme (sql_lower s) \<and>
          (let rest = drop (length scheme) s
           in rest \<noteq> [] \<and> int (length rest) \<le> 1024 \<and> list_all (\<lambda>c. \<not> is_space c) rest))
          [''stun:'', ''turn:'', ''turns:'']
      | _ \<Rightarrow> False)"

definition ice_secret :: "js \<Rightarrow> bool" where
  "ice_secret v = (case v of JUndef \<Rightarrow> True | JNull \<Rightarrow> True | JStr s \<Rightarrow> int (length s) \<le> 2048 | _ \<Rightarrow> False)"

definition ice_entry :: "js \<Rightarrow> bool" where
  "ice_entry entry \<longleftrightarrow> is_object entry \<and> \<not> is_array entry \<and>
     (let u = js_get entry ''urls''; urls = (if is_array u then elements u else [u])
      in urls \<noteq> [] \<and> int (length urls) \<le> 16 \<and> list_all ice_url urls) \<and>
     ice_secret (js_get entry ''username'') \<and> ice_secret (js_get entry ''credential'')"

definition validIceServers :: "js \<Rightarrow> bool" where
  "validIceServers v \<longleftrightarrow> is_array v \<and> elements v \<noteq> [] \<and> int (length (elements v)) \<le> 16 \<and>
     list_all ice_entry (elements v)"

datatype ice_outcome = RelayUnconfigured | RelayUnavailable | RelayBadAnswer | RelayRefused | RelayServers js int

text \<open>The answer of the relay service: none, a body that is no JSON, or its status and value.\<close>

datatype relay_answer = NoAnswer | Garbled | Answered bool js

definition getHumanCallIceServers :: "js \<Rightarrow> js \<Rightarrow> js \<Rightarrow> (turn_config \<Rightarrow> relay_answer) \<Rightarrow> ice_outcome" where
  "getHumanCallIceServers key token ttl relay =
     (case readTurnConfiguration key token ttl of None \<Rightarrow> RelayUnconfigured
      | Some config \<Rightarrow>
     (case relay config of NoAnswer \<Rightarrow> RelayUnavailable
      | Garbled \<Rightarrow> RelayBadAnswer
      | Answered okay payload \<Rightarrow>
          (if \<not> okay \<or> \<not> validIceServers (js_get payload ''iceServers'') then RelayRefused
           else RelayServers (js_get payload ''iceServers'') (tc_ttl config))))"

end
