(* ===== verification/SocialRuns.thy ===== *)
theory SocialRuns
  imports DirectMessages CallSignaling
begin

text \<open>
  Runs of the social handlers.  A run is the list of the databases it went through, the last first.  A
  step is the write of one request on the current database, after decisions the request took on a
  database it saw, any one of the run so far.  What a request sends is parsed JSON, which is
  \<open>js_ok\<close>.
\<close>

section \<open>Steps\<close>

inductive social_step :: "(string \<Rightarrow> string) \<Rightarrow> social_db list \<Rightarrow> social_db \<Rightarrow> social_db \<Rightarrow> bool"
  for sha :: "string \<Rightarrow> string" and past :: "social_db list"
where
  ask: "seen \<in> set past \<Longrightarrow> decide_friend_request me body now seen = Inr (AskFriend r c) \<Longrightarrow>
     social_step sha past db (ask_friend r db)"
| accept: "seen \<in> set past \<Longrightarrow> decide_accept me requestId seen = Inr i \<Longrightarrow>
     social_step sha past db (accept_request me i now db)"
| upload: "uploadResource uuid me n name contentType bytes now db = (r, db') \<Longrightarrow> social_step sha past db db'"
| send: "seen \<in> set past \<Longrightarrow> decide_send me body now seen = Inr m \<Longrightarrow> deliver m db = (x, db') \<Longrightarrow>
     social_step sha past db db'"
| edit: "seen \<in> set past \<Longrightarrow> decide_edit sha me i raw qo qr seen = Inr (Mutate p) \<Longrightarrow>
     commit_edit me p now db = (r, db') \<Longrightarrow> social_step sha past db db'"
| delete: "seen \<in> set past \<Longrightarrow> decide_delete sha me i raw qo qr seen = Inr (Mutate p) \<Longrightarrow>
     commit_delete me p now db = (r, db') \<Longrightarrow> social_step sha past db db'"
| repair: "seen \<in> set past \<Longrightarrow> decide_delete sha me i raw qo qr seen = Inr (AlreadyMutated k) \<Longrightarrow>
     social_step sha past db (repair_delete me k db)"
| react: "seen \<in> set past \<Longrightarrow> decide_reaction me i body seen = Inr p \<Longrightarrow>
     social_step sha past db (commit_reaction me p now db)"
| call: "seen \<in> set past \<Longrightarrow> decide_call caller body now seen = Inr (NewCall c) \<Longrightarrow> commit_call c db = (x, db') \<Longrightarrow>
     social_step sha past db db'"
| append_event: "seen \<in> set past \<Longrightarrow> js_ok body \<Longrightarrow> decide_append caller raw body now seen = Inr (AppendEvent e) \<Longrightarrow>
     commit_event e db = (x', db') \<Longrightarrow> social_step sha past db db'"

inductive_cases social_stepE: "social_step sha past db db'"

inductive history_step :: "(string \<Rightarrow> string) \<Rightarrow> social_db list \<Rightarrow> social_db list \<Rightarrow> bool"
  for sha :: "string \<Rightarrow> string"
where
  next_state: "social_step sha (db # past) db db' \<Longrightarrow> history_step sha (db # past) (db' # db # past)"

inductive_cases history_stepE: "history_step sha h h'"

text \<open>The database before any request: only users.\<close>

definition only_users :: "user_row list \<Rightarrow> social_db" where
  "only_users us = \<lparr>users = us, friend_requests = [], direct_messages = [], message_resources = [],
     message_reactions = [], message_mutations = [], call_channels = [], call_events = [], bucket = []\<rparr>"

section \<open>What a step changes\<close>

definition call_side :: "social_db \<Rightarrow> channel_row list \<times> event_row list" where
  "call_side db = (call_channels db, call_events db)"

definition message_side :: "social_db \<Rightarrow> message_row list \<times> mutation_row list \<times> reaction_row list" where
  "message_side db = (direct_messages db, message_mutations db, message_reactions db)"

lemma uploadResource_frame:
  "uploadResource uuid me n name contentType bytes now db = (r, db') \<Longrightarrow>
     call_side db' = call_side db \<and> message_side db' = message_side db \<and> friend_requests db' = friend_requests db"
  by (auto simp: uploadResource_def Let_def call_side_def message_side_def split: if_splits)

lemma deliver_effect:
  "deliver m db = (x, db') \<Longrightarrow> db' = db \<or> row_where (same_request m) (direct_messages db) = None \<and>
     db' = db\<lparr>direct_messages := direct_messages db @ [m\<lparr>dm_id := next_rowid dm_id (direct_messages db)\<rparr>]\<rparr>"
  by (auto simp: deliver_def Let_def simp del: row_where_None split: option.splits)

lemma run_mutation_effect:
  "run_mutation kind f me p now db = (r, db') \<Longrightarrow>
     db' = db \<and> r \<noteq> Inr () \<or>
     list_ex (mutable me p) (direct_messages db) \<and> mutation_get (au_user me, mp_operation p) db = None \<and> r = Inr () \<and>
     db' = db\<lparr>message_mutations := message_mutations db @ [journal_row kind me p now],
              direct_messages := update_where (mutable me p) f (direct_messages db)\<rparr>"
  by (auto simp: run_mutation_def split: if_splits)

lemma commit_reaction_effect:
  "commit_reaction me p now db = db \<or>
   list_ex (reactable me (rp_message p)) (direct_messages db) \<and>
   commit_reaction me p now db = db\<lparr>message_reactions := message_reactions (commit_reaction me p now db)\<rparr> \<and>
   fst ` rx_key ` set (message_reactions (commit_reaction me p now db))
     \<subseteq> insert (rp_message p) (fst ` rx_key ` set (message_reactions db))"
  by (auto simp: commit_reaction_def Let_def)

lemma commit_event_effect:
  "commit_event p db = (r, db') \<Longrightarrow> db' = db \<and> r \<noteq> Inr (ep_event p) \<or>
     changes (fenced p) (call_channels db) = 1 \<and> \<not> event_key_taken (ep_event p) db \<and> r = Inr (ep_event p) \<and>
     db' = db\<lparr>call_channels := update_where (fenced p) (advance p) (call_channels db),
              call_events := call_events db @ [ep_event p]\<rparr>"
  by (auto simp: commit_event_def split: if_splits)

lemma commit_call_effect:
  "commit_call c db = (r, db') \<Longrightarrow> db' = db \<or>
     channel_get (ch_id c) db = None \<and> db' = db\<lparr>call_channels := call_channels db @ [c]\<rparr>"
  by (auto simp: commit_call_def split: option.splits if_splits)

lemma friend_side_simps [simp]:
  "call_side (ask_friend r db) = call_side db" "message_side (ask_friend r db) = message_side db"
  "call_side (accept_request me i now db) = call_side db" "message_side (accept_request me i now db) = message_side db"
  by (simp_all add: ask_friend_def accept_request_def call_side_def message_side_def)

lemma message_edit_frame:
  "commit_edit me p now db = (r, db') \<Longrightarrow> call_side db' = call_side db \<and> friend_requests db' = friend_requests db"
  "commit_delete me p now db = (r', db') \<Longrightarrow> call_side db' = call_side db \<and> friend_requests db' = friend_requests db"
  "call_side (repair_delete me i db) = call_side db" "friend_requests (repair_delete me i db) = friend_requests db"
  "call_side (commit_reaction me q now db) = call_side db" "friend_requests (commit_reaction me q now db) = friend_requests db"
  by (auto simp: commit_edit_def commit_delete_def repair_delete_def drop_reactions_def call_side_def Let_def
      commit_reaction_def split: prod.splits if_splits dest!: run_mutation_effect)

lemma deliver_frame:
  "deliver m db = (x, db') \<Longrightarrow> call_side db' = call_side db \<and> friend_requests db' = friend_requests db"
  by (auto simp: call_side_def dest!: deliver_effect)

lemma call_frame:
  "commit_call c db = (x, db') \<Longrightarrow> message_side db' = message_side db \<and> friend_requests db' = friend_requests db"
  "commit_event e db = (x', db') \<Longrightarrow> message_side db' = message_side db \<and> friend_requests db' = friend_requests db"
  by (auto simp: message_side_def dest!: commit_call_effect commit_event_effect)

lemma step_calls:
  assumes "social_step sha past db db'"
  shows "call_side db' = call_side db \<or>
    (\<exists>seen caller body now c x. seen \<in> set past \<and> decide_call caller body now seen = Inr (NewCall c) \<and>
       commit_call c db = (x, db')) \<or>
    (\<exists>seen caller raw body now e x. seen \<in> set past \<and> js_ok body \<and>
       decide_append caller raw body now seen = Inr (AppendEvent e) \<and> commit_event e db = (x, db'))"
  using assms
proof (cases rule: social_step.cases)
  case (upload uuid me n name contentType bytes now r)
  then show ?thesis by (auto dest!: uploadResource_frame)
next
  case (send seen me body now m x)
  then show ?thesis by (auto dest!: deliver_frame)
next
  case (edit seen me i raw qo qr p now r)
  then show ?thesis by (auto dest!: message_edit_frame(1))
next
  case (delete seen me i raw qo qr p now r)
  then show ?thesis by (auto dest!: message_edit_frame(2))
next
  case (call seen caller body now c x)
  then show ?thesis by blast
next
  case (append_event seen body caller raw now e x')
  then show ?thesis by blast
qed (simp_all add: message_edit_frame)

section \<open>Friendships\<close>

lemma ask_friend_keeps: "areFriends db a b \<Longrightarrow> areFriends (ask_friend r db) a b"
  by (auto simp: areFriends_def ask_friend_def set_update_where pending_pair_def accepted_pair_def image_iff)

lemma accept_request_keeps: "areFriends db a b \<Longrightarrow> areFriends (accept_request me i now db) a b"
  by (fastforce simp: areFriends_def accept_request_def set_update_where answerable_def accepted_pair_def image_iff)

lemma areFriends_frame: "friend_requests db' = friend_requests db \<Longrightarrow> areFriends db' a b = areFriends db a b"
  by (simp add: areFriends_def)

lemma step_friend_requests:
  assumes "social_step sha past db db'"
  shows "friend_requests db' = friend_requests db \<or> (\<exists>r. db' = ask_friend r db) \<or>
    (\<exists>me i now. db' = accept_request me i now db)"
  using assms
proof (cases rule: social_step.cases)
  case (upload uuid me n name contentType bytes now r)
  then show ?thesis by (auto dest!: uploadResource_frame)
next
  case (send seen me body now m x)
  then show ?thesis by (auto dest!: deliver_frame)
next
  case (edit seen me i raw qo qr p now r)
  then show ?thesis by (auto dest!: message_edit_frame(1))
next
  case (delete seen me i raw qo qr p now r)
  then show ?thesis by (auto dest!: message_edit_frame(2))
next
  case (call seen caller body now c x)
  then show ?thesis by (auto dest!: call_frame(1))
next
  case (append_event seen body caller raw now e x')
  then show ?thesis by (auto dest!: call_frame(2))
qed (auto simp: message_edit_frame)

lemma step_friends:
  "social_step sha past db db' \<Longrightarrow> areFriends db a b \<Longrightarrow> areFriends db' a b"
  using step_friend_requests [of sha past db db'] ask_friend_keeps accept_request_keeps areFriends_frame by metis

text \<open>Friendships last, so a friendship any decision saw still holds when its write happens.\<close>

definition friends_last :: "social_db list \<Rightarrow> bool" where
  "friends_last h \<longleftrightarrow> h \<noteq> [] \<and> (\<forall>seen \<in> set h. \<forall>a b. areFriends seen a b \<longrightarrow> areFriends (hd h) a b)"

lemma friends_last_step: "friends_last h \<Longrightarrow> history_step sha h h' \<Longrightarrow> friends_last h'"
  by (auto simp: friends_last_def elim!: history_stepE; blast intro: step_friends)

definition contacts_ok :: "social_db \<Rightarrow> bool" where
  "contacts_ok db \<longleftrightarrow>
     (\<forall>c \<in> set (call_channels db). ch_creator c \<noteq> ch_peer c \<and> areFriends db (ch_creator c) (ch_peer c)) \<and>
     (\<forall>m \<in> set (direct_messages db). areFriends db (dm_sender m) (dm_recipient m))"

lemma decide_call_New:
  "decide_call caller body now db = Inr (NewCall c) \<Longrightarrow>
     ch_creator c = au_user caller \<and> ch_creator c \<noteq> ch_peer c \<and> areFriends db (ch_creator c) (ch_peer c) \<and>
     ch_state c = ''invited'' \<and> ch_generation c = 0 \<and> ch_event_seq c = 0 \<and> ch_terminal c = None \<and>
     ch_creator_device c = Some (au_device caller) \<and> ch_peer_device c = None"
  by (auto simp: decide_call_def split: option.splits if_splits)

lemma decide_send_row:
  "decide_send me body now db = Inr m \<Longrightarrow>
     dm_sender m = au_user me \<and> areFriends db (dm_sender m) (dm_recipient m) \<and> dm_revision m = 1 \<and>
     dm_deleted m = None"
  by (auto simp: decide_send_def Let_def split: option.splits sum.splits if_splits)

definition people :: "social_db \<Rightarrow> (int \<times> int) list" where
  "people db = map (\<lambda>m. (dm_sender m, dm_recipient m)) (direct_messages db)"

lemma people_mutation:
  "(\<And>m. dm_sender (f m) = dm_sender m \<and> dm_recipient (f m) = dm_recipient m) \<Longrightarrow>
   run_mutation kind f me p now db = (r, db') \<Longrightarrow> people db' = people db"
  by (auto simp: people_def update_where_def dest!: run_mutation_effect)

lemma people_commit:
  "commit_edit me p now db = (r, db') \<Longrightarrow> people db' = people db"
  "commit_delete me p now db = (r', db') \<Longrightarrow> people db' = people db"
  "people (repair_delete me i db) = people db" "people (commit_reaction me q now db) = people db"
proof -
  show "commit_edit me p now db = (r, db') \<Longrightarrow> people db' = people db"
    unfolding commit_edit_def by (rule people_mutation [of "edited p now"]) (simp_all add: edited_def)
  show "people db' = people db" if del: "commit_delete me p now db = (r', db')"
  proof -
    obtain x db1 where run: "run_mutation ''delete'' (tombstoned p now) me p now db = (x, db1)"
      by (cases "run_mutation ''delete'' (tombstoned p now) me p now db")
    have "people db1 = people db" by (rule people_mutation [OF _ run]) (simp add: tombstoned_def)
    with del run show ?thesis
      by (auto simp: commit_delete_def drop_reactions_def people_def split: if_splits)
  qed
  show "people (repair_delete me i db) = people db" "people (commit_reaction me q now db) = people db"
    by (simp_all add: repair_delete_def drop_reactions_def people_def commit_reaction_def Let_def)
qed

lemma people_frame: "message_side db' = message_side db \<Longrightarrow> people db' = people db"
  by (simp add: people_def message_side_def)

lemma people_friend: "people (ask_friend r db) = people db" "people (accept_request me i now db) = people db"
  by (rule people_frame, simp)+

lemma step_people:
  assumes "social_step sha past db db'"
  shows "set (people db') \<subseteq> set (people db) \<or>
    (\<exists>seen me body now m. seen \<in> set past \<and> decide_send me body now seen = Inr m \<and>
       set (people db') \<subseteq> insert (dm_sender m, dm_recipient m) (set (people db)))"
  using assms
proof (cases rule: social_step.cases)
  case (upload uuid me n name contentType bytes now r)
  then have "people db' = people db" by (auto dest!: uploadResource_frame intro: people_frame)
  then show ?thesis by simp
next
  case (send seen me body now m x)
  from deliver_effect [OF send(3)] have "set (people db') \<subseteq> insert (dm_sender m, dm_recipient m) (set (people db))"
    by (elim disjE conjE) (auto simp: people_def)
  with send show ?thesis by blast
next
  case (edit seen me i raw qo qr p now r)
  then show ?thesis using people_commit(1) by (metis order_refl)
next
  case (delete seen me i raw qo qr p now r)
  then show ?thesis using people_commit(2) by (metis order_refl)
next
  case (call seen caller body now c x)
  then have "people db' = people db" using call_frame(1) people_frame by blast
  then show ?thesis by simp
next
  case (append_event seen body caller raw now e x')
  then have "people db' = people db" using call_frame(2) people_frame by blast
  then show ?thesis by simp
qed (simp_all add: people_commit people_friend)

definition pairs :: "social_db \<Rightarrow> (int \<times> int) list" where
  "pairs db = map (\<lambda>c. (ch_creator c, ch_peer c)) (call_channels db)"

lemma step_pairs:
  assumes "social_step sha past db db'"
  shows "set (pairs db') \<subseteq> set (pairs db) \<or>
    (\<exists>seen caller body now c. seen \<in> set past \<and> decide_call caller body now seen = Inr (NewCall c) \<and>
       set (pairs db') \<subseteq> insert (ch_creator c, ch_peer c) (set (pairs db)))"
  using step_calls [OF assms]
proof (elim disjE exE conjE)
  assume "call_side db' = call_side db"
  then show ?thesis by (simp add: pairs_def call_side_def)
next
  fix seen caller body now c x
  assume seen: "seen \<in> set past" "decide_call caller body now seen = Inr (NewCall c)" and run: "commit_call c db = (x, db')"
  from commit_call_effect [OF run] have "set (pairs db') \<subseteq> insert (ch_creator c, ch_peer c) (set (pairs db))"
    by (elim disjE conjE) (auto simp: pairs_def)
  with seen show ?thesis by blast
next
  fix seen caller raw body now e x
  assume "commit_event e db = (x, db')"
  from commit_event_effect [OF this] have "pairs db' = pairs db"
    by (elim disjE conjE) (simp_all add: pairs_def update_where_def advance_def)
  then show ?thesis by simp
qed

lemma contacts_ok_iff:
  "contacts_ok db \<longleftrightarrow> (\<forall>(a, b) \<in> set (pairs db). a \<noteq> b \<and> areFriends db a b) \<and>
     (\<forall>(a, b) \<in> set (people db). areFriends db a b)"
  by (auto simp: contacts_ok_def pairs_def people_def)

definition social_ok :: "social_db list \<Rightarrow> bool" where
  "social_ok h \<longleftrightarrow> friends_last h \<and> contacts_ok (hd h)"

lemma social_ok_step:
  assumes ok: "social_ok h" and step: "history_step sha h h'"
  shows "social_ok h'"
proof -
  from step obtain db past db' where h: "h = db # past" "h' = db' # db # past" and s: "social_step sha h db db'"
    by (auto elim: history_stepE)
  from ok have last: "friends_last h" and c: "contacts_ok db" by (simp_all add: social_ok_def h)
  have keep: "areFriends seen a b \<Longrightarrow> areFriends db' a b" if "seen \<in> set h" for seen a b
    using last that step_friends [OF s] by (auto simp: friends_last_def h)
  have "a \<noteq> b \<and> areFriends db' a b" if "(a, b) \<in> set (pairs db')" for a b
    using step_pairs [OF s] that c keep [of db a b] decide_call_New keep
    by (fastforce simp: contacts_ok_iff h)
  moreover have "areFriends db' a b" if "(a, b) \<in> set (people db')" for a b
    using step_people [OF s] that c keep [of db a b] decide_send_row keep
    by (fastforce simp: contacts_ok_iff h)
  ultimately show ?thesis using friends_last_step [OF last step] by (auto simp: social_ok_def contacts_ok_iff h(2))
qed

interpretation social: invariant_system "history_step sha" social_ok
  by unfold_locales (rule social_ok_step)

lemma social_ok_start: "social_ok [only_users us]"
  by (simp add: social_ok_def friends_last_def contacts_ok_def only_users_def)

end
