(* ===== verification/CallLaws.thy ===== *)
theory CallLaws
  imports SocialRuns
begin

text \<open>
  The laws of call signalling in every run of the social handlers: the event log of a call is dense and
  replays to the state of its channel, each participant has one media device, an ended call stays
  as it is.
\<close>

section \<open>The log as a client reads it\<close>

lemma js_text_json_value: "v \<noteq> JUndef \<Longrightarrow> js_text (json_value v) = js_text v"
proof (induction v)
  case (JArr xs)
  have "(if json_value x = JUndef \<or> json_value x = JNull then [] else js_text (json_value x)) =
      (if x = JUndef \<or> x = JNull then [] else js_text x)" if "x \<in> set xs" for x
    using JArr.IH [OF that] by (cases x) auto
  then show ?case by (simp add: comp_def cong: map_cong)
qed auto

lemma truthy_json_value: "truthy (json_value v) = truthy v"
  by (cases v) auto

lemma js_get_json_value:
  assumes "own_order kvs"
  shows "js_get (json_value (JObj kvs)) k =
    (if js_get (JObj kvs) k = JUndef then JUndef else json_value (js_get (JObj kvs) k))"
proof -
  have "distinct (map fst kvs) \<Longrightarrow>
      map_of (map (\<lambda>(k, v). (k, json_value v)) (filter (\<lambda>kv. snd kv \<noteq> JUndef) kvs)) k =
      (case map_of kvs k of None \<Rightarrow> None | Some v \<Rightarrow> if v = JUndef then None else Some (json_value v))"
  proof (induction kvs)
    case (Cons kv kvs)
    obtain a v where kv: "kv = (a, v)" by (cases kv)
    from Cons show ?case by (auto simp: kv map_of_eq_None_iff split: option.splits dest: map_of_SomeD) force+
  qed simp
  with assms show ?thesis by (auto simp: own_order_def split: option.splits)
qed

lemma js_ok_get: "js_ok v \<Longrightarrow> js_ok (js_get v k)"
  by (cases v) (auto simp: list_all_iff split: option.splits dest!: map_of_SomeD)

definition event_action :: "event_row \<Rightarrow> string" where
  "event_action e = (case json_parse (ce_payload e) of None \<Rightarrow> [] | Some v \<Rightarrow> trim (text_or_blank (js_get v ''action'')))"

lemma event_action_stringify:
  assumes "js_ok payload" and "is_object payload" and "\<not> is_array payload" and "ce_payload e = stringify payload"
  shows "event_action e = trim (text_or_blank (js_get payload ''action''))"
proof -
  from assms(2,3) obtain kvs where p: "payload = JObj kvs" by (cases payload) auto
  with assms(1) have order: "own_order kvs" by simp
  have "json_parse (ce_payload e) = Some (json_value payload)"
    using assms(1,4) json_parse_read_back read_back_ok by simp
  moreover have "text_or_blank (js_get (json_value payload) ''action'') = text_or_blank (js_get payload ''action'')"
    unfolding p js_get_json_value [OF order]
    using js_text_json_value truthy_json_value by (auto simp: text_or_blank_def)
  ultimately show ?thesis by (simp add: event_action_def)
qed

text \<open>The abstract call: a state and a generation that the events of the log move along.\<close>

definition replay_step :: "(string \<times> int) option \<Rightarrow> event_row \<Rightarrow> (string \<times> int) option" where
  "replay_step st e =
     (case st of None \<Rightarrow> None
      | Some (s, g) \<Rightarrow>
          (if ce_kind e \<noteq> ''transition'' then (if ce_generation e = g then Some (s, g) else None)
           else case transitionTarget s (event_action e) of None \<Rightarrow> None
             | Some s' \<Rightarrow>
                 (if event_action e = ''reconnect''
                  then (if ce_generation e = g + 1 then Some (s', g + 1) else None)
                  else if ce_generation e = g then Some (s', g) else None)))"

definition replay :: "event_row list \<Rightarrow> (string \<times> int) option" where
  "replay es = foldl replay_step (Some (''invited'', 0)) es"

definition call_log :: "string \<Rightarrow> social_db \<Rightarrow> event_row list" where
  "call_log i db = filter (\<lambda>e. ce_call e = i) (call_events db)"

definition media_device :: "int \<Rightarrow> channel_row \<Rightarrow> string option" where
  "media_device u c = (if ch_creator c = u then ch_creator_device c else ch_peer_device c)"

text \<open>What a plan settles on, relative to the channel it read\<close>

definition plan_ok :: "event_plan \<Rightarrow> bool" where
  "plan_ok p \<longleftrightarrow>
     (let c = ep_seen p; e = ep_event p
      in ce_call e = ch_id c \<and> ce_seq e = ch_event_seq c + 1 \<and>
         replay_step (Some (ch_state c, ch_generation c)) e = Some (ep_state p, ep_generation p) \<and>
         ep_terminal p = (if ce_kind e = ''transition'' \<and> terminal (ep_state p) then Some (ep_state p) else None) \<and>
         (ce_kind e \<noteq> ''transition'' \<longrightarrow> ep_state p = ch_state c \<and> media_device (ce_user e) c = Some (ce_device e)))"

lemma plan_event_ok:
  assumes plan: "plan_event me c clientEvent generation kind payload now = Inr p"
    and payload: "js_ok payload" "is_object payload" "\<not> is_array payload"
  shows "plan_ok p \<and> ep_seen p = c \<and> ce_user (ep_event p) = au_user me \<and> ce_device (ep_event p) = au_device me \<and>
    ce_client_event (ep_event p) = clientEvent \<and> ce_generation (ep_event p) = generation \<and>
    ce_kind (ep_event p) = kind \<and> ce_payload (ep_event p) = stringify payload"
proof -
  let ?ev = "\<lparr>ce_call = ch_id c, ce_seq = ch_event_seq c + 1, ce_generation = generation, ce_user = au_user me,
         ce_device = au_device me, ce_client_event = clientEvent, ce_kind = kind, ce_payload = stringify payload,
         ce_created = now\<rparr>"
  have action: "event_action ?ev = trim (text_or_blank (js_get payload ''action''))"
    by (rule event_action_stringify) (use payload in simp_all)
  have "plan_ok p \<and> ep_event p = ?ev \<and> ep_seen p = c"
  proof (cases "kind = ''transition''")
    case True
    with plan have "plan_transition me c payload generation ?ev = Inr p" by (simp add: plan_event_def)
    then obtain target where t: "transitionTarget (ch_state c) (event_action ?ev) = Some target"
      and p: "ep_state p = target" "ep_seen p = c" "ep_event p = ?ev"
        "ep_terminal p = (if terminal target then Some target else None)"
        "ep_generation p = (if event_action ?ev = ''reconnect'' then generation else ch_generation c)"
      and gen: "event_action ?ev = ''reconnect'' \<longrightarrow> generation = ch_generation c + 1"
        "event_action ?ev \<noteq> ''reconnect'' \<longrightarrow> generation = ch_generation c"
      unfolding plan_transition_def action Let_def by (auto split: option.splits sum.splits if_splits)
    then show ?thesis using True by (simp add: plan_ok_def replay_step_def)
  next
    case False
    with plan have "plan_media me c generation ?ev = Inr p" by (simp add: plan_event_def)
    with False show ?thesis
      by (auto simp: plan_media_def plan_ok_def replay_step_def media_device_def claimed_device_def is_creator_def
          split: if_splits)
  qed
  then show ?thesis by simp
qed

lemma map_sum_Inr: "map_sum id f x = Inr y \<longleftrightarrow> (\<exists>z. x = Inr z \<and> y = f z)"
  by (cases x) auto

lemma decide_append_plan:
  assumes ok: "js_ok body" and dec: "decide_append me raw body now db = Inr (AppendEvent p)"
  shows "plan_ok p \<and> ep_seen p \<in> set (call_channels db)"
proof -
  from dec obtain i c where c: "readAuthorizedChannel db i (au_user me) = Some c"
    and ev: "decide_event me c body now db = Inr (AppendEvent p)"
    by (auto simp: decide_append_def split: option.splits if_splits)
  from ev obtain clientEvent generation where
    "is_object (js_get body ''payload'')" "\<not> is_array (js_get body ''payload'')"
    "plan_event me c clientEvent generation (trim (text_or_blank (js_get body ''kind''))) (js_get body ''payload'') now = Inr p"
    unfolding decide_event_def Let_def
    by (auto simp: map_sum_Inr simp del: row_where_None split: option.splits if_splits)
  with ok js_ok_get plan_event_ok have "plan_ok p \<and> ep_seen p = c" by blast
  moreover have "c \<in> set (call_channels db)" using c by (auto simp: readAuthorizedChannel_def dest: row_where_SomeD)
  ultimately show ?thesis by auto
qed

section \<open>The invariant\<close>

definition channel_ok :: "channel_row \<Rightarrow> event_row list \<Rightarrow> bool" where
  "channel_ok c es \<longleftrightarrow> 0 \<le> ch_event_seq c \<and> map ce_seq es = [1..ch_event_seq c] \<and>
     replay es = Some (ch_state c, ch_generation c) \<and>
     ch_terminal c = (if terminal (ch_state c) then Some (ch_state c) else None) \<and>
     (\<forall>e \<in> set es. ce_kind e \<noteq> ''transition'' \<longrightarrow> media_device (ce_user e) c = Some (ce_device e))"

definition calls_ok :: "social_db \<Rightarrow> bool" where
  "calls_ok db \<longleftrightarrow> distinct (map ch_id (call_channels db)) \<and> ce_call ` set (call_events db) \<subseteq> ch_id ` set (call_channels db) \<and>
     (\<forall>c \<in> set (call_channels db). channel_ok c (call_log (ch_id c) db))"

definition calls_grow :: "social_db list \<Rightarrow> bool" where
  "calls_grow h \<longleftrightarrow> (\<forall>seen \<in> set h. \<forall>c \<in> set (call_channels seen). \<exists>c' \<in> set (call_channels (hd h)).
     ch_id c' = ch_id c \<and> (c' = c \<or> ch_event_seq c < ch_event_seq c'))"

definition call_history :: "social_db list \<Rightarrow> bool" where
  "call_history h \<longleftrightarrow> h \<noteq> [] \<and> calls_ok (hd h) \<and> calls_grow h"

interpretation channel_table: keyed_table channel_get call_channels ch_id
  by unfold_locales (simp add: channel_get_def)

lemma calls_ok_side: "call_side db' = call_side db \<Longrightarrow> calls_ok db' = calls_ok db"
  by (simp add: calls_ok_def call_log_def call_side_def)

lemma call_log_append: "call_log i (db\<lparr>call_events := es @ [e]\<rparr>) =
    filter (\<lambda>e. ce_call e = i) es @ (if ce_call e = i then [e] else [])"
  by (simp add: call_log_def)

lemma media_device_advance:
  "media_device u c = Some d \<Longrightarrow> media_device u (advance p c) = Some d"
  by (auto simp: media_device_def advance_def coalesce_def)

lemma channel_ok_advance:
  assumes ok: "channel_ok c es" and plan: "plan_ok p" and same: "ep_seen p = c" and open_call: "ch_terminal c = None"
  shows "channel_ok (advance p c) (es @ [ep_event p])"
proof -
  let ?e = "ep_event p"
  have seq: "ce_seq ?e = ch_event_seq c + 1" and moved: "replay_step (Some (ch_state c, ch_generation c)) ?e = Some (ep_state p, ep_generation p)"
    and final: "ep_terminal p = (if ce_kind ?e = ''transition'' \<and> terminal (ep_state p) then Some (ep_state p) else None)"
    and media: "ce_kind ?e \<noteq> ''transition'' \<longrightarrow> ep_state p = ch_state c \<and> media_device (ce_user ?e) c = Some (ce_device ?e)"
    using plan same by (simp_all add: plan_ok_def Let_def)
  from ok open_call have live: "\<not> terminal (ch_state c)" by (auto simp: channel_ok_def split: if_splits)
  have "map ce_seq (es @ [?e]) = [1..ch_event_seq c + 1]"
    using ok seq upto_rec2 [of 1 "ch_event_seq c + 1"] by (simp add: channel_ok_def)
  moreover have "replay (es @ [?e]) = Some (ep_state p, ep_generation p)"
    using ok moved by (simp add: channel_ok_def replay_def)
  moreover have "media_device (ce_user e) (advance p c) = Some (ce_device e)"
    if "e \<in> set (es @ [?e])" "ce_kind e \<noteq> ''transition''" for e
    using that ok media by (auto simp: channel_ok_def intro: media_device_advance)
  moreover have "coalesce (ep_terminal p) (ch_terminal c) = (if terminal (ep_state p) then Some (ep_state p) else None)"
    using final media live open_call by (auto simp: coalesce_def)
  ultimately show ?thesis using ok seq by (simp add: channel_ok_def advance_def)
qed

lemma fenced_row:
  assumes "changes (fenced p) (call_channels db) = 1" and "distinct (map ch_id (call_channels db))"
  obtains c where "c \<in> set (call_channels db)" "fenced p c"
    "\<And>x. x \<in> set (call_channels db) \<Longrightarrow> fenced p x \<longleftrightarrow> ch_id x = ch_id c"
proof -
  from assms(1) obtain c where c: "c \<in> set (call_channels db)" "fenced p c"
    by (metis changes_def filter_empty_conv list.size(3) zero_neq_one)
  have "fenced p x \<longleftrightarrow> ch_id x = ch_id c" if "x \<in> set (call_channels db)" for x
    using distinct_key_unique [OF assms(2) that c(1)] c(2) by (auto simp: fenced_def)
  with c that show ?thesis by blast
qed

lemma calls_grow_step:
  assumes grow: "calls_grow (db # past)"
    and new: "\<And>x. x \<in> set (call_channels db) \<Longrightarrow> \<exists>x' \<in> set (call_channels db').
      ch_id x' = ch_id x \<and> (x' = x \<or> ch_event_seq x < ch_event_seq x')"
  shows "calls_grow (db' # db # past)"
  unfolding calls_grow_def
proof (intro ballI)
  fix seen c
  assume seen: "seen \<in> set (db' # db # past)" and c: "c \<in> set (call_channels seen)"
  show "\<exists>c' \<in> set (call_channels (hd (db' # db # past))). ch_id c' = ch_id c \<and> (c' = c \<or> ch_event_seq c < ch_event_seq c')"
  proof (cases "seen = db'")
    case True
    with c show ?thesis by auto
  next
    case False
    with seen grow c obtain x where "x \<in> set (call_channels db)" "ch_id x = ch_id c" "x = c \<or> ch_event_seq c < ch_event_seq x"
      unfolding calls_grow_def by fastforce
    with new [of x] show ?thesis by fastforce
  qed
qed

lemma call_history_append:
  assumes hist: "call_history (db # past)" and seen: "seen \<in> set (db # past)"
    and plan: "plan_ok p" and member: "ep_seen p \<in> set (call_channels seen)"
    and run: "commit_event p db = (r, db')"
  shows "call_history (db' # db # past)"
  using commit_event_effect [OF run]
proof (elim disjE conjE)
  assume "db' = db"
  with hist show ?thesis by (simp add: call_history_def calls_grow_def)
next
  assume one: "changes (fenced p) (call_channels db) = 1"
    and db': "db' = db\<lparr>call_channels := update_where (fenced p) (advance p) (call_channels db),
      call_events := call_events db @ [ep_event p]\<rparr>"
  from hist have ok: "calls_ok db" and grow: "calls_grow (db # past)" by (simp_all add: call_history_def)
  then have dist: "distinct (map ch_id (call_channels db))" by (simp add: calls_ok_def)
  obtain c where c: "c \<in> set (call_channels db)" "fenced p c"
    and only: "\<And>x. x \<in> set (call_channels db) \<Longrightarrow> fenced p x \<longleftrightarrow> ch_id x = ch_id c"
    using fenced_row [OF one dist] by blast
  from grow seen member obtain c' where c': "c' \<in> set (call_channels db)" "ch_id c' = ch_id (ep_seen p)"
      "c' = ep_seen p \<or> ch_event_seq (ep_seen p) < ch_event_seq c'"
    unfolding calls_grow_def by fastforce
  from c(2) c'(2) distinct_key_unique [OF dist c(1) c'(1)] have "c' = c" by (simp add: fenced_def)
  with c(2) c'(3) have same: "ep_seen p = c" by (auto simp: fenced_def)
  from c(2) have open_call: "ch_terminal c = None" by (simp add: fenced_def)
  have call: "ce_call (ep_event p) = ch_id c" using plan same by (simp add: plan_ok_def Let_def)
  have keys: "map ch_id (call_channels db') = map ch_id (call_channels db)"
    unfolding db' by (simp, rule map_update_where) (simp add: advance_def)
  have log: "call_log i db' = call_log i db @ (if i = ch_id c then [ep_event p] else [])" for i
    by (simp add: db' call_log_def call)
  have rows: "\<exists>x0 \<in> set (call_channels db). x = (if ch_id x0 = ch_id c then advance p x0 else x0)"
    if "x \<in> set (call_channels db')" for x
    using that only by (auto simp: db' set_update_where)
  have "channel_ok x (call_log (ch_id x) db')" if "x \<in> set (call_channels db')" for x
  proof -
    from rows [OF that] obtain x0 where x0: "x0 \<in> set (call_channels db)"
      and x: "x = (if ch_id x0 = ch_id c then advance p x0 else x0)" by blast
    from ok x0 have "channel_ok x0 (call_log (ch_id x0) db)" by (simp add: calls_ok_def)
    moreover have "ch_id x0 = ch_id c \<Longrightarrow> x0 = c" using distinct_key_unique [OF dist x0 c(1)] by blast
    moreover have "ch_id (advance p c) = ch_id c" by (simp add: advance_def)
    ultimately show ?thesis using channel_ok_advance [OF _ plan same open_call] by (auto simp: x log)
  qed
  moreover have "ce_call ` set (call_events db') \<subseteq> ch_id ` set (call_channels db')"
  proof -
    have ids: "ch_id ` set (call_channels db') = ch_id ` set (call_channels db)"
      using arg_cong [OF keys, of set] by simp
    show ?thesis unfolding ids using ok c(1) call by (auto simp: db' calls_ok_def)
  qed
  ultimately have "calls_ok db'" using keys dist by (simp add: calls_ok_def)
  moreover have "\<exists>x' \<in> set (call_channels db'). ch_id x' = ch_id x \<and> (x' = x \<or> ch_event_seq x < ch_event_seq x')"
    if x: "x \<in> set (call_channels db)" for x
  proof (cases "ch_id x = ch_id c")
    case True
    then have "x = c" using distinct_key_unique [OF dist x c(1)] by blast
    moreover have "advance p c \<in> set (call_channels db')" using c by (force simp: db' set_update_where)
    moreover have "ch_event_seq c < ch_event_seq (advance p c)" "ch_id (advance p c) = ch_id c"
      using plan same by (simp_all add: advance_def plan_ok_def Let_def)
    ultimately show ?thesis by blast
  next
    case False
    with only x have "x \<in> set (call_channels db')" by (force simp: db' set_update_where)
    then show ?thesis by blast
  qed
  ultimately show ?thesis using calls_grow_step [OF grow] by (simp add: call_history_def)
qed

lemma call_history_call:
  assumes hist: "call_history (db # past)" and new: "decide_call caller body now seen = Inr (NewCall c)"
    and run: "commit_call c db = (r, db')"
  shows "call_history (db' # db # past)"
  using commit_call_effect [OF run]
proof (elim disjE conjE)
  assume "db' = db"
  with hist show ?thesis by (simp add: call_history_def calls_grow_def)
next
  assume free: "channel_get (ch_id c) db = None" and db': "db' = db\<lparr>call_channels := call_channels db @ [c]\<rparr>"
  from hist have ok: "calls_ok db" and grow: "calls_grow (db # past)" by (simp_all add: call_history_def)
  from free have fresh: "ch_id c \<notin> ch_id ` set (call_channels db)" by (simp add: channel_table.lookup_None)
  have "ce_call e \<noteq> ch_id c" if "e \<in> set (call_events db)" for e
    using ok fresh that unfolding calls_ok_def by (metis image_subset_iff)
  then have "call_log (ch_id c) db = []" unfolding call_log_def by (intro filter_False) blast
  then have "channel_ok c (call_log (ch_id c) db)"
    using decide_call_New [OF new] by (simp add: channel_ok_def replay_def terminal_def)
  with ok fresh have "calls_ok db'" by (auto simp: calls_ok_def db' call_log_def)
  moreover have "calls_grow (db' # db # past)" by (rule calls_grow_step [OF grow]) (auto simp: db')
  ultimately show ?thesis by (simp add: call_history_def)
qed

lemma call_history_step:
  assumes hist: "call_history h" and step: "history_step sha h h'"
  shows "call_history h'"
proof -
  from step obtain db past db' where h: "h = db # past" "h' = db' # db # past" and s: "social_step sha h db db'"
    by (auto elim: history_stepE)
  from step_calls [OF s] show ?thesis
  proof (elim disjE exE conjE)
    assume "call_side db' = call_side db"
    moreover from this have "call_channels db' = call_channels db" by (simp add: call_side_def)
    moreover from hist have "calls_ok db" "calls_grow (db # past)" by (simp_all add: h call_history_def)
    moreover have "calls_ok db' = calls_ok db" by (rule calls_ok_side) fact
    moreover have "calls_grow (db' # db # past)"
      by (rule calls_grow_step) (use \<open>calls_grow (db # past)\<close> \<open>call_channels db' = call_channels db\<close> in auto)
    ultimately show ?thesis by (simp add: h call_history_def)
  next
    fix seen caller body now c x
    assume "decide_call caller body now seen = Inr (NewCall c)" "commit_call c db = (x, db')"
    from call_history_call [OF hist [unfolded h(1)] this] show ?thesis by (simp add: h)
  next
    fix seen caller raw body now e x
    assume seen: "seen \<in> set h" and dec: "js_ok body" "decide_append caller raw body now seen = Inr (AppendEvent e)"
      and run: "commit_event e db = (x, db')"
    from call_history_append [OF hist [unfolded h(1)] seen [unfolded h(1)] _ _ run] decide_append_plan [OF dec]
    show ?thesis by (simp add: h)
  qed
qed

lemma call_history_start: "call_history [only_users us]"
  by (simp add: call_history_def calls_ok_def calls_grow_def only_users_def)

interpretation calls: invariant_system "history_step sha" call_history
  by unfold_locales (rule call_history_step)

section \<open>What lasts\<close>

lemma step_event_log:
  assumes "social_step sha past db db'"
  shows "\<exists>es. call_events db' = call_events db @ es"
  using step_calls [OF assms]
  by (elim disjE exE conjE)
    (auto simp: call_side_def dest!: commit_call_effect commit_event_effect)

text \<open>An event that a client sent stays where a retry finds it.\<close>

lemma recorded_event_step:
  assumes "event_get i u d k (hd h) = Some e" and "history_step sha h h'"
  shows "event_get i u d k (hd h') = Some e"
proof -
  from assms(2) obtain db past db' where h: "h = db # past" "h' = db' # db # past" and s: "social_step sha h db db'"
    by (auto elim: history_stepE)
  from step_event_log [OF s] assms(1) show ?thesis by (auto simp: h event_get_def row_where_append)
qed

interpretation recorded_event: stable_fact "history_step sha" "\<lambda>_. True" "\<lambda>h. event_get i u d k (hd h) = Some e"
  by unfold_locales (use recorded_event_step in blast)+

definition ended_with :: "string \<Rightarrow> channel_row \<Rightarrow> event_row list \<Rightarrow> social_db \<Rightarrow> bool" where
  "ended_with i c es db \<longleftrightarrow> channel_get i db = Some c \<and> ch_terminal c \<noteq> None \<and> call_log i db = es"

lemma channel_get_commit_other:
  assumes "changes (fenced p) (call_channels db) = 1" and "channel_get i db = Some c" and "ch_terminal c \<noteq> None"
    and "distinct (map ch_id (call_channels db))"
  shows "row_where (\<lambda>x. ch_id x = i) (update_where (fenced p) (advance p) (call_channels db)) = Some c \<and>
    ch_id (ep_seen p) \<noteq> i"
proof -
  obtain x where x: "x \<in> set (call_channels db)" "fenced p x"
    and only: "\<And>y. y \<in> set (call_channels db) \<Longrightarrow> fenced p y \<longleftrightarrow> ch_id y = ch_id x"
    using fenced_row [OF assms(1,4)] by blast
  from assms(2) have c: "c \<in> set (call_channels db)" "ch_id c = i" using channel_table.lookup_Some by auto
  have "\<not> fenced p c" using assms(3) by (simp add: fenced_def)
  with only c have other: "ch_id x \<noteq> i" by metis
  have "row_where (\<lambda>x. ch_id x = i) (update_where (fenced p) (advance p) (call_channels db)) =
      row_where (\<lambda>x. ch_id x = i) (call_channels db)"
    by (rule row_where_update_other) (use only other in \<open>auto simp: advance_def\<close>)
  with assms(2) x(2) other show ?thesis by (simp add: channel_get_def fenced_def)
qed

lemma ended_step:
  assumes hist: "call_history h" and ended: "ended_with i c es (hd h)" and step: "history_step sha h h'"
  shows "ended_with i c es (hd h')"
proof -
  from step obtain db past db' where h: "h = db # past" "h' = db' # db # past" and s: "social_step sha h db db'"
    by (auto elim: history_stepE)
  from hist have dist: "distinct (map ch_id (call_channels db))" by (simp add: call_history_def calls_ok_def h)
  from step_calls [OF s] show ?thesis
  proof (elim disjE exE conjE)
    assume "call_side db' = call_side db"
    with ended show ?thesis by (simp add: h ended_with_def channel_get_def call_log_def call_side_def)
  next
    fix seen caller body now c' x
    assume "commit_call c' db = (x, db')"
    from commit_call_effect [OF this] ended show ?thesis
      by (elim disjE conjE) (simp_all add: h ended_with_def channel_get_def call_log_def row_where_append)
  next
    fix seen caller raw body now p x
    assume dec: "js_ok body" "decide_append caller raw body now seen = Inr (AppendEvent p)"
      and run: "commit_event p db = (x, db')"
    from commit_event_effect [OF run] show ?thesis
    proof (elim disjE conjE)
      assume "db' = db"
      with ended show ?thesis by (simp add: h)
    next
      assume one: "changes (fenced p) (call_channels db) = 1"
        and db': "db' = db\<lparr>call_channels := update_where (fenced p) (advance p) (call_channels db),
          call_events := call_events db @ [ep_event p]\<rparr>"
      from ended have "channel_get i db = Some c" "ch_terminal c \<noteq> None" by (simp_all add: h ended_with_def)
      from channel_get_commit_other [OF one this dist] decide_append_plan [OF dec] ended show ?thesis
        by (auto simp: h ended_with_def channel_get_def call_log_def db' plan_ok_def Let_def)
    qed
  qed
qed

interpretation ended: stable_fact "history_step sha" call_history "\<lambda>h. ended_with i c es (hd h)"
  by unfold_locales (use ended_step in blast)

text \<open>The participants of a channel never change.\<close>

definition channel_of_pair :: "string \<Rightarrow> int \<Rightarrow> int \<Rightarrow> social_db \<Rightarrow> bool" where
  "channel_of_pair i a b db \<longleftrightarrow> (\<exists>c. channel_get i db = Some c \<and> ch_creator c = a \<and> ch_peer c = b)"

lemma pair_step:
  assumes "channel_of_pair i a b (hd h)" and "history_step sha h h'"
  shows "channel_of_pair i a b (hd h')"
proof -
  from assms(2) obtain db past db' where h: "h = db # past" "h' = db' # db # past" and s: "social_step sha h db db'"
    by (auto elim: history_stepE)
  from assms(1) obtain c where c: "channel_get i db = Some c" "ch_creator c = a" "ch_peer c = b"
    by (auto simp: channel_of_pair_def h)
  have adv: "row_where (\<lambda>x. ch_id x = i) (update_where (fenced p) (advance p) rows) =
      map_option (\<lambda>x. if fenced p x then advance p x else x) (row_where (\<lambda>x. ch_id x = i) rows)" for p rows
    by (induction rows) (auto simp: advance_def)
  from step_calls [OF s] show ?thesis
    by (elim disjE exE conjE)
      (use c in \<open>auto simp: h channel_of_pair_def channel_get_def call_side_def row_where_append adv advance_def
        dest!: commit_call_effect commit_event_effect\<close>)
qed

interpretation pair: stable_fact "history_step sha" "\<lambda>_. True" "\<lambda>h. channel_of_pair i a b (hd h)"
  by unfold_locales (use pair_step in blast)+

end
