(* ===== verification/MessageLaws.thy ===== *)
theory MessageLaws
  imports SocialRuns
begin

text \<open>
  The laws of direct messages in every run of the social handlers: revisions are counted by the operation
  journal, a deleted message is an empty tombstone, an operation id is used once.
\<close>

section \<open>The invariant\<close>

definition journal_of :: "int \<Rightarrow> social_db \<Rightarrow> mutation_row list" where
  "journal_of i db = filter (\<lambda>j. mt_message j = i) (message_mutations db)"

definition reacted :: "social_db \<Rightarrow> int set" where
  "reacted db = fst ` rx_key ` set (message_reactions db)"

definition message_ok :: "message_row \<Rightarrow> mutation_row list \<Rightarrow> int set \<Rightarrow> bool" where
  "message_ok m js rs \<longleftrightarrow> 1 \<le> dm_revision m \<and> map mt_result js = [2..dm_revision m] \<and>
     (dm_deleted m \<noteq> None \<longrightarrow> dm_body m = [] \<and> dm_attachments m = ''[]'' \<and> dm_id m \<notin> rs)"

definition messages_ok :: "social_db \<Rightarrow> bool" where
  "messages_ok db \<longleftrightarrow> distinct (map dm_id (direct_messages db)) \<and> distinct (map mt_key (message_mutations db)) \<and>
     mt_message ` set (message_mutations db) \<subseteq> dm_id ` set (direct_messages db) \<and>
     reacted db \<subseteq> dm_id ` set (direct_messages db) \<and>
     (\<forall>m \<in> set (direct_messages db). message_ok m (journal_of (dm_id m) db) (reacted db))"

interpretation message_table: keyed_table message_get direct_messages dm_id
  by unfold_locales (simp add: message_get_def)

interpretation mutation_table: keyed_table mutation_get message_mutations mt_key
  by unfold_locales (simp add: mutation_get_def)

lemma next_rowid_fresh: "next_rowid key rows \<notin> key ` set rows"
proof -
  have "foldl max a ks \<ge> a \<and> (\<forall>k \<in> set ks. k \<le> foldl max a ks)" for a :: int and ks
    by (induction ks arbitrary: a) (auto, (meson max.cobounded1 max.cobounded2 order_trans)+)
  from this [of 0 "map key rows"] show ?thesis by (fastforce simp: next_rowid_def)
qed

lemma messages_ok_side: "message_side db' = message_side db \<Longrightarrow> messages_ok db' = messages_ok db"
  by (simp add: messages_ok_def message_side_def journal_of_def reacted_def)

lemma messages_ok_deliver:
  assumes ok: "messages_ok db" and m: "dm_revision m = 1" "dm_deleted m = None" and run: "deliver m db = (x, db')"
  shows "messages_ok db'"
  using deliver_effect [OF run]
proof (elim disjE conjE)
  let ?i = "next_rowid dm_id (direct_messages db)"
  assume db': "db' = db\<lparr>direct_messages := direct_messages db @ [m\<lparr>dm_id := ?i\<rparr>]\<rparr>"
  have fresh: "?i \<notin> dm_id ` set (direct_messages db)" by (rule next_rowid_fresh)
  have "mt_message j \<noteq> ?i" if "j \<in> set (message_mutations db)" for j
    using ok fresh that unfolding messages_ok_def by (metis image_subset_iff)
  then have "journal_of ?i db = []" unfolding journal_of_def by (intro filter_False) blast
  moreover have "journal_of k db' = journal_of k db" "reacted db' = reacted db" for k
    by (simp_all add: journal_of_def reacted_def db')
  ultimately show ?thesis using ok fresh m
    by (auto simp: messages_ok_def db' message_ok_def)
qed (use ok in simp)

lemma mutable_row:
  assumes "list_ex (mutable me p) (direct_messages db)" and "distinct (map dm_id (direct_messages db))"
  obtains m where "m \<in> set (direct_messages db)" "mutable me p m"
    "\<And>x. x \<in> set (direct_messages db) \<Longrightarrow> mutable me p x \<longleftrightarrow> x = m" "mp_target p = dm_id m"
proof -
  from assms(1) obtain m where m: "m \<in> set (direct_messages db)" "mutable me p m" by (auto simp: list_ex_iff)
  have "mutable me p x \<longleftrightarrow> x = m" if "x \<in> set (direct_messages db)" for x
    using distinct_key_unique [OF assms(2) that m(1)] m(2) by (auto simp: mutable_def)
  moreover have "mp_target p = dm_id m" using m(2) by (simp add: mutable_def)
  ultimately show ?thesis using m that by blast
qed

text \<open>A mutation, given what its update makes of the message and which reactions it leaves\<close>

lemma messages_ok_mutation:
  assumes ok: "messages_ok db" and some: "list_ex (mutable me p) (direct_messages db)"
    and fresh: "mutation_get (au_user me, mp_operation p) db = None"
    and f: "\<And>m. dm_id (f m) = dm_id m" "\<And>m. dm_revision (f m) = mp_expected p + 1"
    and reactions: "set rs \<subseteq> set (message_reactions db)"
    and tomb: "\<And>m. m \<in> set (direct_messages db) \<Longrightarrow> mutable me p m \<Longrightarrow> dm_deleted (f m) \<noteq> None \<Longrightarrow>
      dm_body (f m) = [] \<and> dm_attachments (f m) = ''[]'' \<and> dm_id m \<notin> fst ` rx_key ` set rs"
  shows "messages_ok (db\<lparr>message_mutations := message_mutations db @ [journal_row kind me p now],
    direct_messages := update_where (mutable me p) f (direct_messages db), message_reactions := rs\<rparr>)"
    (is "messages_ok ?db'")
proof -
  from ok have dist: "distinct (map dm_id (direct_messages db))" by (simp add: messages_ok_def)
  obtain m where m: "m \<in> set (direct_messages db)" "mutable me p m"
    and only: "\<And>x. x \<in> set (direct_messages db) \<Longrightarrow> mutable me p x \<longleftrightarrow> x = m" and target: "mp_target p = dm_id m"
    using mutable_row [OF some dist] by blast
  have rev: "dm_revision m = mp_expected p" using m(2) by (simp add: mutable_def)
  have keys: "map dm_id (direct_messages ?db') = map dm_id (direct_messages db)"
    by (simp, rule map_update_where) (simp add: f)
  then have ids: "dm_id ` set (direct_messages ?db') = dm_id ` set (direct_messages db)"
    by (metis list.set_map)
  have journal: "journal_of i ?db' = journal_of i db @ (if i = dm_id m then [journal_row kind me p now] else [])" for i
    by (simp add: journal_of_def journal_row_def target)
  have result: "mt_result (journal_row kind me p now) = mp_expected p + 1" by (simp add: journal_row_def)
  have reacted: "reacted ?db' = fst ` rx_key ` set rs" by (simp add: reacted_def)
  then have less: "reacted ?db' \<subseteq> reacted db" using reactions by (auto simp: reacted_def)
  have each: "message_ok x (journal_of (dm_id x) ?db') (reacted ?db')" if "x \<in> set (direct_messages ?db')" for x
  proof -
    from that obtain x0 where x0: "x0 \<in> set (direct_messages db)" and x: "x = (if mutable me p x0 then f x0 else x0)"
      by (auto simp: set_update_where)
    from ok x0 have old: "message_ok x0 (journal_of (dm_id x0) db) (reacted db)" by (simp add: messages_ok_def)
    show ?thesis
    proof (cases "x0 = m")
      case True
      have "map mt_result (journal_of (dm_id m) ?db') = [2..mp_expected p + 1]"
        using old True rev upto_rec2 [of 2 "mp_expected p + 1"]
        by (simp add: journal message_ok_def result)
      then show ?thesis using True x m tomb [OF m] old rev by (auto simp: message_ok_def f reacted)
    next
      case False
      with only x0 have "\<not> mutable me p x0" by blast
      moreover have "dm_id x0 \<noteq> dm_id m" using False distinct_key_unique [OF dist x0 m(1)] by blast
      ultimately show ?thesis using old less by (auto simp: x journal message_ok_def)
    qed
  qed
  have "distinct (map mt_key (message_mutations ?db'))"
    using ok fresh mutation_table.lookup_None [of "(au_user me, mp_operation p)" db]
    by (simp add: messages_ok_def journal_row_def)
  moreover have "mt_message ` set (message_mutations ?db') \<subseteq> dm_id ` set (direct_messages db)"
    using ok m(1) by (simp add: messages_ok_def journal_row_def target)
  moreover have "reacted ?db' \<subseteq> dm_id ` set (direct_messages db)" using less ok by (auto simp: messages_ok_def)
  ultimately show ?thesis unfolding messages_ok_def ids using keys dist each by simp
qed

lemma messages_ok_edit:
  assumes ok: "messages_ok db" and run: "commit_edit me p now db = (r, db')"
  shows "messages_ok db'"
  using run_mutation_effect [OF run [unfolded commit_edit_def]]
proof (elim disjE conjE)
  assume some: "list_ex (mutable me p) (direct_messages db)" "mutation_get (au_user me, mp_operation p) db = None"
    and db': "db' = db\<lparr>message_mutations := message_mutations db @ [journal_row ''edit'' me p now],
      direct_messages := update_where (mutable me p) (edited p now) (direct_messages db)\<rparr>"
  have "messages_ok (db\<lparr>message_mutations := message_mutations db @ [journal_row ''edit'' me p now],
      direct_messages := update_where (mutable me p) (edited p now) (direct_messages db),
      message_reactions := message_reactions db\<rparr>)"
    by (rule messages_ok_mutation [OF ok some]) (simp_all add: edited_def mutable_def)
  then show ?thesis by (simp add: db')
qed (use ok in simp)

lemma messages_ok_drop:
  assumes ok: "messages_ok db"
  shows "messages_ok (drop_reactions i db)"
proof -
  have "reacted (drop_reactions i db) \<subseteq> reacted db" by (auto simp: reacted_def drop_reactions_def)
  moreover have "journal_of k (drop_reactions i db) = journal_of k db" for k by (simp add: journal_of_def drop_reactions_def)
  moreover have "direct_messages (drop_reactions i db) = direct_messages db"
    "message_mutations (drop_reactions i db) = message_mutations db" by (simp_all add: drop_reactions_def)
  ultimately show ?thesis using ok by (auto simp: messages_ok_def message_ok_def)
qed

lemma messages_ok_delete:
  assumes ok: "messages_ok db" and run: "commit_delete me p now db = (r, db')"
  shows "messages_ok db'"
proof -
  obtain x db1 where run1: "run_mutation ''delete'' (tombstoned p now) me p now db = (x, db1)"
    by (cases "run_mutation ''delete'' (tombstoned p now) me p now db")
  from run_mutation_effect [OF run1] show ?thesis
  proof (elim disjE conjE)
    assume "db1 = db"
    with run run1 have "db' = db \<or> db' = drop_reactions (mp_target p) db"
      by (auto simp: commit_delete_def split: if_splits)
    with ok messages_ok_drop show ?thesis by blast
  next
    assume some: "list_ex (mutable me p) (direct_messages db)" "mutation_get (au_user me, mp_operation p) db = None"
      and x: "x = Inr ()"
      and db1: "db1 = db\<lparr>message_mutations := message_mutations db @ [journal_row ''delete'' me p now],
        direct_messages := update_where (mutable me p) (tombstoned p now) (direct_messages db)\<rparr>"
    from some(1) obtain m where m: "m \<in> set (direct_messages db)" "mutable me p m" by (auto simp: list_ex_iff)
    then have "tombstoned p now m \<in> set (direct_messages db1)" by (force simp: db1 set_update_where)
    moreover have "dm_id (tombstoned p now m) = mp_target p" "dm_sender (tombstoned p now m) = au_user me"
      "dm_revision (tombstoned p now m) = mp_expected p + 1" "dm_deleted (tombstoned p now m) = Some now"
      using m(2) by (simp_all add: tombstoned_def mutable_def)
    ultimately have "list_ex (\<lambda>m. dm_id m = mp_target p \<and> dm_sender m = au_user me \<and>
        dm_revision m = mp_expected p + 1 \<and> dm_deleted m = Some now) (direct_messages db1)"
      by (auto simp: list_ex_iff)
    with run run1 x have "db' = drop_reactions (mp_target p) db1" by (simp add: commit_delete_def)
    then have db': "db' = db\<lparr>message_mutations := message_mutations db @ [journal_row ''delete'' me p now],
        direct_messages := update_where (mutable me p) (tombstoned p now) (direct_messages db),
        message_reactions := filter (\<lambda>r. fst (rx_key r) \<noteq> mp_target p) (message_reactions db)\<rparr>"
      by (simp add: db1 drop_reactions_def)
    show ?thesis unfolding db'
      by (rule messages_ok_mutation [OF ok some]) (auto simp: tombstoned_def mutable_def)
  qed
qed

lemma messages_ok_reaction:
  assumes ok: "messages_ok db"
  shows "messages_ok (commit_reaction me p now db)"
  using commit_reaction_effect [of me p now db]
proof (elim disjE conjE)
  let ?db' = "commit_reaction me p now db"
  assume guard: "list_ex (reactable me (rp_message p)) (direct_messages db)"
    and db': "?db' = db\<lparr>message_reactions := message_reactions ?db'\<rparr>"
    and sub: "fst ` rx_key ` set (message_reactions ?db') \<subseteq> insert (rp_message p) (fst ` rx_key ` set (message_reactions db))"
  from guard obtain m where m: "m \<in> set (direct_messages db)" "dm_id m = rp_message p" "dm_deleted m = None"
    by (auto simp: list_ex_iff reactable_def)
  have same: "direct_messages ?db' = direct_messages db" "message_mutations ?db' = message_mutations db"
    "journal_of k ?db' = journal_of k db" for k
    using db' by (metis social_db.select_convs(3) social_db.surjective social_db.update_convs(5),
      metis social_db.select_convs(6) social_db.surjective social_db.update_convs(5),
      simp add: journal_of_def, metis social_db.select_convs(6) social_db.surjective social_db.update_convs(5))
  have "message_ok x (journal_of (dm_id x) db) (reacted ?db')" if x: "x \<in> set (direct_messages db)" for x
  proof -
    have old: "message_ok x (journal_of (dm_id x) db) (reacted db)" using ok x by (simp add: messages_ok_def)
    have "dm_deleted x \<noteq> None \<Longrightarrow> dm_id x \<noteq> rp_message p"
      using distinct_key_unique [of dm_id "direct_messages db" x m] ok x m by (auto simp: messages_ok_def)
    with old sub show ?thesis by (auto simp: message_ok_def reacted_def)
  qed
  moreover have "reacted ?db' \<subseteq> dm_id ` set (direct_messages db)"
  proof -
    have "rp_message p \<in> dm_id ` set (direct_messages db)" using m by (metis imageI)
    moreover have "fst ` rx_key ` set (message_reactions db) \<subseteq> dm_id ` set (direct_messages db)"
      using ok by (simp add: messages_ok_def reacted_def)
    ultimately show ?thesis unfolding reacted_def by (intro subset_trans [OF sub]) simp
  qed
  ultimately show ?thesis using ok by (simp add: messages_ok_def same)
qed (use ok in simp)

lemma messages_ok_repair: "messages_ok db \<Longrightarrow> messages_ok (repair_delete me i db)"
  by (simp add: repair_delete_def messages_ok_drop)

lemma messages_ok_same: "messages_ok db \<Longrightarrow> message_side db' = message_side db \<Longrightarrow> messages_ok db'"
  using messages_ok_side by blast

lemma messages_ok_social:
  assumes ok: "messages_ok db" and step: "social_step sha past db db'"
  shows "messages_ok db'"
  using step
proof (cases rule: social_step.cases)
  case (upload uuid me n name contentType bytes now r)
  then show ?thesis using messages_ok_same [OF ok] by (auto dest!: uploadResource_frame)
next
  case (send seen me body now m x)
  then show ?thesis using messages_ok_deliver [OF ok] decide_send_row by blast
next
  case (edit seen me i raw qo qr p now r)
  then show ?thesis using messages_ok_edit [OF ok] by blast
next
  case (delete seen me i raw qo qr p now r)
  then show ?thesis using messages_ok_delete [OF ok] by blast
next
  case (call seen caller body now c x)
  then show ?thesis using messages_ok_same [OF ok] call_frame(1) by blast
next
  case (append_event seen body caller raw now e x')
  then show ?thesis using messages_ok_same [OF ok] call_frame(2) by blast
next
  case (ask seen me body now r c)
  then show ?thesis using messages_ok_same [OF ok] by simp
next
  case (accept seen me requestId i now)
  then show ?thesis using messages_ok_same [OF ok] by simp
qed (simp_all add: messages_ok_repair messages_ok_reaction ok)

interpretation messages: invariant_system "history_step sha" "\<lambda>h. messages_ok (hd h)"
  by unfold_locales (auto elim!: history_stepE intro: messages_ok_social)

lemma messages_ok_start: "messages_ok (only_users us)"
  by (simp add: messages_ok_def only_users_def reacted_def)

section \<open>What lasts\<close>

definition ends_of :: "message_row \<Rightarrow> int \<times> int \<times> int" where
  "ends_of m = (dm_id m, dm_sender m, dm_recipient m)"

lemma row_where_ends:
  "map_option ends_of (row_where (\<lambda>m. dm_id m = i) ms) = row_where (\<lambda>(k, _). k = i) (map ends_of ms)"
  by (induction ms) (auto simp: ends_of_def)

lemma ends_mutation:
  "(\<And>m. ends_of (f m) = ends_of m) \<Longrightarrow> run_mutation kind f me p now db = (r, db') \<Longrightarrow>
   map ends_of (direct_messages db') = map ends_of (direct_messages db)"
  by (auto simp: update_where_def dest!: run_mutation_effect)

text \<open>Messages and journal rows are only ever added, and a message keeps its two ends.\<close>

definition extends :: "social_db \<Rightarrow> social_db \<Rightarrow> bool" where
  "extends db db' \<longleftrightarrow> (\<exists>ms. map ends_of (direct_messages db') = map ends_of (direct_messages db) @ ms) \<and>
     (\<exists>js. message_mutations db' = message_mutations db @ js)"

lemma extends_side: "message_side db' = message_side db \<Longrightarrow> extends db db'"
  by (simp add: extends_def message_side_def)

lemma extends_mutation:
  assumes "\<And>m. ends_of (f m) = ends_of m" and "run_mutation kind f me p now db = (r, db')"
  shows "extends db db'"
  using ends_mutation [OF assms] run_mutation_effect [OF assms(2)] by (auto simp: extends_def)

lemma extends_drop: "extends db (drop_reactions i db')  = extends db db'"
  by (simp add: extends_def drop_reactions_def)

lemma extends_delete:
  assumes "commit_delete me p now db = (r, db')"
  shows "extends db db'"
proof -
  obtain x db1 where run1: "run_mutation ''delete'' (tombstoned p now) me p now db = (x, db1)"
    by (cases "run_mutation ''delete'' (tombstoned p now) me p now db")
  have "extends db db1" by (rule extends_mutation [OF _ run1]) (simp add: tombstoned_def ends_of_def)
  with assms run1 show ?thesis by (auto simp: commit_delete_def extends_drop split: if_splits)
qed

lemma extends_step:
  assumes "social_step sha past db db'"
  shows "extends db db'"
  using assms
proof (cases rule: social_step.cases)
  case (upload uuid me n name contentType bytes now r)
  then show ?thesis by (auto dest!: uploadResource_frame intro: extends_side)
next
  case (send seen me body now m x)
  from deliver_effect [OF send(3)] show ?thesis by (elim disjE conjE) (simp_all add: extends_def)
next
  case (edit seen me i raw qo qr p now r)
  then show ?thesis unfolding commit_edit_def
    by (intro extends_mutation [of "edited p now"]) (simp_all add: edited_def ends_of_def)
next
  case (delete seen me i raw qo qr p now r)
  then show ?thesis using extends_delete by blast
next
  case (call seen caller body now c x)
  then show ?thesis using call_frame(1) extends_side by blast
next
  case (append_event seen body caller raw now e x')
  then show ?thesis using call_frame(2) extends_side by blast
qed (auto intro: extends_side simp: repair_delete_def drop_reactions_def extends_def commit_reaction_def Let_def
    ask_friend_def accept_request_def)

definition journaled :: "int \<times> string \<Rightarrow> mutation_row \<Rightarrow> int \<Rightarrow> int \<Rightarrow> social_db \<Rightarrow> bool" where
  "journaled k j i sender db \<longleftrightarrow> mutation_get k db = Some j \<and> (\<exists>m. message_get i db = Some m \<and> dm_sender m = sender)"

lemma journaled_extends:
  assumes "extends db db'" and "journaled k j i sender db"
  shows "journaled k j i sender db'"
proof -
  from assms obtain m ms js where m: "message_get i db = Some m" "dm_sender m = sender"
    and ms: "map ends_of (direct_messages db') = map ends_of (direct_messages db) @ ms"
    and js: "message_mutations db' = message_mutations db @ js" "mutation_get k db = Some j"
    by (auto simp: extends_def journaled_def)
  have base: "row_where (\<lambda>(k, _). k = i) (map ends_of (direct_messages db)) = Some (ends_of m)"
    using m unfolding message_get_def row_where_ends [symmetric] by simp
  have "map_option ends_of (message_get i db') = Some (ends_of m)"
    by (simp add: message_get_def row_where_ends ms row_where_append base)
  with m js show ?thesis by (auto simp: journaled_def ends_of_def mutation_get_def row_where_append)
qed

interpretation journaled: stable_fact "history_step sha" "\<lambda>_. True" "\<lambda>h. journaled k j i sender (hd h)"
  by unfold_locales (auto elim!: history_stepE dest!: extends_step dest: journaled_extends)

end
