(* ===== verification/SocialGuarantees.thy ===== *)
theory SocialGuarantees
  imports CallLaws MessageLaws
begin

text \<open>
  The guarantees of friends, direct messages and calls in every run of the social handlers, with the
  concrete run they are applied to.
\<close>

abbreviation runs :: "(string \<Rightarrow> string) \<Rightarrow> social_db list \<Rightarrow> social_db list \<Rightarrow> bool" where
  "runs sha \<equiv> (history_step sha)\<^sup>*\<^sup>*"

lemma run_facts:
  assumes "runs sha [only_users us] h"
  shows "call_history h" "social_ok h" "messages_ok (hd h)"
  using calls.reachable_inv [OF assms call_history_start] social.reachable_inv [OF assms social_ok_start]
    messages.reachable_inv [OF assms] messages_ok_start by simp_all

section \<open>A concrete run\<close>

text \<open>
  Alice asks Bob, Bob accepts.  Then Alice calls Bob, sends a signal and hangs up; or she sends a message, edits
  and deletes it.
\<close>

definition alice :: caller where "alice = \<lparr>au_user = 1, au_username = ''alice''\<rparr>"
definition bob :: caller where "bob = \<lparr>au_user = 2, au_username = ''bob''\<rparr>"
definition phone :: call_caller where "phone = \<lparr>au_user = 1, au_username = ''alice'', au_device = ''phone''\<rparr>"
definition tablet :: call_caller where "tablet = \<lparr>au_user = 2, au_username = ''bob'', au_device = ''tablet''\<rparr>"

definition user_no :: "int \<Rightarrow> string \<Rightarrow> user_row" where
  "user_no i name = \<lparr>us_id = i, us_username = name, us_user_no = None, us_nickname = None, us_avatar = None,
     us_alipay_avatar = None, us_wechat_avatar = None\<rparr>"

definition ex_people :: "user_row list" where "ex_people = [user_no 1 ''alice'', user_no 2 ''bob'']"

definition ex_start :: social_db where "ex_start = only_users ex_people"

definition ex_request :: "string \<Rightarrow> string \<Rightarrow> friend_row" where
  "ex_request status updated = \<lparr>fr_id = 1, fr_sender = 1, fr_sender_name = ''alice'', fr_recipient = 2,
     fr_recipient_name = ''bob'', fr_message = [], fr_status = status, fr_created = ''t1'', fr_updated = updated\<rparr>"

definition ex_asked :: social_db where
  "ex_asked = ex_start\<lparr>friend_requests := [ex_request ''pending'' ''t1'']\<rparr>"

definition ex_friends :: social_db where
  "ex_friends = ex_start\<lparr>friend_requests := [ex_request ''accepted'' ''t2'']\<rparr>"

definition ask_body :: js where "ask_body = JObj [(''username'', JStr ''bob'')]"

lemma ex_ask:
  "decide_friend_request alice ask_body ''t1'' ex_start =
     Inr (AskFriend ((ex_request ''pending'' ''t1'')\<lparr>fr_id := 0\<rparr>) (mapContact (user_no 2 ''bob'') ''pending''))"
  "ask_friend ((ex_request ''pending'' ''t1'')\<lparr>fr_id := 0\<rparr>) ex_start = ex_asked"
  by code_simp+

lemma ex_accept: "decide_accept bob (JStr ''1'') ex_asked = Inr 1" "accept_request bob 1 ''t2'' ex_asked = ex_friends"
  by code_simp+

lemma runs_step: "runs sha s (db # past) \<Longrightarrow> social_step sha (db # past) db db' \<Longrightarrow> runs sha s (db' # db # past)"
  by (auto intro: rtranclp.rtrancl_into_rtrancl next_state)

lemma ex_run_friends: "runs sha [only_users ex_people] [ex_friends, ex_asked, ex_start]"
proof -
  have "social_step sha [ex_start] ex_start ex_asked"
    using social_step.ask [OF _ ex_ask(1)] ex_ask(2) by (metis list.set_intros(1))
  moreover have "social_step sha [ex_asked, ex_start] ex_asked ex_friends"
    using social_step.accept [OF _ ex_accept(1)] ex_accept(2) by (metis list.set_intros(1))
  ultimately show ?thesis unfolding ex_start_def [symmetric] by (blast intro: runs_step)
qed

definition call_body :: js where
  "call_body = JObj [(''callId'', JStr ''call-0001''), (''targetUsername'', JStr ''bob'')]"

definition ex_channel :: "string \<Rightarrow> int \<Rightarrow> string \<Rightarrow> channel_row" where
  "ex_channel state seq updated = \<lparr>ch_id = ''call-0001'', ch_creator = 1, ch_peer = 2,
     ch_creator_device = Some ''phone'', ch_peer_device = None, ch_state = state, ch_generation = 0,
     ch_event_seq = seq, ch_terminal = (if terminal state then Some state else None),
     ch_created = ''t3'', ch_updated = updated\<rparr>"

definition ex_called :: social_db where "ex_called = ex_friends\<lparr>call_channels := [ex_channel ''invited'' 0 ''t3'']\<rparr>"

definition event_body :: "string \<Rightarrow> string \<Rightarrow> js \<Rightarrow> js" where
  "event_body i kind payload = JObj [(''clientEventId'', JStr i), (''generation'', JNum 0), (''kind'', JStr kind),
     (''payload'', payload)]"

definition sdp :: js where "sdp = JObj [(''sdp'', JStr ''x'')]"
definition hangup :: js where "hangup = JObj [(''action'', JStr ''hangup'')]"

definition decline :: js where "decline = JObj [(''action'', JStr ''decline'')]"

definition ex_signal :: event_row where
  "ex_signal = \<lparr>ce_call = ''call-0001'', ce_seq = 1, ce_generation = 0, ce_user = 1, ce_device = ''phone'',
     ce_client_event = ''ev-1'', ce_kind = ''signal'', ce_payload = stringify sdp, ce_created = ''t4''\<rparr>"

definition ex_hangup :: event_row where
  "ex_hangup = \<lparr>ce_call = ''call-0001'', ce_seq = 2, ce_generation = 0, ce_user = 1, ce_device = ''phone'',
     ce_client_event = ''ev-2'', ce_kind = ''transition'', ce_payload = stringify hangup, ce_created = ''t5''\<rparr>"

definition ex_media :: social_db where
  "ex_media = ex_friends\<lparr>call_channels := [ex_channel ''invited'' 1 ''t4''], call_events := [ex_signal]\<rparr>"

definition ex_ended :: social_db where
  "ex_ended = ex_friends\<lparr>call_channels := [ex_channel ''ended'' 2 ''t5''], call_events := [ex_signal, ex_hangup]\<rparr>"

definition ex_event_plan :: "channel_row \<Rightarrow> event_row \<Rightarrow> event_plan" where
  "ex_event_plan c e = \<lparr>ep_seen = c, ep_state = (if ce_kind e = ''transition'' then ''ended'' else ch_state c),
     ep_generation = 0, ep_terminal = (if ce_kind e = ''transition'' then Some ''ended'' else None),
     ep_creator_device = Some ''phone'', ep_peer_device = None, ep_event = e\<rparr>"

lemma ex_call:
  "decide_call phone call_body ''t3'' ex_friends = Inr (NewCall (ex_channel ''invited'' 0 ''t3''))"
  "commit_call (ex_channel ''invited'' 0 ''t3'') ex_friends = (Inr (False, ex_channel ''invited'' 0 ''t3''), ex_called)"
  by code_simp+

lemma ex_send_signal:
  "decide_append phone (JStr ''call-0001'') (event_body ''ev-1'' ''signal'' sdp) ''t4'' ex_called =
     Inr (AppendEvent (ex_event_plan (ex_channel ''invited'' 0 ''t3'') ex_signal))"
  "commit_event (ex_event_plan (ex_channel ''invited'' 0 ''t3'') ex_signal) ex_called = (Inr ex_signal, ex_media)"
  by code_simp+

lemma ex_hang_up:
  "decide_append phone (JStr ''call-0001'') (event_body ''ev-2'' ''transition'' hangup) ''t5'' ex_media =
     Inr (AppendEvent (ex_event_plan (ex_channel ''invited'' 1 ''t4'') ex_hangup))"
  "commit_event (ex_event_plan (ex_channel ''invited'' 1 ''t4'') ex_hangup) ex_media = (Inr ex_hangup, ex_ended)"
  by code_simp+

lemma ex_bodies: "js_ok (event_body ''ev-1'' ''signal'' sdp)" "js_ok (event_body ''ev-2'' ''transition'' hangup)"
  by code_simp+

lemma ex_run_called: "runs sha [only_users ex_people] [ex_called, ex_friends, ex_asked, ex_start]"
proof -
  have "social_step sha [ex_friends, ex_asked, ex_start] ex_friends ex_called"
    using social_step.call [OF _ ex_call(1,2)] by simp
  with ex_run_friends show ?thesis by (rule runs_step)
qed

lemma ex_run_media: "runs sha [only_users ex_people] [ex_media, ex_called, ex_friends, ex_asked, ex_start]"
proof -
  have "social_step sha [ex_called, ex_friends, ex_asked, ex_start] ex_called ex_media"
    using social_step.append_event [OF _ ex_bodies(1) ex_send_signal] by simp
  with ex_run_called show ?thesis by (rule runs_step)
qed

lemma ex_run_ended: "runs sha [only_users ex_people] [ex_ended, ex_media, ex_called, ex_friends, ex_asked, ex_start]"
proof -
  have "social_step sha [ex_media, ex_called, ex_friends, ex_asked, ex_start] ex_media ex_ended"
    using social_step.append_event [OF _ ex_bodies(2) ex_hang_up] by simp
  with ex_run_media show ?thesis by (rule runs_step)
qed

text \<open>Bob declines as well; he decided before the call ended and comes too late.\<close>

definition bob_plan :: event_plan where
  "bob_plan = \<lparr>ep_seen = ex_channel ''invited'' 1 ''t4'', ep_state = ''ended'', ep_generation = 0,
     ep_terminal = Some ''ended'', ep_creator_device = Some ''phone'', ep_peer_device = None,
     ep_event = \<lparr>ce_call = ''call-0001'', ce_seq = 2, ce_generation = 0, ce_user = 2, ce_device = ''tablet'',
       ce_client_event = ''ev-9'', ce_kind = ''transition'', ce_payload = stringify decline, ce_created = ''t6''\<rparr>\<rparr>"

lemma ex_late:
  "js_ok (event_body ''ev-9'' ''transition'' decline)"
  "decide_append tablet (JStr ''call-0001'') (event_body ''ev-9'' ''transition'' decline) ''t6'' ex_media =
     Inr (AppendEvent bob_plan)"
  "commit_event bob_plan ex_ended = (Inl CONCURRENT_EVENT, ex_ended)"
  by code_simp+

lemma ex_run_late: "runs sha [ex_ended, ex_media, ex_called, ex_friends, ex_asked, ex_start]
    [ex_ended, ex_ended, ex_media, ex_called, ex_friends, ex_asked, ex_start]"
proof (rule runs_step)
  show "social_step sha [ex_ended, ex_media, ex_called, ex_friends, ex_asked, ex_start] ex_ended ex_ended"
    by (rule social_step.append_event [OF _ ex_late]) simp
qed simp

definition ex_message :: "string \<Rightarrow> int \<Rightarrow> string option \<Rightarrow> string option \<Rightarrow> message_row" where
  "ex_message body revision edited_at deleted_at = \<lparr>dm_id = 1, dm_sender = 1, dm_sender_name = ''alice'',
     dm_recipient = 2, dm_recipient_name = ''bob'', dm_body = body, dm_client_request = None, dm_created = ''t3'',
     dm_read = None, dm_reply_to = None, dm_attachments = ''[]'', dm_revision = revision, dm_edited = edited_at,
     dm_deleted = deleted_at\<rparr>"

definition send_body :: js where "send_body = JObj [(''username'', JStr ''bob''), (''text'', JStr ''hi'')]"

definition edit_body :: string where
  "edit_body = stringify (JObj [(''operationId'', JStr ''op-1''), (''expectedRevision'', JNum 1), (''text'', JStr ''hey'')])"

definition digest :: "string \<Rightarrow> string" where "digest s = ''digest''"

definition ex_edit :: mutation_plan where
  "ex_edit = \<lparr>mp_target = 1, mp_operation = ''op-1'', mp_expected = 1, mp_digest = ''digest'', mp_text = ''hey''\<rparr>"

definition ex_delete :: mutation_plan where
  "ex_delete = \<lparr>mp_target = 1, mp_operation = ''op-2'', mp_expected = 2, mp_digest = ''digest'', mp_text = []\<rparr>"

definition ex_sent :: social_db where "ex_sent = ex_friends\<lparr>direct_messages := [ex_message ''hi'' 1 None None]\<rparr>"

definition ex_edited :: social_db where
  "ex_edited = ex_friends\<lparr>direct_messages := [ex_message ''hey'' 2 (Some ''t4'') None],
     message_mutations := [journal_row ''edit'' alice ex_edit ''t4'']\<rparr>"

definition ex_deleted :: social_db where
  "ex_deleted = ex_friends\<lparr>direct_messages := [ex_message [] 3 (Some ''t4'') (Some ''t5'')],
     message_mutations := [journal_row ''edit'' alice ex_edit ''t4'', journal_row ''delete'' alice ex_delete ''t5'']\<rparr>"

lemma ex_send:
  "decide_send alice send_body ''t3'' ex_friends = Inr ((ex_message ''hi'' 1 None None)\<lparr>dm_id := 0\<rparr>)"
  "deliver ((ex_message ''hi'' 1 None None)\<lparr>dm_id := 0\<rparr>) ex_friends = ((1, False), ex_sent)"
  by code_simp+

lemma ex_edits:
  "decide_edit digest alice (JNum 1) edit_body JUndef JUndef ex_sent = Inr (Mutate ex_edit)"
  "commit_edit alice ex_edit ''t4'' ex_sent = (Inr (), ex_edited)"
  by code_simp+

lemma ex_deletes:
  "decide_delete digest alice (JNum 1) [] (JStr ''op-2'') (JStr ''2'') ex_edited = Inr (Mutate ex_delete)"
  "commit_delete alice ex_delete ''t5'' ex_edited = (Inr (), ex_deleted)"
  by code_simp+

lemma ex_run_sent: "runs digest [only_users ex_people] [ex_sent, ex_friends, ex_asked, ex_start]"
proof -
  have "social_step digest [ex_friends, ex_asked, ex_start] ex_friends ex_sent"
    using social_step.send [OF _ ex_send] by simp
  with ex_run_friends show ?thesis by (rule runs_step)
qed

lemma ex_run_deleted_from:
  "runs digest [ex_edited, ex_sent, ex_friends, ex_asked, ex_start]
    [ex_deleted, ex_edited, ex_sent, ex_friends, ex_asked, ex_start]"
proof (rule runs_step)
  show "social_step digest [ex_edited, ex_sent, ex_friends, ex_asked, ex_start] ex_edited ex_deleted"
    using social_step.delete [OF _ ex_deletes] by simp
qed simp

lemma ex_run_deleted: "runs digest [only_users ex_people] [ex_deleted, ex_edited, ex_sent, ex_friends, ex_asked, ex_start]"
proof -
  have "social_step digest [ex_sent, ex_friends, ex_asked, ex_start] ex_sent ex_edited"
    using social_step.edit [OF _ ex_edits] by simp
  with ex_run_sent have "runs digest [only_users ex_people] [ex_edited, ex_sent, ex_friends, ex_asked, ex_start]"
    by (rule runs_step)
  with ex_run_deleted_from show ?thesis by (metis rtranclp_trans)
qed

section \<open>Retries\<close>

lemma decide_edit_plan:
  assumes plan: "decide_edit sha me messageId raw queryOperation queryRevision seen = Inr (Mutate p)"
  obtains body opValue revValue where "message_id messageId = Some (mp_target p)"
    "readMutationRequest raw queryOperation queryRevision = Inr (body, opValue, revValue)"
    "parseMutationOperationId opValue = Some (mp_operation p)" "parseExpectedRevision revValue = Some (mp_expected p)"
    "\<not> 4000 < int (length (message_text body))"
    "mp_digest p = sha (edit_digest_text (mp_target p) (mp_expected p) (message_text body))" "mp_text p = message_text body"
proof -
  from plan obtain target body opValue revValue operation expected where
    target: "readMutationTarget seen messageId (au_user me) = Some target"
    and request: "readMutationRequest raw queryOperation queryRevision = Inr (body, opValue, revValue)"
      "parseMutationOperationId opValue = Some operation" "parseExpectedRevision revValue = Some expected"
    unfolding decide_edit_def by (auto split: option.splits sum.splits if_splits)
  from target have "message_id messageId = Some (dm_id target)"
    by (auto simp: readMutationTarget_def simp del: row_where_None dest!: row_where_SomeD split: option.splits)
  with plan show ?thesis
    by (intro that [of body opValue revValue])
      (auto simp: decide_edit_def target request settle_mutation_def Let_def split: option.splits if_splits)
qed

lemma commit_edit_journaled:
  assumes ok: "messages_ok cur" and run: "commit_edit me p now cur = (Inr (), db)"
  shows "journaled (au_user me, mp_operation p) (journal_row ''edit'' me p now) (mp_target p) (au_user me) db"
proof -
  from run_mutation_effect [OF run [unfolded commit_edit_def]]
  have some: "list_ex (mutable me p) (direct_messages cur)" and fresh: "mutation_get (au_user me, mp_operation p) cur = None"
    and db: "db = cur\<lparr>message_mutations := message_mutations cur @ [journal_row ''edit'' me p now],
        direct_messages := update_where (mutable me p) (edited p now) (direct_messages cur)\<rparr>"
    by auto
  from some obtain x where x: "x \<in> set (direct_messages cur)" "mutable me p x" by (auto simp: list_ex_iff)
  then have "edited p now x \<in> set (direct_messages db)" by (simp add: db set_update_where)
  moreover from x(2) have "dm_id (edited p now x) = mp_target p" "dm_sender (edited p now x) = au_user me"
    by (simp_all add: mutable_def edited_def)
  moreover have "distinct (map dm_id (direct_messages db))" using messages_ok_edit [OF ok run] by (simp add: messages_ok_def)
  ultimately have "\<exists>m. message_get (mp_target p) db = Some m \<and> dm_sender m = au_user me"
    using message_table.lookup_row by metis
  moreover have "mutation_get (au_user me, mp_operation p) db = Some (journal_row ''edit'' me p now)"
    using fresh by (simp add: mutation_get_def db row_where_append journal_row_def del: row_where_None)
  ultimately show ?thesis by (simp add: journaled_def)
qed

lemma own_mutation_target:
  assumes ok: "messages_ok db" and m: "message_get i db = Some m" "dm_sender m = u" and v: "message_id v = Some i"
  shows "readMutationTarget db v u = Some m"
proof -
  have "m \<in> set (direct_messages db)" "dm_id m = i" using m message_table.lookup_Some by auto
  moreover have "row_where (\<lambda>x. dm_id x = i \<and> participant u x) ms = Some m"
    if "distinct (map dm_id ms)" "m \<in> set ms" "dm_id m = i" for ms
    using that m(2) by (induction ms) (auto simp: participant_def image_iff)
  ultimately show ?thesis using ok v by (simp add: readMutationTarget_def messages_ok_def)
qed

lemma decide_append_parts:
  assumes ok: "js_ok body" and dec: "decide_append me raw body now db = Inr (AppendEvent p)"
  obtains "valid_call_id raw = Some (ce_call (ep_event p))" "body \<noteq> JNull"
    "valid_event_id (js_get body ''clientEventId'') = Some (ce_client_event (ep_event p))"
    "parseGeneration (js_get body ''generation'') = Some (ce_generation (ep_event p))"
    "trim (text_or_blank (js_get body ''kind'')) = ce_kind (ep_event p)" "ce_kind (ep_event p) \<in> set event_kinds"
    "is_object (js_get body ''payload'')" "\<not> is_array (js_get body ''payload'')"
    "stringify (js_get body ''payload'') = ce_payload (ep_event p)"
    "\<not> 65536 < int (utf8_length (ce_payload (ep_event p)))"
    "ce_user (ep_event p) = au_user me" "ce_device (ep_event p) = au_device me"
    "ch_id (ep_seen p) = ce_call (ep_event p)" "ch_creator (ep_seen p) = au_user me \<or> ch_peer (ep_seen p) = au_user me"
proof -
  from dec obtain i c where i: "valid_call_id raw = Some i" and c: "readAuthorizedChannel db i (au_user me) = Some c"
    and body: "body \<noteq> JNull" and ev: "decide_event me c body now db = Inr (AppendEvent p)"
    by (auto simp: decide_append_def split: option.splits if_splits)
  from c have own: "ch_id c = i" "ch_creator c = au_user me \<or> ch_peer c = au_user me"
    by (auto simp: readAuthorizedChannel_def dest: row_where_SomeD)
  from ev obtain k g where args: "valid_event_id (js_get body ''clientEventId'') = Some k"
      "parseGeneration (js_get body ''generation'') = Some g"
      "trim (text_or_blank (js_get body ''kind'')) \<in> set event_kinds"
      "is_object (js_get body ''payload'')" "\<not> is_array (js_get body ''payload'')"
      "\<not> 65536 < int (utf8_length (stringify (js_get body ''payload'')))"
    and plan: "plan_event me c k g (trim (text_or_blank (js_get body ''kind''))) (js_get body ''payload'') now = Inr p"
    unfolding decide_event_def Let_def
    by (auto simp: map_sum_Inr simp del: row_where_None split: option.splits if_splits)
  have fields: "plan_ok p" "ep_seen p = c" "ce_user (ep_event p) = au_user me" "ce_device (ep_event p) = au_device me"
      "ce_client_event (ep_event p) = k" "ce_generation (ep_event p) = g"
      "ce_kind (ep_event p) = trim (text_or_blank (js_get body ''kind''))"
      "ce_payload (ep_event p) = stringify (js_get body ''payload'')"
    using plan_event_ok [OF plan js_ok_get [OF ok] args(4,5)] by simp_all
  then have "ce_call (ep_event p) = i" using own by (simp add: plan_ok_def Let_def)
  then show ?thesis using that i body own args fields by simp
qed

lemma fenced_is_seen:
  assumes hist: "call_history (db # past)" and seen: "seen \<in> set (db # past)" "ep_seen p \<in> set (call_channels seen)"
    and one: "changes (fenced p) (call_channels db) = 1"
  shows "channel_get (ch_id (ep_seen p)) db = Some (ep_seen p)"
proof -
  from hist have grow: "calls_grow (db # past)" and dist: "distinct (map ch_id (call_channels db))"
    by (simp_all add: call_history_def calls_ok_def)
  obtain c where c: "c \<in> set (call_channels db)" "fenced p c" using fenced_row [OF one dist] by blast
  from grow seen obtain x where x: "x \<in> set (call_channels db)" "ch_id x = ch_id (ep_seen p)"
      "x = ep_seen p \<or> ch_event_seq (ep_seen p) < ch_event_seq x"
    unfolding calls_grow_def by fastforce
  from c(2) x(2) distinct_key_unique [OF dist c(1) x(1)] have "x = c" by (simp add: fenced_def)
  with c(2) x have "ep_seen p \<in> set (call_channels db)" by (auto simp: fenced_def)
  then show ?thesis using channel_table.lookup_row [of db "ep_seen p"] dist by blast
qed

lemma own_channel:
  assumes dist: "distinct (map ch_id (call_channels db))" and c: "channel_get i db = Some c"
    and own: "ch_creator c = u \<or> ch_peer c = u"
  shows "readAuthorizedChannel db i u = Some c"
proof -
  have "c \<in> set (call_channels db)" "ch_id c = i" using c channel_table.lookup_Some by auto
  moreover have "row_where (\<lambda>c. ch_id c = i \<and> (ch_creator c = u \<or> ch_peer c = u)) cs = Some c"
    if "distinct (map ch_id cs)" "c \<in> set cs" "ch_id c = i" for cs
    using that own by (induction cs) (auto simp: image_iff)
  ultimately show ?thesis using dist by (simp add: readAuthorizedChannel_def)
qed

section \<open>Calls\<close>

text \<open>C13: In every run, however requests interleave, the event log of a call is dense and tells a client
  everything: its sequence numbers are one to the number the channel shows, and replaying it on
  the state machine of calls gives the state and the generation of the channel.\<close>

theorem call_log_replays_to_the_channel:
  assumes "runs sha [only_users us] h" and "channel_get i (hd h) = Some c"
  shows "map ce_seq (call_log i (hd h)) = [1..ch_event_seq c] \<and>
    replay (call_log i (hd h)) = Some (ch_state c, ch_generation c) \<and>
    ch_terminal c = (if terminal (ch_state c) then Some (ch_state c) else None)"
proof -
  from assms(2) have "c \<in> set (call_channels (hd h))" "ch_id c = i" using channel_table.lookup_Some by auto
  with run_facts(1) [OF assms(1)] show ?thesis
    by (auto simp: call_history_def calls_ok_def channel_ok_def)
qed

lemma ex_lookups:
  "channel_get ''call-0001'' ex_ended = Some (ex_channel ''ended'' 2 ''t5'')"
  "message_get 1 ex_deleted = Some (ex_message [] 3 (Some ''t4'') (Some ''t5''))"
  by code_simp+

theorem call_log_replays_to_the_channel_witness:
  "map ce_seq (call_log ''call-0001'' ex_ended) = [1..2] \<and> replay (call_log ''call-0001'' ex_ended) = Some (''ended'', 0)"
  using call_log_replays_to_the_channel [OF ex_run_ended [of digest], of "''call-0001''"] ex_lookups(1)
  by (simp add: ex_channel_def)

text \<open>C14: An ended call is final: whatever is decided on older readings of it and written afterwards, its
  channel and its event log stay exactly as they were when it ended.\<close>

theorem ended_call_is_final:
  assumes "runs sha [only_users us] h" and "channel_get i (hd h) = Some c" and "ch_terminal c \<noteq> None"
    and "runs sha h h'"
  shows "channel_get i (hd h') = Some c \<and> call_log i (hd h') = call_log i (hd h)"
  using ended.reachable_fact [OF assms(4) run_facts(1) [OF assms(1)], of i c "call_log i (hd h)"] assms(2,3)
  by (simp add: ended_with_def)

theorem ended_call_is_final_witness:
  "channel_get ''call-0001'' ex_ended = Some (ex_channel ''ended'' 2 ''t5'')"
  using ended_call_is_final [OF ex_run_ended _ _ ex_run_late [of digest], of "''call-0001''"] ex_lookups(1)
  by (simp add: ex_channel_def terminal_def)

text \<open>C31: Each participant of a call has one media device: every signal, media and participant event of a
  user was sent by the device that the channel shows for that user, so two devices of one account
  never both carry the media of a call. Here the code is stricter than R11 of
  docs/specs/human-call-signaling.md, by which two devices of a participant may append distinct events.\<close>

theorem media_comes_from_one_device:
  assumes "runs sha [only_users us] h" and "e \<in> set (call_events (hd h))" and "ce_kind e \<noteq> ''transition''"
  shows "\<exists>c. channel_get (ce_call e) (hd h) = Some c \<and> media_device (ce_user e) c = Some (ce_device e)"
proof -
  from run_facts(1) [OF assms(1)] have ok: "calls_ok (hd h)" by (simp add: call_history_def)
  with assms(2) obtain c where c: "c \<in> set (call_channels (hd h))" "ch_id c = ce_call e"
    unfolding calls_ok_def by (metis (no_types, lifting) image_iff subsetD)
  with ok have "channel_get (ce_call e) (hd h) = Some c"
    using channel_table.lookup_row [of "hd h" c] by (simp add: calls_ok_def)
  moreover from ok c have "channel_ok c (call_log (ce_call e) (hd h))" by (auto simp: calls_ok_def)
  ultimately show ?thesis using assms(2,3) by (auto simp: channel_ok_def call_log_def)
qed

theorem media_comes_from_one_device_witness:
  "\<exists>c. channel_get ''call-0001'' ex_ended = Some c \<and> media_device 1 c = Some ''phone''"
  using media_comes_from_one_device [OF ex_run_ended [of digest], of ex_signal]
  by (simp add: ex_signal_def ex_ended_def)

text \<open>C33: A retry of a call event that was written is recognised for as long as the call is open: the same
  request is answered with the event that was recorded for it, whatever was written since; once the
  call has ended it is refused, also when the event is the one that ended it.\<close>

theorem event_retry_is_recognised:
  assumes run: "runs sha [only_users us] h" and seen: "seen \<in> set h"
    and plan: "js_ok body" "decide_append me raw body now seen = Inr (AppendEvent p)"
    and ran: "commit_event p (hd h) = (Inr e, db)"
    and later: "runs sha (db # h) h'"
  shows "\<exists>c. readAuthorizedChannel (hd h') (ce_call e) (au_user me) = Some c \<and>
    decide_append me raw body now' (hd h') =
      (if ch_terminal c \<noteq> None then Inl CALL_ENDED else Inr (DuplicateEvent e c))"
proof -
  from run_facts(1) [OF run] have hist: "call_history h" .
  then obtain cur past where h: "h = cur # past" by (cases h) (simp_all add: call_history_def)
  have "social_step sha h cur db" using social_step.append_event [OF seen plan] ran by (simp add: h)
  then have step: "history_step sha h (db # h)" using next_state by (simp add: h)
  with run later have whole: "runs sha [only_users us] h'" by (metis rtranclp.rtrancl_into_rtrancl rtranclp_trans)
  from ran have one: "changes (fenced p) (call_channels cur) = 1"
    and free: "\<not> event_key_taken (ep_event p) cur" and e: "e = ep_event p"
    and db: "call_events db = call_events cur @ [ep_event p]"
    by (auto simp: h commit_event_def split: if_splits)
  obtain args: "valid_call_id raw = Some (ce_call e)" "body \<noteq> JNull"
    "valid_event_id (js_get body ''clientEventId'') = Some (ce_client_event e)"
    "parseGeneration (js_get body ''generation'') = Some (ce_generation e)"
    "trim (text_or_blank (js_get body ''kind'')) = ce_kind e" "ce_kind e \<in> set event_kinds"
    "is_object (js_get body ''payload'')" "\<not> is_array (js_get body ''payload'')"
    "stringify (js_get body ''payload'') = ce_payload e" "\<not> 65536 < int (utf8_length (ce_payload e))"
    "ce_user e = au_user me" "ce_device e = au_device me" "ch_id (ep_seen p) = ce_call e"
    "ch_creator (ep_seen p) = au_user me \<or> ch_peer (ep_seen p) = au_user me"
    unfolding e by (rule decide_append_parts [OF plan])
  have "channel_get (ce_call e) (hd h) = Some (ep_seen p)"
    using fenced_is_seen [of cur past seen p] hist seen decide_append_plan [OF plan] one args(13) by (simp add: h)
  then have "channel_of_pair (ce_call e) (ch_creator (ep_seen p)) (ch_peer (ep_seen p)) (hd (db # h))"
    by (intro pair_step [OF _ step]) (simp add: channel_of_pair_def)
  from pair.reachable_fact [OF later _ this] obtain c where c: "channel_get (ce_call e) (hd h') = Some c"
      "ch_creator c = ch_creator (ep_seen p)" "ch_peer c = ch_peer (ep_seen p)"
    by (auto simp: channel_of_pair_def)
  have "event_get (ce_call e) (ce_user e) (ce_device e) (ce_client_event e) (hd (db # h)) = Some e"
  proof -
    have "event_get (ce_call e) (ce_user e) (ce_device e) (ce_client_event e) cur = None"
      using free by (auto simp: event_get_def event_key_taken_def list_ex_iff e)
    then show ?thesis by (simp add: event_get_def db row_where_append e del: row_where_None)
  qed
  from recorded_event.reachable_fact [OF later _ this]
  have recorded: "event_get (ce_call e) (au_user me) (au_device me) (ce_client_event e) (hd h') = Some e"
    using args by simp
  from run_facts(1) [OF whole] have ok: "calls_ok (hd h')" by (simp add: call_history_def)
  have mine: "readAuthorizedChannel (hd h') (ce_call e) (au_user me) = Some c"
    by (rule own_channel [OF _ c(1)]) (use ok c args in \<open>simp_all add: calls_ok_def\<close>)
  from c(1) have "c \<in> set (call_channels (hd h'))" "ch_id c = ce_call e" using channel_table.lookup_Some by auto
  with ok have "text_or (ch_terminal c) None = ch_terminal c"
    by (auto simp: calls_ok_def channel_ok_def text_or_def terminal_def)
  then show ?thesis using mine args recorded \<open>ch_id c = ce_call e\<close>
    by (auto simp: decide_append_def decide_event_def)
qed

theorem event_retry_is_recognised_witness:
  "decide_append phone (JStr ''call-0001'') (event_body ''ev-2'' ''transition'' hangup) ''t7'' ex_ended = Inl CALL_ENDED"
proof -
  have "readAuthorizedChannel ex_ended ''call-0001'' 1 = Some (ex_channel ''ended'' 2 ''t5'')" by code_simp
  moreover have "commit_event (ex_event_plan (ex_channel ''invited'' 1 ''t4'') ex_hangup)
      (hd [ex_media, ex_called, ex_friends, ex_asked, ex_start]) = (Inr ex_hangup, ex_ended)"
    using ex_hang_up(2) by simp
  from event_retry_is_recognised [OF ex_run_media [of digest] _ ex_bodies(2) ex_hang_up(1) this rtranclp.rtrancl_refl]
  have "\<exists>c. readAuthorizedChannel ex_ended ''call-0001'' 1 = Some c \<and>
      decide_append phone (JStr ''call-0001'') (event_body ''ev-2'' ''transition'' hangup) ''t7'' ex_ended =
        (if ch_terminal c \<noteq> None then Inl CALL_ENDED else Inr (DuplicateEvent ex_hangup c))"
    by (simp add: ex_hangup_def phone_def)
  ultimately show ?thesis by (simp add: ex_channel_def terminal_def)
qed

text \<open>C15: Calls and messages stay among friends: in every run each call channel is between two different
  users and each direct message between two users with an accepted friend request, also when the
  request was accepted, or the message decided, while other requests were under way.\<close>

theorem contacts_are_friends:
  assumes "runs sha [only_users us] h"
  shows "(\<forall>c \<in> set (call_channels (hd h)). ch_creator c \<noteq> ch_peer c \<and> areFriends (hd h) (ch_creator c) (ch_peer c)) \<and>
    (\<forall>m \<in> set (direct_messages (hd h)). areFriends (hd h) (dm_sender m) (dm_recipient m))"
  using run_facts(2) [OF assms] by (simp add: social_ok_def contacts_ok_def)

theorem contacts_are_friends_witness: "areFriends ex_ended 1 2 \<and> areFriends ex_deleted 1 2"
  using contacts_are_friends [OF ex_run_ended [of digest]] contacts_are_friends [OF ex_run_deleted]
  by (simp add: ex_ended_def ex_deleted_def ex_channel_def ex_message_def)

lemma not_reacted: "i \<notin> reacted db \<longleftrightarrow> (\<forall>r \<in> set (message_reactions db). fst (rx_key r) \<noteq> i)"
  by (auto simp: reacted_def image_iff)

section \<open>Messages\<close>

text \<open>C16: The revision of a message counts the operations its journal has for it, one for each number from
  two on, and a deleted message is an empty tombstone: it has no text, no attachment and no reaction,
  also when an edit or a reaction was decided before the deletion and written after it.\<close>

theorem message_revisions_follow_the_journal:
  assumes "runs sha [only_users us] h" and "message_get i (hd h) = Some m"
  shows "map mt_result (journal_of i (hd h)) = [2..dm_revision m] \<and>
    (dm_deleted m \<noteq> None \<longrightarrow> dm_body m = [] \<and> dm_attachments m = ''[]'' \<and>
      (\<forall>r \<in> set (message_reactions (hd h)). fst (rx_key r) \<noteq> i))"
proof -
  from assms(2) have "m \<in> set (direct_messages (hd h))" "dm_id m = i" using message_table.lookup_Some by auto
  moreover from this run_facts(3) [OF assms(1)] have "message_ok m (journal_of i (hd h)) (reacted (hd h))"
    by (auto simp: messages_ok_def)
  ultimately show ?thesis by (simp add: message_ok_def not_reacted)
qed

theorem message_revisions_follow_the_journal_witness: "map mt_result (journal_of 1 ex_deleted) = [2..3]"
  using message_revisions_follow_the_journal [OF ex_run_deleted, of 1] ex_lookups(2) by (simp add: ex_message_def)

text \<open>C32: A retry of an edit that went through changes nothing: as long as the text is not empty, the same
  request is recognised by its operation id whatever happened to the message since, its deletion
  included.\<close>

theorem edit_retry_is_recognised:
  assumes run: "runs sha [only_users us] h" and seen: "seen \<in> set h"
    and plan: "decide_edit sha me messageId raw queryOperation queryRevision seen = Inr (Mutate p)"
    and content: "mp_text p \<noteq> []" and ran: "commit_edit me p now (hd h) = (Inr (), db)"
    and later: "runs sha (db # h) h'"
  shows "decide_edit sha me messageId raw queryOperation queryRevision (hd h') = Inr (AlreadyMutated (mp_target p))"
proof -
  from run_facts(1) [OF run] obtain cur past where h: "h = cur # past" by (cases h) (simp_all add: call_history_def)
  have "social_step sha h cur db" using social_step.edit [OF seen plan, of now cur "Inr ()" db] ran by (simp add: h)
  then have step: "history_step sha h (db # h)" using next_state by (simp add: h)
  with run later have whole: "runs sha [only_users us] h'" by (metis rtranclp.rtrancl_into_rtrancl rtranclp_trans)
  obtain body opValue revValue where
    i: "message_id messageId = Some (mp_target p)"
    and request: "readMutationRequest raw queryOperation queryRevision = Inr (body, opValue, revValue)"
      "parseMutationOperationId opValue = Some (mp_operation p)" "parseExpectedRevision revValue = Some (mp_expected p)"
      "\<not> 4000 < int (length (message_text body))"
    and p: "mp_digest p = sha (edit_digest_text (mp_target p) (mp_expected p) (message_text body))"
      "mp_text p = message_text body"
    by (rule decide_edit_plan [OF plan]) blast
  have "journaled (au_user me, mp_operation p) (journal_row ''edit'' me p now) (mp_target p) (au_user me) db"
    using commit_edit_journaled [OF _ ran] run_facts(3) [OF run] by (simp add: h)
  with journaled.reachable_fact [OF later]
  have last: "journaled (au_user me, mp_operation p) (journal_row ''edit'' me p now) (mp_target p) (au_user me) (hd h')" by simp
  then obtain m where m: "message_get (mp_target p) (hd h') = Some m" "dm_sender m = au_user me" by (auto simp: journaled_def)
  then have "readMutationTarget (hd h') messageId (au_user me) = Some m" "dm_id m = mp_target p"
    using own_mutation_target [OF run_facts(3) [OF whole] _ _ i] message_table.lookup_Some by auto
  then show ?thesis using request content last m
    by (simp add: decide_edit_def settle_mutation_def Let_def p journaled_def same_mutation_def journal_row_def)
qed

theorem edit_retry_is_recognised_witness:
  "decide_edit digest alice (JNum 1) edit_body JUndef JUndef ex_deleted = Inr (AlreadyMutated 1)"
proof -
  have "commit_edit alice ex_edit ''t4'' (hd [ex_sent, ex_friends, ex_asked, ex_start]) = (Inr (), ex_edited)"
    using ex_edits(2) by simp
  from edit_retry_is_recognised [OF ex_run_sent _ ex_edits(1) _ this ex_run_deleted_from]
  show ?thesis by (simp add: ex_edit_def)
qed

end
