(* ===== verification/RuntimeStore.thy ===== *)
theory RuntimeStore
  imports AgentStore Registry
begin

text \<open>
  The durable runtime of a Mini App (global\_dharma\_runtime\_store.js): the state of one Mini App per
  account with its revision, and the receipt of every operation that changed it.  It lives in the
  database of the account synchronisation store and announces each change as an event of its log,
  so \<open>runtime_db\<close> extends \<open>sync_db\<close>.

  Outside the model: SHA-256 (a member of \<open>sync_env\<close>), \<open>crypto.randomUUID()\<close> (the argument \<open>uuid\<close>)
  and the callback \<open>mutate\<close>, an argument of \<open>runMutation\<close> as in the source: it raises (\<open>Inl\<close>) or
  returns the tool result with the state it leaves behind.  \<open>now\<close> is the clock of the runtime store,
  \<open>now'\<close> the one of the synchronisation store.
\<close>

section \<open>State\<close>

record runtime_state_row =
  rs_account_id :: string
  rs_mini_app_id :: string
  rs_revision :: nat
  rs_state_json :: string
  rs_updated_at_ms :: int

record runtime_operation_row =
  ro_account_id :: string
  ro_mini_app_id :: string
  ro_operation_id :: string
  ro_tool_name :: string
  ro_args_hash :: string
  ro_result_json :: string
  ro_revision :: nat
  ro_cursor :: string
  ro_created_at_ms :: int

record runtime_db = sync_db +
  runtime_states :: "runtime_state_row list"
  runtime_operations :: "runtime_operation_row list"

datatype runtime_error =
    RUNTIME_ACCOUNT_REQUIRED | OPERATION_ID_TOO_LONG | TOOL_NAME_REQUIRED | MUTATE_REQUIRED
  | MINIAPP_IDEMPOTENCY_CONFLICT | RECEIPT_CORRUPT | MUTATION_RAISED string | RESULT_NOT_OBJECT
  | STATE_NOT_OBJECT | SYNC_STORE sync_error

definition GLOBAL_DHARMA_RUNTIME_PROTOCOL :: string where
  "GLOBAL_DHARMA_RUNTIME_PROTOCOL = ''fabushi.miniapp.runtime.v1''"

definition GLOBAL_DHARMA_MINIAPP_ID :: string where
  "GLOBAL_DHARMA_MINIAPP_ID = ''global-dharma''"

definition defaultGlobalDharmaRuntimeState :: js where
  "defaultGlobalDharmaRuntimeState = JObj
     [(''running'', JBool False), (''loops'', JNum 0), (''sent'', JNum 0), (''logs'', JArr []),
      (''mode'', JNull), (''pendingContent'', JNull)]"

section \<open>Statements\<close>

definition runtime_key :: "runtime_state_row \<Rightarrow> string \<times> string" where
  "runtime_key r = (rs_account_id r, rs_mini_app_id r)"

definition operation_key :: "runtime_operation_row \<Rightarrow> string \<times> string \<times> string" where
  "operation_key r = (ro_account_id r, ro_mini_app_id r, ro_operation_id r)"

definition getRuntimeState :: "string \<times> string \<Rightarrow> 'a runtime_db_scheme \<Rightarrow> runtime_state_row option" where
  "getRuntimeState k db = row_where (\<lambda>r. runtime_key r = k) (runtime_states db)"

definition upsertRuntimeState :: "runtime_state_row \<Rightarrow> 'a runtime_db_scheme \<Rightarrow> 'a runtime_db_scheme" where
  "upsertRuntimeState r db =
     db\<lparr>runtime_states := upsert_row runtime_key r
          (\<lambda>old. old\<lparr>rs_revision := rs_revision r, rs_state_json := rs_state_json r,
             rs_updated_at_ms := rs_updated_at_ms r\<rparr>) (runtime_states db)\<rparr>"

definition getOperation :: "string \<times> string \<times> string \<Rightarrow> 'a runtime_db_scheme \<Rightarrow> runtime_operation_row option" where
  "getOperation k db = row_where (\<lambda>r. operation_key r = k) (runtime_operations db)"

text \<open>The primary key is free where \<open>runMutation\<close> inserts: it looked the operation up in the same
  transaction.\<close>

definition insertOperation :: "runtime_operation_row \<Rightarrow> 'a runtime_db_scheme \<Rightarrow> 'a runtime_db_scheme" where
  "insertOperation r db = db\<lparr>runtime_operations := runtime_operations db @ [r]\<rparr>"

section \<open>Arguments\<close>

definition normalizedAccountId :: "js \<Rightarrow> runtime_error + string" where
  "normalizedAccountId v = (if trimmed v = [] then Inl RUNTIME_ACCOUNT_REQUIRED else Inr (trimmed v))"

definition normalizedOperationId :: "string \<Rightarrow> js \<Rightarrow> runtime_error + string" where
  "normalizedOperationId uuid v =
     (let i = trimmed v in
      if i = [] then Inr uuid else if 160 < length i then Inl OPERATION_ID_TOO_LONG else Inr i)"

text \<open>\<open>Object.fromEntries(Object.keys(v).sort().map(\<dots>))\<close> at every depth\<close>

fun canonical :: "js \<Rightarrow> js" where
  "canonical (JArr xs) = JArr (map canonical xs)"
| "canonical (JObj kvs) = JObj (assigned (sort_key fst (map (\<lambda>(k, v). (k, canonical v)) kvs)))"
| "canonical v = v"

definition fingerprint :: "sync_env \<Rightarrow> string \<Rightarrow> js \<Rightarrow> string" where
  "fingerprint env toolName args =
     se_sha256 env (map char_of (utf8_bytes
       (stringify (canonical (JObj [(''toolName'', JStr toolName), (''args'', args)])))))"

text \<open>\<open>clone(args ?? {})\<close> without the two spellings of the operation id\<close>

definition args_for_hash :: "js \<Rightarrow> js" where
  "args_for_hash args =
     (case read_back (or_else args (JObj [])) of
        JObj kvs \<Rightarrow> JObj (filter (\<lambda>kv. fst kv \<noteq> ''operationId'' \<and> fst kv \<noteq> ''operation_id'') kvs)
      | v \<Rightarrow> v)"

section \<open>Snapshot\<close>

record runtime_view =
  rv_mini_app_id :: string
  rv_revision :: nat
  rv_cursor :: string
  rv_state :: js
  rv_updated_at_ms :: int
  rv_replayed :: bool

definition runtime_json :: "runtime_view \<Rightarrow> js" where
  "runtime_json v = JObj
     [(''protocol'', JStr GLOBAL_DHARMA_RUNTIME_PROTOCOL), (''miniAppId'', JStr (rv_mini_app_id v)),
      (''revision'', JNum (int (rv_revision v))), (''cursor'', JStr (rv_cursor v)), (''state'', rv_state v),
      (''updatedAtMs'', JNum (rv_updated_at_ms v)), (''replayed'', JBool (rv_replayed v))]"

definition stored_state :: "runtime_state_row option \<Rightarrow> js" where
  "stored_state row =
     (case row of None \<Rightarrow> defaultGlobalDharmaRuntimeState
      | Some r \<Rightarrow> parseJson (JStr (rs_state_json r)) defaultGlobalDharmaRuntimeState)"

definition stored_revision :: "runtime_state_row option \<Rightarrow> nat" where
  "stored_revision row = (case row of None \<Rightarrow> 0 | Some r \<Rightarrow> rs_revision r)"

definition runtime_snapshot :: "js \<Rightarrow> string \<Rightarrow> 'a runtime_db_scheme \<Rightarrow> runtime_error + runtime_view" where
  "runtime_snapshot accountIdInput miniAppId db =
     (case normalizedAccountId accountIdInput of Inl e \<Rightarrow> Inl e
      | Inr a \<Rightarrow>
     (let row = getRuntimeState (a, miniAppId) db
      in case currentCursor (JStr a) db of Inl e \<Rightarrow> Inl (SYNC_STORE e)
         | Inr cursor \<Rightarrow> Inr
            \<lparr>rv_mini_app_id = miniAppId, rv_revision = stored_revision row, rv_cursor = cursor,
             rv_state = stored_state row,
             rv_updated_at_ms = (case row of None \<Rightarrow> 0 | Some r \<Rightarrow> rs_updated_at_ms r),
             rv_replayed = False\<rparr>))"

section \<open>Mutation\<close>

type_synonym mutation = "js \<Rightarrow> string + js \<times> js"

text \<open>\<open>if (replay.structuredContent?.runtime) replay.structuredContent.runtime.replayed = true\<close>; what is
  assigned on a truthy value that is not an object is lost or raises, and no receipt has one there.\<close>

definition put_member :: "string \<Rightarrow> js \<Rightarrow> js \<Rightarrow> js" where
  "put_member k v target = (case target of JObj kvs \<Rightarrow> JObj (put_property k v kvs) | _ \<Rightarrow> target)"

definition as_replayed :: "js \<Rightarrow> js" where
  "as_replayed replay =
     (let sc = js_get replay ''structuredContent''; runtime = js_get sc ''runtime''
      in if truthy runtime
         then put_member ''structuredContent'' (put_member ''runtime'' (put_member ''replayed'' (JBool True) runtime) sc) replay
         else replay)"

definition replay_receipt :: "runtime_operation_row \<Rightarrow> string \<Rightarrow> string \<Rightarrow> runtime_error + js" where
  "replay_receipt existing toolName argsHash =
     (if ro_tool_name existing \<noteq> toolName \<or> ro_args_hash existing \<noteq> argsHash
      then Inl MINIAPP_IDEMPOTENCY_CONFLICT
      else let replay = parseJson (JStr (ro_result_json existing)) JNull
           in if \<not> truthy replay then Inl RECEIPT_CORRUPT else Inr (as_replayed replay))"

text \<open>\<open>state.logs = Array.isArray(state.logs) ? state.logs.slice(-500) : []\<close>; on an array the new
  member has no place in its JSON text, and on a value that is not an object the assignment raises.\<close>

definition last_elements :: "nat \<Rightarrow> 'a list \<Rightarrow> 'a list" where
  "last_elements n xs = drop (length xs - n) xs"

definition trim_logs :: "js \<Rightarrow> js option" where
  "trim_logs state =
     (case state of
        JObj kvs \<Rightarrow> Some (JObj (put_property ''logs'' (JArr (last_elements 500 (elements (js_get state ''logs'')))) kvs))
      | JArr xs \<Rightarrow> Some (JArr xs)
      | _ \<Rightarrow> None)"

definition mutated :: "mutation \<Rightarrow> js \<Rightarrow> runtime_error + js \<times> js" where
  "mutated mutate state =
     (case mutate state of Inl e \<Rightarrow> Inl (MUTATION_RAISED e)
      | Inr (toolResult, state') \<Rightarrow>
          (if \<not> is_object toolResult then Inl RESULT_NOT_OBJECT
           else case trim_logs state' of None \<Rightarrow> Inl STATE_NOT_OBJECT | Some s \<Rightarrow> Inr (toolResult, s)))"

definition completed_result :: "js \<Rightarrow> runtime_view \<Rightarrow> string \<Rightarrow> js" where
  "completed_result toolResult view operationId =
     JObj (assigned (own_properties toolResult @
       [(''structuredContent'', JObj (assigned (own_properties (js_get toolResult ''structuredContent'') @
           [(''runtime'', runtime_json view), (''operationId'', JStr operationId)])))]))"

definition runtime_event :: "string \<Rightarrow> nat \<Rightarrow> string \<Rightarrow> string \<Rightarrow> js \<Rightarrow> js" where
  "runtime_event miniAppId revision toolName operationId state = JObj
     [(''miniAppId'', JStr miniAppId), (''revision'', JNum (int revision)), (''tool'', JStr toolName),
      (''operationId'', JStr operationId), (''state'', state)]"

text \<open>The statements of the transaction when the operation is new.\<close>

definition first_run ::
  "sync_env \<Rightarrow> int \<Rightarrow> int \<Rightarrow> string \<Rightarrow> string \<Rightarrow> string \<Rightarrow> string \<Rightarrow> string \<Rightarrow> mutation \<Rightarrow>
   'a runtime_db_scheme \<Rightarrow> (runtime_error + js) \<times> 'a runtime_db_scheme" where
  "first_run env now now' a miniAppId operationId toolName argsHash mutate db =
     (let row = getRuntimeState (a, miniAppId) db in
      case mutated mutate (stored_state row) of Inl e \<Rightarrow> (Inl e, db)
      | Inr (toolResult, state) \<Rightarrow>
     (let revision = stored_revision row + 1;
          db1 = upsertRuntimeState \<lparr>rs_account_id = a, rs_mini_app_id = miniAppId, rs_revision = revision,
            rs_state_json = stringify state, rs_updated_at_ms = now\<rparr> db
      in case recordEvent env now' (JStr a) (JStr ''miniapp.runtime.updated'') (JStr miniAppId)
             (runtime_event miniAppId revision toolName operationId state) db1 of
           (Inl e, db2) \<Rightarrow> (Inl (SYNC_STORE e), db2)
         | (Inr (_, cursor), db2) \<Rightarrow>
             (let completed = completed_result toolResult
                    \<lparr>rv_mini_app_id = miniAppId, rv_revision = revision, rv_cursor = cursor,
                     rv_state = read_back state, rv_updated_at_ms = now, rv_replayed = False\<rparr> operationId
              in (Inr completed,
                  insertOperation \<lparr>ro_account_id = a, ro_mini_app_id = miniAppId, ro_operation_id = operationId,
                    ro_tool_name = toolName, ro_args_hash = argsHash, ro_result_json = stringify completed,
                    ro_revision = revision, ro_cursor = cursor, ro_created_at_ms = now\<rparr> db2))))"

definition run_operation ::
  "sync_env \<Rightarrow> int \<Rightarrow> int \<Rightarrow> string \<Rightarrow> string \<Rightarrow> string \<Rightarrow> string \<Rightarrow> string \<Rightarrow> mutation \<Rightarrow>
   'a runtime_db_scheme \<Rightarrow> (runtime_error + js) \<times> 'a runtime_db_scheme" where
  "run_operation env now now' a miniAppId operationId toolName argsHash mutate =
     in_transaction (\<lambda>db.
       case getOperation (a, miniAppId, operationId) db of
         Some existing \<Rightarrow> (replay_receipt existing toolName argsHash, db)
       | None \<Rightarrow> first_run env now now' a miniAppId operationId toolName argsHash mutate db)"

text \<open>\<open>mutate\<close> is \<open>None\<close> when the caller passed something that is not a function.\<close>

definition runMutation ::
  "sync_env \<Rightarrow> string \<Rightarrow> int \<Rightarrow> int \<Rightarrow> js \<Rightarrow> string \<Rightarrow> js \<Rightarrow> js \<Rightarrow> js \<Rightarrow> mutation option \<Rightarrow>
   'a runtime_db_scheme \<Rightarrow> (runtime_error + js) \<times> 'a runtime_db_scheme" where
  "runMutation env uuid now now' accountIdInput miniAppId operationIdInput toolName args mutate db =
     (case normalizedAccountId accountIdInput of Inl e \<Rightarrow> (Inl e, db)
      | Inr a \<Rightarrow>
     (case normalizedOperationId uuid operationIdInput of Inl e \<Rightarrow> (Inl e, db)
      | Inr i \<Rightarrow>
     (if trimmed toolName = [] then (Inl TOOL_NAME_REQUIRED, db)
      else case mutate of None \<Rightarrow> (Inl MUTATE_REQUIRED, db)
      | Some f \<Rightarrow>
          run_operation env now now' a miniAppId i (trimmed toolName)
            (fingerprint env (trimmed toolName) (args_for_hash args)) f db)))"

section \<open>Difference\<close>

text \<open>The revision is \<open>None\<close> where \<open>Number(\<dots>)\<close> is not an integer.\<close>

record runtime_item =
  ri_sequence :: nat
  ri_cursor :: string
  ri_occurred_at_ms :: int
  ri_revision :: "int option"
  ri_tool :: string
  ri_operation_id :: string
  ri_state :: js

datatype runtime_reply =
    Runtime_Snapshot snapshot_reason string runtime_view
  | Runtime_Difference string bool "runtime_item list"

definition runtime_item_of :: "sync_item \<Rightarrow> runtime_item" where
  "runtime_item_of e =
     (let get = js_get (it_payload e)
      in \<lparr>ri_sequence = it_sequence e, ri_cursor = it_cursor e, ri_occurred_at_ms = it_occurred_at_ms e,
          ri_revision = js_number (or_else (get ''revision'') (JNum 0)), ri_tool = text_of (get ''tool''),
          ri_operation_id = text_of (get ''operationId''),
          ri_state = read_back (or_else (get ''state'') defaultGlobalDharmaRuntimeState)\<rparr>)"

definition runtime_difference ::
  "sync_env \<Rightarrow> js \<Rightarrow> js \<Rightarrow> js \<Rightarrow> string \<Rightarrow> 'a runtime_db_scheme \<Rightarrow> runtime_error + runtime_reply" where
  "runtime_difference env accountIdInput cursor limit miniAppId db =
     (case normalizedAccountId accountIdInput of Inl e \<Rightarrow> Inl e
      | Inr a \<Rightarrow>
     (case account_sync env (JStr a) cursor limit db of Inl e \<Rightarrow> Inl (SYNC_STORE e)
      | Inr (Snapshot reason c _) \<Rightarrow>
          (case runtime_snapshot (JStr a) miniAppId db of Inl e \<Rightarrow> Inl e
           | Inr view \<Rightarrow> Inr (Runtime_Snapshot reason c view))
      | Inr (Difference d) \<Rightarrow>
          Inr (Runtime_Difference (df_cursor d) (df_has_more d)
            (map runtime_item_of
              (filter (\<lambda>e. it_type e = ''miniapp.runtime.updated'' \<and> it_entity_id e = miniAppId) (df_events d))))))"

section \<open>The tables\<close>

interpretation runtime_state_table: keyed_table getRuntimeState runtime_states runtime_key
  by unfold_locales (simp add: getRuntimeState_def)

interpretation operation_table: keyed_table getOperation runtime_operations operation_key
  by unfold_locales (simp add: getOperation_def)

end
