(* ===== verification/RuntimeLaws.thy ===== *)
theory RuntimeLaws
  imports RuntimeStore SyncRuns
begin

text \<open>
  The runtime of a Mini App as a system: what one call of \<open>runMutation\<close> writes (\<open>performed\<close>), runs in
  which it interleaves with the other writes of the synchronisation store (\<open>runtime_run\<close>), and their
  invariant, which ties the receipts and the stored state to the history of the event log
  (\<open>runtime_inv\<close>).
\<close>

section \<open>What a call does\<close>

definition runtime_event_type :: string where
  "runtime_event_type = ''miniapp.runtime.updated''"

text \<open>The rows a new operation writes, of which its reply tells the client.\<close>

definition new_state_row :: "string \<Rightarrow> string \<Rightarrow> nat \<Rightarrow> js \<Rightarrow> int \<Rightarrow> runtime_state_row" where
  "new_state_row a m n s now =
     \<lparr>rs_account_id = a, rs_mini_app_id = m, rs_revision = n, rs_state_json = stringify s, rs_updated_at_ms = now\<rparr>"

definition new_operation_row ::
  "string \<Rightarrow> string \<Rightarrow> string \<Rightarrow> string \<Rightarrow> string \<Rightarrow> js \<Rightarrow> nat \<Rightarrow> string \<Rightarrow> int \<Rightarrow> runtime_operation_row" where
  "new_operation_row a m i t h c n cursor now =
     \<lparr>ro_account_id = a, ro_mini_app_id = m, ro_operation_id = i, ro_tool_name = t, ro_args_hash = h,
      ro_result_json = stringify c, ro_revision = n, ro_cursor = cursor, ro_created_at_ms = now\<rparr>"

lemma new_operation_row_sel [simp]:
  "ro_account_id (new_operation_row a m i t h c n cursor now) = a"
  "ro_mini_app_id (new_operation_row a m i t h c n cursor now) = m"
  "ro_operation_id (new_operation_row a m i t h c n cursor now) = i"
  "ro_tool_name (new_operation_row a m i t h c n cursor now) = t"
  "ro_args_hash (new_operation_row a m i t h c n cursor now) = h"
  "ro_result_json (new_operation_row a m i t h c n cursor now) = stringify c"
  "ro_revision (new_operation_row a m i t h c n cursor now) = n"
  "ro_cursor (new_operation_row a m i t h c n cursor now) = cursor"
  "operation_key (new_operation_row a m i t h c n cursor now) = (a, m, i)"
  by (simp_all add: new_operation_row_def operation_key_def)

definition performed ::
  "sync_env \<Rightarrow> string \<Rightarrow> string \<Rightarrow> string \<Rightarrow> string \<Rightarrow> string \<Rightarrow> js \<Rightarrow> nat \<Rightarrow> js \<Rightarrow> int \<Rightarrow> int \<Rightarrow>
   'a runtime_db_scheme \<Rightarrow> 'a runtime_db_scheme \<Rightarrow> bool" where
  "performed env a m i t h c n s now now' db db' \<longleftrightarrow>
     getOperation (a, m, i) db = None \<and> a \<noteq> [] \<and> trim a = a \<and> is_object s \<and>
     n = Suc (stored_revision (getRuntimeState (a, m) db)) \<and>
     db' = insertOperation (new_operation_row a m i t h c n (encodeCursor (Suc (sync_last db))) now)
       (snd (appendEvent (se_retention env) a runtime_event_type (trim m) (runtime_event m n t i s) now'
          (upsertRuntimeState (new_state_row a m n s now) db)))"

lemma normalized_account_text:
  assumes "normalizedAccountId v = Inr a"
  shows "a \<noteq> []" "trim a = a" "normalizeAccountId (JStr a) = Inr a" "normalizedAccountId (JStr a) = Inr a"
    "normalizeAccountId v = Inr a"
  using assms by (auto simp: normalizedAccountId_def normalizeAccountId_def trimmed_def split: if_splits)

lemma recordEvent_runtime:
  assumes "a \<noteq> []" and "trim a = a"
  shows "recordEvent env now (JStr a) (JStr ''miniapp.runtime.updated'') (JStr m) p db =
    (if trim m = [] then (Inl EVENT_FIELDS_REQUIRED, db)
     else (Inr (Suc (sync_last db), encodeCursor (Suc (sync_last db))),
           snd (appendEvent (se_retention env) a runtime_event_type (trim m) p now db)))"
proof -
  have "trimmed (JStr ''miniapp.runtime.updated'') = runtime_event_type"
    unfolding runtime_event_type_def by code_simp
  moreover have "runtime_event_type \<noteq> []" by (simp add: runtime_event_type_def)
  ultimately show ?thesis
    using assms appendEvent_fst [of "se_retention env" a runtime_event_type "trim m" p now db]
    by (auto simp: recordEvent_def normalizeAccountId_def trimmed_def split: prod.splits)
qed

lemma sync_frames [simp]:
  "sync_last (upsertRuntimeState r db) = sync_last db" "sync_events (upsertRuntimeState r db) = sync_events db"
  "sync_floors (upsertRuntimeState r db) = sync_floors db"
  "sync_last (insertOperation o' db) = sync_last db" "sync_events (insertOperation o' db) = sync_events db"
  "sync_floors (insertOperation o' db) = sync_floors db"
  by (simp_all add: upsertRuntimeState_def insertOperation_def)

lemma prune_runtime [simp]:
  "runtime_states (sync_prune R a now db) = runtime_states db"
  "runtime_operations (sync_prune R a now db) = runtime_operations db"
  by (simp_all add: sync_prune_def upsertState_def deleteEventsBefore_def split: list.split)

lemma append_runtime [simp]:
  "runtime_states (snd (appendEvent R a t i p now db)) = runtime_states db"
  "runtime_operations (snd (appendEvent R a t i p now db)) = runtime_operations db"
  by (simp_all add: appendEvent_def Let_def insertEvent_def)

lemma table_frames [simp]:
  "runtime_states (insertOperation r db) = runtime_states db"
  "runtime_operations (insertOperation r db) = runtime_operations db @ [r]"
  "runtime_operations (upsertRuntimeState s db) = runtime_operations db"
  by (simp_all add: insertOperation_def upsertRuntimeState_def)

lemma store_write_runtime:
  assumes "store_write env a db db'"
  shows "runtime_states db' = runtime_states db \<and> runtime_operations db' = runtime_operations db"
  using assms
  by cases (simp_all add: upsertMiniAppInstall_def deleteMiniAppInstall_def upsertBotMembership_def
      deleteBotMembership_def agent_upsert_def insertAgentBlob_def upsertAgentRef_def deleteAgentRef_def
      upsertCloudValue_def cloud_delete_def)

lemma mutated_object: "mutated f st = Inr (tr, s) \<Longrightarrow> is_object s"
  by (auto simp: mutated_def trim_logs_def split: sum.splits if_splits option.splits js.splits)

text \<open>A new operation either fails and changes nothing, or it performs.\<close>

lemma first_run_performs:
  assumes "first_run env now now' a m i t h f db = (Inr c, db')" and "getOperation (a, m, i) db = None"
    and "a \<noteq> []" and "trim a = a"
  shows "\<exists>tr s n. mutated f (stored_state (getRuntimeState (a, m) db)) = Inr (tr, s) \<and> trim m \<noteq> [] \<and>
    performed env a m i t h c n s now now' db db' \<and>
    c = completed_result tr \<lparr>rv_mini_app_id = m, rv_revision = n, rv_cursor = encodeCursor (Suc (sync_last db)),
      rv_state = read_back s, rv_updated_at_ms = now, rv_replayed = False\<rparr> i"
proof -
  obtain tr s where s: "mutated f (stored_state (getRuntimeState (a, m) db)) = Inr (tr, s)"
    using assms(1) by (cases "mutated f (stored_state (getRuntimeState (a, m) db))") (auto simp: first_run_def)
  show ?thesis
    using assms s mutated_object [OF s]
    by (auto simp: first_run_def Let_def recordEvent_runtime performed_def new_state_row_def new_operation_row_def
        split: if_splits)
qed

lemma runMutation_on:
  assumes "normalizedAccountId v = Inr a" and "normalizedOperationId uuid w = Inr i" and "trimmed t \<noteq> []"
  shows "runMutation env uuid now now' v m w t args (Some f) db =
    run_operation env now now' a m i (trimmed t) (fingerprint env (trimmed t) (args_for_hash args)) f db"
  using assms by (simp add: runMutation_def)

text \<open>An operation under a new id whose callback returns goes through.\<close>

lemma new_call_goes_through:
  assumes "normalizedAccountId v = Inr a" and "normalizedOperationId uuid w = Inr i" and "trimmed t \<noteq> []"
    and "getOperation (a, m, i) db = None" and "mutated f (stored_state (getRuntimeState (a, m) db)) = Inr (tr, s)"
    and "trim m = m" and "m \<noteq> []"
  shows "\<exists>c db'. runMutation env uuid now now' v m w t args (Some f) db = (Inr c, db') \<and>
    performed env a m i (trimmed t) (fingerprint env (trimmed t) (args_for_hash args)) c
      (Suc (stored_revision (getRuntimeState (a, m) db))) s now now' db db'"
proof -
  note a = normalized_account_text(1,2) [OF assms(1)]
  let ?h = "fingerprint env (trimmed t) (args_for_hash args)"
  obtain c db' where c: "first_run env now now' a m i (trimmed t) ?h f db = (Inr c, db')"
    using assms(5-7) by (simp add: first_run_def Let_def recordEvent_runtime [OF a])
  from first_run_performs [OF c assms(4) a] assms(5)
  have "performed env a m i (trimmed t) ?h c (Suc (stored_revision (getRuntimeState (a, m) db))) s now now' db db'"
    by (auto simp: performed_def)
  moreover have "runMutation env uuid now now' v m w t args (Some f) db = (Inr c, db')"
    unfolding runMutation_on [OF assms(1-3)] run_operation_def using assms(4) c by simp
  ultimately show ?thesis by blast
qed

lemma runMutation_cases:
  assumes "runMutation env uuid now now' v m w t args f db = (r, db')"
  obtains (same) "db' = db"
  | (new) a i h c n s where "r = Inr c" "normalizedAccountId v = Inr a" "normalizedOperationId uuid w = Inr i"
      "performed env a m i (trimmed t) h c n s now now' db db'" "trim m \<noteq> []"
proof (cases "db' = db")
  case False
  have rest: "\<exists>a i g. normalizedAccountId v = Inr a \<and> normalizedOperationId uuid w = Inr i \<and> trimmed t \<noteq> [] \<and> f = Some g"
    using assms False by (auto simp: runMutation_def split: sum.splits if_splits option.splits)
  then obtain a i g where k: "normalizedAccountId v = Inr a" "normalizedOperationId uuid w = Inr i" "trimmed t \<noteq> []"
    "f = Some g" by blast
  note run = assms [unfolded k(4) runMutation_on [OF k(1-3)] run_operation_def]
  have none: "getOperation (a, m, i) db = None"
    using run False by (auto simp: in_transaction_def split: option.splits sum.splits)
  then obtain c where "r = Inr c"
    and c: "first_run env now now' a m i (trimmed t) (fingerprint env (trimmed t) (args_for_hash args)) g db = (Inr c, db')"
    using run False by (auto simp: in_transaction_def split: prod.splits sum.splits)
  with first_run_performs [OF c none normalized_account_text(1,2) [OF k(1)]] k show thesis
    by (auto intro: new)
qed (rule same)

section \<open>Runs\<close>

text \<open>
  The steps of the system: what the synchronisation store writes for any account on behalf of its
  other callers, and calls of \<open>runMutation\<close>, whose callers name a Mini App without surrounding
  blanks.  A step carries the events it appends to the history.
\<close>

definition appended :: "'a sync_log_scheme \<Rightarrow> 'a sync_log_scheme \<Rightarrow> sync_event list" where
  "appended db db' = filter (\<lambda>e. sync_last db < ev_sequence e) (sync_events db')"

inductive runtime_step ::
  "sync_env \<Rightarrow> sync_event list \<Rightarrow> 'a runtime_db_scheme \<Rightarrow> 'a runtime_db_scheme \<Rightarrow> bool" for env :: sync_env where
  step_sync: "logged_write env a es db db' \<Longrightarrow> \<forall>e \<in> set es. ev_type e \<noteq> runtime_event_type \<Longrightarrow>
    runtime_step env es db db'"
| step_mutation: "runMutation env uuid now now' v m w t args f db = (r, db') \<Longrightarrow> trim m = m \<Longrightarrow>
    runtime_step env (appended db db') db db'"

definition fresh_runtime :: "'a runtime_db_scheme \<Rightarrow> bool" where
  "fresh_runtime db \<longleftrightarrow> fresh_sync db \<and> runtime_states db = [] \<and> runtime_operations db = []"

inductive runtime_run :: "sync_env \<Rightarrow> sync_event list \<Rightarrow> 'a runtime_db_scheme \<Rightarrow> bool" for env :: sync_env where
  runtime_start: "fresh_runtime db \<Longrightarrow> runtime_run env [] db"
| runtime_more: "runtime_run env H db \<Longrightarrow> runtime_step env es db db' \<Longrightarrow> runtime_run env (H @ es) db'"

abbreviation runtime_later :: "sync_env \<Rightarrow> 'a runtime_db_scheme \<Rightarrow> 'a runtime_db_scheme \<Rightarrow> bool" where
  "runtime_later env \<equiv> (\<lambda>d d'. \<exists>es. runtime_step env es d d')\<^sup>*\<^sup>*"

text \<open>A receipt is never changed and never removed.\<close>

lemma performed_operations:
  assumes "performed env a m i t h c n s now now' db db'"
  shows "runtime_operations db' = runtime_operations db @
    [new_operation_row a m i t h c n (encodeCursor (Suc (sync_last db))) now]"
  using assms by (simp add: performed_def)

lemma performed_last: "performed env a m i t h c n s now now' db db' \<Longrightarrow> sync_last db' = Suc (sync_last db)"
  by (auto simp: performed_def appendEvent_last)

lemma step_operations:
  assumes "runtime_step env es db db'"
  shows "\<exists>ops. runtime_operations db' = runtime_operations db @ ops"
  using assms
proof cases
  case (step_sync a)
  then show ?thesis using store_write_runtime [OF logged_write_store] by fastforce
next
  case (step_mutation uuid now now' v m w t args f r)
  from step_mutation(2) show ?thesis
    by (rule runMutation_cases) (auto dest: performed_operations)
qed

interpretation runtime_receipts:
  stable_fact "\<lambda>d d'. \<exists>es. runtime_step env es d d'" "\<lambda>_. True" "\<lambda>d. getOperation k d = Some r"
  for env :: sync_env and k r
proof unfold_locales
  fix d d' :: "'a runtime_db_scheme"
  assume "getOperation k d = Some r" and "\<exists>es. runtime_step env es d d'"
  then show "getOperation k d' = Some r"
    using step_operations by (fastforce simp: getOperation_def row_where_append)
qed simp

lemma receipt_kept: "runtime_later env d d' \<Longrightarrow> getOperation k d = Some r \<Longrightarrow> getOperation k d' = Some r"
  by (rule runtime_receipts.reachable_fact) simp_all

section \<open>Retries\<close>

lemma performed_receipt:
  assumes "performed env a m i t h c n s now now' db db'"
  shows "getOperation (a, m, i) db' =
    Some (new_operation_row a m i t h c n (encodeCursor (Suc (sync_last db))) now)"
proof -
  have "\<forall>x \<in> set (runtime_operations db). operation_key x \<noteq> (a, m, i)"
    using assms by (auto simp: performed_def getOperation_def)
  then show ?thesis by (simp add: getOperation_def performed_operations [OF assms] row_where_skip)
qed

lemma truthy_object [simp]: "truthy (read_back (completed_result tr view i))"
  by (simp add: completed_result_def)

lemma replay_of_receipt:
  "replay_receipt (new_operation_row a m i t h (completed_result tr view j) n cursor now) t' h' =
    (if t' = t \<and> h' = h then Inr (as_replayed (read_back (completed_result tr view j)))
     else Inl MINIAPP_IDEMPOTENCY_CONFLICT)"
  by (auto simp: replay_receipt_def parseJson_def json_parse_read_back)

lemma run_operation_known:
  "getOperation (a, m, i) db = Some x \<Longrightarrow> run_operation env now now' a m i t h f db = (replay_receipt x t h, db)"
  by (auto simp: run_operation_def in_transaction_def split: sum.splits)

lemma retry_is_answered:
  assumes "runMutation env uuid now now' v m w t args (Some f) db = (Inr c, db1)"
    and "normalizedAccountId v = Inr a" and "normalizedOperationId uuid w = Inr i"
    and "getOperation (a, m, i) db = None" and "runtime_later env db1 db2"
    and "normalizedOperationId uuid' w' = Inr i" and "trimmed t' \<noteq> []"
  shows "runMutation env uuid' now1 now1' v m w' t' args' (Some g) db2 =
    (if trimmed t' = trimmed t \<and>
        fingerprint env (trimmed t') (args_for_hash args') = fingerprint env (trimmed t) (args_for_hash args)
     then Inr (as_replayed (read_back c)) else Inl MINIAPP_IDEMPOTENCY_CONFLICT, db2)"
proof -
  have "trimmed t \<noteq> []" using assms(1-3) by (auto simp: runMutation_def)
  note run = assms(1) [unfolded runMutation_on [OF assms(2,3) this] run_operation_def]
  let ?h = "fingerprint env (trimmed t) (args_for_hash args)"
  have c: "first_run env now now' a m i (trimmed t) ?h f db = (Inr c, db1)" using run assms(4) by simp
  obtain tr s n where p: "performed env a m i (trimmed t) ?h c n s now now' db db1"
    and cr: "c = completed_result tr \<lparr>rv_mini_app_id = m, rv_revision = n, rv_cursor = encodeCursor (Suc (sync_last db)),
        rv_state = read_back s, rv_updated_at_ms = now, rv_replayed = False\<rparr> i"
    using first_run_performs [OF c assms(4) normalized_account_text(1,2) [OF assms(2)]] by blast
  note known = run_operation_known [OF receipt_kept [OF assms(5) performed_receipt [OF p]]]
  show ?thesis
    unfolding runMutation_on [OF assms(2,6,7)] known unfolding cr replay_of_receipt by simp
qed

section \<open>The receipts and the log\<close>

definition receipts :: "string \<Rightarrow> string \<Rightarrow> 'a runtime_db_scheme \<Rightarrow> runtime_operation_row list" where
  "receipts a m db = filter (\<lambda>r. ro_account_id r = a \<and> ro_mini_app_id r = m) (runtime_operations db)"

definition announcements :: "string \<Rightarrow> string \<Rightarrow> sync_event list \<Rightarrow> sync_event list" where
  "announcements a m H =
     filter (\<lambda>e. ev_type e = runtime_event_type \<and> ev_entity_id e = m) (account_events a H)"

text \<open>The event announces the receipt, and the state the operation left behind.\<close>

definition announces :: "string \<Rightarrow> runtime_operation_row \<Rightarrow> sync_event \<Rightarrow> bool" where
  "announces m r e \<longleftrightarrow> ro_cursor r = encodeCursor (ev_sequence e) \<and>
     (\<exists>s. is_object s \<and> ev_payload_json e = stringify (runtime_event m (ro_revision r) (ro_tool_name r) (ro_operation_id r) s))"

definition announced_state :: "string \<Rightarrow> string \<Rightarrow> sync_event list \<Rightarrow> 'a runtime_db_scheme \<Rightarrow> bool" where
  "announced_state a m H db \<longleftrightarrow>
     (case getRuntimeState (a, m) db of
        None \<Rightarrow> announcements a m H = []
      | Some row \<Rightarrow> announcements a m H \<noteq> [] \<and>
          (\<exists>n t i s. is_object s \<and> rs_state_json row = stringify s \<and>
             ev_payload_json (last (announcements a m H)) = stringify (runtime_event m n t i s)))"

definition runtime_inv :: "nat \<Rightarrow> sync_event list \<Rightarrow> 'a runtime_db_scheme \<Rightarrow> bool" where
  "runtime_inv retention H db \<longleftrightarrow>
     log_ok retention H db \<and> distinct (map operation_key (runtime_operations db)) \<and>
     (\<forall>a m. trim m = m \<longrightarrow>
        list_all2 (announces m) (receipts a m db) (announcements a m H) \<and>
        map ro_revision (receipts a m db) = [1..<Suc (length (receipts a m db))] \<and>
        stored_revision (getRuntimeState (a, m) db) = length (receipts a m db) \<and>
        announced_state a m H db)"

lemma log_ok_same:
  assumes "log_ok R H db" and "sync_last db' = sync_last db" "sync_events db' = sync_events db"
    "sync_floors db' = sync_floors db"
  shows "log_ok R H db'"
proof -
  have "floorSequence b db' = floorSequence b db" "eventCount b db' = eventCount b db" for b
    using assms(2-4) by (simp_all add: floorSequence_def eventCount_def)
  then show ?thesis using assms by (simp add: log_ok_def logged_def)
qed

text \<open>The events a call appends are the one event it recorded.\<close>

lemma appended_one:
  assumes "0 < R" and "log_ok R H db"
  shows "appended db (snd (appendEvent R a t i p now db)) = [new_event a t i p now db]"
proof -
  let ?e = "new_event a t i p now db" and ?db = "snd (appendEvent R a t i p now db)"
  have lg: "logged (H @ [?e]) ?db" and l: "logged H db"
    using appendEvent_ok [OF assms] assms(2) by (auto simp: log_ok_def)
  have old: "\<not> sync_last db < ev_sequence x" if "x \<in> set H" for x
    using loggedD(3) [OF l that] by simp
  have mem: "x \<in> set (account_events (ev_account_id x) (H @ [?e]))" if "x \<in> set (sync_events ?db)" for x
  proof -
    have "x \<in> set (account_events (ev_account_id x) (sync_events ?db))" using that by (simp add: account_events_def)
    then show ?thesis unfolding loggedD(4) [OF lg] by simp
  qed
  have new: "x = ?e" if "x \<in> set (sync_events ?db)" "sync_last db < ev_sequence x" for x
    using mem [OF that(1)] old that(2) by (auto simp: account_events_def split: if_splits)
  have "appended db ?db = filter (\<lambda>x. sync_last db < ev_sequence x) (account_events a (sync_events ?db))"
    unfolding appended_def account_events_def filter_filter
  proof (rule filter_cong [OF refl])
    fix x assume "x \<in> set (sync_events ?db)"
    then show "sync_last db < ev_sequence x \<longleftrightarrow> ev_account_id x = a \<and> sync_last db < ev_sequence x"
      using new [of x] by auto
  qed
  also have "\<dots> = filter (\<lambda>x. sync_last db < ev_sequence x \<and> floorSequence a ?db < ev_sequence x) (account_events a (H @ [?e]))"
    unfolding loggedD(4) [OF lg] by (simp add: conj_commute)
  also have "\<dots> = [?e]"
  proof -
    have "floorSequence a ?db < ev_sequence ?e" using loggedD(5) [OF lg, of a] by (simp add: account_events_def)
    moreover have "filter (\<lambda>x. sync_last db < ev_sequence x \<and> floorSequence a ?db < ev_sequence x) (account_events a H) = []"
      using old by (auto simp: account_events_def filter_empty_conv)
    ultimately show ?thesis by (simp add: account_events_def)
  qed
  finally show ?thesis .
qed

lemma appended_none:
  assumes "log_ok R H db"
  shows "appended db db = []"
proof -
  have l: "logged H db" using assms by (simp add: log_ok_def)
  have "\<not> sync_last db < ev_sequence x" if "x \<in> set (sync_events db)" for x
  proof -
    have "x \<in> set (account_events (ev_account_id x) (sync_events db))" using that by (simp add: account_events_def)
    then have "x \<in> set H" unfolding loggedD(4) [OF l] by (simp add: account_events_def)
    then show ?thesis using loggedD(3) [OF l] by (simp add: not_less)
  qed
  then show ?thesis by (simp add: appended_def filter_empty_conv)
qed

lemma runtime_inv_parts:
  assumes "runtime_inv R H db"
  shows "log_ok R H db" "distinct (map operation_key (runtime_operations db))"
    "trim m = m \<Longrightarrow> list_all2 (announces m) (receipts a m db) (announcements a m H)"
    "trim m = m \<Longrightarrow> map ro_revision (receipts a m db) = [1..<Suc (length (receipts a m db))]"
    "trim m = m \<Longrightarrow> stored_revision (getRuntimeState (a, m) db) = length (receipts a m db)"
    "trim m = m \<Longrightarrow> announced_state a m H db"
  using assms unfolding runtime_inv_def by blast+

lemma announcements_append: "announcements a m (H @ es) = announcements a m H @ announcements a m es"
  by (simp add: announcements_def account_events_def)

lemma runtime_inv_sync:
  assumes "0 < se_retention env" and "runtime_inv (se_retention env) H db"
    and "logged_write env a es db db'" and "\<forall>e \<in> set es. ev_type e \<noteq> runtime_event_type"
  shows "runtime_inv (se_retention env) (H @ es) db'"
proof -
  note inv = runtime_inv_parts [OF assms(2)]
  have same: "runtime_states db' = runtime_states db" "runtime_operations db' = runtime_operations db"
    using store_write_runtime [OF logged_write_store [OF assms(3)]] by simp_all
  then have look: "receipts b m db' = receipts b m db" "getRuntimeState k db' = getRuntimeState k db" for b m k
    by (simp_all add: receipts_def getRuntimeState_def)
  have "announcements b m es = []" for b m
    using assms(4) by (auto simp: announcements_def account_events_def filter_empty_conv)
  then have H: "announcements b m (H @ es) = announcements b m H" for b m by (simp add: announcements_append)
  have "announced_state b m (H @ es) db' = announced_state b m H db" for b m
    unfolding announced_state_def look H ..
  then show ?thesis
    using assms(2) logged_write_log [OF assms(1) inv(1) assms(3)]
    unfolding runtime_inv_def look same H by blast
qed

lemma getRuntimeState_upsert:
  "getRuntimeState k (upsertRuntimeState (new_state_row a m n s now) db) =
     (if k = (a, m) then Some (new_state_row a m n s now) else getRuntimeState k db)"
proof -
  let ?r = "new_state_row a m n s now"
  have key: "runtime_key ?r = (a, m)" by (simp add: runtime_key_def new_state_row_def)
  have "x\<lparr>rs_revision := n, rs_state_json := stringify s, rs_updated_at_ms := now\<rparr> = new_state_row a m n s now"
    if "runtime_key x = (a, m)" for x
    using that by (cases x) (simp add: runtime_key_def new_state_row_def)
  moreover have "runtime_key x = (a, m)" if "getRuntimeState (a, m) db = Some x" for x
    using runtime_state_table.lookup_Some [OF that] by simp
  moreover have "getRuntimeState k (upsertRuntimeState ?r db) =
      (if k = (a, m) then Some (case getRuntimeState k db of None \<Rightarrow> ?r
         | Some x \<Rightarrow> x\<lparr>rs_revision := n, rs_state_json := stringify s, rs_updated_at_ms := now\<rparr>)
       else getRuntimeState k db)"
    unfolding key [symmetric]
    by (rule runtime_state_table.lookup_upsert) (simp_all add: upsertRuntimeState_def new_state_row_def runtime_key_def)
  ultimately show ?thesis by (simp split: option.split)
qed

lemma performed_log:
  assumes "performed env a m i t h c n s now now' db db'" and "0 < se_retention env"
    and "log_ok (se_retention env) H db"
  shows "appended db db' = [new_event a runtime_event_type (trim m) (runtime_event m n t i s) now' db]"
    and "log_ok (se_retention env) (H @ appended db db') db'"
proof -
  let ?db = "upsertRuntimeState (new_state_row a m n s now) db"
  let ?e = "new_event a runtime_event_type (trim m) (runtime_event m n t i s) now' ?db"
  have ok: "log_ok (se_retention env) H ?db" by (rule log_ok_same [OF assms(3)]) simp_all
  have e: "?e = new_event a runtime_event_type (trim m) (runtime_event m n t i s) now' db"
    by (simp add: new_event_def)
  have "appended db db' = appended ?db (snd (appendEvent (se_retention env) a runtime_event_type (trim m)
      (runtime_event m n t i s) now' ?db))"
    using assms(1) by (simp add: performed_def appended_def)
  then show one: "appended db db' = [new_event a runtime_event_type (trim m) (runtime_event m n t i s) now' db]"
    using appended_one [OF assms(2) ok] e by simp
  show "log_ok (se_retention env) (H @ appended db db') db'"
    unfolding one e [symmetric]
    by (rule log_ok_same [OF appendEvent_ok [OF assms(2) ok]]) (use assms(1) in \<open>simp_all add: performed_def\<close>)
qed

lemma performed_states:
  assumes "performed env a m i t h c n s now now' db db'"
  shows "getRuntimeState k db' = (if k = (a, m) then Some (new_state_row a m n s now) else getRuntimeState k db)"
proof -
  have "getRuntimeState k db' = getRuntimeState k (upsertRuntimeState (new_state_row a m n s now) db)"
    using assms by (simp add: performed_def getRuntimeState_def)
  then show ?thesis by (simp add: getRuntimeState_upsert)
qed

lemma event_payload:
  "ev_payload_json (new_event a ty m (runtime_event m' n t i s) now db) = stringify (runtime_event m' n t i s)"
  by (simp add: new_event_def runtime_event_def json_text_def del: stringify.simps)

lemma runtime_inv_performed:
  assumes "0 < se_retention env" and "runtime_inv (se_retention env) H db" and "trim m = m"
    and p: "performed env a m i t h c n s now now' db db'"
  shows "runtime_inv (se_retention env) (H @ appended db db') db'"
proof -
  note inv = runtime_inv_parts [OF assms(2)]
  let ?e = "new_event a runtime_event_type m (runtime_event m n t i s) now' db"
  let ?r = "new_operation_row a m i t h c n (encodeCursor (Suc (sync_last db))) now"
  have H: "appended db db' = [?e]" using performed_log(1) [OF p assms(1) inv(1)] assms(3) by simp
  have n: "n = Suc (length (receipts a m db))" using p inv(5) [OF assms(3)] by (simp add: performed_def)
  have obj: "is_object s" using p by (simp add: performed_def)
  have r: "receipts b k db' = receipts b k db @ (if b = a \<and> k = m then [?r] else [])" for b k
    by (simp add: receipts_def performed_operations [OF p])
  have es: "announcements b k (H @ [?e]) = announcements b k H @ (if b = a \<and> k = m then [?e] else [])" for b k
    by (auto simp: announcements_append) (auto simp: announcements_def account_events_def new_event_def)
  have ann: "announces m ?r ?e"
    using obj by (auto simp: announces_def event_payload)
  have keys: "distinct (map operation_key (runtime_operations db'))"
  proof -
    have "operation_key ?r \<notin> set (map operation_key (runtime_operations db))"
      using p operation_table.lookup_None [of "(a, m, i)" db] by (auto simp: performed_def)
    then show ?thesis using inv(2) by (simp add: performed_operations [OF p])
  qed
  have one: "list_all2 (announces k) (receipts b k db') (announcements b k (H @ [?e])) \<and>
      map ro_revision (receipts b k db') = [1..<Suc (length (receipts b k db'))] \<and>
      stored_revision (getRuntimeState (b, k) db') = length (receipts b k db') \<and>
      announced_state b k (H @ [?e]) db'" if "trim k = k" for b k
  proof (cases "b = a \<and> k = m")
    case True
    have "announced_state a m (H @ [?e]) db'"
      unfolding announced_state_def es performed_states [OF p]
      using obj by (auto simp: event_payload new_state_row_def)
    moreover have "list_all2 (announces m) (receipts a m db') (announcements a m (H @ [?e]))"
      unfolding r es using inv(3) [OF assms(3)] ann by (simp add: list_all2_appendI)
    ultimately show ?thesis
      using True inv(4) [OF assms(3), of a] n
      by (simp add: r performed_states [OF p] stored_revision_def new_state_row_def)
  next
    case False
    then have g: "getRuntimeState (b, k) db' = getRuntimeState (b, k) db" by (auto simp: performed_states [OF p])
    have h: "announcements b k (H @ [?e]) = announcements b k H" and o: "receipts b k db' = receipts b k db"
      using False by (auto simp: es r)
    show ?thesis using inv(3-6) [OF that, of b] unfolding announced_state_def g h o by blast
  qed
  show ?thesis
    using one keys performed_log(2) [OF p assms(1) inv(1)] unfolding runtime_inv_def H by blast
qed


lemma runtime_step_inv:
  assumes "0 < se_retention env" and "runtime_inv (se_retention env) H db" and "runtime_step env es db db'"
  shows "runtime_inv (se_retention env) (H @ es) db'"
  using assms(3)
proof cases
  case (step_sync a)
  then show ?thesis by (rule runtime_inv_sync [OF assms(1,2)])
next
  case (step_mutation uuid now now' v m w t args f r)
  from step_mutation(2) show ?thesis
  proof (cases rule: runMutation_cases)
    case same
    then show ?thesis using assms(2) appended_none [OF runtime_inv_parts(1) [OF assms(2)]] step_mutation(1) by simp
  next
    case (new a i h c n s)
    then show ?thesis using runtime_inv_performed [OF assms(1,2) step_mutation(3)] step_mutation(1) by simp
  qed
qed

lemma fresh_runtime_inv: "fresh_runtime db \<Longrightarrow> runtime_inv R [] db"
  by (auto simp: fresh_runtime_def fresh_sync_def runtime_inv_def log_ok_def logged_def account_events_def
      floorSequence_def eventCount_def receipts_def announcements_def announced_state_def getRuntimeState_def
      stored_revision_def)

lemma runtime_run_inv: "runtime_run env H db \<Longrightarrow> 0 < se_retention env \<Longrightarrow> runtime_inv (se_retention env) H db"
  by (induction rule: runtime_run.induct) (auto intro: fresh_runtime_inv runtime_step_inv)

section \<open>What clients are told\<close>

lemma runtime_event_order:
  "own_order [(''miniAppId'', u), (''revision'', x), (''tool'', y), (''operationId'', z), (''state'', w)]"
  by (simp add: own_order_def key_before_def index_key_def is_digit_def)

lemma runtime_event_read_back:
  assumes "is_object s"
  shows "read_back (runtime_event m n t i s) = JObj
     [(''miniAppId'', JStr m), (''revision'', JNum (int n)), (''tool'', JStr t), (''operationId'', JStr i),
      (''state'', read_back s)]"
  using assms assigned_own_order [OF runtime_event_order]
  by (auto simp: runtime_event_def)

lemma announced_item:
  assumes "announces m r e"
  shows "runtime_item_of (sync_item_of e) = (runtime_item_of (sync_item_of e))
      \<lparr>ri_sequence := ev_sequence e, ri_cursor := ro_cursor r, ri_revision := Some (int (ro_revision r)),
       ri_tool := ro_tool_name r, ri_operation_id := ro_operation_id r\<rparr>"
proof -
  obtain s where "is_object s" and "ev_payload_json e = stringify (runtime_event m (ro_revision r) (ro_tool_name r) (ro_operation_id r) s)"
    and "ro_cursor r = encodeCursor (ev_sequence e)"
    using assms by (auto simp: announces_def)
  then show ?thesis
    by (simp add: runtime_item_of_def Let_def sync_item_of_def parseJson_def json_parse_read_back runtime_event_read_back)
qed

lemma announced_item_state:
  assumes "is_object s" and "ev_payload_json e = stringify (runtime_event m n t i s)"
  shows "ri_state (runtime_item_of (sync_item_of e)) = read_back s"
proof -
  have "or_else (read_back s) d = read_back s" for d using assms(1) by (cases s) auto
  then show ?thesis using assms
    by (simp add: runtime_item_of_def Let_def sync_item_of_def parseJson_def json_parse_read_back runtime_event_read_back)
qed

text \<open>What the snapshot shows is what the newest announcement carries.\<close>

lemma runtime_snapshot_on:
  assumes "normalizedAccountId v = Inr a"
  shows "runtime_snapshot v m db = Inr
    \<lparr>rv_mini_app_id = m, rv_revision = stored_revision (getRuntimeState (a, m) db),
     rv_cursor = encodeCursor (currentSequence a db), rv_state = stored_state (getRuntimeState (a, m) db),
     rv_updated_at_ms = (case getRuntimeState (a, m) db of None \<Rightarrow> 0 | Some r \<Rightarrow> rs_updated_at_ms r),
     rv_replayed = False\<rparr>"
  using assms normalized_account_text(3) [OF assms] by (simp add: runtime_snapshot_def Let_def currentCursor_def)

lemma stored_state_announced:
  assumes "announced_state a m H db"
  shows "stored_state (getRuntimeState (a, m) db) =
    (if announcements a m H = [] then defaultGlobalDharmaRuntimeState
     else ri_state (runtime_item_of (sync_item_of (last (announcements a m H)))))"
proof (cases "getRuntimeState (a, m) db")
  case None
  then show ?thesis using assms by (simp add: announced_state_def stored_state_def)
next
  case (Some row)
  then obtain n t i s where s: "announcements a m H \<noteq> []" "is_object s" "rs_state_json row = stringify s"
    "ev_payload_json (last (announcements a m H)) = stringify (runtime_event m n t i s)"
    using assms by (auto simp: announced_state_def)
  then show ?thesis using Some
    by (simp add: stored_state_def parseJson_def json_parse_read_back announced_item_state [OF s(2,4)])
qed

lemma list_all2_same_map: "list_all2 P xs ys \<Longrightarrow> (\<And>x y. P x y \<Longrightarrow> f x = g y) \<Longrightarrow> map f xs = map g ys"
  by (induction rule: list_all2_induct) auto

lemma announced_items:
  assumes "list_all2 (announces m) rs es"
  shows "map (\<lambda>e. ri_operation_id (runtime_item_of (sync_item_of e))) es = map ro_operation_id rs"
    and "map (\<lambda>e. ri_tool (runtime_item_of (sync_item_of e))) es = map ro_tool_name rs"
    and "map (\<lambda>e. ri_cursor (runtime_item_of (sync_item_of e))) es = map ro_cursor rs"
    and "map (\<lambda>e. ri_revision (runtime_item_of (sync_item_of e))) es = map (\<lambda>r. Some (int (ro_revision r))) rs"
  by (rule list_all2_same_map [OF assms, symmetric], subst announced_item, assumption, simp)+

lemma above_is_drop:
  "sorted_wrt (<) (map f xs) \<Longrightarrow> filter (\<lambda>x. n < f x) xs = drop (length (filter (\<lambda>x. f x \<le> n) xs)) xs"
  for f :: "'a \<Rightarrow> nat"
proof (induction xs)
  case (Cons x xs)
  show ?case
  proof (cases "f x \<le> n")
    case False
    then have "\<forall>y \<in> set xs. n < f y" using Cons.prems by fastforce
    then have "filter (\<lambda>x. f x \<le> n) xs = []" "filter (\<lambda>x. n < f x) xs = xs"
      by (auto simp: filter_empty_conv filter_id_conv)
    then show ?thesis using False by simp
  qed (use Cons in simp)
qed simp

lemma runtime_difference_on:
  assumes "logged H db" and "normalizedAccountId v = Inr a" and "decodeCursor c = At n"
    and "floorSequence a db \<le> n" and "n \<le> currentSequence a db"
    and "length (happened_after a n H) \<le> positiveLimit lim"
  shows "runtime_difference env v c lim m db = Inr (Runtime_Difference (encodeCursor (currentSequence a db)) False
    (map (\<lambda>e. runtime_item_of (sync_item_of e)) (filter (\<lambda>e. n < ev_sequence e) (announcements a m H))))"
proof -
  have rows: "eventsAfter a n (positiveLimit lim + 1) db = happened_after a n H"
    using eventsAfter_history [OF assms(1,4)] assms(6) by simp
  have "account_sync env (JStr a) c lim db = Inr (Difference
      \<lparr>df_cursor = encodeCursor (currentSequence a db), df_has_more = False,
       df_events = map sync_item_of (happened_after a n H)\<rparr>)"
    using assms(3-6) normalized_account_text(3) [OF assms(2)]
    by (simp add: account_sync_def Let_def sync_reason_def difference_def rows [simplified])
  moreover have "filter (\<lambda>x. it_type (sync_item_of x) = ''miniapp.runtime.updated'' \<and> it_entity_id (sync_item_of x) = m)
      (happened_after a n H) = filter (\<lambda>e. n < ev_sequence e) (announcements a m H)"
    by (auto simp: announcements_def happened_after_def sync_item_of_def runtime_event_type_def intro!: filter_cong)
  ultimately show ?thesis
    using assms(2) by (simp add: runtime_difference_def filter_map comp_def)
qed

end
