(* ===== verification/RuntimeGuarantees.thy ===== *)
theory RuntimeGuarantees
  imports RuntimeLaws
begin

text \<open>
  What clients of the runtime rely on: a retry never runs an operation twice, the receipts match the
  event log, and a client that follows the log ends with the state the snapshot shows.
\<close>

section \<open>An example\<close>

text \<open>One account starts the runtime and runs one loop.  Any function stands for SHA-256 here.\<close>

definition ex_runtime_env :: sync_env where
  "ex_runtime_env = \<lparr>se_sha256 = (\<lambda>s. s), se_locale_compare = (\<lambda>a b. 0), se_retention = 16\<rparr>"

definition ex_runtime_empty :: runtime_db where
  "ex_runtime_empty = \<lparr>sync_last = 0, sync_events = [], sync_floors = [], installs = [], memberships = [],
     cloud_values = [], agents = [], agent_blobs = [], agent_refs = [], runtime_states = [], runtime_operations = []\<rparr>"

definition ex_set :: "string \<Rightarrow> js \<Rightarrow> mutation" where
  "ex_set k v state = Inr (JObj [], JObj [(k, v)])"

definition ex_runtime_start :: "runtime_db \<Rightarrow> (runtime_error + js) \<times> runtime_db" where
  "ex_runtime_start = runMutation ex_runtime_env ''uuid'' 100 101 (JStr '' u1 '') ''global-dharma'' (JStr ''op-1'')
     (JStr ''on'') (JObj [(''b'', JNum 1), (''a'', JNum 2)]) (Some (ex_set ''on'' (JBool True)))"

definition ex_runtime_loop :: "runtime_db \<Rightarrow> (runtime_error + js) \<times> runtime_db" where
  "ex_runtime_loop = runMutation ex_runtime_env ''uuid'' 200 201 (JStr ''u1'') ''global-dharma'' (JStr ''op-2'')
     (JStr ''loop'') JUndef (Some (ex_set ''loops'' (JNum 1)))"

definition ex_started :: runtime_db where "ex_started = snd (ex_runtime_start ex_runtime_empty)"

definition ex_looped :: runtime_db where "ex_looped = snd (ex_runtime_loop ex_started)"

definition ex_runtime_log :: "sync_event list" where
  "ex_runtime_log = (appended ex_runtime_empty ex_started) @ appended ex_started ex_looped"

lemma ex_runtime_ids:
  "trim ''global-dharma'' = ''global-dharma''"
  "normalizedAccountId (JStr ''u1'') = Inr ''u1''" "normalizedAccountId (JStr '' u1 '') = Inr ''u1''"
  "normalizedOperationId ''uuid'' (JStr ''op-1'') = Inr ''op-1''"
  "normalizedOperationId ''uuid'' (JStr ''op-2'') = Inr ''op-2''"
  "normalizedOperationId ''other'' (JStr '' op-1'') = Inr ''op-1''"
  "trimmed (JStr ''on'') = ''on''" "trimmed (JStr ''loop'') = ''loop''" "trimmed (JStr ''on '') = ''on''"
  by code_simp+

lemma ex_mutated: "mutated (ex_set k v) st = Inr (JObj [], the (trim_logs (JObj [(k, v)])))"
  by (simp add: mutated_def ex_set_def trim_logs_def)

lemma ex_started_performed:
  obtains c h s where "ex_runtime_start ex_runtime_empty = (Inr c, ex_started)"
    "performed ex_runtime_env ''u1'' ''global-dharma'' ''op-1'' ''on'' h c 1 s 100 101 ex_runtime_empty ex_started"
proof -
  have none: "getOperation k ex_runtime_empty = None" and row: "getRuntimeState j ex_runtime_empty = None" for j k
    by (simp_all add: getOperation_def getRuntimeState_def ex_runtime_empty_def)
  have "trimmed (JStr ''on'') \<noteq> []" "''global-dharma'' \<noteq> []" by (simp_all add: ex_runtime_ids)
  from new_call_goes_through [OF ex_runtime_ids(3,4) this(1) none ex_mutated ex_runtime_ids(1) this(2)]
  obtain c db' where "ex_runtime_start ex_runtime_empty = (Inr c, db')"
    and p: "performed ex_runtime_env ''u1'' ''global-dharma'' ''op-1'' (trimmed (JStr ''on''))
      (fingerprint ex_runtime_env (trimmed (JStr ''on'')) (args_for_hash (JObj [(''b'', JNum 1), (''a'', JNum 2)]))) c
      (Suc (stored_revision (getRuntimeState (''u1'', ''global-dharma'') ex_runtime_empty)))
      (the (trim_logs (JObj [(''on'', JBool True)]))) 100 101 ex_runtime_empty db'"
    unfolding ex_runtime_start_def by blast
  then have "ex_runtime_start ex_runtime_empty = (Inr c, ex_started)" and "db' = ex_started" by (simp_all add: ex_started_def)
  with p show thesis by (intro that) (auto simp: row stored_revision_def ex_runtime_ids(7))
qed

lemma ex_looped_performed:
  obtains c h n s where "ex_runtime_loop ex_started = (Inr c, ex_looped)"
    "performed ex_runtime_env ''u1'' ''global-dharma'' ''op-2'' ''loop'' h c n s 200 201 ex_started ex_looped"
proof -
  obtain c h s where q: "performed ex_runtime_env ''u1'' ''global-dharma'' ''op-1'' ''on'' h c 1 s 100 101 ex_runtime_empty ex_started"
    by (rule ex_started_performed)
  have none: "getOperation (''u1'', ''global-dharma'', ''op-2'') ex_started = None"
    by (simp add: getOperation_def performed_operations [OF q] ex_runtime_empty_def)
  have "trimmed (JStr ''loop'') \<noteq> []" "''global-dharma'' \<noteq> []" by (simp_all add: ex_runtime_ids)
  from new_call_goes_through [OF ex_runtime_ids(2,5) this(1) none ex_mutated ex_runtime_ids(1) this(2)]
  obtain c db' where "ex_runtime_loop ex_started = (Inr c, db')"
    and p: "performed ex_runtime_env ''u1'' ''global-dharma'' ''op-2'' (trimmed (JStr ''loop''))
      (fingerprint ex_runtime_env (trimmed (JStr ''loop'')) (args_for_hash JUndef)) c
      (Suc (stored_revision (getRuntimeState (''u1'', ''global-dharma'') ex_started)))
      (the (trim_logs (JObj [(''loops'', JNum 1)]))) 200 201 ex_started db'"
    unfolding ex_runtime_loop_def by blast
  then have "ex_runtime_loop ex_started = (Inr c, ex_looped)" and "db' = ex_looped" by (simp_all add: ex_looped_def)
  with p show thesis by (intro that) (auto simp: ex_runtime_ids(8))
qed

lemma ex_steps:
  "runtime_step ex_runtime_env (appended ex_runtime_empty ex_started) ex_runtime_empty ex_started"
  "runtime_step ex_runtime_env (appended ex_started ex_looped) ex_started ex_looped"
  unfolding ex_started_def ex_looped_def ex_runtime_start_def ex_runtime_loop_def
  by (rule step_mutation [OF prod.collapse [symmetric] ex_runtime_ids(1)])+

lemma ex_runtime_run: "runtime_run ex_runtime_env ex_runtime_log ex_looped"
proof -
  have "runtime_run ex_runtime_env [] ex_runtime_empty"
    by (rule runtime_start) (simp add: fresh_runtime_def fresh_sync_def ex_runtime_empty_def)
  from runtime_more [OF runtime_more [OF this ex_steps(1)] ex_steps(2)] show ?thesis
    by (simp add: ex_runtime_log_def)
qed

lemma ex_retention: "0 < se_retention ex_runtime_env"
  by (simp add: ex_runtime_env_def)

lemma ex_receipts: "map ro_operation_id (receipts ''u1'' ''global-dharma'' ex_looped) = [''op-1'', ''op-2'']"
proof -
  obtain c h s where p: "performed ex_runtime_env ''u1'' ''global-dharma'' ''op-1'' ''on'' h c 1 s 100 101 ex_runtime_empty ex_started"
    by (rule ex_started_performed)
  obtain c' h' n s' where q: "performed ex_runtime_env ''u1'' ''global-dharma'' ''op-2'' ''loop'' h' c' n s' 200 201 ex_started ex_looped"
    by (rule ex_looped_performed)
  show ?thesis
    by (simp add: receipts_def performed_operations [OF q] performed_operations [OF p] ex_runtime_empty_def)
qed

lemma ex_runtime_events:
  "map ev_sequence ex_runtime_log = [1, 2]" "announcements ''u1'' ''global-dharma'' ex_runtime_log = ex_runtime_log"
proof -
  obtain c h s where p: "performed ex_runtime_env ''u1'' ''global-dharma'' ''op-1'' ''on'' h c 1 s 100 101 ex_runtime_empty ex_started"
    by (rule ex_started_performed)
  obtain c' h' n s' where q: "performed ex_runtime_env ''u1'' ''global-dharma'' ''op-2'' ''loop'' h' c' n s' 200 201 ex_started ex_looped"
    by (rule ex_looped_performed)
  have ok: "log_ok (se_retention ex_runtime_env) [] ex_runtime_empty"
    using fresh_runtime_inv [of ex_runtime_empty] by (simp add: fresh_runtime_def fresh_sync_def ex_runtime_empty_def runtime_inv_def)
  note l1 = performed_log [OF p ex_retention ok]
  note l2 = performed_log [OF q ex_retention l1(2)]
  have last: "sync_last ex_started = 1"
    by (simp add: performed_last [OF p]) (simp add: ex_runtime_empty_def)
  show "map ev_sequence ex_runtime_log = [1, 2]"
    by (simp add: ex_runtime_log_def l1(1) l2(1) last) (simp add: ex_runtime_empty_def)
  show "announcements ''u1'' ''global-dharma'' ex_runtime_log = ex_runtime_log"
    by (simp add: ex_runtime_log_def l1(1) l2(1) announcements_def account_events_def new_event_def ex_runtime_ids(1))
qed

section \<open>Properties\<close>

text \<open>What the history tells a client of the operations of one Mini App.\<close>

definition operations_told :: "string \<Rightarrow> string \<Rightarrow> sync_event list \<Rightarrow> runtime_item list" where
  "operations_told a m H = map (\<lambda>e. runtime_item_of (sync_item_of e)) (announcements a m H)"

text \<open>A call that fails changes nothing: neither a callback that raises nor a conflict leaves a trace.\<close>

lemma failed_mutation_changes_nothing:
  assumes "runMutation env uuid now now' v m w t args f db = (Inl e, db')"
  shows "db' = db"
  using assms by (rule runMutation_cases) simp_all

text \<open>C18: a retry never runs an operation twice: after a call under a new operation id went through, in every
  later state a call under the same id changes nothing, whatever its callback; the same tool with the
  same arguments (compared by their fingerprint) is answered with the stored receipt of the first
  call, marked as replayed, and anything else is refused as a conflict.\<close>

theorem retry_never_runs_twice:
  assumes "runMutation env uuid now now' v m w t args (Some f) db = (Inr c, db1)"
    and "normalizedAccountId v = Inr a" and "normalizedOperationId uuid w = Inr i"
    and "getOperation (a, m, i) db = None" and "runtime_later env db1 db2"
    and "normalizedOperationId uuid' w' = Inr i" and "trimmed t' \<noteq> []"
  shows "runMutation env uuid' now1 now1' v m w' t' args' (Some g) db2 =
    (if trimmed t' = trimmed t \<and>
        fingerprint env (trimmed t') (args_for_hash args') = fingerprint env (trimmed t) (args_for_hash args)
     then Inr (as_replayed (read_back c)) else Inl MINIAPP_IDEMPOTENCY_CONFLICT, db2)"
  by (rule retry_is_answered [OF assms])

lemma retry_never_runs_twice_witness:
  "\<exists>c. ex_runtime_start ex_runtime_empty = (Inr c, ex_started) \<and>
     runMutation ex_runtime_env ''other'' 900 901 (JStr '' u1 '') ''global-dharma'' (JStr '' op-1'') (JStr ''on '')
       (JObj [(''a'', JNum 2), (''operationId'', JStr ''op-1''), (''b'', JNum 1)]) (Some (\<lambda>_. Inl ''not again'')) ex_looped =
     (Inr (as_replayed (read_back c)), ex_looped)"
proof -
  obtain c where c: "ex_runtime_start ex_runtime_empty = (Inr c, ex_started)" by (rule ex_started_performed)
  have none: "getOperation (''u1'', ''global-dharma'', ''op-1'') ex_runtime_empty = None"
    by (simp add: getOperation_def ex_runtime_empty_def)
  have later: "runtime_later ex_runtime_env ex_started ex_looped" using ex_steps(2) by blast
  have "trimmed (JStr ''on '') \<noteq> []" by (simp add: ex_runtime_ids)
  note retry = retry_never_runs_twice [OF c [unfolded ex_runtime_start_def] ex_runtime_ids(3,4) none later ex_runtime_ids(6) this]
  have "canonical (JObj [(''toolName'', JStr ''on''),
        (''args'', args_for_hash (JObj [(''a'', JNum 2), (''operationId'', JStr ''op-1''), (''b'', JNum 1)]))]) =
      canonical (JObj [(''toolName'', JStr ''on''), (''args'', args_for_hash (JObj [(''b'', JNum 1), (''a'', JNum 2)]))])"
    by code_simp
  then have same: "fingerprint ex_runtime_env ''on'' (args_for_hash (JObj [(''a'', JNum 2), (''operationId'', JStr ''op-1''), (''b'', JNum 1)])) =
      fingerprint ex_runtime_env ''on'' (args_for_hash (JObj [(''b'', JNum 1), (''a'', JNum 2)]))"
    by (simp only: fingerprint_def)
  show ?thesis unfolding retry using c by (simp add: ex_runtime_ids same)
qed

text \<open>C17: the receipts and the event log tell the same story: in every run, however other writes of the
  synchronisation store interleave, the events of a Mini App's runtime in the complete history of an
  account announce exactly its operations, in order, with their cursors; the revisions count them
  from one; and the snapshot shows that count and the state the last of them announced.\<close>

theorem receipts_match_the_log:
  assumes "runtime_run env H db" and "0 < se_retention env" and "trim m = m" and "normalizedAccountId v = Inr a"
  shows "map ri_operation_id (operations_told a m H) = map ro_operation_id (receipts a m db) \<and>
    map ri_tool (operations_told a m H) = map ro_tool_name (receipts a m db) \<and>
    map ri_cursor (operations_told a m H) = map ro_cursor (receipts a m db) \<and>
    map ri_revision (operations_told a m H) = map (\<lambda>n. Some (int n)) [1..<Suc (length (receipts a m db))] \<and>
    (\<exists>view. runtime_snapshot v m db = Inr view \<and> rv_revision view = length (receipts a m db) \<and>
       rv_state view = (if operations_told a m H = [] then defaultGlobalDharmaRuntimeState
                        else ri_state (last (operations_told a m H))))"
proof -
  note inv = runtime_inv_parts [OF runtime_run_inv [OF assms(1,2)]]
  note items = announced_items [OF inv(3) [OF assms(3), of a]]
  have "map (\<lambda>r. Some (int (ro_revision r))) (receipts a m db) = map (\<lambda>n. Some (int n)) [1..<Suc (length (receipts a m db))]"
    unfolding inv(4) [OF assms(3), symmetric] by simp
  then show ?thesis
    unfolding runtime_snapshot_on [OF assms(4)] operations_told_def stored_state_announced [OF inv(6) [OF assms(3)]]
    using items inv(5) [OF assms(3), of a] by (simp add: comp_def last_map)
qed

lemma receipts_match_the_log_witness:
  "map ri_operation_id (operations_told ''u1'' ''global-dharma'' ex_runtime_log) = [''op-1'', ''op-2''] \<and>
   (\<exists>view. runtime_snapshot (JStr ''u1'') ''global-dharma'' ex_looped = Inr view \<and> rv_revision view = 2)"
proof -
  have "length (receipts ''u1'' ''global-dharma'' ex_looped) = 2"
    using arg_cong [OF ex_receipts, of length] by simp
  then show ?thesis
    using receipts_match_the_log [OF ex_runtime_run ex_retention ex_runtime_ids(1,2)] unfolding ex_receipts by auto
qed

text \<open>C34: a client of the runtime catches up: when it asks with the cursor of a retained event and its limit
  covers what happened since, the reply holds, in order, exactly the operations recorded after that
  cursor, with their revisions and cursors, says that nothing more follows, and the state of its last
  item is the state the snapshot shows.\<close>

theorem runtime_client_catches_up:
  assumes "runtime_run env H db" and "0 < se_retention env" and "trim m = m" and "normalizedAccountId v = Inr a"
    and "decodeCursor c = At n" and "floorSequence a db \<le> n" and "n \<le> currentSequence a db"
    and "length (happened_after a n H) \<le> positiveLimit lim"
    and "k = length (announcements a m (filter (\<lambda>e. ev_sequence e \<le> n) H))"
  shows "\<exists>items view. runtime_difference env v c lim m db =
      Inr (Runtime_Difference (encodeCursor (currentSequence a db)) False items) \<and>
    map ri_operation_id items = map ro_operation_id (drop k (receipts a m db)) \<and>
    map ri_cursor items = map ro_cursor (drop k (receipts a m db)) \<and>
    map ri_revision items = map (\<lambda>n. Some (int n)) [Suc k..<Suc (length (receipts a m db))] \<and>
    runtime_snapshot v m db = Inr view \<and> (items \<noteq> [] \<longrightarrow> ri_state (last items) = rv_state view)"
proof -
  note inv = runtime_inv_parts [OF runtime_run_inv [OF assms(1,2)]]
  have l: "logged H db" using inv(1) by (simp add: log_ok_def)
  let ?A = "announcements a m H"
  have srt: "sorted_wrt (<) (map ev_sequence ?A)"
    unfolding announcements_def by (intro sorted_events_filter account_events_sorted loggedD(1) [OF l])
  have "announcements a m (filter (\<lambda>e. ev_sequence e \<le> n) H) = filter (\<lambda>e. ev_sequence e \<le> n) ?A"
    by (auto simp: announcements_def account_events_def intro!: filter_cong)
  then have above: "filter (\<lambda>e. n < ev_sequence e) ?A = drop k ?A"
    using above_is_drop [of ev_sequence ?A n] srt assms(9) by (simp add: sorted_wrt_map)
  have "list_all2 (announces m) (drop k (receipts a m db)) (drop k ?A)"
    using inv(3) [OF assms(3)] by (rule list_all2_dropI)
  note items = announced_items [OF this]
  have "map (\<lambda>r. Some (int (ro_revision r))) (drop k (receipts a m db)) =
      map (\<lambda>n. Some (int n)) (drop k (map ro_revision (receipts a m db)))"
    by (simp add: drop_map comp_def)
  then have rev: "map (\<lambda>r. Some (int (ro_revision r))) (drop k (receipts a m db)) =
      map (\<lambda>n. Some (int n)) [Suc k..<Suc (length (receipts a m db))]"
    unfolding inv(4) [OF assms(3)] drop_upt by simp
  have st: "ri_state (runtime_item_of (sync_item_of (last (drop k ?A)))) = stored_state (getRuntimeState (a, m) db)"
    if "drop k ?A \<noteq> []"
    using that stored_state_announced [OF inv(6) [OF assms(3), of a]] by (auto simp: last_drop)
  show ?thesis
    unfolding runtime_difference_on [OF l assms(4-8)] above runtime_snapshot_on [OF assms(4)]
    using items(1,3,4) rev st by (auto simp: comp_def last_map)
qed

lemma runtime_client_catches_up_witness:
  "\<exists>items. runtime_difference ex_runtime_env (JStr ''u1'') (JStr ''as1:1'') JUndef ''global-dharma'' ex_looped =
      Inr (Runtime_Difference (encodeCursor (currentSequence ''u1'' ex_looped)) False items) \<and>
     map ri_operation_id items = [''op-2'']"
proof -
  obtain e f where ef: "ex_runtime_log = [e, f]" "ev_sequence e = 1" "ev_sequence f = 2"
    using ex_runtime_events(1) by (auto simp: map_eq_Cons_conv)
  have one: "announcements ''u1'' ''global-dharma'' [e, f] = [e, f]" using ex_runtime_events(2) by (simp add: ef(1))
  then have acc: "account_events ''u1'' [e, f] = [e, f]" "announcements ''u1'' ''global-dharma'' [e] = [e]"
    by (auto simp: announcements_def account_events_def split: if_splits)
  have l: "logged [e, f] ex_looped"
    using runtime_run_inv [OF ex_runtime_run ex_retention] by (simp add: runtime_inv_def log_ok_def ef(1))
  have cur: "1 \<le> currentSequence ''u1'' ex_looped"
    unfolding currentSequence_history [OF l] acc using ef(2,3) by (simp add: max_sequence_def)
  have fl: "floorSequence ''u1'' ex_looped \<le> 1"
    using loggedD(5) [OF l, of "''u1''"] unfolding acc by (simp add: ef(2,3))
  have "positiveLimit JUndef = 200" by code_simp
  then have few: "length (happened_after ''u1'' 1 ex_runtime_log) \<le> positiveLimit JUndef"
    unfolding ef(1) happened_after_def acc using ef(2,3) by simp
  have "filter (\<lambda>e. ev_sequence e \<le> 1) [e, f] = [e]" using ef(2,3) by simp
  then have k: "1 = length (announcements ''u1'' ''global-dharma'' (filter (\<lambda>e. ev_sequence e \<le> 1) ex_runtime_log))"
    unfolding ef(1) by (simp only: acc) simp
  have "decodeCursor (JStr ''as1:1'') = At 1" by code_simp
  from runtime_client_catches_up [OF ex_runtime_run ex_retention ex_runtime_ids(1,2) this fl cur few k]
  show ?thesis unfolding drop_map [symmetric] ex_receipts by auto
qed

end
