(* ===== verification/Spec2Isabelle.thy ===== *)
theory Spec2Isabelle
  imports SyncGuarantees FeedGuarantees RegistryGuarantees MonetizationGuarantees SocialGuarantees RuntimeGuarantees
begin

text \<open>
  A verification library for the state that the backend keeps and shares between requests.

  The program.  \<open>ai-backend/src\<close> is a Node service on one SQLite database per store; its stores are
  synchronous and an operation is one transaction or one sequence of statements with nothing in
  between.  \<open>fabushi/web/src\<close> is a worker on a D1 database; its handlers await between their reads
  and their writes, so the requests of several clients interleave there, and what protects the
  data are unique keys, the guards of single statements and batches, which are transactions.
  Five groups of parts are modelled, each with the operations of its source files:

  (1) The extension platform of \<open>ai-backend\<close>.  A publisher owns a namespace (\<open>PublisherStore\<close>:
  \<open>extension_publisher_store.js\<close>), submits releases in it (\<open>ReleaseTable\<close>, \<open>ReleaseStore\<close>:
  \<open>extension_release_store.js\<close>), binds scanned artifacts to them (\<open>ArtifactStore\<close>:
  \<open>extension_artifact_store.js\<close>) and signatures of the service or its own key (\<open>SigningStore\<close>,
  \<open>TrustFeed\<close>, \<open>FabApp\<close>: \<open>extension_signing_store.js\<close>).  Reports and appeals
  (\<open>ModerationStore\<close>: \<open>extension_moderation_store.js\<close>) revoke and restore releases.
  \<open>InstallProof\<close> (\<open>extension_install_proof.js\<close>) bundles what a client checks.  \<open>StoreErrors\<close> holds
  the exceptions.  The stores call each other through the objects they are given; here they work on
  one database record, which the stores extend.

  (2) The catalogue (\<open>ExtensionEntry\<close>, \<open>Registry\<close>: \<open>extension_registry.js\<close>): normalised entries, the
  projection of Mini Apps and official apps, cursors and browsing.

  (3) Account synchronisation (\<open>SyncText\<close>, \<open>SyncLog\<close>, \<open>AccountSync\<close>, \<open>AgentStore\<close>:
  \<open>account_sync_store.js\<close>): installs, bots, agents with their versioned objects and conflict copies,
  cloud storage, and the event log that clients follow by cursor; and, in the same database, the durable
  runtime of a Mini App (\<open>RuntimeStore\<close>: \<open>global_dharma_runtime_store.js\<close>), whose operations leave
  receipts and announce themselves in that log.

  (4) Monetization (\<open>Monetization\<close>, \<open>MonetizationOps\<close>, \<open>MonetizationAdmin\<close>:
  \<open>services/monetization-platform.js\<close>, \<open>handlers/monetization-platform.js\<close>,
  \<open>handlers/monetization-reconciliation.js\<close>): splits, ad revenue with a double-entry journal, revenue of
  payments and refunds, subscriptions, developers and payouts, and the reconciliation.

  (5) The social handlers (\<open>Contacts\<close>, \<open>DirectMessages\<close>: \<open>handlers/friends.js\<close>; \<open>CallSignaling\<close>:
  \<open>handlers/call-signaling.js\<close>): friends, messages with edits, deletions and reactions, and the
  channels and event logs of calls.

  How the code is read.  A table is a list of rows in insertion order, a row a record, a column that
  may be NULL an \<open>option\<close>; a \<open>SELECT\<close> is a filter with a stable sort, an update rewrites the rows
  that satisfy its condition, and a constraint that refuses a statement is the branch with the error.
  An exception or an error response is \<open>Inl\<close> of a constructor of the error type of its group, and
  what a transaction wrote before it is undone.  Values of requests are the JavaScript values of
  \<open>JsText\<close>, with \<open>String\<close>, \<open>Number\<close>, truthiness and property order; \<open>JsonText\<close> has \<open>JSON.parse\<close>, with
  \<open>JSON.stringify\<close> in \<open>JsText\<close>.  Where requests interleave, a handler is its decision on
  the database it read and the write it then runs on the database as it is by then: \<open>decide_...\<close>
  and \<open>commit_...\<close> of the social handlers, \<open>plan_ad\<close> and \<open>ad_commit\<close> of ad revenue.  The whole handler,
  for a request that runs alone, is their composition under the handler's name.

  The library.  \<open>Prelude\<close> has tables, the rollback and the interface locales: \<open>keyed_table\<close>
  (a lookup by key), \<open>invariant_system\<close> (steps that keep an invariant) and \<open>stable_fact\<close>, its extension
  by a fact that steps keep.  The components interpret them on their own tables and steps.
  \<open>Governance\<close> and \<open>Platform\<close> carry the invariant of group (1) and the transition system of its
  operations; \<open>SyncState\<close>, \<open>SyncEffects\<close>, \<open>SyncRuns\<close> and \<open>ObjectLaws\<close> that of group (3), on a store that
  any number of operations ran on; \<open>RuntimeLaws\<close> the runs in which the runtime interleaves with it;
  \<open>MonetizationLedger\<close> that of group (4); \<open>SocialRuns\<close>, \<open>CallLaws\<close> and
  \<open>MessageLaws\<close> that of group (5), where a run is the list of the databases it went through and a
  step may use a decision on any of them.

  What is shown.
  \<open>Guarantees\<close>: a release that is or was approved is covered by a verified signature over exactly
  its artifacts, which passed their scan; decided releases are frozen; keys stay revoked; moderation
  cases agree with the releases; and namespaces change hands only by a transfer (\<open>PublisherStore\<close>).
  \<open>FeedGuarantees\<close>: the trust feed is valid exactly in its window and reports revocations, an
  install proof is made for approved Mini Apps only, a signed manifest verifies and is identified
  by its canonical text.  \<open>RegistryGuarantees\<close>: what is shown is published, and of the approved releases
  of an identity it is the one with the highest version; cursors reach each entry once.  \<open>SyncGuarantees\<close>: following the log gives a client each event it has not seen,
  accounts are separate, a stale write keeps the object, the limits hold, and a write always ends.
  \<open>RuntimeGuarantees\<close>: a retry never runs an operation twice, receipts and event log tell the same story,
  a client of the runtime catches up with the state the snapshot shows.
  \<open>MonetizationGuarantees\<close>: the journal balances and the spend of a campaign is what its events
  book when bookings do not interleave; when they do the budget can be exceeded, which a concrete run
  shows; provider events apply once; refunds that are booked in the order of their creation reverse
  the split of their payment, and a concrete run shows that out of order they need not.
  \<open>SocialGuarantees\<close>: the log of a call is dense and replays to its channel, an ended call is final,
  media comes from one device of each participant, where R11 of the specification would allow two;
  calls and messages stay among friends, revisions follow the
  operation journal, retries are recognised.

  Bounds and fuel.  The JSON parser has the fuel \<open>2 * length + 1\<close>: each nested call consumes a
  character or ends a value.  \<open>put_object\<close> has one more than the conflict copies a path
  can have (\<open>length (agent_refs) + 2\<close>), and \<open>put_always_returns\<close> proves that it never runs out.
  The walk along the cursors has \<open>length + 1\<close> pages, each page has at least one entry.  Integers are
  unbounded: JavaScript numbers are taken as integers, and a product is exact below \<open>2 ^ 53\<close>; the
  bytes of the secrets and their comparison are bitwise.  Characters are those of HOL (Latin 1), with
  the UTF-8 length and bytes of such texts.

  Parameters.  Ed25519, SHA-256, key and URL parsing, NFKC, \<open>localeCompare\<close>, UUIDs and the clock are
  arguments of the definitions (where versions are compared, \<open>localeCompare\<close> is assumed to be a
  consistent comparison, \<open>collation\<close>), and so are the answers of the payment and relay services and the
  verified identity of a caller.  The schema of the monetization tables is kept in another repository
  and is the argument \<open>mon_schema\<close>; its hypotheses are named where a property has them.  The
  constraints of the social tables are those of \<open>fabushi/web/migrations\<close>.

  Not modelled.  HTTP routing and authentication, which calls cryptography and providers of accounts;
  the marketplace, the official apps and the platform API of \<open>ai-backend\<close>, which describe apps and
  serve them; the adapters of language models; the remaining handlers of the worker, whose operations
  are single statements on rows of a user; the earlier copies of the worker and the migration
  scripts; the device gateway and the network coordinator, which are processes around sockets; the
  test infrastructure and the scripts; generated WebAssembly.
\<close>

end
